(* ===== verification/Prelude.thy ===== *)
theory Prelude
  imports Main "HOL-Library.Multiset"
begin

text \<open>
  Shared vocabulary of the development: the JavaScript list operations the code uses
  (\<open>find\<close>, \<open>findIndex\<close>, a \<open>Map\<close> built from a list of pairs, \<open>splice\<close>), decimal rendering of
  integers, ASCII case folding and trimming, and the lemma collections that the component
  theories feed and their proofs use.

  JavaScript strings are modelled as \<^typ>\<open>string\<close>, a list of characters; a character stands for
  one UTF-16 code unit, so the model covers texts whose code units are below 256.
  JavaScript numbers that the code keeps integral are \<^typ>\<open>int\<close>.
\<close>

named_theorems flow_simps \<open>equations of the job control-flow functions\<close>
named_theorems edit_simps \<open>equations of the step-list editing functions\<close>
named_theorems guard_simps \<open>equations of the authorisation decisions\<close>

section \<open>Lists as JavaScript arrays\<close>

text \<open>\<open>xs.findIndex(p)\<close>; \<^term>\<open>None\<close> is the \<open>-1\<close> of the source.\<close>

fun find_index :: "('a \<Rightarrow> bool) \<Rightarrow> 'a list \<Rightarrow> nat option" where
  "find_index p [] = None"
| "find_index p (x # xs) = (if p x then Some 0 else map_option Suc (find_index p xs))"

text \<open>\<open>new Map(xs.map(x => [f x, x])).get(k)\<close>: a later entry overwrites an earlier one.\<close>

definition last_by :: "('a \<Rightarrow> 'k) \<Rightarrow> 'a list \<Rightarrow> 'k \<Rightarrow> 'a option" where
  "last_by f xs k = find (\<lambda>x. f x = k) (rev xs)"

text \<open>\<open>xs.splice(i, 0, x)\<close> and \<open>xs.splice(i, 1)\<close>.\<close>

definition insert_at :: "nat \<Rightarrow> 'a \<Rightarrow> 'a list \<Rightarrow> 'a list" where
  "insert_at i x xs = take i xs @ x # drop i xs"

definition remove_at :: "nat \<Rightarrow> 'a list \<Rightarrow> 'a list" where
  "remove_at i xs = take i xs @ drop (Suc i) xs"

definition swap_at :: "nat \<Rightarrow> nat \<Rightarrow> 'a list \<Rightarrow> 'a list" where
  "swap_at i j xs = xs[i := xs ! j, j := xs ! i]"

lemma find_index_Some_iff:
  "find_index p xs = Some i \<longleftrightarrow>
     i < length xs \<and> p (xs ! i) \<and> (\<forall>j < i. \<not> p (xs ! j))"
proof (induction xs arbitrary: i)
  case Nil
  then show ?case by simp
next
  case (Cons x xs)
  show ?case
    by (cases i) (auto simp: Cons.IH less_Suc_eq_0_disj nth_Cons split: nat.splits if_splits)
qed

lemma find_index_None_iff: "find_index p xs = None \<longleftrightarrow> (\<forall>x \<in> set xs. \<not> p x)"
  by (induction xs) auto

lemma find_index_SomeD:
  "find_index p xs = Some i \<Longrightarrow> i < length xs \<and> p (xs ! i)"
  by (simp add: find_index_Some_iff)

lemma find_SomeD: "find P xs = Some x \<Longrightarrow> x \<in> set xs \<and> P x"
  by (auto simp: find_Some_iff)

lemma last_by_SomeD: "last_by f xs k = Some x \<Longrightarrow> x \<in> set xs \<and> f x = k"
  by (auto simp: last_by_def dest!: find_SomeD)

lemma last_by_None_iff: "last_by f xs k = None \<longleftrightarrow> k \<notin> f ` set xs"
  by (auto simp: last_by_def find_None_iff)

lemma find_distinct:
  assumes "distinct (map f xs)" and "x \<in> set xs"
  shows "find (\<lambda>y. f y = f x) xs = Some x"
  using assms
proof (induction xs)
  case Nil
  then show ?case by simp
next
  case (Cons y ys)
  then show ?case by (auto simp: image_iff)
qed

lemma last_by_distinct:
  assumes "distinct (map f xs)" and "x \<in> set xs"
  shows "last_by f xs (f x) = Some x"
  using assms find_distinct [of f "rev xs" x]
  by (simp add: last_by_def rev_map [symmetric])

lemma find_map: "find P (map h xs) = map_option h (find (\<lambda>x. P (h x)) xs)"
  by (induction xs) auto

lemma last_by_map:
  assumes "\<And>x. g (h x) = f x"
  shows "last_by g (map h xs) k = map_option h (last_by f xs k)"
  by (simp add: last_by_def rev_map find_map assms)

lemma length_insert_at [simp]: "length (insert_at i x xs) = Suc (length xs)"
  by (simp add: insert_at_def)

lemma set_insert_at [simp]: "set (insert_at i x xs) = insert x (set xs)"
  by (metis append_take_drop_id insert_at_def list.simps(15) set_append Un_insert_right)

lemma mset_insert_at [simp]: "mset (insert_at i x xs) = add_mset x (mset xs)"
  by (metis append_take_drop_id insert_at_def mset.simps(2) mset_append union_mset_add_mset_right)

lemma mset_remove_at:
  assumes "i < length xs"
  shows "add_mset (xs ! i) (mset (remove_at i xs)) = mset xs"
  using arg_cong [OF id_take_nth_drop [OF assms], of mset] by (simp add: remove_at_def)

lemma length_remove_at [simp]: "i < length xs \<Longrightarrow> length (remove_at i xs) = length xs - 1"
  by (simp add: remove_at_def)

lemma length_swap_at [simp]: "length (swap_at i j xs) = length xs"
  by (simp add: swap_at_def)

lemma mset_swap_at:
  "i < length xs \<Longrightarrow> j < length xs \<Longrightarrow> mset (swap_at i j xs) = mset xs"
  by (simp add: swap_at_def mset_swap)

section \<open>Text\<close>

text \<open>\<open>String(n)\<close> and template interpolation of an integer.\<close>

fun show_nat :: "nat \<Rightarrow> string" where
  "show_nat n = (if n < 10 then [char_of (48 + n)]
                 else show_nat (n div 10) @ [char_of (48 + n mod 10)])"

declare show_nat.simps [simp del]

definition show_int :: "int \<Rightarrow> string" where
  "show_int n = (if n < 0 then CHR ''-'' # show_nat (nat (- n)) else show_nat (nat n))"

text \<open>\<open>toLowerCase\<close> and \<open>trim\<close> on ASCII text.\<close>

definition lower_char :: "char \<Rightarrow> char" where
  "lower_char c = (let n = of_char c :: nat in if 65 \<le> n \<and> n \<le> 90 then char_of (n + 32) else c)"

definition to_lower :: "string \<Rightarrow> string" where
  "to_lower s = map lower_char s"

definition is_space :: "char \<Rightarrow> bool" where
  "is_space c \<longleftrightarrow> c = CHR '' '' \<or> (let n = of_char c :: nat in (9 \<le> n \<and> n \<le> 13) \<or> n = 160)"

definition trim :: "string \<Rightarrow> string" where
  "trim s = rev (dropWhile is_space (rev (dropWhile is_space s)))"

fun join :: "string \<Rightarrow> string list \<Rightarrow> string" where
  "join sep [] = []"
| "join sep [x] = x"
| "join sep (x # xs) = x @ sep @ join sep xs"

text \<open>\<open>s.split(c)\<close> for a one-character separator: always at least one part.\<close>

fun split_on :: "char \<Rightarrow> string \<Rightarrow> string list" where
  "split_on c [] = [[]]"
| "split_on c (x # xs) =
     (if x = c then [] # split_on c xs
      else case split_on c xs of [] \<Rightarrow> [[x]] | p # ps \<Rightarrow> (x # p) # ps)"

text \<open>A value JavaScript takes as true: present and not the empty string.\<close>

definition presented :: "string option \<Rightarrow> bool" where
  "presented h \<longleftrightarrow> (case h of None \<Rightarrow> False | Some s \<Rightarrow> s \<noteq> [])"

text \<open>\<open>s.padStart(k, c)\<close> for a one-character filler.\<close>

definition pad_start :: "nat \<Rightarrow> char \<Rightarrow> string \<Rightarrow> string" where
  "pad_start k c s = replicate (k - length s) c @ s"

lemma split_on_ne [simp]: "split_on c s \<noteq> []"
  by (induction s) (auto split: list.splits)

lemma split_on_free [simp]: "c \<notin> set s \<Longrightarrow> split_on c s = [s]"
  by (induction s) auto

lemma split_on_append:
  "c \<notin> set s \<Longrightarrow> split_on c (s @ c # t) = s # split_on c t"
  by (induction s) auto

lemma join_Cons_head: "join sep ((x # p) # ps) = x # join sep (p # ps)"
  by (cases ps) auto

lemma join_split_on: "join [c] (split_on c s) = s"
proof (induction s)
  case Nil
  then show ?case by simp
next
  case (Cons x xs)
  then show ?case by (cases "split_on c xs" rule: list.exhaust)
      (auto simp: join_Cons_head)
qed

lemma lower_char_idem [simp]: "lower_char (lower_char c) = lower_char c"
proof (cases "65 \<le> (of_char c :: nat) \<and> (of_char c :: nat) \<le> 90")
  case True
  then have "(of_char (char_of ((of_char c :: nat) + 32) :: char) :: nat) = of_char c + 32"
    by (simp add: of_char_of)
  with True show ?thesis by (simp add: lower_char_def Let_def)
next
  case False
  then show ?thesis by (auto simp: lower_char_def Let_def)
qed

lemma to_lower_idem [simp]: "to_lower (to_lower s) = to_lower s"
  by (simp add: to_lower_def)

text \<open>Reading a digit string back; the other half of the rendering.\<close>

definition digit_value :: "char \<Rightarrow> nat" where
  "digit_value c = of_char c - 48"

definition is_digit :: "char \<Rightarrow> bool" where
  "is_digit c \<longleftrightarrow> 48 \<le> (of_char c :: nat) \<and> (of_char c :: nat) \<le> 57"

definition read_nat :: "string \<Rightarrow> nat" where
  "read_nat s = foldl (\<lambda>n c. 10 * n + digit_value c) 0 s"

lemma digit_char [simp]:
  assumes "d < 10"
  shows "digit_value (char_of (48 + d)) = d" and "is_digit (char_of (48 + d))"
  using assms by (simp_all add: digit_value_def is_digit_def of_char_of)

lemma show_nat_ne [simp]: "show_nat n \<noteq> []"
  by (subst show_nat.simps) simp

lemma show_nat_digits: "list_all is_digit (show_nat n)"
proof (induction n rule: show_nat.induct)
  case (1 n)
  then show ?case by (subst show_nat.simps) auto
qed

lemma read_show_nat [simp]: "read_nat (show_nat n) = n"
proof (induction n rule: show_nat.induct)
  case (1 n)
  then show ?case by (subst show_nat.simps) (auto simp: read_nat_def)
qed

lemma show_nat_inject [simp]: "show_nat m = show_nat n \<longleftrightarrow> m = n"
  by (metis read_show_nat)

lemma show_nat_not_minus: "show_nat n \<noteq> CHR ''-'' # s"
  using show_nat_digits [of n] by (auto simp: is_digit_def)

lemma show_int_inject [simp]: "show_int m = show_int n \<longleftrightarrow> m = n"
  by (auto simp: show_int_def show_nat_not_minus show_nat_not_minus [symmetric] split: if_splits)

lemma show_int_ne [simp]: "show_int n \<noteq> []"
  by (simp add: show_int_def)

text \<open>
  Fixed-width decimal digits: what \<open>padStart(k, '0')\<close> of a small enough number is. Slicing such
  a string is division and remainder by a power of ten.
\<close>

fun digits_fix :: "nat \<Rightarrow> nat \<Rightarrow> string" where
  "digits_fix 0 n = []"
| "digits_fix (Suc k) n = digits_fix k (n div 10) @ [char_of (48 + n mod 10)]"

lemma length_digits_fix [simp]: "length (digits_fix k n) = k"
  by (induction k arbitrary: n) auto

lemma digits_fix_digits: "list_all is_digit (digits_fix k n)"
  by (induction k arbitrary: n) auto

lemma digits_fix_0: "digits_fix k 0 = replicate k CHR ''0''"
proof (induction k)
  case 0
  then show ?case by simp
next
  case (Suc k)
  have "(char_of (48 :: nat) :: char) = CHR ''0''" by (simp add: char_of_def bit_0)
  with Suc show ?case by (simp add: replicate_append_same)
qed

lemma read_digits_fix: "n < 10 ^ k \<Longrightarrow> read_nat (digits_fix k n) = n"
proof (induction k arbitrary: n)
  case 0
  then show ?case by (simp add: read_nat_def)
next
  case (Suc k)
  then have "n div 10 < 10 ^ k" by simp
  with Suc.IH have "read_nat (digits_fix k (n div 10)) = n div 10" .
  then show ?case by (simp add: read_nat_def)
qed

lemma digits_fix_add:
  "digits_fix (i + j) n = digits_fix i (n div 10 ^ j) @ digits_fix j (n mod 10 ^ j)"
proof (induction j arbitrary: n)
  case 0
  then show ?case by simp
next
  case (Suc j)
  have "n div 10 div 10 ^ j = n div 10 ^ Suc j"
    by (simp add: div_mult2_eq)
  moreover have "n div 10 mod 10 ^ j = n mod 10 ^ Suc j div 10"
    by (simp add: mod_mult2_eq)
  moreover have "n mod 10 ^ Suc j mod 10 = n mod 10"
    by (simp add: mod_mod_cancel)
  ultimately show ?case using Suc.IH [of "n div 10"] by simp
qed

lemma pad_show_nat:
  assumes "n < 10 ^ k" and "0 < k"
  shows "pad_start k CHR ''0'' (show_nat n) = digits_fix k n"
  using assms
proof (induction k arbitrary: n)
  case 0
  then show ?case by simp
next
  case (Suc k)
  show ?case
  proof (cases "n < 10")
    case True
    then show ?thesis
      by (subst show_nat.simps) (simp add: pad_start_def digits_fix_0)
  next
    case False
    with Suc.prems have "n div 10 < 10 ^ k" and "0 < k" by (auto intro: gr0I)
    then have "pad_start k CHR ''0'' (show_nat (n div 10)) = digits_fix k (n div 10)"
      by (rule Suc.IH)
    with False show ?thesis by (subst show_nat.simps) (simp add: pad_start_def)
  qed
qed

end
