(* ===== verification/Schedule.thy ===== *)
theory Schedule
  imports Prelude "HOL-Library.Word"
begin

unbundle bit_operations_syntax

text \<open>
  SQL Server Agent schedules (\<open>packages/protocol/src/schedule.ts\<close>): the stored \<open>freq_*\<close> encoding,
  the view the dashboard edits, and the conversions between the two with their round trips.
  Numbers are \<^typ>\<open>int\<close>, since the schema admits only integers; the bitwise operators work on
  32-bit words as JavaScript's do. A conversion that would yield \<open>NaN\<close> in the code
  is \<^term>\<open>None\<close> here.
\<close>

section \<open>The stored form\<close>

record schedule_definition =
  schedName :: string
  schedEnabled :: bool
  freqType :: int
  freqInterval :: int
  freqSubdayType :: int
  freqSubdayInterval :: int
  freqRelativeInterval :: int
  freqRecurrenceFactor :: int
  activeStartDate :: int
  activeEndDate :: int
  activeStartTime :: int
  activeEndTime :: int

definition scheduleDefinitionSchema :: "schedule_definition \<Rightarrow> bool" where
  "scheduleDefinitionSchema s \<longleftrightarrow> 1 \<le> length (schedName s) \<and> length (schedName s) \<le> 128"

abbreviation (input) FreqOnce :: int where "FreqOnce \<equiv> 1"
abbreviation (input) FreqDaily :: int where "FreqDaily \<equiv> 4"
abbreviation (input) FreqWeekly :: int where "FreqWeekly \<equiv> 8"
abbreviation (input) FreqMonthly :: int where "FreqMonthly \<equiv> 16"
abbreviation (input) FreqMonthlyRelative :: int where "FreqMonthlyRelative \<equiv> 32"
abbreviation (input) FreqOnAgentStart :: int where "FreqOnAgentStart \<equiv> 64"
abbreviation (input) FreqOnIdle :: int where "FreqOnIdle \<equiv> 128"

abbreviation (input) AtSpecifiedTime :: int where "AtSpecifiedTime \<equiv> 1"
abbreviation (input) SubdaySeconds :: int where "SubdaySeconds \<equiv> 2"
abbreviation (input) SubdayMinutes :: int where "SubdayMinutes \<equiv> 4"
abbreviation (input) SubdayHours :: int where "SubdayHours \<equiv> 8"

datatype weekday = Sunday | Monday | Tuesday | Wednesday | Thursday | Friday | Saturday

datatype occurrence = First | Second | Third | Fourth | Last

datatype relative_weekday = Named weekday | Day | Weekday | WeekendDay

text \<open>\<open>WEEKDAY_ENTRIES\<close>, \<open>RELATIVE_INTERVAL_ENTRIES\<close> and \<open>RELATIVE_WEEKDAY_ENTRIES\<close>, in
  declaration order.\<close>

definition WEEKDAY_ENTRIES :: "(weekday \<times> int) list" where
  "WEEKDAY_ENTRIES = [(Sunday, 1), (Monday, 2), (Tuesday, 4), (Wednesday, 8), (Thursday, 16),
     (Friday, 32), (Saturday, 64)]"

definition RELATIVE_INTERVAL_ENTRIES :: "(occurrence \<times> int) list" where
  "RELATIVE_INTERVAL_ENTRIES = [(First, 1), (Second, 2), (Third, 4), (Fourth, 8), (Last, 16)]"

definition RELATIVE_WEEKDAY_ENTRIES :: "(relative_weekday \<times> int) list" where
  "RELATIVE_WEEKDAY_ENTRIES =
     [(Named Sunday, 1), (Named Monday, 2), (Named Tuesday, 3), (Named Wednesday, 4),
      (Named Thursday, 5), (Named Friday, 6), (Named Saturday, 7), (Day, 8), (Weekday, 9),
      (WeekendDay, 10)]"

fun WeekdayFlag :: "weekday \<Rightarrow> int" where
  "WeekdayFlag Sunday = 1" | "WeekdayFlag Monday = 2" | "WeekdayFlag Tuesday = 4"
| "WeekdayFlag Wednesday = 8" | "WeekdayFlag Thursday = 16" | "WeekdayFlag Friday = 32"
| "WeekdayFlag Saturday = 64"

fun RelativeInterval :: "occurrence \<Rightarrow> int" where
  "RelativeInterval First = 1" | "RelativeInterval Second = 2" | "RelativeInterval Third = 4"
| "RelativeInterval Fourth = 8" | "RelativeInterval Last = 16"

fun RelativeWeekday :: "relative_weekday \<Rightarrow> int" where
  "RelativeWeekday (Named Sunday) = 1" | "RelativeWeekday (Named Monday) = 2"
| "RelativeWeekday (Named Tuesday) = 3" | "RelativeWeekday (Named Wednesday) = 4"
| "RelativeWeekday (Named Thursday) = 5" | "RelativeWeekday (Named Friday) = 6"
| "RelativeWeekday (Named Saturday) = 7" | "RelativeWeekday Day = 8"
| "RelativeWeekday Weekday = 9" | "RelativeWeekday WeekendDay = 10"

section \<open>The view the dashboard edits\<close>

datatype humane_recurrence =
    HOnce
  | HOnAgentStart
  | HOnIdle
  | HDaily int
  | HWeekly int "weekday list"
  | HMonthly int int
  | HMonthlyRelative occurrence relative_weekday int

datatype subday_unit = Seconds | Minutes | Hours

datatype humane_daily_frequency =
    OnceAt string
  | Every int subday_unit string string

record humane_schedule =
  recurrence :: humane_recurrence
  dailyFrequency :: humane_daily_frequency
  startDate :: string
  endDate :: "string option"

section \<open>Times and dates\<close>

text \<open>\<open>s.slice(a, b)\<close> for \<open>0 \<le> a \<le> b\<close>.\<close>

definition slice :: "nat \<Rightarrow> nat \<Rightarrow> string \<Rightarrow> string" where
  "slice a b s = take (b - a) (drop a s)"

definition decodeTime :: "int \<Rightarrow> string" where
  "decodeTime t = (let s = pad_start 6 CHR ''0'' (show_int (max 0 t))
     in slice 0 2 s @ '':'' @ slice 2 4 s @ '':'' @ slice 4 6 s)"

definition decodeDate :: "int \<Rightarrow> string" where
  "decodeDate d = (let s = pad_start 8 CHR ''0'' (show_int (max 0 d))
     in slice 0 4 s @ ''-'' @ slice 4 6 s @ ''-'' @ slice 6 8 s)"

text \<open>
  \<open>Number(text)\<close> on the texts these fields hold: blank is 0, an optionally signed run of digits is
  its value. Every other text is \<^term>\<open>None\<close>: it is \<open>NaN\<close>, or one of the fraction, exponent
  and prefix notations, whose value is outside the model.
\<close>

definition js_number :: "string \<Rightarrow> int option" where
  "js_number text =
     (case trim text of
        [] \<Rightarrow> Some 0
      | c # cs \<Rightarrow>
          if (c = CHR ''-'' \<or> c = CHR ''+'') \<and> cs \<noteq> [] \<and> list_all is_digit cs
          then Some (if c = CHR ''-'' then - int (read_nat cs) else int (read_nat cs))
          else if list_all is_digit (c # cs) then Some (int (read_nat (c # cs))) else None)"

text \<open>\<open>Number(parts[i] ?? 0)\<close>: a missing part is 0.\<close>

definition part_number :: "string list \<Rightarrow> nat \<Rightarrow> int option" where
  "part_number parts i = (if i < length parts then js_number (parts ! i) else Some 0)"

definition encodeTime :: "string \<Rightarrow> int option" where
  "encodeTime hhmmss =
     (let parts = split_on CHR '':'' hhmmss
      in case (part_number parts 0, part_number parts 1, part_number parts 2) of
           (Some h, Some m, Some s) \<Rightarrow> Some (h * 10000 + m * 100 + s)
         | _ \<Rightarrow> None)"

definition encodeDate :: "string \<Rightarrow> int option" where
  "encodeDate text = js_number (filter (\<lambda>c. c \<noteq> CHR ''-'') text)"

section \<open>Encoded to humane and back\<close>

text \<open>JavaScript's \<open>&\<close> and \<open>|\<close>: both operands are reduced to 32-bit two's complement.\<close>

definition js_and :: "int \<Rightarrow> int \<Rightarrow> int" where
  "js_and a b = sint ((word_of_int a :: 32 word) AND word_of_int b)"

definition js_or :: "int \<Rightarrow> int \<Rightarrow> int" where
  "js_or a b = sint ((word_of_int a :: 32 word) OR word_of_int b)"

definition weekdays_of :: "int \<Rightarrow> weekday list" where
  "weekdays_of i = map fst (filter (\<lambda>(_, bit). js_and i bit \<noteq> 0) WEEKDAY_ENTRIES)"

definition toHumaneRecurrence :: "schedule_definition \<Rightarrow> humane_recurrence" where
  "toHumaneRecurrence s =
     (if freqType s = FreqOnce then HOnce
      else if freqType s = FreqOnAgentStart then HOnAgentStart
      else if freqType s = FreqOnIdle then HOnIdle
      else if freqType s = FreqDaily then HDaily (freqInterval s)
      else if freqType s = FreqWeekly
        then HWeekly (freqRecurrenceFactor s) (weekdays_of (freqInterval s))
      else if freqType s = FreqMonthly then HMonthly (freqInterval s) (freqRecurrenceFactor s)
      else if freqType s = FreqMonthlyRelative
        then HMonthlyRelative
          (case find (\<lambda>(_, v). v = freqRelativeInterval s) RELATIVE_INTERVAL_ENTRIES of
             Some (n, _) \<Rightarrow> n | None \<Rightarrow> First)
          (case find (\<lambda>(_, v). v = freqInterval s) RELATIVE_WEEKDAY_ENTRIES of
             Some (n, _) \<Rightarrow> n | None \<Rightarrow> Day)
          (freqRecurrenceFactor s)
      else HOnce)"

definition toHumaneSchedule :: "schedule_definition \<Rightarrow> humane_schedule" where
  "toHumaneSchedule s =
     \<lparr> recurrence = toHumaneRecurrence s,
       dailyFrequency =
         (if freqSubdayType s = AtSpecifiedTime then OnceAt (decodeTime (activeStartTime s))
          else Every (freqSubdayInterval s)
                 (if freqSubdayType s = SubdaySeconds then Seconds
                  else if freqSubdayType s = SubdayHours then Hours else Minutes)
                 (decodeTime (activeStartTime s)) (decodeTime (activeEndTime s))),
       startDate = decodeDate (activeStartDate s),
       endDate = (if activeEndDate s = 99991231 then None else Some (decodeDate (activeEndDate s))) \<rparr>"

text \<open>\<open>freqType\<close>, \<open>freqInterval\<close>, \<open>freqRelativeInterval\<close>, \<open>freqRecurrenceFactor\<close>.\<close>

fun encode_recurrence :: "humane_recurrence \<Rightarrow> int \<times> int \<times> int \<times> int" where
  "encode_recurrence HOnce = (FreqOnce, 0, 0, 0)"
| "encode_recurrence HOnAgentStart = (FreqOnAgentStart, 0, 0, 0)"
| "encode_recurrence HOnIdle = (FreqOnIdle, 0, 0, 0)"
| "encode_recurrence (HDaily n) = (FreqDaily, n, 0, 0)"
| "encode_recurrence (HWeekly n ds) =
     (FreqWeekly, foldl (\<lambda>acc d. js_or acc (WeekdayFlag d)) 0 ds, 0, n)"
| "encode_recurrence (HMonthly d n) = (FreqMonthly, d, 0, n)"
| "encode_recurrence (HMonthlyRelative oc wd n) =
     (FreqMonthlyRelative, RelativeWeekday wd, RelativeInterval oc, n)"

definition fromHumaneSchedule ::
  "string \<Rightarrow> bool \<Rightarrow> humane_schedule \<Rightarrow> schedule_definition option" where
  "fromHumaneSchedule name en h =
     (let (ft, fi, fri, frf) = encode_recurrence (recurrence h);
          (sty, sint, start, stop) =
            (case dailyFrequency h of
               OnceAt at \<Rightarrow> (AtSpecifiedTime, 0, encodeTime at, Some 235959)
             | Every n u f t \<Rightarrow>
                 (case u of Seconds \<Rightarrow> SubdaySeconds | Hours \<Rightarrow> SubdayHours
                  | Minutes \<Rightarrow> SubdayMinutes, n, encodeTime f, encodeTime t));
          sd = encodeDate (startDate h);
          ed = (case endDate h of None \<Rightarrow> Some 99991231 | Some d \<Rightarrow> encodeDate d)
      in case (sd, ed, start, stop) of
           (Some sd', Some ed', Some st', Some en') \<Rightarrow>
             Some \<lparr> schedName = name, schedEnabled = en, freqType = ft, freqInterval = fi,
               freqSubdayType = sty, freqSubdayInterval = sint, freqRelativeInterval = fri,
               freqRecurrenceFactor = frf, activeStartDate = sd', activeEndDate = ed',
               activeStartTime = st', activeEndTime = en' \<rparr>
         | _ \<Rightarrow> None)"

section \<open>The one-line summary\<close>

fun weekday_name :: "weekday \<Rightarrow> string" where
  "weekday_name Sunday = ''Sunday''" | "weekday_name Monday = ''Monday''"
| "weekday_name Tuesday = ''Tuesday''" | "weekday_name Wednesday = ''Wednesday''"
| "weekday_name Thursday = ''Thursday''" | "weekday_name Friday = ''Friday''"
| "weekday_name Saturday = ''Saturday''"

fun relative_weekday_name :: "relative_weekday \<Rightarrow> string" where
  "relative_weekday_name (Named d) = weekday_name d"
| "relative_weekday_name Day = ''Day''"
| "relative_weekday_name Weekday = ''Weekday''"
| "relative_weekday_name WeekendDay = ''WeekendDay''"

fun occurrence_name :: "occurrence \<Rightarrow> string" where
  "occurrence_name First = ''First''" | "occurrence_name Second = ''Second''"
| "occurrence_name Third = ''Third''" | "occurrence_name Fourth = ''Fourth''"
| "occurrence_name Last = ''Last''"

fun unit_name :: "subday_unit \<Rightarrow> string" where
  "unit_name Seconds = ''seconds''" | "unit_name Minutes = ''minutes''"
| "unit_name Hours = ''hours''"

definition every_months :: "int \<Rightarrow> string" where
  "every_months n = (if n = 1 then ''every month'' else ''every '' @ show_int n @ '' months'')"

text \<open>\<^term>\<open>Inl\<close> is a summary returned at once, \<^term>\<open>Inr\<close> a base the time of day is appended to.\<close>

fun describe_base :: "string \<Rightarrow> humane_recurrence \<Rightarrow> string + string" where
  "describe_base sd HOnce = Inr (''Occurs once on '' @ sd)"
| "describe_base sd HOnAgentStart = Inl ''Occurs when SQL Server Agent starts''"
| "describe_base sd HOnIdle = Inl ''Occurs when the CPU becomes idle''"
| "describe_base sd (HDaily n) =
     Inr (if n = 1 then ''Occurs every day'' else ''Occurs every '' @ show_int n @ '' days'')"
| "describe_base sd (HWeekly n ds) =
     Inr (''Occurs '' @ (if n = 1 then ''every week'' else ''every '' @ show_int n @ '' weeks'')
       @ '' on '' @ (if ds = [] then ''no days'' else join '', '' (map weekday_name ds)))"
| "describe_base sd (HMonthly d n) =
     Inr (''Occurs '' @ every_months n @ '' on day '' @ show_int d)"
| "describe_base sd (HMonthlyRelative oc wd n) =
     Inr (''Occurs '' @ every_months n @ '' on the '' @ to_lower (occurrence_name oc) @ '' ''
       @ relative_weekday_name wd)"

definition describeSchedule :: "schedule_definition \<Rightarrow> string" where
  "describeSchedule s =
     (let h = toHumaneSchedule s
      in case describe_base (startDate h) (recurrence h) of
           Inl text \<Rightarrow> text
         | Inr base \<Rightarrow> base @
             (case dailyFrequency h of
                OnceAt at \<Rightarrow> '' at '' @ at
              | Every n u f t \<Rightarrow> '' every '' @ show_int n @ '' '' @ unit_name u @ '' between '' @ f
                  @ '' and '' @ t))"

section \<open>Round trips\<close>

lemma is_digit_not_space: "is_digit c \<Longrightarrow> \<not> is_space c"
  by (auto simp: is_digit_def is_space_def Let_def)

lemma trim_digits: "list_all is_digit s \<Longrightarrow> trim s = s"
proof -
  assume a: "list_all is_digit s"
  then have "dropWhile is_space s = s" and "dropWhile is_space (rev s) = rev s"
    by (auto simp: dropWhile_eq_self_iff list_all_iff is_digit_not_space hd_rev)
  then show ?thesis by (simp add: trim_def)
qed

lemma js_number_digits:
  assumes "list_all is_digit s" and "s \<noteq> []"
  shows "js_number s = Some (int (read_nat s))"
proof -
  obtain c cs where s: "s = c # cs" using assms(2) by (cases s) auto
  with assms(1) have "c \<noteq> CHR ''-''" and "c \<noteq> CHR ''+''" by (auto simp: is_digit_def)
  with assms s show ?thesis by (simp add: js_number_def trim_digits)
qed

lemma js_number_digits_fix:
  assumes "n < 10 ^ k" and "0 < k"
  shows "js_number (digits_fix k n) = Some (int n)"
  using assms js_number_digits [of "digits_fix k n"]
  by (simp add: digits_fix_digits read_digits_fix flip: length_greater_0_conv)

lemma digits_fix_no_sep:
  "CHR '':'' \<notin> set (digits_fix k n)" "CHR ''-'' \<notin> set (digits_fix k n)"
  using digits_fix_digits [of k n] by (auto simp: list_all_iff is_digit_def)

lemma show_int_nonneg: "0 \<le> n \<Longrightarrow> show_int n = show_nat (nat n)"
  by (simp add: show_int_def)

lemma middle_digits: "(n :: nat) mod 10000 div 100 = n div 100 mod 100"
  using mod_mult2_eq [of n 100 100] by simp

lemma regroup_digits: "(t :: int) div 10000 * 10000 + t div 100 mod 100 * 100 + t mod 100 = t"
proof -
  have "t div 10000 = t div 100 div 100"
    using zdiv_zmult2_eq [of 100 t 100] by simp
  moreover have "t div 100 div 100 * 100 + t div 100 mod 100 = t div 100" by simp
  moreover have "t div 100 * 100 + t mod 100 = t" by simp
  ultimately show ?thesis by linarith
qed

lemma decodeTime_digits:
  assumes "0 \<le> t" and "t < 1000000"
  shows "decodeTime t = digits_fix 2 (nat t div 10000) @ '':''
           @ digits_fix 2 (nat t div 100 mod 100) @ '':'' @ digits_fix 2 (nat t mod 100)"
proof -
  let ?n = "nat t"
  have "pad_start 6 CHR ''0'' (show_int (max 0 t)) = digits_fix (2 + (2 + 2)) ?n"
    using assms pad_show_nat [of ?n 6] by (simp add: show_int_nonneg nat_less_iff)
  moreover have "digits_fix (2 + (2 + 2)) ?n = digits_fix 2 (?n div 10000)
      @ digits_fix 2 (?n div 100 mod 100) @ digits_fix 2 (?n mod 100)"
    by (simp only: digits_fix_add) (simp add: mod_mod_cancel middle_digits)
  ultimately show ?thesis by (simp add: decodeTime_def slice_def)
qed

lemma decodeDate_digits:
  assumes "0 \<le> d" and "d < 100000000"
  shows "decodeDate d = digits_fix 4 (nat d div 10000) @ ''-''
           @ digits_fix 2 (nat d div 100 mod 100) @ ''-'' @ digits_fix 2 (nat d mod 100)"
proof -
  let ?n = "nat d"
  have "pad_start 8 CHR ''0'' (show_int (max 0 d)) = digits_fix (4 + (2 + 2)) ?n"
    using assms pad_show_nat [of ?n 8] by (simp add: show_int_nonneg nat_less_iff)
  moreover have "digits_fix (4 + (2 + 2)) ?n = digits_fix 4 (?n div 10000)
      @ digits_fix 2 (?n div 100 mod 100) @ digits_fix 2 (?n mod 100)"
    by (simp only: digits_fix_add) (simp add: mod_mod_cancel middle_digits)
  ultimately show ?thesis by (simp add: decodeDate_def slice_def)
qed

lemma encode_decodeTime [simp]:
  assumes "0 \<le> t" and "t < 1000000"
  shows "encodeTime (decodeTime t) = Some t"
proof -
  let ?n = "nat t"
  have "?n div 10000 < 10 ^ 2" using assms by (simp add: nat_less_iff less_mult_imp_div_less)
  then show ?thesis
    using assms
    by (simp add: encodeTime_def decodeTime_digits split_on_append digits_fix_no_sep
        part_number_def js_number_digits_fix del: digits_fix.simps power_Suc)
       (simp add: zdiv_int zmod_int regroup_digits)
qed

lemma encode_decodeDate [simp]:
  assumes "0 \<le> d" and "d < 100000000"
  shows "encodeDate (decodeDate d) = Some d"
proof -
  let ?n = "nat d"
  have f: "filter (\<lambda>c. c \<noteq> CHR ''-'') (digits_fix k m) = digits_fix k m" for k m
    using digits_fix_no_sep(2) [of k m] by (auto simp: filter_id_conv)
  have "digits_fix 4 (?n div 10000) @ digits_fix 2 (?n div 100 mod 100) @ digits_fix 2 (?n mod 100)
      = digits_fix (4 + (2 + 2)) ?n"
    by (simp only: digits_fix_add) (simp add: mod_mod_cancel middle_digits)
  then have "filter (\<lambda>c. c \<noteq> CHR ''-'') (decodeDate d) = digits_fix 8 ?n"
    using assms by (simp add: decodeDate_digits f del: digits_fix.simps)
  then show ?thesis
    using assms js_number_digits_fix [of ?n 8] by (simp add: encodeDate_def nat_less_iff)
qed

text \<open>Weekday masks, checked exhaustively: seven flags, so 128 masks and 128 subsets in order.\<close>

definition weekday_mask :: "weekday list \<Rightarrow> int" where
  "weekday_mask ds = foldl (\<lambda>acc d. js_or acc (WeekdayFlag d)) 0 ds"

lemma all_masks: "list_all (\<lambda>i. weekday_mask (weekdays_of i) = i) [0..127]"
  by code_simp

lemma all_weekday_lists:
  "list_all (\<lambda>ds. weekdays_of (weekday_mask ds) = ds) (subseqs (map fst WEEKDAY_ENTRIES))"
  by code_simp

lemma weekday_mask_of [simp]: "0 \<le> i \<Longrightarrow> i < 128 \<Longrightarrow> weekday_mask (weekdays_of i) = i"
  using all_masks by (auto simp: list_all_iff)

lemma weekdays_of_mask [simp]:
  "ds \<in> set (subseqs (map fst WEEKDAY_ENTRIES)) \<Longrightarrow> weekdays_of (weekday_mask ds) = ds"
  using all_weekday_lists by (auto simp: list_all_iff)

section \<open>The schedules the editor writes\<close>

text \<open>
  The rows on which the two conversions are inverse: a known recurrence whose unused fields are
  zero, an in-range weekday mask or relative weekday, and times and dates that fit their
  \<open>hhmmss\<close> and \<open>yyyymmdd\<close> columns.
\<close>

definition recurrence_shape :: "schedule_definition \<Rightarrow> bool" where
  "recurrence_shape s \<longleftrightarrow>
     (if freqType s \<in> {FreqOnce, FreqOnAgentStart, FreqOnIdle}
        then freqInterval s = 0 \<and> freqRelativeInterval s = 0 \<and> freqRecurrenceFactor s = 0
      else if freqType s = FreqDaily
        then freqRelativeInterval s = 0 \<and> freqRecurrenceFactor s = 0
      else if freqType s = FreqWeekly
        then 0 \<le> freqInterval s \<and> freqInterval s < 128 \<and> freqRelativeInterval s = 0
      else if freqType s = FreqMonthly then freqRelativeInterval s = 0
      else freqType s = FreqMonthlyRelative \<and>
        freqInterval s \<in> {1, 2, 3, 4, 5, 6, 7, 8, 9, 10} \<and>
        freqRelativeInterval s \<in> {1, 2, 4, 8, 16})"

definition subday_shape :: "schedule_definition \<Rightarrow> bool" where
  "subday_shape s \<longleftrightarrow>
     (if freqSubdayType s = AtSpecifiedTime
        then freqSubdayInterval s = 0 \<and> activeEndTime s = 235959
      else freqSubdayType s \<in> {SubdaySeconds, SubdayMinutes, SubdayHours}) \<and>
     0 \<le> activeStartTime s \<and> activeStartTime s < 1000000 \<and>
     0 \<le> activeEndTime s \<and> activeEndTime s < 1000000"

definition editor_shape :: "schedule_definition \<Rightarrow> bool" where
  "editor_shape s \<longleftrightarrow> recurrence_shape s \<and> subday_shape s \<and>
     0 \<le> activeStartDate s \<and> activeStartDate s < 100000000 \<and>
     0 \<le> activeEndDate s \<and> activeEndDate s < 100000000"

lemma encode_recurrence_toHumane:
  assumes "recurrence_shape s"
  shows "encode_recurrence (toHumaneRecurrence s) =
    (freqType s, freqInterval s, freqRelativeInterval s, freqRecurrenceFactor s)"
proof -
  have "freqType s = FreqWeekly \<Longrightarrow> ?thesis"
    using assms weekday_mask_of [of "freqInterval s"]
    by (simp add: recurrence_shape_def toHumaneRecurrence_def weekday_mask_def)
  moreover have "freqType s = FreqMonthlyRelative \<Longrightarrow> ?thesis"
    using assms
    by (auto simp: recurrence_shape_def toHumaneRecurrence_def RELATIVE_INTERVAL_ENTRIES_def
        RELATIVE_WEEKDAY_ENTRIES_def)
  moreover have "freqType s \<noteq> FreqWeekly \<Longrightarrow> freqType s \<noteq> FreqMonthlyRelative \<Longrightarrow> ?thesis"
    using assms by (auto simp: recurrence_shape_def toHumaneRecurrence_def split: if_splits)
  ultimately show ?thesis by blast
qed

text \<open>
  C40. A schedule in the form the editor writes survives the trip through the humane view: decoding
  it for the dashboard and encoding it again, under the same name and enabled flag, gives back
  every stored field.
\<close>

theorem schedule_roundtrip:
  assumes "editor_shape s"
  shows "fromHumaneSchedule (schedName s) (schedEnabled s) (toHumaneSchedule s) = Some s"
proof -
  have "encode_recurrence (toHumaneRecurrence s) =
    (freqType s, freqInterval s, freqRelativeInterval s, freqRecurrenceFactor s)"
    using assms encode_recurrence_toHumane by (simp add: editor_shape_def)
  then show ?thesis
    using assms
    by (auto simp: fromHumaneSchedule_def toHumaneSchedule_def editor_shape_def subday_shape_def
        split: if_splits)
qed

definition weekly_example :: schedule_definition where
  "weekly_example = \<lparr> schedName = ''Nightly'', schedEnabled = True, freqType = 8,
     freqInterval = 34, freqSubdayType = 4, freqSubdayInterval = 15, freqRelativeInterval = 0,
     freqRecurrenceFactor = 2, activeStartDate = 20240131, activeEndDate = 99991231,
     activeStartTime = 20000, activeEndTime = 235959 \<rparr>"

lemma weekly_example_shape: "editor_shape weekly_example"
  by (simp add: editor_shape_def recurrence_shape_def subday_shape_def weekly_example_def)

theorem schedule_roundtrip_witness:
  "fromHumaneSchedule ''Nightly'' True (toHumaneSchedule weekly_example) = Some weekly_example"
  using schedule_roundtrip [OF weekly_example_shape] by (simp add: weekly_example_def)

text \<open>The other direction: what the dashboard may hand over.\<close>

fun recurrence_ok :: "humane_recurrence \<Rightarrow> bool" where
  "recurrence_ok (HWeekly n ds) = (ds \<in> set (subseqs (map fst WEEKDAY_ENTRIES)))"
| "recurrence_ok _ = True"

definition date_text :: "string \<Rightarrow> bool" where
  "date_text t \<longleftrightarrow> (case encodeDate t of
     Some d \<Rightarrow> 0 \<le> d \<and> d < 99991231 \<and> decodeDate d = t | None \<Rightarrow> False)"

definition time_text :: "string \<Rightarrow> bool" where
  "time_text t \<longleftrightarrow> (case encodeTime t of Some n \<Rightarrow> decodeTime n = t | None \<Rightarrow> False)"

fun frequency_ok :: "humane_daily_frequency \<Rightarrow> bool" where
  "frequency_ok (OnceAt t) = time_text t"
| "frequency_ok (Every n u f t) = (time_text f \<and> time_text t)"

definition humane_ok :: "humane_schedule \<Rightarrow> bool" where
  "humane_ok h \<longleftrightarrow> recurrence_ok (recurrence h) \<and> frequency_ok (dailyFrequency h) \<and>
     date_text (startDate h) \<and> (case endDate h of None \<Rightarrow> True | Some d \<Rightarrow> date_text d)"

lemma toHumaneRecurrence_encode:
  assumes "recurrence_ok r" and "encode_recurrence r = (freqType s, freqInterval s,
      freqRelativeInterval s, freqRecurrenceFactor s)"
  shows "toHumaneRecurrence s = r"
proof (cases r)
  case (HWeekly n ds)
  with assms have i: "freqInterval s = weekday_mask ds" by (simp add: weekday_mask_def)
  from HWeekly assms(1) have "weekdays_of (weekday_mask ds) = ds"
    by (intro weekdays_of_mask) simp
  with HWeekly assms(2) i show ?thesis by (simp add: toHumaneRecurrence_def del: weekdays_of_mask)
next
  case (HMonthlyRelative oc wd n)
  then show ?thesis
    using assms(2)
    by (cases oc; cases wd rule: RelativeWeekday.cases)
       (simp_all add: toHumaneRecurrence_def RELATIVE_INTERVAL_ENTRIES_def
          RELATIVE_WEEKDAY_ENTRIES_def)
qed (use assms in \<open>simp_all add: toHumaneRecurrence_def\<close>)

text \<open>
  Conversely, a humane schedule with well-formed dates and times and its weekdays in calendar
  order encodes without error, and decoding the stored row shows the operator exactly what they
  entered.
\<close>

theorem humane_roundtrip:
  assumes "humane_ok h"
  shows "\<exists>s. fromHumaneSchedule name en h = Some s \<and> toHumaneSchedule s = h
           \<and> schedName s = name \<and> schedEnabled s = en"
proof -
  obtain ft fi fri frf where enc: "encode_recurrence (recurrence h) = (ft, fi, fri, frf)"
    by (cases "encode_recurrence (recurrence h)")
  have rec: "toHumaneRecurrence s = recurrence h"
    if "freqType s = ft" "freqInterval s = fi" "freqRelativeInterval s = fri"
      "freqRecurrenceFactor s = frf" for s
    using assms that enc toHumaneRecurrence_encode by (simp add: humane_ok_def)
  show ?thesis
    using assms enc
    by (cases "dailyFrequency h"; cases "endDate h")
       (auto simp: fromHumaneSchedule_def toHumaneSchedule_def humane_ok_def date_text_def
          time_text_def rec split: option.splits subday_unit.splits)
qed

definition humane_example :: humane_schedule where
  "humane_example = \<lparr> recurrence = HWeekly 2 [Monday, Friday],
     dailyFrequency = Every 15 Minutes (decodeTime 20000) (decodeTime 235959),
     startDate = decodeDate 20240131, endDate = None \<rparr>"

lemma date_text_decode: "0 \<le> d \<Longrightarrow> d < 99991231 \<Longrightarrow> date_text (decodeDate d)"
  by (simp add: date_text_def)

lemma time_text_decode: "0 \<le> t \<Longrightarrow> t < 1000000 \<Longrightarrow> time_text (decodeTime t)"
  by (simp add: time_text_def)

lemma humane_example_ok: "humane_ok humane_example"
  by (simp add: humane_ok_def humane_example_def date_text_decode time_text_decode
      WEEKDAY_ENTRIES_def)

theorem humane_roundtrip_witness:
  "\<exists>s. fromHumaneSchedule ''Nightly'' True humane_example = Some s
     \<and> toHumaneSchedule s = humane_example \<and> schedName s = ''Nightly'' \<and> schedEnabled s = True"
  by (rule humane_roundtrip [OF humane_example_ok])

end
