(* ===== verification/JobDefinition.thy ===== *)
theory JobDefinition
  imports Prelude Schedule
begin

text \<open>
  The canonical job definition (\<open>packages/protocol/src/job-definition.ts\<close>): jobs, steps,
  notification settings, operators and alerts as records, and the refinements of the zod schemas
  (lengths, minimums, ranges) as bool-valued predicates. The record types carry the shape the
  schemas check, the predicates the constraints on the values.
\<close>

section \<open>Steps\<close>

datatype step_subsystem =
    TSQL | CmdExec | PowerShell | ANALYSISCOMMAND | ANALYSISQUERY | SSIS | Distribution
  | LogReader | Merge | Snapshot | QueueReader

fun subsystem_name :: "step_subsystem \<Rightarrow> string" where
  "subsystem_name TSQL = ''TSQL''" | "subsystem_name CmdExec = ''CmdExec''"
| "subsystem_name PowerShell = ''PowerShell''" | "subsystem_name ANALYSISCOMMAND = ''ANALYSISCOMMAND''"
| "subsystem_name ANALYSISQUERY = ''ANALYSISQUERY''" | "subsystem_name SSIS = ''SSIS''"
| "subsystem_name Distribution = ''Distribution''" | "subsystem_name LogReader = ''LogReader''"
| "subsystem_name Merge = ''Merge''" | "subsystem_name Snapshot = ''Snapshot''"
| "subsystem_name QueueReader = ''QueueReader''"

lemma subsystem_name_inject [simp]: "subsystem_name a = subsystem_name b \<longleftrightarrow> a = b"
  by (cases a; cases b) auto

text \<open>\<open>StepAction\<close>.\<close>

abbreviation (input) QuitWithSuccess :: int where "QuitWithSuccess \<equiv> 1"
abbreviation (input) QuitWithFailure :: int where "QuitWithFailure \<equiv> 2"
abbreviation (input) GoToNextStep :: int where "GoToNextStep \<equiv> 3"
abbreviation (input) GoToStep :: int where "GoToStep \<equiv> 4"

record job_step =
  stepId :: int
  stepName :: string
  subsystem :: step_subsystem
  command :: string
  databaseName :: "string option"
  databaseUserName :: "string option"
  onSuccessAction :: int
  onSuccessStepId :: int
  onFailAction :: int
  onFailStepId :: int
  retryAttempts :: int
  retryIntervalMinutes :: int
  outputFileName :: "string option"
  flags :: int
  proxyName :: "string option"

definition jobStepSchema :: "job_step \<Rightarrow> bool" where
  "jobStepSchema s \<longleftrightarrow> 1 \<le> stepId s \<and> 1 \<le> length (stepName s) \<and> length (stepName s) \<le> 128 \<and>
     0 \<le> retryAttempts s \<and> 0 \<le> retryIntervalMinutes s \<and> 0 \<le> flags s"

section \<open>Jobs\<close>

record job_notifications =
  emailOperatorName :: "string option"
  emailLevel :: int
  netsendOperatorName :: "string option"
  netsendLevel :: int
  pageOperatorName :: "string option"
  pageLevel :: int
  eventlogLevel :: int
  deleteLevel :: int

definition notify_level :: "int \<Rightarrow> bool" where
  "notify_level n \<longleftrightarrow> 0 \<le> n \<and> n \<le> 3"

definition jobNotificationsSchema :: "job_notifications \<Rightarrow> bool" where
  "jobNotificationsSchema n \<longleftrightarrow> notify_level (emailLevel n) \<and> notify_level (netsendLevel n) \<and>
     notify_level (pageLevel n) \<and> notify_level (eventlogLevel n) \<and> notify_level (deleteLevel n)"

record job_definition =
  schemaVersion :: string
  jobName :: string
  description :: "string option"
  enabled :: bool
  categoryName :: "string option"
  ownerLoginName :: "string option"
  startStepId :: int
  notifications :: job_notifications
  steps :: "job_step list"
  schedules :: "schedule_definition list"
  targetServers :: "string list"

definition SCHEMA_VERSION :: string where
  "SCHEMA_VERSION = ''JobDefinition.v1''"

definition jobDefinitionSchema :: "job_definition \<Rightarrow> bool" where
  "jobDefinitionSchema j \<longleftrightarrow> schemaVersion j = SCHEMA_VERSION \<and>
     1 \<le> length (jobName j) \<and> length (jobName j) \<le> 128 \<and> 1 \<le> startStepId j \<and>
     jobNotificationsSchema (notifications j) \<and> list_all jobStepSchema (steps j) \<and>
     list_all scheduleDefinitionSchema (schedules j)"

section \<open>Operators and alerts\<close>

record operator_definition =
  opSchemaVersion :: string
  opName :: string
  opEnabled :: bool
  emailAddress :: "string option"
  pagerAddress :: "string option"
  netsendAddress :: "string option"
  weekdayPagerStartTime :: int
  weekdayPagerEndTime :: int
  saturdayPagerStartTime :: int
  saturdayPagerEndTime :: int
  sundayPagerStartTime :: int
  sundayPagerEndTime :: int
  pagerDays :: int

definition operatorDefinitionSchema :: "operator_definition \<Rightarrow> bool" where
  "operatorDefinitionSchema p \<longleftrightarrow> opSchemaVersion p = ''OperatorDefinition.v1'' \<and>
     1 \<le> length (opName p) \<and> length (opName p) \<le> 128"

record alert_definition =
  alertSchemaVersion :: string
  alertName :: string
  alertEnabled :: bool
  messageId :: int
  severity :: int
  alertDatabaseName :: "string option"
  eventDescriptionKeyword :: "string option"
  notificationMessage :: "string option"
  includeEventDescription :: int
  delayBetweenResponses :: int
  alertJobName :: "string option"
  performanceCondition :: "string option"

definition alertDefinitionSchema :: "alert_definition \<Rightarrow> bool" where
  "alertDefinitionSchema a \<longleftrightarrow> alertSchemaVersion a = ''AlertDefinition.v1'' \<and>
     1 \<le> length (alertName a) \<and> length (alertName a) \<le> 128"

section \<open>The numbering SQL Agent keeps\<close>

text \<open>\<open>sysjobsteps.step_id\<close> is 1..n with no gaps; \<open>step_ids j\<close> lists the ids in array order.\<close>

definition step_ids :: "job_definition \<Rightarrow> int list" where
  "step_ids j = map stepId (steps j)"

definition numbered :: "job_definition \<Rightarrow> bool" where
  "numbered j \<longleftrightarrow> step_ids j = map int [1 ..< Suc (length (steps j))]"

lemma numberedI:
  "(\<And>i. i < length (steps j) \<Longrightarrow> stepId (steps j ! i) = int i + 1) \<Longrightarrow> numbered j"
  by (auto simp: numbered_def step_ids_def intro!: nth_equalityI simp del: upt_Suc)

lemma numbered_nth:
  assumes "numbered j" and "i < length (steps j)"
  shows "stepId (steps j ! i) = int i + 1"
proof -
  have "map stepId (steps j) ! i = map int [1 ..< Suc (length (steps j))] ! i"
    using assms(1) by (simp add: numbered_def step_ids_def)
  with assms(2) show ?thesis by (simp del: upt_Suc)
qed

lemma numbered_distinct: "numbered j \<Longrightarrow> distinct (map stepId (steps j))"
  by (simp add: numbered_def step_ids_def distinct_map inj_on_def del: upt_Suc)

lemma numbered_set:
  assumes "numbered j"
  shows "set (map stepId (steps j)) = {1 .. int (length (steps j))}"
proof -
  have "set (map stepId (steps j)) = int ` {1 ..< Suc (length (steps j))}"
    using assms by (simp add: numbered_def step_ids_def del: upt_Suc flip: set_upt set_map)
  also have "\<dots> = {1 .. int (length (steps j))}"
    by (auto simp: image_int_atLeastLessThan)
  finally show ?thesis .
qed

lemma numbered_sorted: "numbered j \<Longrightarrow> sorted (map stepId (steps j))"
  by (simp add: numbered_def step_ids_def sorted_map sorted_wrt_iff_nth_less del: upt_Suc)

end
