(* ===== verification/JobFlow.thy ===== *)
theory JobFlow
  imports JobDefinition
begin

text \<open>
  Reading a job's control flow (\<open>packages/protocol/src/job-flow.ts\<close>): the step SQL Agent runs
  next, the worklist that collects every step the job can arrive at, and the queries built on it.
  The worklist is shown to terminate and to compute exactly the steps connected to the start step
  by success and failure branches, an inductive reachability relation.
\<close>

section \<open>What runs next\<close>

abbreviation (input) RunFailed :: int where "RunFailed \<equiv> 0"
abbreviation (input) RunSucceeded :: int where "RunSucceeded \<equiv> 1"
abbreviation (input) RunRetry :: int where "RunRetry \<equiv> 2"
abbreviation (input) RunCancelled :: int where "RunCancelled \<equiv> 3"

record completed_step =
  doneStepId :: int
  runStatus :: int

text \<open>\<open>target || null\<close>: step id 0 names no step.\<close>

definition or_null :: "int \<Rightarrow> int option" where
  "or_null n = (if n = 0 then None else Some n)"

definition next_in_order :: "job_definition \<Rightarrow> int \<Rightarrow> int option" where
  "next_in_order j k =
     (case sort_key stepId (filter (\<lambda>s. k < stepId s) (steps j)) of
        [] \<Rightarrow> None | s # _ \<Rightarrow> Some (stepId s))"

definition nextStepAfter :: "job_definition \<Rightarrow> job_step \<Rightarrow> bool \<Rightarrow> int option" where
  "nextStepAfter j step succeeded =
     (let action = (if succeeded then onSuccessAction step else onFailAction step);
          target = (if succeeded then onSuccessStepId step else onFailStepId step)
      in if action = GoToStep then or_null target
         else if action = GoToNextStep then next_in_order j (stepId step)
         else None)"

definition inferRunningStep :: "job_definition \<Rightarrow> completed_step list \<Rightarrow> int option" where
  "inferRunningStep j runs =
     (if runs = [] then Some (startStepId j)
      else (let lst = last runs
            in case find (\<lambda>s. stepId s = doneStepId lst) (steps j) of
                 None \<Rightarrow> None
               | Some step \<Rightarrow>
                   if runStatus lst = RunRetry then Some (stepId step)
                   else if runStatus lst = RunCancelled then None
                   else nextStepAfter j step (runStatus lst = RunSucceeded)))"

section \<open>Reachable steps\<close>

text \<open>
  The \<open>while\<close> loop of \<open>reachableSteps\<close>. The queue is a stack, its last element popped first; a
  popped id that has been seen, or that names no step, is dropped; otherwise it is recorded and
  its unseen successors are pushed, the success branch before the failure branch.
\<close>

definition step_of :: "job_definition \<Rightarrow> int \<Rightarrow> job_step option" where
  "step_of j k = last_by stepId (steps j) k"

definition push_unseen :: "int set \<Rightarrow> int option \<Rightarrow> int list \<Rightarrow> int list" where
  "push_unseen seen nxt queue =
     (case nxt of None \<Rightarrow> queue | Some k \<Rightarrow> if k \<in> seen then queue else k # queue)"

lemma step_of_SomeD: "step_of j k = Some s \<Longrightarrow> s \<in> set (steps j) \<and> stepId s = k"
  by (auto simp: step_of_def dest: last_by_SomeD)

lemma step_of_None_iff: "step_of j k = None \<longleftrightarrow> k \<notin> stepId ` set (steps j)"
  by (simp add: step_of_def last_by_None_iff)

lemma step_of_distinct:
  "distinct (map stepId (steps j)) \<Longrightarrow> s \<in> set (steps j) \<Longrightarrow> step_of j (stepId s) = Some s"
  by (simp add: step_of_def last_by_distinct)

function reach_loop :: "job_definition \<Rightarrow> int set \<Rightarrow> int list \<Rightarrow> int set" where
  "reach_loop j seen [] = seen"
| "reach_loop j seen (k # queue) =
     (if k \<in> seen then reach_loop j seen queue
      else case step_of j k of
             None \<Rightarrow> reach_loop j seen queue
           | Some s \<Rightarrow>
               reach_loop j (insert k seen)
                 (push_unseen (insert k seen) (nextStepAfter j s False)
                   (push_unseen (insert k seen) (nextStepAfter j s True) queue)))"
  by pat_completeness auto

termination
proof (relation "measures [\<lambda>(j, seen, q). card (stepId ` set (steps j) - seen), \<lambda>(j, seen, q). length q]",
    goal_cases)
  case (4 j seen k queue s)
  have "k \<in> stepId ` set (steps j) - seen"
    using 4 step_of_SomeD [OF 4(2)] by auto
  then have "card (stepId ` set (steps j) - insert k seen) < card (stepId ` set (steps j) - seen)"
    by (metis Diff_insert List.finite_set card_Diff1_less finite_Diff finite_imageI)
  then show ?case by simp
qed auto

lemma reach_loop_skip:
  "k \<in> seen \<or> step_of j k = None \<Longrightarrow> reach_loop j seen (k # queue) = reach_loop j seen queue"
  by auto

lemma reach_loop_visit:
  "k \<notin> seen \<Longrightarrow> step_of j k = Some s \<Longrightarrow> reach_loop j seen (k # queue) =
     reach_loop j (insert k seen)
       (push_unseen (insert k seen) (nextStepAfter j s False)
         (push_unseen (insert k seen) (nextStepAfter j s True) queue))"
  by simp

declare reach_loop.simps(2) [simp del]

definition reachableSteps :: "job_definition \<Rightarrow> int set" where
  "reachableSteps j = reach_loop j {} [startStepId j]"

definition unreachableSteps :: "job_definition \<Rightarrow> job_step list" where
  "unreachableSteps j =
     sort_key stepId (filter (\<lambda>s. stepId s \<notin> reachableSteps j) (steps j))"

definition isStepDisabled :: "job_definition \<Rightarrow> int \<Rightarrow> bool" where
  "isStepDisabled j k \<longleftrightarrow> k \<notin> reachableSteps j"

section \<open>The specification: paths of branches\<close>

definition branch :: "job_definition \<Rightarrow> int \<Rightarrow> int \<Rightarrow> bool" where
  "branch j k m \<longleftrightarrow> (\<exists>s b. step_of j k = Some s \<and> nextStepAfter j s b = Some m)"

inductive arrives :: "job_definition \<Rightarrow> int \<Rightarrow> bool" for j where
  start: "step_of j (startStepId j) \<noteq> None \<Longrightarrow> arrives j (startStepId j)"
| follow: "arrives j k \<Longrightarrow> branch j k m \<Longrightarrow> step_of j m \<noteq> None \<Longrightarrow> arrives j m"

inductive_cases arrivesE: "arrives j k"

lemma branch_iff:
  "step_of j k = Some s \<Longrightarrow>
     branch j k m \<longleftrightarrow> nextStepAfter j s True = Some m \<or> nextStepAfter j s False = Some m"
  by (auto simp: branch_def ex_bool_eq)

lemma set_push_unseen:
  "set (push_unseen seen nxt queue) = set queue \<union> (set_option nxt - seen)"
  by (auto simp: push_unseen_def split: option.splits)

text \<open>
  Soundness needs only that everything queued came along a branch. Completeness is the invariant
  of a graph search: a branch leaving a seen step leads to a seen or a queued step.
\<close>

lemma reach_loop_sound:
  assumes "\<forall>k \<in> seen. arrives j k" and "\<forall>k \<in> set q. step_of j k \<noteq> None \<longrightarrow> arrives j k"
  shows "\<forall>k \<in> reach_loop j seen q. arrives j k"
  using assms
proof (induction j seen q rule: reach_loop.induct)
  case (1 j seen)
  then show ?case by simp
next
  case (2 j seen k q)
  show ?case
  proof (cases "k \<in> seen \<or> step_of j k = None")
    case True
    have p: "\<forall>m \<in> set q. step_of j m \<noteq> None \<longrightarrow> arrives j m"
      using "2.prems"(2) by (meson list.set_intros(2))
    have "\<forall>m \<in> reach_loop j seen q. arrives j m"
      using True "2.IH"(1) [OF _ "2.prems"(1) p] "2.IH"(2) [OF _ _ "2.prems"(1) p] by blast
    with True show ?thesis by (simp only: reach_loop_skip)
  next
    case False
    then obtain s where s: "step_of j k = Some s" by auto
    have k: "arrives j k" using "2.prems"(2) s by simp
    let ?q = "push_unseen (insert k seen) (nextStepAfter j s False)
      (push_unseen (insert k seen) (nextStepAfter j s True) q)"
    have "arrives j m" if "nextStepAfter j s b = Some m" "step_of j m \<noteq> None" for b m
      using arrives.follow [OF k _ that(2)] branch_iff [OF s] that(1) by (cases b) auto
    then have "\<forall>m \<in> set ?q. step_of j m \<noteq> None \<longrightarrow> arrives j m"
      using "2.prems"(2) by (simp add: set_push_unseen ball_Un Ball_def) blast
    moreover have "\<forall>m \<in> insert k seen. arrives j m" using k "2.prems"(1) by auto
    ultimately have "\<forall>m \<in> reach_loop j (insert k seen) ?q. arrives j m"
      using "2.IH"(3) [OF _ s] False by blast
    with False s show ?thesis by (simp add: reach_loop_visit)
  qed
qed

definition search_inv :: "job_definition \<Rightarrow> int set \<Rightarrow> int list \<Rightarrow> bool" where
  "search_inv j seen q \<longleftrightarrow>
     (\<forall>k \<in> seen. \<forall>m. branch j k m \<longrightarrow> step_of j m \<noteq> None \<longrightarrow> m \<in> seen \<or> m \<in> set q)"

lemma search_inv_visit:
  assumes "search_inv j seen (k # q)" and "step_of j k = Some s"
  shows "search_inv j (insert k seen)
    (push_unseen (insert k seen) (nextStepAfter j s False)
      (push_unseen (insert k seen) (nextStepAfter j s True) q))"
proof -
  have "m \<in> insert k seen \<or> m \<in> set_option (nextStepAfter j s False) - insert k seen
      \<or> m \<in> set_option (nextStepAfter j s True) - insert k seen"
    if "branch j k m" for m
    using that branch_iff [OF assms(2)] by auto
  then show ?thesis
    using assms(1) unfolding search_inv_def set_push_unseen by (simp add: ball_Un) blast
qed

lemma reach_loop_complete:
  assumes "search_inv j seen q"
  shows "seen \<union> {k \<in> set q. step_of j k \<noteq> None} \<subseteq> reach_loop j seen q \<and>
    search_inv j (reach_loop j seen q) []"
  using assms
proof (induction j seen q rule: reach_loop.induct)
  case (1 j seen)
  then show ?case by simp
next
  case (2 j seen k q)
  show ?case
  proof (cases "k \<in> seen \<or> step_of j k = None")
    case True
    then have "search_inv j seen q"
      using "2.prems" unfolding search_inv_def by (metis set_ConsD)
    then have "seen \<union> {m \<in> set q. step_of j m \<noteq> None} \<subseteq> reach_loop j seen q \<and>
        search_inv j (reach_loop j seen q) []"
      using True "2.IH"(1,2) by (cases "k \<in> seen") auto
    with True show ?thesis by (auto simp: reach_loop_skip)
  next
    case False
    then obtain s where s: "step_of j k = Some s" by auto
    from "2.IH"(3) [OF _ s] False search_inv_visit [OF "2.prems" s] s
    show ?thesis by (auto simp: set_push_unseen reach_loop_visit)
  qed
qed

lemma reachable_arrives: "k \<in> reachableSteps j \<longleftrightarrow> arrives j k"
proof
  have "\<forall>m \<in> reach_loop j {} [startStepId j]. arrives j m"
    by (rule reach_loop_sound) (auto intro: arrives.start)
  moreover assume "k \<in> reachableSteps j"
  ultimately show "arrives j k" by (simp only: reachableSteps_def)
next
  have "search_inv j {} [startStepId j]" by (simp add: search_inv_def)
  from reach_loop_complete [OF this]
  have s: "step_of j (startStepId j) \<noteq> None \<Longrightarrow> startStepId j \<in> reachableSteps j"
    and inv: "search_inv j (reachableSteps j) []"
    by (auto simp: reachableSteps_def)
  assume "arrives j k"
  then show "k \<in> reachableSteps j"
  proof (induction rule: arrives.induct)
    case start
    then show ?case by (rule s)
  next
    case (follow k m)
    then show ?case using inv unfolding search_inv_def by simp
  qed
qed

text \<open>
  The worklist of \<open>reachableSteps\<close>, which is shown to stop, collects exactly the steps a run
  of the job can arrive at: the start step, and every existing step that a success or a failure
  branch of an arrived-at step leads to.
\<close>

theorem reachableSteps_iff: "k \<in> reachableSteps j \<longleftrightarrow> arrives j k"
  by (rule reachable_arrives)

section \<open>Queries\<close>

lemma arrives_exists: "arrives j k \<Longrightarrow> k \<in> stepId ` set (steps j)"
  by (induction rule: arrives.induct) (auto simp: step_of_None_iff)

text \<open>Branches read only the ids of the other steps, and the next id is the least larger one.\<close>

lemma next_in_order_Min:
  "next_in_order j k =
     (let ids = filter (\<lambda>i. k < i) (map stepId (steps j))
      in if ids = [] then None else Some (Min (set ids)))"
proof -
  let ?xs = "filter (\<lambda>s. k < stepId s) (steps j)"
  have ids: "filter (\<lambda>i. k < i) (map stepId (steps j)) = map stepId ?xs"
    by (simp add: filter_map o_def)
  show ?thesis
  proof (cases "sort_key stepId ?xs")
    case Nil
    then have "?xs = []" by (metis length_0_conv length_sort)
    then show ?thesis by (simp add: next_in_order_def ids)
  next
    case (Cons s ss)
    then have set: "set ?xs = insert s (set ss)" by (metis list.simps(15) set_sort)
    have "sorted (map stepId (s # ss))" by (metis Cons sorted_sort_key)
    then have "Min (stepId ` set ?xs) = stepId s"
      by (subst set, intro Min_eqI) auto
    moreover have "?xs \<noteq> []"
    proof
      assume e: "?xs = []"
      show False using Cons unfolding e by simp
    qed
    ultimately show ?thesis by (simp add: next_in_order_def Cons ids)
  qed
qed

lemma next_in_order_cong:
  "map stepId (steps j) = map stepId (steps j') \<Longrightarrow> next_in_order j k = next_in_order j' k"
  by (simp only: next_in_order_Min)

lemma next_in_order_numbered:
  assumes "numbered j" and "1 \<le> k"
  shows "next_in_order j k = (if k < int (length (steps j)) then Some (k + 1) else None)"
proof -
  let ?ids = "filter (\<lambda>i. k < i) (map stepId (steps j))"
  have "set ?ids = {k + 1 .. int (length (steps j))}"
    using numbered_set [OF assms(1)] assms(2) by auto
  moreover from this have "k < int (length (steps j)) \<Longrightarrow> Min (set ?ids) = k + 1"
    by (simp only:) (rule Min_eqI, auto)
  moreover have "?ids = [] \<longleftrightarrow> set ?ids = {}" by (simp only: set_empty)
  ultimately show ?thesis by (auto simp: next_in_order_Min Let_def)
qed

lemma next_in_order_larger: "next_in_order j k = Some m \<Longrightarrow> k < m"
  by (auto simp: next_in_order_Min Let_def split: if_splits
      dest!: Min_in [OF finite_set, unfolded set_empty, of "filter _ _", simplified])

text \<open>
  The step the overview and the timeline show as running is one the job can really arrive at:
  if the last completed step is itself on a path of the job, the inferred step, when it exists,
  is too.
\<close>

theorem inferRunningStep_arrives:
  assumes "distinct (map stepId (steps j))"
    and "runs \<noteq> [] \<Longrightarrow> arrives j (doneStepId (last runs))"
    and "inferRunningStep j runs = Some k" and "step_of j k \<noteq> None"
  shows "arrives j k"
proof (cases "runs = []")
  case True
  then show ?thesis using assms(3,4) by (auto simp: inferRunningStep_def intro: arrives.start)
next
  case False
  let ?l = "last runs"
  obtain s where s: "find (\<lambda>s. stepId s = doneStepId ?l) (steps j) = Some s"
    using assms(3) False by (auto simp: inferRunningStep_def Let_def split: option.splits)
  then have mem: "s \<in> set (steps j)" and id: "stepId s = doneStepId ?l"
    by (auto dest: find_SomeD)
  have of: "step_of j (doneStepId ?l) = Some s"
    using step_of_distinct [OF assms(1) mem] id by simp
  have a: "arrives j (doneStepId ?l)" using assms(2) False by simp
  consider (same) "k = doneStepId ?l"
    | (next_step) "nextStepAfter j s (runStatus ?l = RunSucceeded) = Some k"
    using assms(3) False s id
    by (auto simp: inferRunningStep_def Let_def split: if_splits)
  then show ?thesis
  proof cases
    case same
    with a show ?thesis by simp
  next
    case next_step
    then have "branch j (doneStepId ?l) k" using of by (auto simp: branch_def)
    with a show ?thesis using assms(4) by (rule arrives.follow)
  qed
qed

text \<open>
  \<open>unreachableSteps\<close> reports, in step order, exactly the steps no run arrives at, and a step
  counts as disabled exactly when it is one of them.
\<close>

theorem unreachableSteps_spec:
  "set (unreachableSteps j) = {s \<in> set (steps j). \<not> arrives j (stepId s)} \<and>
   sorted (map stepId (unreachableSteps j)) \<and>
   (k \<in> stepId ` set (unreachableSteps j) \<longleftrightarrow>
      k \<in> stepId ` set (steps j) \<and> isStepDisabled j k)"
  by (auto simp: unreachableSteps_def isStepDisabled_def reachable_arrives)

section \<open>An example job\<close>

definition plain_step :: "int \<Rightarrow> string \<Rightarrow> job_step" where
  "plain_step k n = \<lparr> stepId = k, stepName = n, subsystem = TSQL, command = ''EXEC x'',
     databaseName = Some ''master'', databaseUserName = None, onSuccessAction = 3,
     onSuccessStepId = 0, onFailAction = 2, onFailStepId = 0, retryAttempts = 0,
     retryIntervalMinutes = 0, outputFileName = None, flags = 0, proxyName = None \<rparr>"

definition no_notifications :: job_notifications where
  "no_notifications = \<lparr> emailOperatorName = None, emailLevel = 0, netsendOperatorName = None,
     netsendLevel = 0, pageOperatorName = None, pageLevel = 0, eventlogLevel = 0,
     deleteLevel = 0 \<rparr>"

definition job_with :: "job_step list \<Rightarrow> job_definition" where
  "job_with ss = \<lparr> schemaVersion = SCHEMA_VERSION, jobName = ''Nightly'', description = None,
     enabled = True, categoryName = None, ownerLoginName = Some ''sa'', startStepId = 1,
     notifications = no_notifications, steps = ss, schedules = [], targetServers = [] \<rparr>"

text \<open>Three steps in a chain, the last one quitting.\<close>

definition chain_job :: job_definition where
  "chain_job = job_with [plain_step 1 ''A'', plain_step 2 ''B'',
     (plain_step 3 ''C'')\<lparr>onSuccessAction := 1\<rparr>]"

theorem inferRunningStep_arrives_witness:
  "inferRunningStep chain_job [\<lparr>doneStepId = 1, runStatus = 1\<rparr>] = Some 2 \<and> arrives chain_job 2"
proof -
  let ?d = "[\<lparr>doneStepId = 1, runStatus = 1\<rparr>]"
  have i: "inferRunningStep chain_job ?d = Some 2" by code_simp
  have s: "step_of chain_job 1 \<noteq> None" "step_of chain_job 2 \<noteq> None" by code_simp+
  have "arrives chain_job (startStepId chain_job)"
    by (rule arrives.start) (simp add: chain_job_def job_with_def step_of_def last_by_def
        plain_step_def)
  then have "arrives chain_job 1" by (simp add: chain_job_def job_with_def)
  then have "arrives chain_job 2"
    by (intro inferRunningStep_arrives [where j = chain_job and runs = ?d, OF _ _ i s(2)])
       (simp_all add: chain_job_def job_with_def plain_step_def)
  with i show ?thesis by simp
qed

end
