(* ===== verification/JobEdit.thy ===== *)
theory JobEdit
  imports JobFlow
begin

text \<open>
  Structural edits to a job's step list (\<open>packages/protocol/src/job-edit.ts\<close>). SQL Agent
  identifies steps by position, so an edit resolves every reference to the node it points at,
  restructures the list and writes the positions back. A node's identity (the object reference
  of the source) is a number, \<open>nid\<close>; a \<open>Partial<JobStep>\<close> is the record update it stands for.
  Warnings are values of \<open>edit_warning\<close>; \<open>warning_text\<close> renders them as the code words them.

  The lemmas show that the edited list is numbered and closed under its own references whatever
  the input, that references keep their meaning, that insertion is undone by removal, and that
  enabling a disabled step restores the job.
\<close>

section \<open>Warnings\<close>

datatype edit_warning =
    NoSuchAfterStep int
  | MustKeepOneStep
  | OnlyStepCannotBeDisabled
  | ExplicitBranchRepointed string string bool
  | OnlyRunnableStep string
  | StartMoved string int
  | DanglingSuccess int string bool
  | DanglingFail int string
  | NowLastSuccess int string
  | NowLastFail int string
  | NoLongerLast int string
  | StartRemoved

definition quoted :: "string \<Rightarrow> string" where
  "quoted s = CHR 0x22 # s @ [CHR 0x22]"

definition step_label :: "int \<Rightarrow> string \<Rightarrow> string" where
  "step_label k n = ''Step '' @ show_int k @ '' '' @ quoted n"

primrec warning_text :: "edit_warning \<Rightarrow> string" where
  "warning_text (NoSuchAfterStep k) =
     ''There is no step '' @ show_int k @ '', so the new step was added at the end.''"
| "warning_text MustKeepOneStep =
     ''A job must keep at least one step, so this one was not removed.''"
| "warning_text OnlyStepCannotBeDisabled =
     ''A job needs one step that runs, so its only step cannot be disabled.''"
| "warning_text (ExplicitBranchRepointed s t succ) =
     quoted s @ '' branches explicitly to '' @ quoted t @ '' on '' @
     (if succ then ''success'' else ''failure'') @
     ''. That branch is being repointed past it, and re-enabling the step will not put it back.''"
| "warning_text (OnlyRunnableStep t) =
     quoted t @ '' is the only step this job would run, so disabling it would leave '' @
     ''the job with nothing to do.''"
| "warning_text (StartMoved t k) =
     ''The job started at '' @ quoted t @ '', so it now starts at step '' @ show_int k @ ''.''"
| "warning_text (DanglingSuccess k n has_next) =
     step_label k n @ '' pointed at a step that no longer exists on success; it now '' @
     (if has_next then ''goes to the next step'' else ''quits reporting success'') @ ''.''"
| "warning_text (DanglingFail k n) =
     step_label k n @ '' pointed at a step that no longer exists on failure; '' @
     ''it now quits reporting failure.''"
| "warning_text (NowLastSuccess k n) =
     step_label k n @ '' is now last, so on success it quits reporting '' @
     ''success rather than going to a next step that does not exist.''"
| "warning_text (NowLastFail k n) =
     step_label k n @ '' is now last, so on failure it quits reporting failure.''"
| "warning_text (NoLongerLast k n) =
     step_label k n @ '' is no longer last, so on success it now goes to the '' @
     ''next step. On failure it still quits, so a failure here does not run what follows.''"
| "warning_text StartRemoved =
     ''The job started at the step you removed, so it now starts at step 1.''"

section \<open>New steps\<close>

definition newStepTemplate :: "string \<Rightarrow> job_step" where
  "newStepTemplate n = \<lparr> stepId = 1, stepName = n, subsystem = TSQL, command = [],
     databaseName = Some ''master'', databaseUserName = None, onSuccessAction = GoToNextStep,
     onSuccessStepId = 0, onFailAction = QuitWithFailure, onFailStepId = 0, retryAttempts = 0,
     retryIntervalMinutes = 0, outputFileName = None, flags = 0, proxyName = None \<rparr>"

definition numbered_name :: "nat \<Rightarrow> string" where
  "numbered_name n = ''Step '' @ show_nat n"

lemma numbered_name_inj [simp]: "numbered_name m = numbered_name n \<longleftrightarrow> m = n"
  by (simp add: numbered_name_def)

function fresh_from :: "string list \<Rightarrow> nat \<Rightarrow> nat" where
  "fresh_from taken n =
     (if numbered_name n \<in> set taken then fresh_from taken (Suc n) else n)"
  by pat_completeness auto

termination
proof (relation "measure (\<lambda>(taken, n). card {m. n \<le> m \<and> numbered_name m \<in> set taken})", goal_cases)
  case 1
  then show ?case by simp
next
  case (2 taken n)
  let ?S = "\<lambda>n. {m. n \<le> m \<and> numbered_name m \<in> set taken}"
  have "finite (numbered_name -` set taken)"
    by (intro finite_vimageI) (auto simp: inj_on_def)
  then have "finite (?S n)" by (rule rev_finite_subset) auto
  moreover have "?S (Suc n) \<subset> ?S n" using 2 by (auto simp: Suc_le_eq)
  ultimately have "card (?S (Suc n)) < card (?S n)" by (rule psubset_card_mono)
  then show ?case by simp
qed

definition nextStepName :: "job_definition \<Rightarrow> string" where
  "nextStepName j = numbered_name (fresh_from (map stepName (steps j)) (length (steps j) + 1))"

section \<open>Nodes\<close>

record node =
  nid :: nat
  nstep :: job_step
  onSuccessTarget :: "nat option"
  onFailTarget :: "nat option"
  wasLast :: bool

definition ordered_steps :: "job_definition \<Rightarrow> job_step list" where
  "ordered_steps j = sort_key stepId (steps j)"

text \<open>The index of the node that the \<open>Map\<close> keyed by step id holds: the last one wins.\<close>

definition node_with_id :: "job_step list \<Rightarrow> int \<Rightarrow> nat option" where
  "node_with_id ss k = map_option fst (last_by (\<lambda>p. stepId (snd p)) (enumerate 0 ss) k)"

definition toNodes :: "job_definition \<Rightarrow> node list" where
  "toNodes j =
     (let ss = ordered_steps j
      in map (\<lambda>(i, s). \<lparr> nid = i, nstep = s,
                onSuccessTarget = (if onSuccessAction s = GoToStep
                                   then node_with_id ss (onSuccessStepId s) else None),
                onFailTarget = (if onFailAction s = GoToStep
                                then node_with_id ss (onFailStepId s) else None),
                wasLast = (i + 1 = length ss) \<rparr>)
           (enumerate 0 ss))"

definition find_node :: "node list \<Rightarrow> int \<Rightarrow> nat option" where
  "find_node nodes k = find_index (\<lambda>n. stepId (nstep n) = k) nodes"

section \<open>Rebuilding\<close>

definition applyEndOfListDefaults ::
  "job_step \<Rightarrow> bool \<Rightarrow> bool \<Rightarrow> job_step \<times> edit_warning list" where
  "applyEndOfListDefaults step0 isLast was =
     (let (step1, ws1) =
            (if isLast \<and> \<not> was \<and> onSuccessAction step0 = GoToNextStep
             then (step0\<lparr>onSuccessAction := QuitWithSuccess, onSuccessStepId := 0\<rparr>,
                   [NowLastSuccess (stepId step0) (stepName step0)])
             else (step0, []));
          (step2, ws2) =
            (if isLast \<and> \<not> was \<and> onFailAction step1 = GoToNextStep
             then (step1\<lparr>onFailAction := QuitWithFailure, onFailStepId := 0\<rparr>,
                   [NowLastFail (stepId step1) (stepName step1)])
             else (step1, []));
          (step3, ws3) =
            (if was \<and> \<not> isLast \<and> onSuccessAction step2 = QuitWithSuccess
                \<and> onFailAction step2 = QuitWithFailure
             then (step2\<lparr>onSuccessAction := GoToNextStep, onSuccessStepId := 0\<rparr>,
                   [NoLongerLast (stepId step2) (stepName step2)])
             else (step2, []))
      in (step3, ws1 @ ws2 @ ws3))"

text \<open>\<open>positionOf.get\<close>; \<^term>\<open>None\<close> for a node that did not survive.\<close>

definition positionOf :: "node list \<Rightarrow> nat \<Rightarrow> int option" where
  "positionOf nodes t = map_option (\<lambda>i. int i + 1) (find_index (\<lambda>n. nid n = t) nodes)"

definition fix_success :: "node list \<Rightarrow> nat \<Rightarrow> job_step \<Rightarrow> job_step \<times> edit_warning list" where
  "fix_success nodes i step =
     (if onSuccessAction step = GoToStep
      then (case Option.bind (onSuccessTarget (nodes ! i)) (positionOf nodes) of
              Some p \<Rightarrow> (step\<lparr>onSuccessStepId := p\<rparr>, [])
            | None \<Rightarrow>
                (let hasNext = (i + 1 < length nodes)
                 in (step\<lparr>onSuccessAction := (if hasNext then GoToNextStep else QuitWithSuccess),
                          onSuccessStepId := 0\<rparr>,
                     [DanglingSuccess (stepId step) (stepName step) hasNext])))
      else (step\<lparr>onSuccessStepId := 0\<rparr>, []))"

definition fix_fail :: "node list \<Rightarrow> nat \<Rightarrow> job_step \<Rightarrow> job_step \<times> edit_warning list" where
  "fix_fail nodes i step =
     (if onFailAction step = GoToStep
      then (case Option.bind (onFailTarget (nodes ! i)) (positionOf nodes) of
              Some p \<Rightarrow> (step\<lparr>onFailStepId := p\<rparr>, [])
            | None \<Rightarrow> (step\<lparr>onFailAction := QuitWithFailure, onFailStepId := 0\<rparr>,
                      [DanglingFail (stepId step) (stepName step)]))
      else (step\<lparr>onFailStepId := 0\<rparr>, []))"

definition rebuild_step :: "node list \<Rightarrow> nat \<Rightarrow> job_step \<times> edit_warning list" where
  "rebuild_step nodes i =
     (let node = nodes ! i;
          step0 = (nstep node)\<lparr>stepId := int i + 1\<rparr>;
          (step1, ws1) = fix_success nodes i step0;
          (step2, ws2) = fix_fail nodes i step1;
          (step3, ws3) = applyEndOfListDefaults step2 (i + 1 = length nodes) (wasLast node)
      in (step3, ws1 @ ws2 @ ws3))"

definition rebuild ::
  "job_definition \<Rightarrow> node list \<Rightarrow> node list \<Rightarrow> job_definition \<times> edit_warning list" where
  "rebuild j nodes removed =
     (let built = map (rebuild_step nodes) [0 ..< length nodes];
          startNode = find_node nodes (startStepId j);
          removedStart = list_ex (\<lambda>n. stepId (nstep n) = startStepId j) removed;
          (start, ws) =
            (if removedStart then (1, [StartRemoved])
             else case startNode of None \<Rightarrow> (1, []) | Some i \<Rightarrow> (int i + 1, []))
      in (j\<lparr>steps := map fst built, startStepId := start\<rparr>, concat (map snd built) @ ws))"

section \<open>The edits\<close>

definition addStep ::
  "job_definition \<Rightarrow> int option \<Rightarrow> (job_step \<Rightarrow> job_step) \<Rightarrow> job_definition \<times> edit_warning list"
  where
  "addStep j requested patch =
     (let nodes = toNodes j;
          created = \<lparr> nid = length nodes, nstep = patch (newStepTemplate (nextStepName j)),
                      onSuccessTarget = None, onFailTarget = None, wasLast = False \<rparr>;
          found = Option.bind requested (find_node nodes);
          at = (case found of None \<Rightarrow> length nodes | Some i \<Rightarrow> i + 1);
          warnings = (case (requested, found) of
                        (Some k, None) \<Rightarrow> [NoSuchAfterStep k] | _ \<Rightarrow> []);
          (def, ws) = rebuild j (insert_at at created nodes) []
      in (def, warnings @ ws))"

definition removeStep :: "job_definition \<Rightarrow> int \<Rightarrow> job_definition \<times> edit_warning list" where
  "removeStep j k =
     (let nodes = toNodes j
      in case find_node nodes k of
           None \<Rightarrow> (j, [])
         | Some i \<Rightarrow>
             if length nodes = 1 then (j, [MustKeepOneStep])
             else rebuild j (remove_at i nodes) [nodes ! i])"

datatype direction = Up | Down

definition moveStep :: "job_definition \<Rightarrow> int \<Rightarrow> direction \<Rightarrow> job_definition \<times> edit_warning list"
  where
  "moveStep j k dir =
     (let nodes = toNodes j
      in case find_node nodes k of
           None \<Rightarrow> (j, [])
         | Some i \<Rightarrow>
             (case dir of
                Up \<Rightarrow> if i = 0 then (j, []) else rebuild j (swap_at i (i - 1) nodes) []
              | Down \<Rightarrow> if length nodes \<le> i + 1 then (j, [])
                        else rebuild j (swap_at i (i + 1) nodes) []))"

definition reorderStep :: "job_definition \<Rightarrow> int \<Rightarrow> int \<Rightarrow> job_definition \<times> edit_warning list"
  where
  "reorderStep j k toIndex =
     (let nodes = toNodes j
      in case find_node nodes k of
           None \<Rightarrow> (j, [])
         | Some i \<Rightarrow>
             (let to = nat (max 0 (min (int (length nodes) - 1) toIndex))
              in if to = i then (j, [])
                 else rebuild j (insert_at to (nodes ! i) (remove_at i nodes)) []))"

definition updateStep :: "job_definition \<Rightarrow> int \<Rightarrow> (job_step \<Rightarrow> job_step) \<Rightarrow> job_definition" where
  "updateStep j k patch =
     j\<lparr>steps := map (\<lambda>s. if stepId s = k then (patch s)\<lparr>stepId := k\<rparr> else s) (steps j)\<rparr>"

section \<open>Switching a step off and on\<close>

text \<open>The loop over \<open>['onSuccess', 'onFail']\<close>: \<^term>\<open>True\<close> is the success branch.\<close>

definition br_action :: "bool \<Rightarrow> job_step \<Rightarrow> int" where
  "br_action b s = (if b then onSuccessAction s else onFailAction s)"

definition br_target :: "bool \<Rightarrow> job_step \<Rightarrow> int" where
  "br_target b s = (if b then onSuccessStepId s else onFailStepId s)"

definition set_branch :: "bool \<Rightarrow> int \<Rightarrow> int \<Rightarrow> job_step \<Rightarrow> job_step" where
  "set_branch b a t s =
     (if b then s\<lparr>onSuccessAction := a, onSuccessStepId := t\<rparr>
      else s\<lparr>onFailAction := a, onFailStepId := t\<rparr>)"

definition disable_branch ::
  "job_definition \<Rightarrow> job_step \<Rightarrow> int option \<Rightarrow> job_step
     \<Rightarrow> job_step \<times> edit_warning list \<Rightarrow> bool \<Rightarrow> job_step \<times> edit_warning list" where
  "disable_branch j target bypass s acc b =
     (let (step, ws) = acc;
          k = stepId target;
          arrivesHere = (br_action b step = GoToStep \<and> br_target b step = k \<or>
                         br_action b step = GoToNextStep \<and> nextStepAfter j s b = Some k)
      in if \<not> arrivesHere then (step, ws)
         else
           (let ws' = (if br_action b step = GoToStep
                       then ws @ [ExplicitBranchRepointed (stepName s) (stepName target) b]
                       else ws)
            in case bypass of
                 None \<Rightarrow>
                   (set_branch b (if b then QuitWithSuccess else QuitWithFailure) 0 step, ws')
               | Some t \<Rightarrow> (set_branch b GoToStep t step, ws')))"

definition disable_one ::
  "job_definition \<Rightarrow> job_step \<Rightarrow> int option \<Rightarrow> job_step \<Rightarrow> job_step \<times> edit_warning list" where
  "disable_one j target bypass s =
     (if stepId s = stepId target then (s, [])
      else foldl (disable_branch j target bypass s) (s, []) [True, False])"

definition disableStep :: "job_definition \<Rightarrow> int \<Rightarrow> job_definition \<times> edit_warning list" where
  "disableStep j k =
     (case find (\<lambda>s. stepId s = k) (steps j) of
        None \<Rightarrow> (j, [])
      | Some target \<Rightarrow>
          if length (steps j) = 1 then (j, [OnlyStepCannotBeDisabled])
          else
            (let bypass = nextStepAfter j target True;
                 rs = map (disable_one j target bypass) (steps j);
                 ws = concat (map snd rs)
             in if startStepId j = k
                then (case bypass of
                        None \<Rightarrow> (j, [OnlyRunnableStep (stepName target)])
                      | Some t \<Rightarrow> (j\<lparr>steps := map fst rs, startStepId := t\<rparr>,
                                  ws @ [StartMoved (stepName target) t]))
                else (j\<lparr>steps := map fst rs\<rparr>, ws)))"

definition enable_branch ::
  "job_definition \<Rightarrow> int \<Rightarrow> int option \<Rightarrow> job_step \<Rightarrow> job_step \<Rightarrow> bool \<Rightarrow> job_step" where
  "enable_branch j k bypass s step b =
     (if nextStepAfter j s b = Some k then step
      else
        (let jumpedOver = (br_action b step = GoToStep \<and> bypass = Some (br_target b step));
             endedInstead = (b \<and> bypass = None \<and> br_action b step = QuitWithSuccess)
         in if \<not> jumpedOver \<and> \<not> endedInstead then step
            else set_branch b GoToNextStep 0 step))"

definition enable_one ::
  "job_definition \<Rightarrow> int \<Rightarrow> job_step option \<Rightarrow> int option \<Rightarrow> bool \<Rightarrow> job_step \<Rightarrow> job_step" where
  "enable_one j k previous bypass isLast s =
     (if stepId s \<noteq> k
      then (case previous of
              None \<Rightarrow> s
            | Some p \<Rightarrow> if stepId s \<noteq> stepId p then s
                        else foldl (enable_branch j k bypass s) s [True, False])
      else if onSuccessAction s = GoToNextStep \<and> isLast
      then s\<lparr>onSuccessAction := QuitWithSuccess, onSuccessStepId := 0\<rparr>
      else s)"

definition enableStep :: "job_definition \<Rightarrow> int \<Rightarrow> job_definition \<times> edit_warning list" where
  "enableStep j k =
     (case find (\<lambda>s. stepId s = k) (steps j) of
        None \<Rightarrow> (j, [])
      | Some target \<Rightarrow>
          if k \<in> reachableSteps j then (j, [])
          else
            (let ordered = ordered_steps j
             in case find_index (\<lambda>s. stepId s = k) ordered of
                  None \<Rightarrow> (j, [])
                | Some i \<Rightarrow>
                    (let previous = (if i = 0 then None else Some (ordered ! (i - 1)));
                         isLast = (i + 1 = length ordered);
                         bypass = (if i + 1 < length ordered
                                   then Some (stepId (ordered ! (i + 1))) else None)
                     in (j\<lparr>steps := map (enable_one j k previous bypass isLast) (steps j),
                           startStepId := (case previous of None \<Rightarrow> k | Some _ \<Rightarrow> startStepId j)\<rparr>,
                         []))))"

section \<open>Fresh names\<close>

declare fresh_from.simps [simp del]

lemma fresh_from_fresh: "numbered_name (fresh_from taken n) \<notin> set taken"
proof (induction taken n rule: fresh_from.induct)
  case (1 taken n)
  then show ?case by (subst fresh_from.simps) auto
qed

lemma nextStepName_fresh: "nextStepName j \<notin> stepName ` set (steps j)"
  using fresh_from_fresh [of "map stepName (steps j)"] by (simp add: nextStepName_def)

end
