(* ===== verification/JobEditLaws.thy ===== *)
theory JobEditLaws
  imports JobEdit
begin

text \<open>
  What the step-list edits of theory JobEdit guarantee: closed results, references kept by
  meaning, insertion undone by removal, disabling a step takes it off every path, and enabling
  it again restores the job.
\<close>

section \<open>Closed jobs\<close>

text \<open>
  A job is closed when its steps are numbered 1..n, it starts at one of them, every jump names one
  of them, and a branch that is not a jump carries the target 0.
\<close>

definition closed_step :: "nat \<Rightarrow> job_step \<Rightarrow> bool" where
  "closed_step n s \<longleftrightarrow>
     (\<forall>b. if br_action b s = GoToStep then 1 \<le> br_target b s \<and> br_target b s \<le> int n
          else br_target b s = 0)"

definition closed :: "job_definition \<Rightarrow> bool" where
  "closed j \<longleftrightarrow> numbered j \<and> steps j \<noteq> [] \<and>
     1 \<le> startStepId j \<and> startStepId j \<le> int (length (steps j)) \<and>
     list_all (closed_step (length (steps j))) (steps j)"

lemma br_simps [simp]:
  "br_action True s = onSuccessAction s" "br_action False s = onFailAction s"
  "br_target True s = onSuccessStepId s" "br_target False s = onFailStepId s"
  by (simp_all add: br_action_def br_target_def)

lemma positionOf_range:
  assumes "positionOf nodes t = Some p"
  shows "1 \<le> p \<and> p \<le> int (length nodes)"
proof -
  obtain i where "find_index (\<lambda>n. nid n = t) nodes = Some i" and "p = int i + 1"
    using assms by (auto simp: positionOf_def)
  then show ?thesis using find_index_SomeD by fastforce
qed

lemma fix_success_fields:
  "stepId (fst (fix_success nodes i s)) = stepId s"
  "onFailAction (fst (fix_success nodes i s)) = onFailAction s"
  "onFailStepId (fst (fix_success nodes i s)) = onFailStepId s"
  "onSuccessAction (fst (fix_success nodes i s)) = GoToStep \<Longrightarrow>
     Option.bind (onSuccessTarget (nodes ! i)) (positionOf nodes)
       = Some (onSuccessStepId (fst (fix_success nodes i s)))"
  "onSuccessAction (fst (fix_success nodes i s)) \<noteq> GoToStep \<Longrightarrow>
     onSuccessStepId (fst (fix_success nodes i s)) = 0"
  by (auto simp: fix_success_def Let_def split: if_splits option.splits)

lemma fix_fail_fields:
  "stepId (fst (fix_fail nodes i s)) = stepId s"
  "onSuccessAction (fst (fix_fail nodes i s)) = onSuccessAction s"
  "onSuccessStepId (fst (fix_fail nodes i s)) = onSuccessStepId s"
  "onFailAction (fst (fix_fail nodes i s)) = GoToStep \<Longrightarrow>
     Option.bind (onFailTarget (nodes ! i)) (positionOf nodes)
       = Some (onFailStepId (fst (fix_fail nodes i s)))"
  "onFailAction (fst (fix_fail nodes i s)) \<noteq> GoToStep \<Longrightarrow>
     onFailStepId (fst (fix_fail nodes i s)) = 0"
  by (auto simp: fix_fail_def Let_def split: if_splits option.splits)

text \<open>The three rules of \<open>applyEndOfListDefaults\<close>, as what they do to a step.\<close>

lemma end_defaults_fst:
  "fst (applyEndOfListDefaults s isLast was) =
     (let s1 = (if isLast \<and> \<not> was \<and> onSuccessAction s = GoToNextStep
                then s\<lparr>onSuccessAction := QuitWithSuccess, onSuccessStepId := 0\<rparr> else s);
          s2 = (if isLast \<and> \<not> was \<and> onFailAction s = GoToNextStep
                then s1\<lparr>onFailAction := QuitWithFailure, onFailStepId := 0\<rparr> else s1)
      in if was \<and> \<not> isLast \<and> onSuccessAction s = QuitWithSuccess
            \<and> onFailAction s = QuitWithFailure
         then s2\<lparr>onSuccessAction := GoToNextStep, onSuccessStepId := 0\<rparr> else s2)"
  by (simp add: applyEndOfListDefaults_def Let_def)

lemma end_defaults_same:
  "isLast = was \<Longrightarrow> applyEndOfListDefaults s isLast was = (s, [])"
  by (simp add: applyEndOfListDefaults_def Let_def)

lemma rebuild_step_fst:
  "fst (rebuild_step nodes i) =
     fst (applyEndOfListDefaults
            (fst (fix_fail nodes i (fst (fix_success nodes i ((nstep (nodes ! i))\<lparr>stepId := int i + 1\<rparr>)))))
            (i + 1 = length nodes) (wasLast (nodes ! i)))"
  by (simp add: rebuild_step_def Let_def case_prod_beta)

lemma rebuild_step_closed:
  shows "stepId (fst (rebuild_step nodes i)) = int i + 1"
    and "closed_step (length nodes) (fst (rebuild_step nodes i))"
proof -
  let ?s0 = "(nstep (nodes ! i))\<lparr>stepId := int i + 1\<rparr>"
  let ?s1 = "fst (fix_success nodes i ?s0)"
  let ?s2 = "fst (fix_fail nodes i ?s1)"
  have "stepId ?s2 = int i + 1" by (simp add: fix_fail_fields(1) fix_success_fields(1))
  then show "stepId (fst (rebuild_step nodes i)) = int i + 1"
    by (simp add: rebuild_step_fst end_defaults_fst Let_def)
  have succ: "if onSuccessAction ?s2 = GoToStep
      then 1 \<le> onSuccessStepId ?s2 \<and> onSuccessStepId ?s2 \<le> int (length nodes)
      else onSuccessStepId ?s2 = 0"
    using fix_success_fields(4,5) [of nodes i ?s0] positionOf_range
    by (simp only: fix_fail_fields) (fastforce simp: bind_eq_Some_conv)
  have fail: "if onFailAction ?s2 = GoToStep
      then 1 \<le> onFailStepId ?s2 \<and> onFailStepId ?s2 \<le> int (length nodes)
      else onFailStepId ?s2 = 0"
    using fix_fail_fields(4,5) [of nodes i ?s1] positionOf_range
    by (fastforce simp: bind_eq_Some_conv)
  show "closed_step (length nodes) (fst (rebuild_step nodes i))"
    unfolding closed_step_def all_bool_eq rebuild_step_fst end_defaults_fst Let_def
    using succ fail by (auto split: if_splits)
qed

lemma steps_rebuild:
  "steps (fst (rebuild j nodes rm)) = map (\<lambda>i. fst (rebuild_step nodes i)) [0 ..< length nodes]"
  by (simp add: rebuild_def Let_def case_prod_beta)

lemma start_rebuild:
  "startStepId (fst (rebuild j nodes rm)) =
     (if list_ex (\<lambda>n. stepId (nstep n) = startStepId j) rm then 1
      else case find_node nodes (startStepId j) of None \<Rightarrow> 1 | Some i \<Rightarrow> int i + 1)"
  by (simp add: rebuild_def Let_def case_prod_beta split: option.split)

lemma rebuild_closed:
  assumes "nodes \<noteq> []"
  shows "closed (fst (rebuild j nodes rm))"
proof -
  let ?j = "fst (rebuild j nodes rm)"
  have len: "length (steps ?j) = length nodes" by (simp add: steps_rebuild)
  have "numbered ?j"
    by (rule numberedI) (simp add: steps_rebuild rebuild_step_closed)
  moreover have "1 \<le> startStepId ?j \<and> startStepId ?j \<le> int (length nodes)"
    using assms find_index_SomeD
    by (fastforce simp: start_rebuild find_node_def Suc_le_eq split: option.split)
  moreover have "list_all (closed_step (length nodes)) (steps ?j)"
    by (simp add: steps_rebuild rebuild_step_closed list_all_iff)
  ultimately show ?thesis using assms len by (auto simp: closed_def)
qed

lemma length_toNodes [simp]: "length (toNodes j) = length (steps j)"
  by (simp add: toNodes_def ordered_steps_def Let_def)

lemma map_nstep_toNodes: "map nstep (toNodes j) = ordered_steps j"
  by (simp add: toNodes_def Let_def o_def case_prod_beta)

lemma find_node_None_iff: "find_node (toNodes j) k = None \<longleftrightarrow> k \<notin> stepId ` set (steps j)"
proof -
  have "find_node (toNodes j) k = None \<longleftrightarrow> k \<notin> set (map stepId (map nstep (toNodes j)))"
    by (auto simp: find_node_def find_index_None_iff)
  then show ?thesis by (simp add: map_nstep_toNodes ordered_steps_def)
qed

section \<open>Edits close the job\<close>

datatype step_edit =
    Add "int option" "job_step \<Rightarrow> job_step"
  | Remove int
  | Move int direction
  | Reorder int int

fun apply_edit :: "job_definition \<Rightarrow> step_edit \<Rightarrow> job_definition \<times> edit_warning list" where
  "apply_edit j (Add after patch) = addStep j after patch"
| "apply_edit j (Remove k) = removeStep j k"
| "apply_edit j (Move k d) = moveStep j k d"
| "apply_edit j (Reorder k i) = reorderStep j k i"

lemma addStep_rebuild:
  obtains at created where "fst (addStep j after patch) =
    fst (rebuild j (insert_at at created (toNodes j)) [])"
  by (simp add: addStep_def Let_def case_prod_beta)

lemma insert_at_ne [simp]: "insert_at i x xs \<noteq> []"
  by (simp add: insert_at_def)

lemma apply_edit_closed:
  "fst (apply_edit j e) = j \<or> closed (fst (apply_edit j e))"
proof (cases e)
  case (Add after patch)
  then show ?thesis
    using addStep_rebuild [of j after patch] rebuild_closed insert_at_ne
    by (metis apply_edit.simps(1))
next
  case (Remove k)
  have "remove_at i xs \<noteq> []" if "i < length xs" "length xs \<noteq> Suc 0" for i and xs :: "node list"
    using that by (metis length_remove_at One_nat_def diff_is_0_eq le_neq_implies_less less_one
        list.size(3) not_less_zero linorder_not_le less_Suc0)
  moreover have "i < length (toNodes j)" if "find_node (toNodes j) k = Some i" for i
    using that find_index_SomeD by (fastforce simp: find_node_def)
  ultimately show ?thesis
    using Remove by (auto simp: removeStep_def Let_def rebuild_closed split: option.split)
next
  case (Move k d)
  have "swap_at i i' xs \<noteq> []" if "i < length xs" for i i' and xs :: "node list"
    using that by (auto simp: swap_at_def)
  moreover have "i < length (toNodes j)" if "find_node (toNodes j) k = Some i" for i
    using that find_index_SomeD by (fastforce simp: find_node_def)
  ultimately show ?thesis
    using Move by (auto simp: moveStep_def Let_def rebuild_closed split: option.split direction.split)
next
  case (Reorder k i)
  then show ?thesis
    by (auto simp: reorderStep_def Let_def rebuild_closed split: option.split)
qed

text \<open>
  C15. Whatever job the editor starts from, once an edit (adding, removing, moving or reordering a
  step) has changed it, and after any further edits, the steps are numbered 1..n, the job starts
  at one of them and every jump lands on one of them.
\<close>

theorem edits_closed:
  assumes "closed j \<or> fst (apply_edit j e) \<noteq> j"
  shows "closed (foldl (\<lambda>j e. fst (apply_edit j e)) (fst (apply_edit j e)) es)"
proof (induction es rule: rev_induct)
  case Nil
  then show ?case using assms apply_edit_closed [of j e] by auto
next
  case (snoc d es)
  let ?j = "foldl (\<lambda>j e. fst (apply_edit j e)) (fst (apply_edit j e)) es"
  have "closed (fst (apply_edit ?j d))"
    using apply_edit_closed [of ?j d] snoc.IH by (elim disjE) (simp_all only:)
  then show ?case by simp
qed

text \<open>A job whose second step jumps to a step 9 that does not exist.\<close>

definition broken_job :: job_definition where
  "broken_job = job_with [plain_step 1 ''A'',
     (plain_step 2 ''B'')\<lparr>onFailAction := 4, onFailStepId := 9\<rparr>, plain_step 3 ''C'']"

theorem edits_closed_witness:
  "\<not> closed broken_job \<and>
   closed (foldl (\<lambda>j e. fst (apply_edit j e)) (fst (apply_edit broken_job (Reorder 3 0)))
     [Remove 1])"
proof
  show "\<not> closed broken_job" by code_simp
  have "fst (apply_edit broken_job (Reorder 3 0)) \<noteq> broken_job" by code_simp
  then show "closed (foldl (\<lambda>j e. fst (apply_edit j e)) (fst (apply_edit broken_job (Reorder 3 0)))
     [Remove 1])" by (intro edits_closed disjI2)
qed

section \<open>References keep their meaning\<close>

text \<open>Everything of a step but its number and its branches.\<close>

definition body :: "job_step \<Rightarrow> job_step" where
  "body s = s\<lparr>stepId := 0, onSuccessAction := 0, onSuccessStepId := 0, onFailAction := 0,
              onFailStepId := 0\<rparr>"

text \<open>
  Each step of \<open>j\<close> with its number in \<open>D\<close> is in \<open>j'\<close> under the number \<open>p\<close> gives it, with the same
  body; a jump to a step in \<open>D\<close> follows that step; any other branch is kept, except that a step
  that moves into or out of the last place may have its ending adjusted.
\<close>

definition relocates :: "(int \<Rightarrow> int) \<Rightarrow> int set \<Rightarrow> job_definition \<Rightarrow> job_definition \<Rightarrow> bool" where
  "relocates p D j j' \<longleftrightarrow>
     inj_on p D \<and>
     (startStepId j \<in> D \<longrightarrow> startStepId j' = p (startStepId j)) \<and>
     (\<forall>s \<in> set (steps j). stepId s \<in> D \<longrightarrow>
        (\<exists>s' \<in> set (steps j'). stepId s' = p (stepId s) \<and> body s' = body s \<and>
           (\<forall>b. if br_action b s = GoToStep
                then br_target b s \<in> D \<longrightarrow>
                       br_action b s' = GoToStep \<and> br_target b s' = p (br_target b s)
                else (stepId s = int (length (steps j)) \<longleftrightarrow> p (stepId s) = int (length (steps j')))
                       \<longrightarrow> br_action b s' = br_action b s)))"

lemma sorted_ordered: "numbered j \<Longrightarrow> ordered_steps j = steps j"
  by (simp add: ordered_steps_def sort_key_id_if_sorted numbered_sorted)

lemma closed_numbered: "closed j \<Longrightarrow> numbered j"
  by (simp add: closed_def)

lemma node_with_id_numbered:
  assumes "numbered j" and "1 \<le> k" and "k \<le> int (length (steps j))"
  shows "node_with_id (steps j) k = Some (nat k - 1)"
proof -
  let ?e = "enumerate 0 (steps j)"
  have d: "distinct (map (\<lambda>p. stepId (snd p)) ?e)"
    using numbered_distinct [OF assms(1)] by (simp add: map_map [symmetric, unfolded o_def] del: map_map)
  have i: "nat k - 1 < length (steps j)" using assms(2,3) by auto
  then have m: "(nat k - 1, steps j ! (nat k - 1)) \<in> set ?e"
    by (simp add: in_set_enumerate_eq)
  have "stepId (steps j ! (nat k - 1)) = k"
    using numbered_nth [OF assms(1) i] assms(2) by auto
  with last_by_distinct [OF d m] show ?thesis by (simp add: node_with_id_def)
qed

lemma toNodes_nth:
  assumes "closed j" and "i < length (steps j)"
  shows "toNodes j ! i = \<lparr> nid = i, nstep = steps j ! i,
    onSuccessTarget = (if onSuccessAction (steps j ! i) = GoToStep
                       then Some (nat (onSuccessStepId (steps j ! i)) - 1) else None),
    onFailTarget = (if onFailAction (steps j ! i) = GoToStep
                    then Some (nat (onFailStepId (steps j ! i)) - 1) else None),
    wasLast = (i + 1 = length (steps j)) \<rparr>"
proof -
  have "closed_step (length (steps j)) (steps j ! i)"
    using assms by (auto simp: closed_def list_all_length)
  then show ?thesis
    using assms node_with_id_numbered [OF closed_numbered [OF assms(1)]]
    by (auto simp: toNodes_def Let_def sorted_ordered closed_numbered nth_enumerate_eq
        closed_step_def all_bool_eq)
qed

lemma positionOf_nth:
  assumes "distinct (map nid nodes)" and "i < length nodes"
  shows "positionOf nodes (nid (nodes ! i)) = Some (int i + 1)"
proof -
  have "find_index (\<lambda>n. nid n = nid (nodes ! i)) nodes = Some i"
    using assms by (auto simp: find_index_Some_iff nth_eq_iff_index_eq [of "map nid nodes", simplified]
        distinct_conv_nth)
  then show ?thesis by (simp add: positionOf_def)
qed

text \<open>
  A placement of the nodes of \<open>j\<close> with index in \<open>D\<close> in a new node list, and what \<open>rebuild\<close> makes
  of the branches of a placed node.
\<close>

definition placed :: "job_definition \<Rightarrow> node list \<Rightarrow> (int \<Rightarrow> int) \<Rightarrow> int set \<Rightarrow> bool" where
  "placed j nodes p D \<longleftrightarrow>
     distinct (map nid nodes) \<and> D \<subseteq> {1 .. int (length (steps j))} \<and>
     (\<forall>k \<in> D. 1 \<le> p k \<and> p k \<le> int (length nodes) \<and>
        nodes ! (nat (p k) - 1) = toNodes j ! (nat k - 1))"

lemma placed_position:
  assumes "closed j" and "placed j nodes p D" and "k \<in> D"
  shows "positionOf nodes (nat k - 1) = Some (p k)"
proof -
  have "k \<in> {1 .. int (length (steps j))}" using assms(2,3) by (auto simp: placed_def)
  then have k: "1 \<le> k" "nat k - 1 < length (steps j)" by auto
  have p: "1 \<le> p k" "nat (p k) - 1 < length nodes" "nodes ! (nat (p k) - 1) = toNodes j ! (nat k - 1)"
    using assms(2,3) unfolding placed_def by (auto simp: nat_diff_distrib)
  have "nid (nodes ! (nat (p k) - 1)) = nat k - 1"
    unfolding p(3) by (simp only: toNodes_nth [OF assms(1) k(2)] node.select_convs)
  with positionOf_nth [of nodes, OF _ p(2)] assms(2) p(1)
  show ?thesis by (auto simp: placed_def)
qed

lemma placed_step:
  assumes c: "closed j" and pl: "placed j nodes p D" and "s \<in> set (steps j)" and D: "stepId s \<in> D"
  defines "q \<equiv> nat (p (stepId s)) - 1"
  defines "s' \<equiv> fst (rebuild_step nodes q)"
  shows "q < length nodes" and "int q + 1 = p (stepId s)"
    and "fst (fix_success nodes q ((nstep (nodes ! q))\<lparr>stepId := int q + 1\<rparr>)) =
         (if onSuccessAction s = GoToStep
          then if onSuccessStepId s \<in> D
               then s\<lparr>stepId := int q + 1, onSuccessStepId := p (onSuccessStepId s)\<rparr>
               else fst (fix_success nodes q (s\<lparr>stepId := int q + 1\<rparr>))
          else s\<lparr>stepId := int q + 1, onSuccessStepId := 0\<rparr>)"
    and "onFailAction t = onFailAction s \<Longrightarrow> fst (fix_fail nodes q t) =
         (if onFailAction s = GoToStep
          then if onFailStepId s \<in> D then t\<lparr>onFailStepId := p (onFailStepId s)\<rparr>
               else fst (fix_fail nodes q t)
          else t\<lparr>onFailStepId := 0\<rparr>)"
    and "wasLast (nodes ! q) \<longleftrightarrow> stepId s = int (length (steps j))"
proof -
  obtain i where i: "i < length (steps j)" and s: "s = steps j ! i"
    using assms(3) by (auto simp: in_set_conv_nth)
  have id: "stepId s = int i + 1" using numbered_nth [OF closed_numbered [OF c] i] s by simp
  have p: "1 \<le> p (stepId s)" "p (stepId s) \<le> int (length nodes)"
    "nodes ! q = toNodes j ! (nat (stepId s) - 1)"
    using pl D unfolding placed_def q_def by auto
  show "q < length nodes" and "int q + 1 = p (stepId s)" using p(1,2) by (auto simp: q_def)
  have node: "nodes ! q = toNodes j ! i" using p(3) id by (simp add: nat_add_distrib)
  show "fst (fix_success nodes q ((nstep (nodes ! q))\<lparr>stepId := int q + 1\<rparr>)) =
         (if onSuccessAction s = GoToStep
          then if onSuccessStepId s \<in> D
               then s\<lparr>stepId := int q + 1, onSuccessStepId := p (onSuccessStepId s)\<rparr>
               else fst (fix_success nodes q (s\<lparr>stepId := int q + 1\<rparr>))
          else s\<lparr>stepId := int q + 1, onSuccessStepId := 0\<rparr>)"
    using placed_position [OF c pl]
    by (simp add: node toNodes_nth [OF c i] fix_success_def flip: s)
  show "fst (fix_fail nodes q t) =
         (if onFailAction s = GoToStep
          then if onFailStepId s \<in> D then t\<lparr>onFailStepId := p (onFailStepId s)\<rparr>
               else fst (fix_fail nodes q t)
          else t\<lparr>onFailStepId := 0\<rparr>)" if "onFailAction t = onFailAction s"
    using placed_position [OF c pl] that
    by (simp add: node toNodes_nth [OF c i] fix_fail_def flip: s)
  show "wasLast (nodes ! q) \<longleftrightarrow> stepId s = int (length (steps j))"
    using id by (auto simp: node toNodes_nth [OF c i])
qed

lemma body_rebuild: "body (fst (rebuild_step nodes i)) = body (nstep (nodes ! i))"
proof -
  have "body (fst (fix_success nodes i t)) = body t" "body (fst (fix_fail nodes i t)) = body t"
    "body (fst (applyEndOfListDefaults t l w)) = body t" for t l w
    by (simp_all add: fix_success_def fix_fail_def end_defaults_fst body_def Let_def
        split: option.split)
  then show ?thesis by (simp add: rebuild_step_fst body_def)
qed

lemma end_keeps_jump:
  "br_action b s = GoToStep \<Longrightarrow>
     br_action b (fst (applyEndOfListDefaults s l w)) = GoToStep \<and>
     br_target b (fst (applyEndOfListDefaults s l w)) = br_target b s"
  by (cases b) (simp_all add: end_defaults_fst Let_def)

lemma placed_branches:
  assumes c: "closed j" and pl: "placed j nodes p D" and s: "s \<in> set (steps j)" and D: "stepId s \<in> D"
  defines "q \<equiv> nat (p (stepId s)) - 1"
  shows "if br_action b s = GoToStep
         then br_target b s \<in> D \<longrightarrow>
                br_action b (fst (rebuild_step nodes q)) = GoToStep \<and>
                br_target b (fst (rebuild_step nodes q)) = p (br_target b s)
         else (stepId s = int (length (steps j)) \<longleftrightarrow> p (stepId s) = int (length nodes))
                \<longrightarrow> br_action b (fst (rebuild_step nodes q)) = br_action b s"
proof -
  note P = placed_step [OF c pl s D, folded q_def]
  let ?s1 = "fst (fix_success nodes q ((nstep (nodes ! q))\<lparr>stepId := int q + 1\<rparr>))"
  let ?s2 = "fst (fix_fail nodes q ?s1)"
  have r: "fst (rebuild_step nodes q) =
      fst (applyEndOfListDefaults ?s2 (q + 1 = length nodes) (wasLast (nodes ! q)))"
    by (simp add: rebuild_step_fst)
  have f1: "onFailAction ?s1 = onFailAction s"
    unfolding P(3) by (simp add: fix_success_fields)
  have succ: "onSuccessAction s = GoToStep \<Longrightarrow> onSuccessStepId s \<in> D \<Longrightarrow>
      onSuccessAction ?s1 = GoToStep \<and> onSuccessStepId ?s1 = p (onSuccessStepId s)"
    "onSuccessAction s \<noteq> GoToStep \<Longrightarrow> onSuccessAction ?s1 = onSuccessAction s"
    unfolding P(3) by simp_all
  have fail: "onFailAction ?s2 = GoToStep \<and> onFailStepId ?s2 = p (onFailStepId s)"
    if "onFailAction s = GoToStep" "onFailStepId s \<in> D"
  proof -
    have "?s2 = ?s1\<lparr>onFailStepId := p (onFailStepId s)\<rparr>"
      by (rule trans [OF P(4) [OF f1]]) (simp only: that simp_thms if_True)
    then show ?thesis using f1 that(1) by simp
  qed
  have fail': "onFailAction ?s2 = onFailAction s" if "onFailAction s \<noteq> GoToStep"
  proof -
    have "?s2 = ?s1\<lparr>onFailStepId := 0\<rparr>"
      by (rule trans [OF P(4) [OF f1]]) (simp only: that simp_thms if_False)
    then show ?thesis using f1 by simp
  qed
  have jump: "br_action b ?s2 = GoToStep \<and> br_target b ?s2 = p (br_target b s)"
    if "br_action b s = GoToStep" "br_target b s \<in> D"
    using that succ(1) fail by (cases b) (simp_all only: br_simps fix_fail_fields simp_thms not_False_eq_True)
  have keep: "br_action b ?s2 = br_action b s" if "br_action b s \<noteq> GoToStep"
    using that succ(2) fail' by (cases b) (simp_all only: br_simps fix_fail_fields simp_thms not_False_eq_True)
  have flags: "(stepId s = int (length (steps j)) \<longleftrightarrow> p (stepId s) = int (length nodes)) \<Longrightarrow>
      (q + 1 = length nodes) = wasLast (nodes ! q)"
    using P(2,5) by auto
  have keep': "br_action b (fst (rebuild_step nodes q)) = br_action b s"
    if "br_action b s \<noteq> GoToStep"
      "stepId s = int (length (steps j)) \<longleftrightarrow> p (stepId s) = int (length nodes)"
    unfolding r end_defaults_same [OF flags [OF that(2)]] fst_conv by (rule keep [OF that(1)])
  have jump': "br_action b (fst (rebuild_step nodes q)) = GoToStep \<and>
      br_target b (fst (rebuild_step nodes q)) = p (br_target b s)"
    if "br_action b s = GoToStep" "br_target b s \<in> D"
    unfolding r using end_keeps_jump [OF conjunct1 [OF jump [OF that]]] jump [OF that] by metis
  show ?thesis
  proof (cases "br_action b s = GoToStep")
    case True
    then show ?thesis unfolding if_P [OF True] using jump' by blast
  next
    case False
    then show ?thesis unfolding if_not_P [OF False] using keep' by blast
  qed
qed

lemma placed_relocates:
  assumes c: "closed j" and pl: "placed j nodes p D" and "inj_on p D"
    and start: "startStepId j \<in> D \<Longrightarrow>
      find_node nodes (startStepId j) = Some (nat (p (startStepId j)) - 1) \<and>
      \<not> list_ex (\<lambda>n. stepId (nstep n) = startStepId j) rm"
  shows "relocates p D j (fst (rebuild j nodes rm))"
  unfolding relocates_def
proof (intro conjI ballI impI)
  show "inj_on p D" by fact
  assume "startStepId j \<in> D"
  then show "startStepId (fst (rebuild j nodes rm)) = p (startStepId j)"
    using start pl by (auto simp: start_rebuild placed_def)
next
  fix s assume s: "s \<in> set (steps j)" and D: "stepId s \<in> D"
  define q where "q = nat (p (stepId s)) - 1"
  let ?s' = "fst (rebuild_step nodes q)"
  note P = placed_step [OF c pl s D, folded q_def]
  have len: "length (steps (fst (rebuild j nodes rm))) = length nodes"
    by (simp add: steps_rebuild)
  have "?s' \<in> set (steps (fst (rebuild j nodes rm)))"
    using P(1) by (simp add: steps_rebuild)
  moreover have "stepId ?s' = p (stepId s)" using P(2) by (simp add: rebuild_step_closed)
  moreover have "body ?s' = body s"
  proof -
    obtain i where i: "i < length (steps j)" "s = steps j ! i"
      using s by (auto simp: in_set_conv_nth)
    have "nodes ! q = toNodes j ! (nat (stepId s) - 1)"
      using pl D by (auto simp: placed_def q_def)
    then have "nodes ! q = toNodes j ! i"
      using numbered_nth [OF closed_numbered [OF c] i(1)] i(2) by (simp add: nat_add_distrib)
    then show ?thesis by (simp add: body_rebuild toNodes_nth [OF c i(1)] i(2))
  qed
  ultimately show "\<exists>s' \<in> set (steps (fst (rebuild j nodes rm))).
      stepId s' = p (stepId s) \<and> body s' = body s \<and>
      (\<forall>b. if br_action b s = GoToStep
           then br_target b s \<in> D \<longrightarrow>
                  br_action b s' = GoToStep \<and> br_target b s' = p (br_target b s)
           else (stepId s = int (length (steps j)) \<longleftrightarrow>
                 p (stepId s) = int (length (steps (fst (rebuild j nodes rm)))))
                  \<longrightarrow> br_action b s' = br_action b s)"
    unfolding len using placed_branches [OF c pl s D, folded q_def] by blast
qed

section \<open>Where each edit puts the steps\<close>

lemma nth_insert_at:
  "i \<le> length xs \<Longrightarrow> q \<le> length xs \<Longrightarrow>
     insert_at i x xs ! q = (if q < i then xs ! q else if q = i then x else xs ! (q - 1))"
  by (auto simp: insert_at_def nth_append nth_Cons' min_def)

lemma nth_remove_at:
  "i < length xs \<Longrightarrow> q < length xs - 1 \<Longrightarrow>
     remove_at i xs ! q = (if q < i then xs ! q else xs ! (q + 1))"
  by (auto simp: remove_at_def nth_append min_def)

lemma swap_at_Suc:
  "i + 1 < length xs \<Longrightarrow> swap_at i (i + 1) xs = insert_at (i + 1) (xs ! i) (remove_at i xs)"
  by (rule nth_equalityI)
     (auto simp: swap_at_def nth_insert_at nth_remove_at nth_list_update less_Suc_eq)

lemma swap_at_pred:
  "0 < i \<Longrightarrow> i < length xs \<Longrightarrow> swap_at i (i - 1) xs = insert_at (i - 1) (xs ! i) (remove_at i xs)"
  by (rule nth_equalityI)
     (auto simp: swap_at_def nth_insert_at nth_remove_at nth_list_update)

lemma map_nid_toNodes: "map nid (toNodes j) = [0 ..< length (steps j)]"
  by (rule nth_equalityI) (auto simp: toNodes_def ordered_steps_def Let_def nth_enumerate_eq)

lemma stepId_toNodes:
  assumes "closed j" and "i < length (steps j)"
  shows "stepId (nstep (toNodes j ! i)) = int i + 1"
  using toNodes_nth [OF assms] numbered_nth [OF closed_numbered [OF assms(1)] assms(2)] by simp

lemma find_node_first:
  assumes "q < length nodes" and "stepId (nstep (nodes ! q)) = k"
    and "\<And>r. r < q \<Longrightarrow> stepId (nstep (nodes ! r)) \<noteq> k"
  shows "find_node nodes k = Some q"
  using assms by (simp add: find_node_def find_index_Some_iff)

lemma find_node_closed:
  assumes "closed j"
  shows "find_node (toNodes j) k =
    (if 1 \<le> k \<and> k \<le> int (length (steps j)) then Some (nat k - 1) else None)"
proof (cases "1 \<le> k \<and> k \<le> int (length (steps j))")
  case True
  then have "nat k - 1 < length (steps j)" "int (nat k - 1) + 1 = k" by auto
  then have "find_node (toNodes j) k = Some (nat k - 1)"
    by (intro find_node_first) (simp_all add: stepId_toNodes [OF assms])
  with True show ?thesis by simp
next
  case False
  have "k \<notin> set (map stepId (steps j))"
    unfolding numbered_set [OF closed_numbered [OF assms]] using False by auto
  then show ?thesis unfolding if_not_P [OF False] by (simp add: find_node_None_iff)
qed

lemma distinct_submset:
  assumes "mset xs \<subseteq># mset ys" and "distinct ys"
  shows "distinct xs"
proof -
  have "count (mset xs) a = (if a \<in> set xs then 1 else 0)" for a
  proof -
    have "count (mset xs) a \<le> count (mset ys) a" using assms(1) by (rule mset_subset_eq_count)
    also have "\<dots> \<le> 1" using assms(2) by (simp add: distinct_count_atmost_1)
    finally have "count (mset xs) a \<le> 1" .
    moreover have "0 < count (mset xs) a \<longleftrightarrow> a \<in> set xs" by simp
    ultimately show ?thesis by (cases "a \<in> set xs") (auto simp: le_Suc_eq)
  qed
  then show ?thesis by (simp add: distinct_count_atmost_1)
qed

lemma step_ids_mset:
  assumes "closed j" and "mset nodes \<subseteq># mset (toNodes j)"
  shows "distinct (map nid nodes)" and "distinct (map (\<lambda>n. stepId (nstep n)) nodes)"
proof -
  have d: "distinct (map f nodes)" if "distinct (map f (toNodes j))" for f :: "node \<Rightarrow> 'a"
    using that assms(2)
    using distinct_submset [of "map f nodes" "map f (toNodes j)"] assms(2)
    by (simp add: image_mset_subseteq_mono)
  show "distinct (map nid nodes)" by (rule d) (simp add: map_nid_toNodes)
  have "map (\<lambda>n. stepId (nstep n)) (toNodes j) = map stepId (map nstep (toNodes j))" by simp
  also have "\<dots> = map stepId (steps j)"
    by (simp only: map_nstep_toNodes sorted_ordered [OF closed_numbered [OF assms(1)]])
  finally show "distinct (map (\<lambda>n. stepId (nstep n)) nodes)"
    by (intro d) (simp only: numbered_distinct [OF closed_numbered [OF assms(1)]])
qed

lemma find_node_placed:
  assumes c: "closed j" and pl: "placed j nodes p D" and k: "k \<in> D"
    and "distinct (map (\<lambda>n. stepId (nstep n)) nodes)"
  shows "find_node nodes k = Some (nat (p k) - 1)"
proof -
  let ?q = "nat (p k) - 1"
  have "k \<in> {1 .. int (length (steps j))}" and "nodes ! ?q = toNodes j ! (nat k - 1)"
    and "1 \<le> p k" "p k \<le> int (length nodes)"
    using pl k by (auto simp: placed_def)
  then have q: "?q < length nodes" and id: "stepId (nstep (nodes ! ?q)) = k"
    using stepId_toNodes [OF c, of "nat k - 1"] by auto
  have "stepId (nstep (nodes ! r)) \<noteq> k" if "r < ?q" for r
    using nth_eq_iff_index_eq [OF assms(4), of r ?q] that q id by auto
  then show ?thesis using q id by (intro find_node_first) auto
qed




fun keeps_number :: "step_edit \<Rightarrow> bool" where
  "keeps_number (Add _ patch) \<longleftrightarrow> (\<forall>n. stepId (patch (newStepTemplate n)) = 1)"
| "keeps_number _ \<longleftrightarrow> True"






lemma find_node_length: "find_node nodes k = Some i \<Longrightarrow> i < length nodes"
  by (auto simp: find_node_def dest: find_index_SomeD)

lemma moveStep_reorder:
  "moveStep j k dir =
     (case find_node (toNodes j) k of None \<Rightarrow> (j, [])
      | Some i \<Rightarrow> reorderStep j k (int i + (if dir = Up then - 1 else 1)))"
proof (cases "find_node (toNodes j) k")
  case None
  then show ?thesis by (simp add: moveStep_def)
next
  case (Some i)
  then have i: "i < length (toNodes j)" by (rule find_node_length)
  show ?thesis
  proof (cases dir)
    case Up
    have "nat (max 0 (min (int (length (steps j)) - 1) (int i - 1))) = i - 1"
      using i by auto
    with Some Up i show ?thesis
      by (auto simp: moveStep_def reorderStep_def Let_def swap_at_pred simp flip: One_nat_def)
  next
    case Down
    have "nat (max 0 (min (int (length (steps j)) - 1) (int i + 1))) =
        (if i + 1 < length (steps j) then i + 1 else i)"
      using i by auto
    with Some Down i show ?thesis
      using swap_at_Suc [of i "toNodes j"] by (auto simp: moveStep_def reorderStep_def Let_def)
  qed
qed


lemma placed_insert:
  assumes c: "closed j" and at: "at \<le> length (steps j)" and "nid x = length (steps j)"
  defines "p \<equiv> \<lambda>k. if k \<le> int at then k else k + 1"
  shows "placed j (insert_at at x (toNodes j)) p {1 .. int (length (steps j))}"
proof -
  let ?nodes = "insert_at at x (toNodes j)" and ?D = "{1 .. int (length (steps j))}"
  have "mset (map nid ?nodes) = mset (length (steps j) # map nid (toNodes j))"
    using assms(3) by simp
  from mset_eq_imp_distinct_iff [OF this] have d: "distinct (map nid ?nodes)"
    by (simp add: map_nid_toNodes)
  have nth: "?nodes ! (nat (p k) - 1) = toNodes j ! (nat k - 1)" if "k \<in> ?D" for k
  proof -
    define m where "m = nat k - 1"
    have m: "k = int m + 1" "m < length (steps j)" using that by (auto simp: m_def)
    have e: "nat (p k) - 1 = (if m < at then m else m + 1)"
      unfolding p_def m(1) by auto
    show ?thesis unfolding e m_def [symmetric] using m(2) at by (auto simp: nth_insert_at)
  qed
  have rng: "1 \<le> p k \<and> p k \<le> int (length ?nodes)" if "k \<in> ?D" for k
    using that at by (auto simp: p_def)
  show ?thesis unfolding placed_def using d nth rng by blast
qed

lemma relocates_insert:
  assumes c: "closed j" and at: "1 \<le> at" "at \<le> length (steps j)"
    and x: "nid x = length (steps j)" "stepId (nstep x) = 1"
  defines "p \<equiv> \<lambda>k. if k \<le> int at then k else k + 1"
  shows "relocates p {1 .. int (length (steps j))} j
           (fst (rebuild j (insert_at at x (toNodes j)) []))"
proof -
  let ?nodes = "insert_at at x (toNodes j)" and ?D = "{1 .. int (length (steps j))}"
  have pl: "placed j ?nodes p ?D"
    unfolding p_def by (rule placed_insert [OF c at(2) x(1)])
  have find: "find_node ?nodes k = Some (nat (p k) - 1)" if k: "k \<in> ?D" for k
  proof (rule find_node_first)
    show "nat (p k) - 1 < length ?nodes" using k at by (auto simp: p_def)
    have id: "stepId (nstep (?nodes ! q)) =
        (if q < at then int q + 1 else if q = at then 1 else int q)" if "q \<le> length (steps j)" for q
      using that at x(2) by (auto simp: nth_insert_at stepId_toNodes [OF c])
    show "stepId (nstep (?nodes ! (nat (p k) - 1))) = k"
      using k at by (subst id) (auto simp: p_def)
    show "stepId (nstep (?nodes ! r)) \<noteq> k" if "r < nat (p k) - 1" for r
      using that k at by (subst id) (auto simp: p_def split: if_splits)
  qed
  have "inj_on p ?D" by (auto simp: p_def inj_on_def)
  then show ?thesis by (rule placed_relocates [OF c pl]) (simp add: find)
qed


lemma placed_remove:
  assumes c: "closed j" and f: "f < length (steps j)"
  defines "p \<equiv> \<lambda>k. if int f + 1 < k then k - 1 else k"
  shows "placed j (remove_at f (toNodes j)) p ({1 .. int (length (steps j))} - {int f + 1})"
    and "distinct (map (\<lambda>n. stepId (nstep n)) (remove_at f (toNodes j)))"
proof -
  let ?nodes = "remove_at f (toNodes j)" and ?D = "{1 .. int (length (steps j))} - {int f + 1}"
  have "mset ?nodes \<subseteq># mset (toNodes j)"
    using mset_remove_at [of f "toNodes j"] f
    by (metis length_toNodes add_mset_add_single mset_subset_eq_add_left)
  note d = step_ids_mset [OF c this]
  show "distinct (map (\<lambda>n. stepId (nstep n)) ?nodes)" by (rule d(2))
  have nth: "?nodes ! (nat (p k) - 1) = toNodes j ! (nat k - 1)" if "k \<in> ?D" for k
  proof -
    define m where "m = nat k - 1"
    have m: "k = int m + 1" "m < length (steps j)" "m \<noteq> f" using that by (auto simp: m_def)
    have e: "nat (p k) - 1 = (if f < m then m - 1 else m)"
      unfolding p_def m(1) by auto
    show ?thesis
      unfolding e m_def [symmetric] using m(2,3) f by (auto simp: nth_remove_at)
  qed
  have rng: "1 \<le> p k \<and> p k \<le> int (length ?nodes)" if "k \<in> ?D" for k
    unfolding p_def using that f by auto
  show "placed j ?nodes p ?D"
    unfolding placed_def using d(1) nth rng by auto
qed

lemma removeStep_rebuild:
  assumes "closed j" and "f < length (steps j)" and "length (steps j) \<noteq> 1"
  shows "removeStep j (int f + 1) = rebuild j (remove_at f (toNodes j)) [toNodes j ! f]"
  using assms by (simp add: removeStep_def find_node_closed Let_def nat_add_distrib)

lemma relocates_removed:
  assumes c: "closed j" and f: "f < length (steps j)" and n: "length (steps j) \<noteq> 1"
  shows "relocates (\<lambda>k. if int f + 1 < k then k - 1 else k)
           ({1 .. int (length (steps j))} - {int f + 1}) j (fst (removeStep j (int f + 1)))"
proof -
  let ?p = "\<lambda>k. if int f + 1 < k then k - 1 else k"
  let ?D = "{1 .. int (length (steps j))} - {int f + 1}"
  note pl = placed_remove [OF c f]
  have "inj_on ?p ?D"
  proof (rule inj_onI)
    fix x y assume "x \<in> ?D" "y \<in> ?D" "?p x = ?p y"
    then show "x = y" by (auto split: if_splits)
  qed
  then show ?thesis
    unfolding removeStep_rebuild [OF c f n]
  proof (rule placed_relocates [OF c pl(1)], intro conjI)
    assume D: "startStepId j \<in> ?D"
    show "find_node (remove_at f (toNodes j)) (startStepId j) = Some (nat (?p (startStepId j)) - 1)"
      by (rule find_node_placed [OF c pl(1) D pl(2)])
    show "\<not> list_ex (\<lambda>n. stepId (nstep n) = startStepId j) [toNodes j ! f]"
      using D stepId_toNodes [OF c f] by simp
  qed
qed



text \<open>A job with an error handler at the end that the first two steps jump to.\<close>

definition handler_job :: job_definition where
  "handler_job = job_with
     [(plain_step 1 ''A'')\<lparr>onFailAction := 4, onFailStepId := 4\<rparr>,
      (plain_step 2 ''B'')\<lparr>onFailAction := 4, onFailStepId := 4\<rparr>,
      (plain_step 3 ''C'')\<lparr>onSuccessAction := 1\<rparr>,
      (plain_step 4 ''E'')\<lparr>onSuccessAction := 1\<rparr>]"


text \<open>
  Moving a step one place up or down is reordering it to the neighbouring index: the arrow
  buttons and the drag handle agree, on every job, for the result and for the warnings.
\<close>

theorem moveStep_is_reorderStep:
  "moveStep j k dir =
     (case find_node (toNodes j) k of None \<Rightarrow> (j, [])
      | Some i \<Rightarrow> reorderStep j k (int i + (if dir = Up then - 1 else 1)))"
  by (rule moveStep_reorder)

section \<open>Insertion is undone by removal\<close>

text \<open>What \<open>rebuild\<close> makes of a step none of whose targets was dropped.\<close>

definition renumber :: "(int \<Rightarrow> int) \<Rightarrow> job_step \<Rightarrow> job_step" where
  "renumber p s = s\<lparr>stepId := p (stepId s),
     onSuccessStepId := (if onSuccessAction s = GoToStep then p (onSuccessStepId s) else 0),
     onFailStepId := (if onFailAction s = GoToStep then p (onFailStepId s) else 0)\<rparr>"

lemma placed_exact:
  assumes c: "closed j" and pl: "placed j nodes p D" and s: "s \<in> set (steps j)" and D: "stepId s \<in> D"
    and t: "\<And>b. br_action b s = GoToStep \<Longrightarrow> br_target b s \<in> D"
  shows "fst (rebuild_step nodes (nat (p (stepId s)) - 1)) =
    fst (applyEndOfListDefaults (renumber p s) (p (stepId s) = int (length nodes))
      (stepId s = int (length (steps j))))"
proof -
  define q where "q = nat (p (stepId s)) - 1"
  note P = placed_step [OF c pl s D, folded q_def]
  let ?s1 = "fst (fix_success nodes q ((nstep (nodes ! q))\<lparr>stepId := int q + 1\<rparr>))"
  have s1: "?s1 = s\<lparr>stepId := p (stepId s),
      onSuccessStepId := (if onSuccessAction s = GoToStep then p (onSuccessStepId s) else 0)\<rparr>"
    unfolding P(3) using t [of True] by (simp add: P(2))
  then have f1: "onFailAction ?s1 = onFailAction s" by simp
  have s2: "fst (fix_fail nodes q ?s1) = renumber p s"
    by (rule trans [OF P(4) [OF f1]]) (use t [of False] in \<open>simp add: s1 renumber_def\<close>)
  have "(q + 1 = length nodes) = (p (stepId s) = int (length nodes))" using P(2) by auto
  with s2 P(5) show ?thesis
    unfolding q_def [symmetric] by (simp only: rebuild_step_fst)
qed

lemma renumber_twice:
  assumes "closed_step n s" and "\<And>k. 1 \<le> k \<Longrightarrow> k \<le> int n \<Longrightarrow> p' (p k) = k"
    and "1 \<le> stepId s" "stepId s \<le> int n"
  shows "renumber p' (renumber p s) = s"
proof -
  have "onSuccessAction s = GoToStep \<Longrightarrow> p' (p (onSuccessStepId s)) = onSuccessStepId s"
    "onSuccessAction s \<noteq> GoToStep \<Longrightarrow> onSuccessStepId s = 0"
    "onFailAction s = GoToStep \<Longrightarrow> p' (p (onFailStepId s)) = onFailStepId s"
    "onFailAction s \<noteq> GoToStep \<Longrightarrow> onFailStepId s = 0"
    using assms(1,2) by (simp_all add: closed_step_def all_bool_eq)
  then show ?thesis
    using assms(2) [OF assms(3,4)] by (cases s) (auto simp: renumber_def)
qed

text \<open>The two end rules cancel: the ending one takes away is the ending the other puts back.\<close>

lemma end_defaults_cancel:
  assumes "renumber p' (renumber p s) = s"
    and "onSuccessAction s \<noteq> GoToNextStep" "onFailAction s \<noteq> GoToNextStep"
  shows "fst (applyEndOfListDefaults
      (renumber p' (fst (applyEndOfListDefaults (renumber p s) False True))) True False) = s"
proof (cases "onSuccessAction s = QuitWithSuccess \<and> onFailAction s = QuitWithFailure")
  case True
  then show ?thesis using assms(1)
    by (cases s) (auto simp: end_defaults_fst renumber_def)
next
  case False
  then have "fst (applyEndOfListDefaults (renumber p s) False True) = renumber p s"
    by (auto simp: end_defaults_fst renumber_def Let_def)
  then show ?thesis using assms by (simp add: end_defaults_fst Let_def)
qed

definition tidy_end :: "job_definition \<Rightarrow> bool" where
  "tidy_end j \<longleftrightarrow> onSuccessAction (last (steps j)) \<noteq> GoToNextStep \<and>
     onFailAction (last (steps j)) \<noteq> GoToNextStep"

definition added_position :: "job_definition \<Rightarrow> int option \<Rightarrow> nat" where
  "added_position j after =
     (case after of None \<Rightarrow> length (steps j)
      | Some a \<Rightarrow> if 1 \<le> a \<and> a \<le> int (length (steps j)) then nat a else length (steps j))"

lemma addStep_rebuild_at:
  assumes "closed j"
  shows "fst (addStep j after patch) =
    fst (rebuild j (insert_at (added_position j after)
      \<lparr> nid = length (steps j), nstep = patch (newStepTemplate (nextStepName j)),
        onSuccessTarget = None, onFailTarget = None, wasLast = False \<rparr> (toNodes j)) [])"
  by (cases after)
     (auto simp: addStep_def Let_def case_prod_beta added_position_def find_node_closed [OF assms])

lemma added_position_range:
  assumes "closed j"
  shows "1 \<le> added_position j after" and "added_position j after \<le> length (steps j)"
proof -
  have "1 \<le> length (steps j)" using assms by (cases "steps j") (auto simp: closed_def)
  then show "1 \<le> added_position j after" and "added_position j after \<le> length (steps j)"
    by (auto simp: added_position_def split: option.split)
qed

text \<open>One step through an insertion at \<open>at\<close> and the removal of the inserted step.\<close>

lemma step_there_and_back:
  assumes c: "closed j" and tidy: "tidy_end j" and at: "1 \<le> at" "at \<le> length (steps j)"
    and x: "nid x = length (steps j)" and i: "i < length (steps j)"
  defines "j1 \<equiv> fst (rebuild j (insert_at at x (toNodes j)) [])"
  shows "fst (rebuild_step (remove_at at (toNodes j1)) i) = steps j ! i"
proof -
  let ?nodes = "insert_at at x (toNodes j)" and ?n = "length (steps j)"
  let ?p = "\<lambda>k. if k \<le> int at then k else k + 1"
  let ?p' = "\<lambda>k. if int at + 1 < k then k - 1 else k"
  define s where "s = steps j ! i"
  define s1 where "s1 = fst (rebuild_step ?nodes (nat (?p (stepId s)) - 1))"
  have s: "s \<in> set (steps j)" and id: "stepId s = int i + 1"
    using i numbered_nth [OF closed_numbered [OF c] i] by (simp_all add: s_def)
  have cs: "closed_step ?n s" using c s by (auto simp: closed_def list_all_iff)
  then have t: "br_target b s \<in> {1 .. int ?n}" if "br_action b s = GoToStep" for b
    using that by (auto simp: closed_step_def)
  have c1: "closed j1" unfolding j1_def by (rule rebuild_closed) simp
  have n1: "length (steps j1) = ?n + 1" by (simp add: j1_def steps_rebuild)
  note pl1 = placed_insert [OF c at(2) x]
  have e1: "s1 = fst (applyEndOfListDefaults (renumber ?p s) (?p (stepId s) = int (length ?nodes))
      (stepId s = int ?n))"
    unfolding s1_def by (rule placed_exact [OF c pl1 s]) (use id i t in auto)
  have q: "nat (?p (stepId s)) - 1 < length ?nodes" using id i by auto
  then have mem: "s1 \<in> set (steps j1)"
    unfolding s1_def j1_def steps_rebuild set_map set_upt by (intro imageI) simp
  have id1: "stepId s1 = ?p (stepId s)" using id by (simp add: s1_def rebuild_step_closed)
  have f: "at < length (steps j1)" using n1 at by simp
  note pl2 = placed_remove(1) [OF c1 f]
  have inv: "?p' (?p k) = k" for k by auto
  have t1: "br_target b s1 \<in> {1 .. int (length (steps j1))} - {int at + 1}"
    if "br_action b s1 = GoToStep" for b
  proof -
    have "br_action b s = GoToStep \<and> br_target b s1 = ?p (br_target b s)"
      using that unfolding e1
      by (cases b) (auto simp: end_defaults_fst renumber_def Let_def split: if_splits)
    then show ?thesis using t [of b] at n1 by auto
  qed
  have len2: "length (remove_at at (toNodes j1)) = ?n" using f n1 by simp
  have "fst (rebuild_step (remove_at at (toNodes j1)) (nat (?p' (stepId s1)) - 1)) =
      fst (applyEndOfListDefaults (renumber ?p' s1) (?p' (stepId s1) = int ?n)
        (stepId s1 = int (length (steps j1))))"
    unfolding len2 [symmetric]
    by (rule placed_exact [OF c1 pl2 mem]) (use id1 id i n1 t1 in auto)
  moreover have "nat (?p' (stepId s1)) - 1 = i" unfolding id1 inv using id by simp
  ultimately have e2: "fst (rebuild_step (remove_at at (toNodes j1)) i) =
      fst (applyEndOfListDefaults (renumber ?p' s1) (stepId s = int ?n) (?p (stepId s) = int ?n + 1))"
    by (simp only: id1 inv n1 of_nat_add of_nat_1)
  have twice: "renumber ?p' (renumber ?p s) = s"
    by (rule renumber_twice [OF cs]) (use inv id i in auto)
  show ?thesis
  proof (cases "(stepId s = int ?n) = (?p (stepId s) = int ?n + 1)")
    case True
    have "int (length ?nodes) = int ?n + 1" by simp
    then have fl: "(?p (stepId s) = int (length ?nodes)) = (stepId s = int ?n)"
      using True by (simp only:)
    have "s1 = renumber ?p s"
      unfolding e1 end_defaults_same [OF fl] by (rule fst_conv)
    then show ?thesis using e2 end_defaults_same [OF True] twice by (simp add: s_def)
  next
    case False
    then have l: "stepId s = int ?n" "at = ?n" "?p (stepId s) \<noteq> int ?n + 1"
      using at id i by (auto split: if_splits)
    then have "i = ?n - 1" "steps j \<noteq> []" using id i by auto
    then have "s = last (steps j)" by (simp add: s_def last_conv_nth)
    then have "onSuccessAction s \<noteq> GoToNextStep" "onFailAction s \<noteq> GoToNextStep"
      using tidy by (auto simp: tidy_end_def)
    from end_defaults_cancel [OF twice this] show ?thesis
      unfolding e2 e1 using l by (simp add: s_def)
  qed
qed

text \<open>
  Adding a step and removing it again gives back the job, field for field, wherever the step
  is put: every reference is renumbered there and back, the start step returns, and the ending
  that the added step took from the last one is restored. The last step has to say where it
  ends, as the editor itself leaves it.
\<close>

theorem removeStep_addStep:
  assumes c: "closed j" and tidy: "tidy_end j" and patch: "keeps_number (Add after patch)"
  shows "fst (removeStep (fst (addStep j after patch)) (int (added_position j after) + 1)) = j"
proof -
  let ?n = "length (steps j)" and ?at = "added_position j after"
  let ?x = "\<lparr> nid = ?n, nstep = patch (newStepTemplate (nextStepName j)),
      onSuccessTarget = None, onFailTarget = None, wasLast = False \<rparr>"
  define j1 where "j1 = fst (rebuild j (insert_at ?at ?x (toNodes j)) [])"
  have j1: "fst (addStep j after patch) = j1"
    unfolding j1_def by (rule addStep_rebuild_at [OF c])
  have at: "1 \<le> ?at" "?at \<le> ?n" by (rule added_position_range [OF c])+
  have c1: "closed j1" unfolding j1_def by (rule rebuild_closed) simp
  have n1: "length (steps j1) = ?n + 1" by (simp add: j1_def steps_rebuild)
  have f: "?at < length (steps j1)" "length (steps j1) \<noteq> 1" using at n1 by auto
  define j2 where "j2 = fst (rebuild j1 (remove_at ?at (toNodes j1)) [toNodes j1 ! ?at])"
  have j2: "fst (removeStep j1 (int ?at + 1)) = j2"
    unfolding j2_def by (simp only: removeStep_rebuild [OF c1 f])
  have "steps j2 = map (\<lambda>i. steps j ! i) [0 ..< ?n]"
    unfolding j2_def steps_rebuild using f n1 step_there_and_back [OF c tidy at, of ?x, folded j1_def]
    by simp
  then have ss: "steps j2 = steps j" by (simp add: map_nth)
  have k: "startStepId j \<in> {1 .. int ?n}" using c by (simp add: closed_def)
  then have s1: "startStepId j1 = (if startStepId j \<le> int ?at then startStepId j else startStepId j + 1)"
    using relocates_insert [OF c at, of ?x] patch by (simp add: relocates_def j1_def)
  then have "startStepId j1 \<in> {1 .. int (length (steps j1))} - {int ?at + 1}"
    using k n1 at by auto
  then have "startStepId j2 = startStepId j"
    using relocates_removed [OF c1 f] s1 unfolding relocates_def j2 by auto
  moreover have "j2 = j\<lparr>steps := steps j2, startStepId := startStepId j2\<rparr>"
    by (simp add: j2_def j1_def rebuild_def Let_def case_prod_beta)
  ultimately show ?thesis unfolding j1 j2 using ss by simp
qed

theorem removeStep_addStep_witness:
  "fst (removeStep (fst (addStep handler_job (Some 2) (\<lambda>s. s\<lparr>command := ''x''\<rparr>))) 3) = handler_job"
proof -
  have "closed handler_job" "tidy_end handler_job" by code_simp+
  moreover have "keeps_number (Add (Some 2) (\<lambda>s. s\<lparr>command := ''x''\<rparr>))"
    by (simp add: newStepTemplate_def)
  moreover have "added_position handler_job (Some 2) = 2"
    by (simp add: added_position_def handler_job_def job_with_def)
  ultimately show ?thesis
    using removeStep_addStep [of handler_job "Some 2" "\<lambda>s. s\<lparr>command := ''x''\<rparr>"] by simp
qed

end
