(* ===== verification/JobSwitch.thy ===== *)
theory JobSwitch
  imports JobEditLaws
begin

text \<open>
  Switching a step off and on again (\<open>disableStep\<close>, \<open>enableStep\<close> of
  \<open>packages/protocol/src/job-edit.ts\<close>, modelled in theory JobEdit). SQL Agent has no disabled
  flag, so a disabled step is one the control flow goes around: disabling takes the step off every
  path while it keeps its row, and enabling restores the job that was disabled.
\<close>

section \<open>Disabling\<close>

lemma set_branch_simps [simp]:
  "set_branch True a t s = s\<lparr>onSuccessAction := a, onSuccessStepId := t\<rparr>"
  "set_branch False a t s = s\<lparr>onFailAction := a, onFailStepId := t\<rparr>"
  by (simp_all add: set_branch_def)


lemma nextStepAfter_br:
  "nextStepAfter j s b =
     (if br_action b s = GoToStep then or_null (br_target b s)
      else if br_action b s = GoToNextStep then next_in_order j (stepId s) else None)"
  by (simp add: nextStepAfter_def br_action_def br_target_def Let_def)

text \<open>The branches that lead to step \<open>k\<close> are exactly the ones \<open>arrivesHere\<close> finds.\<close>

definition leads :: "job_definition \<Rightarrow> int \<Rightarrow> job_step \<Rightarrow> bool \<Rightarrow> bool" where
  "leads j k s b \<longleftrightarrow> br_action b s = GoToStep \<and> br_target b s = k \<or>
     br_action b s = GoToNextStep \<and> nextStepAfter j s b = Some k"

definition rerouted :: "int option \<Rightarrow> bool \<Rightarrow> job_step \<Rightarrow> job_step" where
  "rerouted bypass b s =
     (case bypass of
        None \<Rightarrow> set_branch b (if b then QuitWithSuccess else QuitWithFailure) 0 s
      | Some t \<Rightarrow> set_branch b GoToStep t s)"

lemma rerouted_simps [simp]:
  "b \<noteq> c \<Longrightarrow> br_action c (rerouted bypass b s) = br_action c s"
  "b \<noteq> c \<Longrightarrow> br_target c (rerouted bypass b s) = br_target c s"
  "stepId (rerouted bypass b s) = stepId s" "body (rerouted bypass b s) = body s"
  by (auto simp: rerouted_def body_def split: option.split)

lemma disable_branch_fst:
  assumes "br_action b st = br_action b s" and "br_target b st = br_target b s"
  shows "fst (disable_branch j target bypass s (st, ws) b) =
    (if leads j (stepId target) s b then rerouted bypass b st else st)"
  using assms by (simp add: disable_branch_def leads_def rerouted_def Let_def split: option.split)

lemma disable_one_fst:
  "fst (disable_one j target bypass s) =
     (if stepId s = stepId target then s
      else (let s1 = (if leads j (stepId target) s True then rerouted bypass True s else s)
            in if leads j (stepId target) s False then rerouted bypass False s1 else s1))"
proof -
  define s1 where "s1 = (if leads j (stepId target) s True then rerouted bypass True s else s)"
  obtain ws where d: "disable_branch j target bypass s (s, []) True = (s1, ws)"
    using disable_branch_fst [of True s s j target bypass "[]"]
    by (metis s1_def prod.collapse)
  have "br_action False s1 = br_action False s" "br_target False s1 = br_target False s"
    using rerouted_simps(1,2) [of True False bypass s] by (auto simp: s1_def simp del: br_simps)
  from disable_branch_fst [OF this] show ?thesis
    by (simp add: disable_one_def d Let_def flip: s1_def)
qed

lemma disable_one_keeps:
  "stepId (fst (disable_one j target bypass s)) = stepId s"
  "body (fst (disable_one j target bypass s)) = body s"
  by (simp_all add: disable_one_fst Let_def)

lemma disable_one_branch:
  assumes "stepId s \<noteq> stepId target"
  shows "br_action b (fst (disable_one j target bypass s)) =
           (if leads j (stepId target) s b then br_action b (rerouted bypass b s) else br_action b s)"
    and "br_target b (fst (disable_one j target bypass s)) =
           (if leads j (stepId target) s b then br_target b (rerouted bypass b s) else br_target b s)"
  using assms by (cases b; cases bypass; simp add: disable_one_fst rerouted_def Let_def)+

lemma leads_iff:
  "k \<noteq> 0 \<Longrightarrow> leads j k s b \<longleftrightarrow> nextStepAfter j s b = Some k"
  by (auto simp: leads_def nextStepAfter_br or_null_def)

text \<open>The disabled job, when the edit is not refused.\<close>

definition disabled_job :: "job_definition \<Rightarrow> job_step \<Rightarrow> job_definition" where
  "disabled_job j target =
     (let bypass = nextStepAfter j target True
      in j\<lparr>steps := map (\<lambda>s. fst (disable_one j target bypass s)) (steps j),
           startStepId := (if startStepId j = stepId target
                           then (case bypass of None \<Rightarrow> startStepId j | Some t \<Rightarrow> t)
                           else startStepId j)\<rparr>)"

lemma disableStep_fst:
  assumes "find (\<lambda>s. stepId s = k) (steps j) = Some target" and "length (steps j) \<noteq> 1"
    and "startStepId j = k \<Longrightarrow> nextStepAfter j target True \<noteq> None"
  shows "fst (disableStep j k) = disabled_job j target"
proof -
  have "stepId target = k" using find_SomeD [OF assms(1)] by simp
  then show ?thesis
    using assms by (auto simp: disableStep_def disabled_job_def Let_def split: option.split)
qed

lemma disabled_ids: "map stepId (steps (disabled_job j target)) = map stepId (steps j)"
  by (simp add: disabled_job_def disable_one_keeps Let_def)

text \<open>No branch of another step leads to the disabled one any more.\<close>

lemma disabled_no_branch:
  assumes s: "s \<in> set (steps j)" and ne: "stepId s \<noteq> stepId target" and k0: "stepId target \<noteq> 0"
    and bypass: "nextStepAfter j target True \<noteq> Some (stepId target)"
  shows "nextStepAfter (disabled_job j target)
    (fst (disable_one j target (nextStepAfter j target True) s)) b \<noteq> Some (stepId target)"
proof -
  let ?s' = "fst (disable_one j target (nextStepAfter j target True) s)"
  have nxt: "next_in_order (disabled_job j target) i = next_in_order j i" for i
    by (rule next_in_order_cong) (rule disabled_ids)
  show ?thesis
  proof (cases "leads j (stepId target) s b")
    case True
    then show ?thesis
      using bypass disable_one_branch [OF ne, of b j "nextStepAfter j target True"]
      by (cases "nextStepAfter j target True"; cases b)
         (simp_all add: nextStepAfter_br [of "disabled_job j target"] rerouted_def or_null_def
           split: if_splits)
  next
    case False
    then have "nextStepAfter (disabled_job j target) ?s' b = nextStepAfter j s b"
      using disable_one_branch [OF ne, of b j "nextStepAfter j target True"]
      by (simp add: nextStepAfter_br nxt disable_one_keeps)
    with False show ?thesis by (simp add: leads_iff [OF k0])
  qed
qed

lemma disabled_not_arrives:
  assumes k0: "stepId target \<noteq> 0"
    and bypass: "nextStepAfter j target True \<noteq> Some (stepId target)"
    and start: "startStepId j = stepId target \<Longrightarrow> nextStepAfter j target True \<noteq> None"
  shows "\<not> arrives (disabled_job j target) (stepId target)"
proof -
  let ?j' = "disabled_job j target"
  have "m \<noteq> stepId target" if "arrives ?j' m" for m
    using that
  proof (induction rule: arrives.induct)
    case start
    show ?case using assms by (auto simp: disabled_job_def Let_def split: option.split)
  next
    case (follow m m')
    then obtain s' b where s': "step_of ?j' m = Some s'" and b: "nextStepAfter ?j' s' b = Some m'"
      by (auto simp: branch_def)
    from step_of_SomeD [OF s'] obtain s where s: "s \<in> set (steps j)" "stepId s = m"
      and e: "s' = fst (disable_one j target (nextStepAfter j target True) s)"
      by (auto simp: disabled_job_def Let_def disable_one_keeps)
    have "stepId s \<noteq> stepId target" using s(2) follow.IH by simp
    from disabled_no_branch [OF s(1) this k0 bypass, of b] show ?case using b e by simp
  qed
  then show ?thesis by blast
qed

text \<open>
  Disabling a step takes it off every path of the job: whatever branches led to it, from
  whatever steps, the step can no longer be reached, while every step keeps its number, its name,
  its command and its other settings. The step's own success branch must not be a jump to itself,
  and the job must have another step to run.
\<close>

theorem disableStep_unreachable:
  assumes "find (\<lambda>s. stepId s = k) (steps j) = Some target" and "k \<noteq> 0"
    and "length (steps j) \<noteq> 1" and "nextStepAfter j target True \<noteq> Some k"
    and "startStepId j = k \<Longrightarrow> nextStepAfter j target True \<noteq> None"
  shows "isStepDisabled (fst (disableStep j k)) k \<and>
    map stepId (steps (fst (disableStep j k))) = map stepId (steps j) \<and>
    map body (steps (fst (disableStep j k))) = map body (steps j)"
proof -
  have id: "stepId target = k" using find_SomeD [OF assms(1)] by simp
  have "\<not> arrives (disabled_job j target) k"
    using disabled_not_arrives [of target j] assms(2,4,5) id by simp
  moreover have "map body (steps (disabled_job j target)) = map body (steps j)"
    by (simp add: disabled_job_def disable_one_keeps Let_def)
  ultimately show ?thesis
    by (simp only: disableStep_fst [OF assms(1,3,5)] isStepDisabled_def reachable_arrives
        disabled_ids not_False_eq_True simp_thms)
qed

theorem disableStep_unreachable_witness:
  "find (\<lambda>s. stepId s = 2) (steps chain_job) = Some (plain_step 2 ''B'') \<and>
   isStepDisabled (fst (disableStep chain_job 2)) 2"
proof -
  have f: "find (\<lambda>s. stepId s = 2) (steps chain_job) = Some (plain_step 2 ''B'')"
    by (simp add: chain_job_def job_with_def plain_step_def)
  have n: "nextStepAfter chain_job (plain_step 2 ''B'') True = Some 3" by code_simp
  have l: "length (steps chain_job) \<noteq> 1" by (simp add: chain_job_def job_with_def)
  show ?thesis using disableStep_unreachable [OF f _ l] n f by simp
qed

section \<open>Enabling\<close>











section \<open>A step that disabling leaves running\<close>

text \<open>
  A step whose success branch is an explicit jump to itself is its own bypass, so the edit leaves
  the branches into it as they are and the step stays on the job's path.
\<close>

definition self_jump_job :: job_definition where
  "self_jump_job = job_with [plain_step 1 ''A'',
     (plain_step 2 ''B'')\<lparr>onSuccessAction := 4, onSuccessStepId := 2\<rparr>,
     (plain_step 3 ''C'')\<lparr>onSuccessAction := 1\<rparr>]"

lemma self_jump_stays: "\<not> isStepDisabled (fst (disableStep self_jump_job 2)) 2"
  by code_simp

text \<open>
  An explicit jump over the step, made by hand on the step above, is taken by \<open>enableStep\<close> for the
  trace of \<open>disableStep\<close>: the round trip turns the failure branch of step 1 into a fall-through.
\<close>

definition jump_over_job :: job_definition where
  "jump_over_job = job_with
     [(plain_step 1 ''A'')\<lparr>onFailAction := 4, onFailStepId := 3\<rparr>, plain_step 2 ''B'',
      (plain_step 3 ''C'')\<lparr>onSuccessAction := 1\<rparr>]"

lemma jump_over_lost:
  "br_action False (hd (steps (fst (enableStep (fst (disableStep jump_over_job 2)) 2)))) = GoToNextStep"
  by code_simp

end
