(* ===== verification/PrefixCode.thy ===== *)
theory PrefixCode
  imports Prelude
begin

text \<open>
  The interface of an encoding whose code words can be told apart when they are concatenated.
  The canonical JSON text (escaped characters), the UTF-8 bytes of a string and the
  length-prefixed fields that are signed all rely on it; each theory interprets the locale on its
  own encoder.
\<close>

locale prefix_code =
  fixes enc :: "'a \<Rightarrow> 'b list" and ok :: "'a \<Rightarrow> bool"
  assumes prefix_free: "ok x \<Longrightarrow> ok y \<Longrightarrow> enc x @ r = enc y @ r' \<Longrightarrow> x = y \<and> r = r'"
    and code_ne: "ok x \<Longrightarrow> enc x \<noteq> []"
begin

lemma code_inject: "ok x \<Longrightarrow> ok y \<Longrightarrow> enc x = enc y \<longleftrightarrow> x = y"
  using prefix_free [of x y "[]" "[]"] by auto

lemma concat_inject:
  "list_all ok xs \<Longrightarrow> list_all ok ys \<Longrightarrow>
     concat (map enc xs) = concat (map enc ys) \<longleftrightarrow> xs = ys"
proof (induction xs arbitrary: ys)
  case Nil
  then show ?case by (cases ys) (auto simp: code_ne)
next
  case (Cons x xs)
  show ?case
  proof (cases ys)
    case Nil
    then show ?thesis using Cons.prems by (auto simp: code_ne)
  next
    case (Cons y ys')
    then show ?thesis
      using Cons.IH [of ys'] Cons.prems prefix_free [of x y "concat (map enc xs)" "concat (map enc ys')"]
      by auto
  qed
qed

end

text \<open>A code none of whose words starts with the terminator can be read up to the terminator.\<close>

locale terminated_code = prefix_code enc ok
  for enc :: "'a \<Rightarrow> 'b list" and ok :: "'a \<Rightarrow> bool" +
  fixes stop :: 'b
  assumes hd_not_stop: "ok x \<Longrightarrow> hd (enc x) \<noteq> stop"
begin

lemma enc_not_stop: "ok x \<Longrightarrow> enc x @ r \<noteq> stop # r'"
  using hd_not_stop [of x] code_ne [of x] by (cases "enc x") auto

lemma until_stop_inject:
  "list_all ok xs \<Longrightarrow> list_all ok ys \<Longrightarrow>
     concat (map enc xs) @ stop # r = concat (map enc ys) @ stop # r' \<longleftrightarrow> xs = ys \<and> r = r'"
proof (induction xs arbitrary: ys)
  case Nil
  show ?case
  proof (cases ys)
    case Nil
    then show ?thesis by simp
  next
    case (Cons y ys')
    then show ?thesis
      using Nil.prems enc_not_stop [of y "concat (map enc ys') @ stop # r'" r] by auto
  qed
next
  case (Cons x xs)
  show ?case
  proof (cases ys)
    case Nil
    then show ?thesis
      using Cons.prems enc_not_stop [of x "concat (map enc xs) @ stop # r" r'] by auto
  next
    case (Cons y ys')
    then show ?thesis
      using Cons.IH [of ys'] Cons.prems
        prefix_free [of x y "concat (map enc xs) @ stop # r" "concat (map enc ys') @ stop # r'"]
      by auto
  qed
qed

end

end
