(* ===== verification/Canonical.thy ===== *)
theory Canonical
  imports JobDefinition PrefixCode
    "HOL-Library.List_Lexorder" "HOL-Library.Char_ord" "HOL-Library.Product_Lexorder"
begin

text \<open>
  Canonical serialisation (\<open>packages/protocol/src/canonical.ts\<close>): text normalisation, key
  sorting, the JSON text and the job, operator and alert forms. Worker and control plane compare
  hashes of these texts, so what matters is that two definitions have the same text exactly when
  they have the same normal form, and that the normal form does not depend on the order in which
  msdb returns rows nor on the line endings an editor writes.

  A JavaScript value is a \<open>js_value\<close>; numbers are the integers, negative zero and the non-finite
  ones. Keys of an object are distinct and, as in this program, never array indices. SHA-256 is a
  parameter.
\<close>

section \<open>Text\<close>

definition CR :: char where "CR = CHR 0x0D"
definition LF :: char where "LF = CHR 0x0A"

fun crlf_to_lf :: "string \<Rightarrow> string" where
  "crlf_to_lf (a # b # s) =
     (if a = CR \<and> b = LF then LF # crlf_to_lf s else a # crlf_to_lf (b # s))"
| "crlf_to_lf s = s"

definition cr_to_lf :: "string \<Rightarrow> string" where
  "cr_to_lf = map (\<lambda>c. if c = CR then LF else c)"

definition strip_end :: "(char \<Rightarrow> bool) \<Rightarrow> string \<Rightarrow> string" where
  "strip_end P s = rev (dropWhile P (rev s))"

definition is_blank :: "char \<Rightarrow> bool" where
  "is_blank c \<longleftrightarrow> c = CHR '' '' \<or> c = CHR 0x09"

definition normaliseText :: "string \<Rightarrow> string" where
  "normaliseText s =
     strip_end (\<lambda>c. c = LF) (join [LF] (map (strip_end is_blank) (split_on LF (cr_to_lf (crlf_to_lf s)))))"

section \<open>JSON\<close>

datatype js_num = Num int | NegZero | NonFinite

datatype js_value =
    JsNull
  | JsUndefined
  | JsBool bool
  | JsNum js_num
  | JsStr string
  | JsArr "js_value list"
  | JsObj "(string \<times> js_value) list"
  | JsOther

datatype json =
    JNull
  | JBool bool
  | JNum int
  | JStr string
  | JArr "json list"
  | JObj "(string \<times> json) list"

text \<open>\<^term>\<open>None\<close> is a throw. The fields are converted first and sorted then.\<close>

fun sortKeysDeep :: "js_value \<Rightarrow> json option"
and sortKeysList :: "js_value list \<Rightarrow> json list option"
and sortKeysFields :: "(string \<times> js_value) list \<Rightarrow> (string \<times> json) list option" where
  "sortKeysDeep JsNull = Some JNull"
| "sortKeysDeep (JsArr xs) = map_option JArr (sortKeysList xs)"
| "sortKeysDeep (JsObj kvs) = map_option (\<lambda>fs. JObj (sort_key fst fs)) (sortKeysFields kvs)"
| "sortKeysDeep (JsNum n) =
     (case n of Num i \<Rightarrow> Some (JNum i) | NegZero \<Rightarrow> Some (JNum 0) | NonFinite \<Rightarrow> None)"
| "sortKeysDeep (JsStr s) = Some (JStr s)"
| "sortKeysDeep (JsBool b) = Some (JBool b)"
| "sortKeysDeep JsUndefined = None"
| "sortKeysDeep JsOther = None"
| "sortKeysList [] = Some []"
| "sortKeysList (v # vs) =
     (case sortKeysDeep v of None \<Rightarrow> None | Some x \<Rightarrow> map_option (Cons x) (sortKeysList vs))"
| "sortKeysFields [] = Some []"
| "sortKeysFields (kv # kvs) =
     (if snd kv = JsUndefined then sortKeysFields kvs
      else case sortKeysDeep (snd kv) of
             None \<Rightarrow> None
           | Some x \<Rightarrow> map_option (Cons (fst kv, x)) (sortKeysFields kvs))"

text \<open>\<open>JSON.stringify\<close>: the two-character escapes, \<open>\u00xx\<close> for the other control characters.\<close>

definition short_escapes :: "(char \<times> char) list" where
  "short_escapes = [(CHR 0x22, CHR 0x22), (CHR 0x5C, CHR 0x5C), (CHR 0x08, CHR ''b''),
     (CHR 0x0C, CHR ''f''), (CHR 0x0A, CHR ''n''), (CHR 0x0D, CHR ''r''), (CHR 0x09, CHR ''t'')]"

definition hex_digit :: "nat \<Rightarrow> char" where
  "hex_digit d = (if d < 10 then char_of (48 + d) else char_of (87 + d))"

definition escape_char :: "char \<Rightarrow> string" where
  "escape_char c =
     (case map_of short_escapes c of
        Some e \<Rightarrow> [CHR 0x5C, e]
      | None \<Rightarrow>
          if (of_char c :: nat) < 32
          then CHR 0x5C # ''u00'' @ [hex_digit (of_char c div 16), hex_digit (of_char c mod 16)]
          else [c])"

definition quote_json :: "string \<Rightarrow> string" where
  "quote_json s = CHR 0x22 # concat (map escape_char s) @ [CHR 0x22]"

fun stringify :: "json \<Rightarrow> string"
and stringify_items :: "json list \<Rightarrow> string"
and stringify_fields :: "(string \<times> json) list \<Rightarrow> string" where
  "stringify JNull = ''null''"
| "stringify (JBool b) = (if b then ''true'' else ''false'')"
| "stringify (JNum n) = show_int n"
| "stringify (JStr s) = quote_json s"
| "stringify (JArr xs) = CHR ''['' # stringify_items xs"
| "stringify (JObj kvs) = CHR ''{'' # stringify_fields kvs"
| "stringify_items [] = '']''"
| "stringify_items (v # vs) =
     stringify v @ (if vs = [] then '']'' else CHR '','' # stringify_items vs)"
| "stringify_fields [] = ''}''"
| "stringify_fields (kv # kvs) =
     quote_json (fst kv) @ CHR '':'' # stringify (snd kv) @
     (if kvs = [] then ''}'' else CHR '','' # stringify_fields kvs)"

definition canonicalJsonStringify :: "js_value \<Rightarrow> string option" where
  "canonicalJsonStringify v = map_option stringify (sortKeysDeep v)"

section \<open>Definitions as JavaScript values\<close>

definition js_int :: "int \<Rightarrow> js_value" where
  "js_int n = JsNum (Num n)"

definition js_opt :: "string option \<Rightarrow> js_value" where
  "js_opt s = (case s of None \<Rightarrow> JsNull | Some t \<Rightarrow> JsStr t)"

definition js_of_schedule :: "schedule_definition \<Rightarrow> js_value" where
  "js_of_schedule s = JsObj [(''name'', JsStr (schedName s)), (''enabled'', JsBool (schedEnabled s)),
     (''freqType'', js_int (freqType s)), (''freqInterval'', js_int (freqInterval s)),
     (''freqSubdayType'', js_int (freqSubdayType s)),
     (''freqSubdayInterval'', js_int (freqSubdayInterval s)),
     (''freqRelativeInterval'', js_int (freqRelativeInterval s)),
     (''freqRecurrenceFactor'', js_int (freqRecurrenceFactor s)),
     (''activeStartDate'', js_int (activeStartDate s)), (''activeEndDate'', js_int (activeEndDate s)),
     (''activeStartTime'', js_int (activeStartTime s)), (''activeEndTime'', js_int (activeEndTime s))]"

definition js_of_step :: "job_step \<Rightarrow> js_value" where
  "js_of_step s = JsObj [(''stepId'', js_int (stepId s)), (''name'', JsStr (stepName s)),
     (''subsystem'', JsStr (subsystem_name (subsystem s))), (''command'', JsStr (command s)),
     (''databaseName'', js_opt (databaseName s)), (''databaseUserName'', js_opt (databaseUserName s)),
     (''onSuccessAction'', js_int (onSuccessAction s)), (''onSuccessStepId'', js_int (onSuccessStepId s)),
     (''onFailAction'', js_int (onFailAction s)), (''onFailStepId'', js_int (onFailStepId s)),
     (''retryAttempts'', js_int (retryAttempts s)),
     (''retryIntervalMinutes'', js_int (retryIntervalMinutes s)),
     (''outputFileName'', js_opt (outputFileName s)), (''flags'', js_int (flags s)),
     (''proxyName'', js_opt (proxyName s))]"

definition js_of_notifications :: "job_notifications \<Rightarrow> js_value" where
  "js_of_notifications n = JsObj [(''emailOperatorName'', js_opt (emailOperatorName n)),
     (''emailLevel'', js_int (emailLevel n)), (''netsendOperatorName'', js_opt (netsendOperatorName n)),
     (''netsendLevel'', js_int (netsendLevel n)), (''pageOperatorName'', js_opt (pageOperatorName n)),
     (''pageLevel'', js_int (pageLevel n)), (''eventlogLevel'', js_int (eventlogLevel n)),
     (''deleteLevel'', js_int (deleteLevel n))]"

definition js_of_job :: "job_definition \<Rightarrow> js_value" where
  "js_of_job j = JsObj [(''schemaVersion'', JsStr (schemaVersion j)), (''name'', JsStr (jobName j)),
     (''description'', js_opt (description j)), (''enabled'', JsBool (enabled j)),
     (''categoryName'', js_opt (categoryName j)), (''ownerLoginName'', js_opt (ownerLoginName j)),
     (''startStepId'', js_int (startStepId j)),
     (''notifications'', js_of_notifications (notifications j)),
     (''steps'', JsArr (map js_of_step (steps j))),
     (''schedules'', JsArr (map js_of_schedule (schedules j))),
     (''targetServers'', JsArr (map JsStr (targetServers j)))]"

definition js_of_operator :: "operator_definition \<Rightarrow> js_value" where
  "js_of_operator p = JsObj [(''schemaVersion'', JsStr (opSchemaVersion p)), (''name'', JsStr (opName p)),
     (''enabled'', JsBool (opEnabled p)), (''emailAddress'', js_opt (emailAddress p)),
     (''pagerAddress'', js_opt (pagerAddress p)), (''netsendAddress'', js_opt (netsendAddress p)),
     (''weekdayPagerStartTime'', js_int (weekdayPagerStartTime p)),
     (''weekdayPagerEndTime'', js_int (weekdayPagerEndTime p)),
     (''saturdayPagerStartTime'', js_int (saturdayPagerStartTime p)),
     (''saturdayPagerEndTime'', js_int (saturdayPagerEndTime p)),
     (''sundayPagerStartTime'', js_int (sundayPagerStartTime p)),
     (''sundayPagerEndTime'', js_int (sundayPagerEndTime p)),
     (''pagerDays'', js_int (pagerDays p))]"

definition js_of_alert :: "alert_definition \<Rightarrow> js_value" where
  "js_of_alert a = JsObj [(''schemaVersion'', JsStr (alertSchemaVersion a)),
     (''name'', JsStr (alertName a)), (''enabled'', JsBool (alertEnabled a)),
     (''messageId'', js_int (messageId a)), (''severity'', js_int (severity a)),
     (''databaseName'', js_opt (alertDatabaseName a)),
     (''eventDescriptionKeyword'', js_opt (eventDescriptionKeyword a)),
     (''notificationMessage'', js_opt (notificationMessage a)),
     (''includeEventDescription'', js_int (includeEventDescription a)),
     (''delayBetweenResponses'', js_int (delayBetweenResponses a)),
     (''jobName'', js_opt (alertJobName a)), (''performanceCondition'', js_opt (performanceCondition a))]"

section \<open>Normal forms\<close>

text \<open>
  The comparator of the schedules: by name, then by the whole canonical text, both as strings.
\<close>

definition schedule_key :: "schedule_definition \<Rightarrow> string \<times> string" where
  "schedule_key s = (schedName s, the (canonicalJsonStringify (js_of_schedule s)))"

definition normaliseJobDefinition :: "job_definition \<Rightarrow> job_definition" where
  "normaliseJobDefinition j = j\<lparr>
     description := map_option normaliseText (description j),
     steps := map (\<lambda>s. s\<lparr>command := normaliseText (command s)\<rparr>) (sort_key stepId (steps j)),
     schedules := sort_key schedule_key (schedules j),
     targetServers := sort (targetServers j)\<rparr>"

definition canonicaliseJob :: "job_definition \<Rightarrow> string option" where
  "canonicaliseJob j =
     (if jobDefinitionSchema j then canonicalJsonStringify (js_of_job (normaliseJobDefinition j))
      else None)"

definition canonicaliseOperator :: "operator_definition \<Rightarrow> string option" where
  "canonicaliseOperator p =
     (if operatorDefinitionSchema p then canonicalJsonStringify (js_of_operator p) else None)"

definition canonicaliseAlert :: "alert_definition \<Rightarrow> string option" where
  "canonicaliseAlert a =
     (if alertDefinitionSchema a
      then canonicalJsonStringify (js_of_alert
             (a\<lparr>notificationMessage := map_option normaliseText (notificationMessage a)\<rparr>))
      else None)"

text \<open>The hashed forms; \<open>sha256\<close> is the hexadecimal digest of the platform.\<close>

record 'a canonical_result =
  result_definition :: 'a
  canonicalJson :: string
  hash :: string

definition canonicaliseJobWithHash ::
  "(string \<Rightarrow> string) \<Rightarrow> job_definition \<Rightarrow> job_definition canonical_result option" where
  "canonicaliseJobWithHash sha256 j =
     (if jobDefinitionSchema j
      then (let n = normaliseJobDefinition j
            in map_option (\<lambda>t. \<lparr>result_definition = n, canonicalJson = t, hash = sha256 t\<rparr>)
                 (canonicalJsonStringify (js_of_job n)))
      else None)"

definition canonicaliseOperatorWithHash ::
  "(string \<Rightarrow> string) \<Rightarrow> operator_definition \<Rightarrow> operator_definition canonical_result option" where
  "canonicaliseOperatorWithHash sha256 p =
     map_option (\<lambda>t. \<lparr>result_definition = p, canonicalJson = t, hash = sha256 t\<rparr>)
       (canonicaliseOperator p)"

definition canonicaliseAlertWithHash ::
  "(string \<Rightarrow> string) \<Rightarrow> alert_definition \<Rightarrow> alert_definition canonical_result option" where
  "canonicaliseAlertWithHash sha256 a =
     map_option (\<lambda>t. \<lparr>result_definition = a, canonicalJson = t, hash = sha256 t\<rparr>)
       (canonicaliseAlert a)"

end
