(* ===== verification/CanonicalLaws.thy ===== *)
theory CanonicalLaws
  imports Canonical
begin

text \<open>
  The canonical text of theory Canonical decides equality of normal forms, the normal form does
  not depend on row order or line endings, and normalising is idempotent.
\<close>

section \<open>The JSON text can be read back\<close>

lemma hex_digit_inj: "a < 16 \<Longrightarrow> b < 16 \<Longrightarrow> hex_digit a = hex_digit b \<longleftrightarrow> a = b"
proof
  assume "a < 16" "b < 16" "hex_digit a = hex_digit b"
  then have "(of_char (hex_digit a) :: nat) = of_char (hex_digit b)" by simp
  then show "a = b" using \<open>a < 16\<close> \<open>b < 16\<close>
    by (auto simp: hex_digit_def of_char_of split: if_splits)
qed simp

text \<open>The three shapes of an escaped character.\<close>

lemma escape_short: "map_of short_escapes c = Some e \<Longrightarrow> escape_char c = [CHR 0x5C, e] \<and> e \<noteq> CHR ''u''"
  by (auto simp: escape_char_def short_escapes_def split: if_splits)

lemma escape_control:
  "map_of short_escapes c = None \<Longrightarrow> (of_char c :: nat) < 32 \<Longrightarrow>
     escape_char c = CHR 0x5C # ''u00'' @ [hex_digit (of_char c div 16), hex_digit (of_char c mod 16)]"
  by (simp add: escape_char_def)

lemma escape_plain:
  "map_of short_escapes c = None \<Longrightarrow> \<not> (of_char c :: nat) < 32 \<Longrightarrow>
     escape_char c = [c] \<and> c \<noteq> CHR 0x5C \<and> c \<noteq> CHR 0x22"
  by (auto simp: escape_char_def short_escapes_def split: if_splits)

lemma short_escapes_inj:
  "map_of short_escapes c = Some e \<Longrightarrow> map_of short_escapes d = Some e \<Longrightarrow> c = d"
  by (auto simp: short_escapes_def split: if_splits)

lemma escape_prefix_free:
  assumes "escape_char c @ r = escape_char d @ r'"
  shows "c = d \<and> r = r'"
proof -
  consider (short) e where "map_of short_escapes c = Some e"
    | (control) "map_of short_escapes c = None" "(of_char c :: nat) < 32"
    | (plain) "map_of short_escapes c = None" "\<not> (of_char c :: nat) < 32"
    by (cases "map_of short_escapes c") auto
  note c_cases = this
  consider (short) e where "map_of short_escapes d = Some e"
    | (control) "map_of short_escapes d = None" "(of_char d :: nat) < 32"
    | (plain) "map_of short_escapes d = None" "\<not> (of_char d :: nat) < 32"
    by (cases "map_of short_escapes d") auto
  note d_cases = this
  show ?thesis
  proof (cases rule: c_cases)
    case (short e)
    note c = escape_short [OF short]
    show ?thesis
    proof (cases rule: d_cases)
      case (short e')
      then show ?thesis
        using assms c escape_short [of d e'] short_escapes_inj [of c e d] \<open>map_of short_escapes c = Some e\<close>
        by auto
    next
      case control
      then show ?thesis using assms c escape_control [of d] by auto
    next
      case plain
      then show ?thesis using assms c escape_plain [of d] by auto
    qed
  next
    case control
    note c = escape_control [OF control]
    show ?thesis
    proof (cases rule: d_cases)
      case (short e)
      then show ?thesis using assms c escape_short [of d e] by auto
    next
      case d: control
      have "hex_digit (of_char c div 16) = hex_digit (of_char d div 16)"
        "hex_digit (of_char c mod 16) = hex_digit (of_char d mod 16)" "r = r'"
        using assms c escape_control [OF d] by auto
      moreover have "(of_char c :: nat) div 16 < 16" "(of_char d :: nat) div 16 < 16"
        using control(2) d(2) by auto
      ultimately have "(of_char c :: nat) div 16 = of_char d div 16"
        "(of_char c :: nat) mod 16 = of_char d mod 16"
        by (simp_all add: hex_digit_inj)
      then have "(of_char c :: nat) = of_char d" by (metis div_mult_mod_eq)
      then show ?thesis using \<open>r = r'\<close> by simp
    next
      case plain
      then show ?thesis using assms c escape_plain [of d] by auto
    qed
  next
    case plain
    note c = escape_plain [OF plain]
    show ?thesis
    proof (cases rule: d_cases)
      case (short e)
      then show ?thesis using assms c escape_short [of d e] by auto
    next
      case control
      then show ?thesis using assms c escape_control [of d] by auto
    next
      case plain
      then show ?thesis using assms c escape_plain [of d] by auto
    qed
  qed
qed

interpretation esc: terminated_code escape_char "\<lambda>_. True" "CHR 0x22"
proof
  show "escape_char x @ r = escape_char y @ r' \<Longrightarrow> x = y \<and> r = r'" for x y r r'
    by (rule escape_prefix_free)
  show "escape_char x \<noteq> []" for x
    by (simp add: escape_char_def split: option.split)
  show "hd (escape_char x) \<noteq> CHR 0x22" for x
    using escape_short [of x] escape_control [of x] escape_plain [of x]
    by (cases "map_of short_escapes x"; cases "(of_char x :: nat) < 32") auto
qed

lemma quote_json_append:
  "quote_json s @ r = quote_json t @ r' \<longleftrightarrow> s = t \<and> r = r'"
  using esc.until_stop_inject [of s t r r'] by (simp add: quote_json_def list_all_iff)

definition num_char :: "char \<Rightarrow> bool" where
  "num_char c \<longleftrightarrow> is_digit c \<or> c = CHR ''-''"

lemma show_int_chars: "list_all num_char (show_int n)"
  using show_nat_digits by (auto simp: show_int_def num_char_def list_all_iff)

lemma show_int_Cons: "show_int n @ r = c # s \<Longrightarrow> num_char c"
  using show_int_chars [of n] by (cases "show_int n") auto

definition delim :: "string \<Rightarrow> bool" where
  "delim r \<longleftrightarrow> r = [] \<or> \<not> num_char (hd r)"

lemma show_int_append:
  assumes "show_int m @ r = show_int n @ r'" and "delim r" and "delim r'"
  shows "m = n \<and> r = r'"
proof -
  have "takeWhile num_char (show_int k @ t) = show_int k" if "delim t" for k t
    using that show_int_chars [of k]
    by (cases t) (auto simp: delim_def takeWhile_append list_all_iff)
  then have "show_int m = show_int n" using assms by metis
  with assms(1) show ?thesis by simp
qed

lemma num_char_marks [simp]:
  "\<not> num_char (CHR ''n'')" "\<not> num_char (CHR ''t'')" "\<not> num_char (CHR ''f'')"
  "\<not> num_char (CHR ''['')" "\<not> num_char (CHR ''{'')" "\<not> num_char (CHR 0x22)"
  "\<not> num_char (CHR '']'')" "\<not> num_char (CHR ''}'')" "\<not> num_char (CHR '','')"
  by (simp_all add: num_char_def is_digit_def)

lemma show_int_marks [simp]:
  "\<not> num_char c \<Longrightarrow> show_int n @ r \<noteq> c # s" "\<not> num_char c \<Longrightarrow> c # s \<noteq> show_int n @ r"
  using show_int_Cons [of n r c s] by auto

lemma stringify_not_close [simp]:
  "stringify v @ r \<noteq> CHR '']'' # s" "CHR '']'' # s \<noteq> stringify v @ r"
  by (cases v; auto simp: quote_json_def)+

lemma quote_not_close [simp]:
  "quote_json k @ r \<noteq> CHR ''}'' # s" "CHR ''}'' # s \<noteq> quote_json k @ r"
  by (simp_all add: quote_json_def)

lemma delim_marks [simp]: "delim []" "delim (CHR '']'' # r)" "delim (CHR ''}'' # r)" "delim (CHR '','' # r)"
  by (simp_all add: delim_def)

lemma stringify_append:
  shows "delim r \<Longrightarrow> delim r' \<Longrightarrow> stringify v @ r = stringify w @ r' \<Longrightarrow> v = w \<and> r = r'"
    and "stringify_items xs @ r = stringify_items ys @ r' \<Longrightarrow> xs = ys \<and> r = r'"
    and "stringify_fields fs @ r = stringify_fields gs @ r' \<Longrightarrow> fs = gs \<and> r = r'"
proof (induction v and xs and fs arbitrary: w r r' and ys r r' and gs r r'
    rule: stringify_stringify_items_stringify_fields.induct)
  case 1
  then show ?case by (cases w) (auto simp: quote_json_def split: if_splits)
next
  case (2 b)
  then show ?case by (cases w) (auto simp: quote_json_def split: if_splits)
next
  case (3 n)
  then show ?case by (cases w) (auto simp: quote_json_def split: if_splits dest: show_int_append)
next
  case (4 s)
  then show ?case
  proof (cases w)
    case (JStr t)
    then show ?thesis using 4 quote_json_append by simp
  qed (auto simp: quote_json_def split: if_splits)
next
  case (5 xs)
  show ?case
  proof (cases w)
    case (JArr ys)
    then show ?thesis using "5.IH" [of r ys r'] "5.prems" by simp
  qed (use "5.prems" in \<open>auto simp: quote_json_def split: if_splits\<close>)
next
  case (6 fs)
  show ?case
  proof (cases w)
    case (JObj gs)
    then show ?thesis using "6.IH" [of r gs r'] "6.prems" by simp
  qed (use "6.prems" in \<open>auto simp: quote_json_def split: if_splits\<close>)
next
  case 7
  then show ?case by (cases ys) auto
next
  case (8 v vs)
  show ?case
  proof (cases ys)
    case Nil
    then show ?thesis using "8.prems" by auto
  next
    case (Cons y ys')
    let ?t = "\<lambda>vs r. if vs = [] then CHR '']'' # r else CHR '','' # stringify_items vs @ r"
    have "stringify v @ ?t vs r = stringify y @ ?t ys' r'"
      using "8.prems" Cons by (auto split: if_splits)
    then have "v = y \<and> ?t vs r = ?t ys' r'" by (intro "8.IH"(1)) auto
    then show ?thesis using Cons "8.IH"(2) [of r ys' r'] by (auto split: if_splits)
  qed
next
  case 9
  then show ?case by (cases gs) auto
next
  case (10 kv kvs)
  show ?case
  proof (cases gs)
    case Nil
    then show ?thesis using "10.prems" by auto
  next
    case (Cons g gs')
    let ?t = "\<lambda>kvs r. if kvs = [] then CHR ''}'' # r else CHR '','' # stringify_fields kvs @ r"
    have "quote_json (fst kv) @ CHR '':'' # stringify (snd kv) @ ?t kvs r =
        quote_json (fst g) @ CHR '':'' # stringify (snd g) @ ?t gs' r'"
      using "10.prems" Cons by (auto split: if_splits)
    then have k: "fst kv = fst g" and "stringify (snd kv) @ ?t kvs r = stringify (snd g) @ ?t gs' r'"
      unfolding quote_json_append by auto
    then have "snd kv = snd g \<and> ?t kvs r = ?t gs' r'" by (intro "10.IH"(1)) auto
    then show ?thesis using Cons k "10.IH"(2) [of r gs' r']
      by (auto split: if_splits intro: prod_eqI)
  qed
qed

lemma stringify_inject: "stringify v = stringify w \<longleftrightarrow> v = w"
  using stringify_append(1) [of "[]" "[]" v w] by auto

section \<open>Objects\<close>

text \<open>An object with its keys sorted; it determines the fields when the keys are known.\<close>

definition obj :: "(string \<times> json) list \<Rightarrow> json" where
  "obj kvs = JObj (sort_key fst kvs)"

lemma sortKeysDeep_obj: "sortKeysDeep (JsObj kvs) = map_option obj (sortKeysFields kvs)"
  by (simp add: obj_def [abs_def])

declare sortKeysDeep.simps(3) [simp del]
declare sortKeysDeep_obj [simp]

lemma obj_inject:
  assumes "map fst kvs = map fst kvs'" and "distinct (map fst kvs)"
  shows "obj kvs = obj kvs' \<longleftrightarrow> kvs = kvs'"
proof
  assume "obj kvs = obj kvs'"
  then have "mset (sort_key fst kvs) = mset (sort_key fst kvs')" by (simp add: obj_def)
  then have "set kvs = set kvs'" by (metis mset_eq_setD mset_sort)
  then have m: "map_of kvs = map_of kvs'"
    using assms by (metis map_of_inject_set)
  have "snd (kvs ! i) = snd (kvs' ! i)" if "i < length kvs" for i
  proof -
    have l: "length kvs' = length kvs" using assms(1) by (metis length_map)
    have k: "fst (kvs' ! i) = fst (kvs ! i)" using assms(1) that l by (metis nth_map)
    have "map_of kvs (fst (kvs ! i)) = Some (snd (kvs ! i))"
      using assms(2) that by (simp add: map_of_eq_Some_iff)
    moreover have "map_of kvs' (fst (kvs' ! i)) = Some (snd (kvs' ! i))"
      using assms that l by (simp add: map_of_eq_Some_iff)
    ultimately show ?thesis using m k by simp
  qed
  then show "kvs = kvs'"
    using assms(1) by (intro nth_equalityI prod_eqI) (metis length_map nth_map)+
qed simp

text \<open>Values of the definitions: always finite, and with an injective canonical form.\<close>

lemma js_int_canon [simp]: "sortKeysDeep (js_int n) = Some (JNum n)"
  by (simp add: js_int_def)

definition canon_opt :: "string option \<Rightarrow> json" where
  "canon_opt s = (case s of None \<Rightarrow> JNull | Some t \<Rightarrow> JStr t)"

lemma js_opt_canon [simp]: "sortKeysDeep (js_opt s) = Some (canon_opt s)"
  by (simp add: js_opt_def canon_opt_def split: option.split)

lemma canon_opt_inject [simp]: "canon_opt s = canon_opt t \<longleftrightarrow> s = t"
  by (auto simp: canon_opt_def split: option.splits)

lemma not_undefined [simp]: "js_int n \<noteq> JsUndefined" "js_opt s \<noteq> JsUndefined"
  by (simp_all add: js_int_def js_opt_def split: option.split)

definition canon_schedule :: "schedule_definition \<Rightarrow> json" where
  "canon_schedule s = the (sortKeysDeep (js_of_schedule s))"

definition canon_step :: "job_step \<Rightarrow> json" where
  "canon_step s = the (sortKeysDeep (js_of_step s))"

definition canon_notifications :: "job_notifications \<Rightarrow> json" where
  "canon_notifications n = the (sortKeysDeep (js_of_notifications n))"

lemma canon_schedule [simp]: "sortKeysDeep (js_of_schedule s) = Some (canon_schedule s)"
  by (simp add: js_of_schedule_def canon_schedule_def)

lemma canon_step [simp]: "sortKeysDeep (js_of_step s) = Some (canon_step s)"
  by (simp add: js_of_step_def canon_step_def)

lemma canon_notifications [simp]:
  "sortKeysDeep (js_of_notifications n) = Some (canon_notifications n)"
  by (simp add: js_of_notifications_def canon_notifications_def)

lemma canon_schedule_inject [simp]: "canon_schedule s = canon_schedule t \<longleftrightarrow> s = t"
  by (cases s; cases t) (auto simp: canon_schedule_def js_of_schedule_def obj_inject)

lemma canon_step_inject [simp]: "canon_step s = canon_step t \<longleftrightarrow> s = t"
  by (cases s; cases t) (auto simp: canon_step_def js_of_step_def obj_inject)

lemma canon_notifications_inject [simp]: "canon_notifications m = canon_notifications n \<longleftrightarrow> m = n"
  by (cases m; cases n) (auto simp: canon_notifications_def js_of_notifications_def obj_inject)

lemma sortKeysList_map:
  "(\<And>x. sortKeysDeep (f x) = Some (g x)) \<Longrightarrow> sortKeysList (map f xs) = Some (map g xs)"
  by (induction xs) auto

definition canon_job :: "job_definition \<Rightarrow> json" where
  "canon_job j = the (sortKeysDeep (js_of_job j))"

lemma js_of_ne [simp]: "js_of_notifications n \<noteq> JsUndefined"
  by (simp add: js_of_notifications_def)

lemma canon_job_fields:
  "sortKeysDeep (js_of_job j) = Some (obj [(''schemaVersion'', JStr (schemaVersion j)),
     (''name'', JStr (jobName j)), (''description'', canon_opt (description j)),
     (''enabled'', JBool (enabled j)), (''categoryName'', canon_opt (categoryName j)),
     (''ownerLoginName'', canon_opt (ownerLoginName j)), (''startStepId'', JNum (startStepId j)),
     (''notifications'', canon_notifications (notifications j)),
     (''steps'', JArr (map canon_step (steps j))),
     (''schedules'', JArr (map canon_schedule (schedules j))),
     (''targetServers'', JArr (map JStr (targetServers j)))])"
  by (simp add: js_of_job_def sortKeysList_map [where g = canon_step]
      sortKeysList_map [where g = canon_schedule] sortKeysList_map [where g = JStr])

lemma canon_job: "sortKeysDeep (js_of_job j) = Some (canon_job j)"
  by (simp add: canon_job_def canon_job_fields)

lemma canon_job_inject: "canon_job j = canon_job k \<longleftrightarrow> j = k"
proof
  have inj: "inj canon_step" "inj canon_schedule" "inj JStr" by (auto intro: injI)
  assume "canon_job j = canon_job k"
  then show "j = k"
    by (cases j; cases k)
       (auto simp: canon_job_def canon_job_fields obj_inject inj_map_eq_map [OF inj(1)]
         inj_map_eq_map [OF inj(2)] inj_map_eq_map [OF inj(3)])
qed simp

lemma canonicalJsonStringify_job:
  "canonicalJsonStringify (js_of_job j) = Some (stringify (canon_job j))"
  by (simp add: canonicalJsonStringify_def canon_job)

text \<open>
  C11. The canonical text is an exact fingerprint of the normal form: two valid jobs have the same
  canonical text if and only if they normalise to the same job. A difference in any field of the
  normal form shows in the text, and so in the input of the hash, whatever the strings contain.
\<close>

theorem canonicaliseJob_eq_iff:
  assumes "jobDefinitionSchema j" and "jobDefinitionSchema k"
  shows "canonicaliseJob j = canonicaliseJob k \<longleftrightarrow>
    normaliseJobDefinition j = normaliseJobDefinition k"
  using assms
  by (simp add: canonicaliseJob_def canonicalJsonStringify_job stringify_inject canon_job_inject)

definition sample_job :: "string \<Rightarrow> job_definition" where
  "sample_job d = \<lparr> schemaVersion = SCHEMA_VERSION, jobName = ''N'', description = Some d,
     enabled = True, categoryName = None, ownerLoginName = None, startStepId = 1,
     notifications = \<lparr> emailOperatorName = None, emailLevel = 0, netsendOperatorName = None,
       netsendLevel = 0, pageOperatorName = None, pageLevel = 0, eventlogLevel = 2,
       deleteLevel = 0 \<rparr>,
     steps = [], schedules = [], targetServers = [''b'', ''a''] \<rparr>"

lemma sample_job_valid: "jobDefinitionSchema (sample_job d)"
  by (simp add: sample_job_def jobDefinitionSchema_def SCHEMA_VERSION_def
      jobNotificationsSchema_def notify_level_def)

theorem canonicaliseJob_eq_iff_witness:
  "canonicaliseJob (sample_job ''x'') \<noteq> canonicaliseJob (sample_job ''y'')"
proof -
  have "normaliseJobDefinition (sample_job ''x'') \<noteq> normaliseJobDefinition (sample_job ''y'')"
    by code_simp
  then show ?thesis
    using canonicaliseJob_eq_iff [OF sample_job_valid sample_job_valid] by blast
qed

section \<open>Row order\<close>

lemma sort_key_mset:
  assumes "inj_on f (set xs)" and "mset xs = mset ys"
  shows "sort_key f xs = sort_key f ys"
proof (rule properties_for_sort_key)
  show "mset (sort_key f ys) = mset xs" using assms(2) by simp
  show "sorted (map f (sort_key f ys))" by simp
  fix k assume k: "k \<in> set (sort_key f ys)"
  have s: "set ys = set xs" using assms(2) by (metis set_mset_mset)
  have only: "filter (\<lambda>x. f k = f x) zs = replicate (count (mset zs) k) k" if "set zs = set xs" for zs
  proof -
    have "filter (\<lambda>x. f k = f x) zs = filter (\<lambda>x. k = x) zs"
      using assms(1) k s that by (intro filter_cong refl) (auto simp: inj_on_def)
    also have "\<dots> = replicate (count (mset zs) k) k"
      by (induction zs) auto
    finally show ?thesis .
  qed
  show "filter (\<lambda>x. f k = f x) (sort_key f ys) = filter (\<lambda>x. f k = f x) xs"
    using only [of "sort_key f ys"] only [of xs] s assms(2) by simp
qed

lemma schedule_key_inject: "schedule_key s = schedule_key t \<longleftrightarrow> s = t"
  by (auto simp: schedule_key_def canonicalJsonStringify_def stringify_inject)

text \<open>
  The canonical text does not depend on the order in which steps, schedules and target servers
  were read: any rearrangement of the rows, schedules of the same name included, gives the same
  text, so an unchanged job never reports itself as drifted.
\<close>

theorem canonicaliseJob_row_order:
  assumes "mset ss = mset (steps j)" and "mset sc = mset (schedules j)"
    and "mset ts = mset (targetServers j)" and "distinct (map stepId (steps j))"
  shows "canonicaliseJob (j\<lparr>steps := ss, schedules := sc, targetServers := ts\<rparr>) = canonicaliseJob j"
proof -
  let ?k = "j\<lparr>steps := ss, schedules := sc, targetServers := ts\<rparr>"
  have sets: "set ss = set (steps j)" "set sc = set (schedules j)"
    using assms(1,2) by (metis set_mset_mset)+
  have "sort_key stepId ss = sort_key stepId (steps j)"
    using assms(4) by (intro sort_key_mset assms(1)) (simp add: sets distinct_map)
  moreover have "sort_key schedule_key sc = sort_key schedule_key (schedules j)"
    by (intro sort_key_mset assms(2)) (simp add: inj_on_def schedule_key_inject)
  moreover have "sort ts = sort (targetServers j)"
    by (rule sort_key_mset [OF _ assms(3)]) simp
  ultimately have "normaliseJobDefinition ?k = normaliseJobDefinition j"
    by (simp add: normaliseJobDefinition_def)
  moreover have "jobDefinitionSchema ?k \<longleftrightarrow> jobDefinitionSchema j"
    using sets by (simp add: jobDefinitionSchema_def list_all_iff)
  ultimately show ?thesis by (simp only: canonicaliseJob_def)
qed

theorem canonicaliseJob_row_order_witness:
  "canonicaliseJob ((sample_job ''x'')\<lparr>steps := [], schedules := [], targetServers := [''a'', ''b'']\<rparr>) =
   canonicaliseJob (sample_job ''x'')"
  by (rule canonicaliseJob_row_order) (simp_all add: sample_job_def)

section \<open>Text normalisation\<close>

definition to_crlf :: "string \<Rightarrow> string" where
  "to_crlf s = concat (map (\<lambda>c. if c = LF then [CR, LF] else [c]) s)"

definition to_cr :: "string \<Rightarrow> string" where
  "to_cr s = map (\<lambda>c. if c = LF then CR else c) s"

lemma CR_LF [simp]: "CR \<noteq> LF" "LF \<noteq> CR"
  by (simp_all add: CR_def LF_def)

lemma crlf_to_lf_id: "CR \<notin> set s \<or> LF \<notin> set s \<Longrightarrow> crlf_to_lf s = s"
  by (induction s rule: crlf_to_lf.induct) auto

lemma crlf_to_lf_Cons: "c \<noteq> CR \<Longrightarrow> crlf_to_lf (c # s) = c # crlf_to_lf s"
  by (cases s) auto

lemma crlf_to_lf_to_crlf: "CR \<notin> set s \<Longrightarrow> crlf_to_lf (to_crlf s) = s"
  by (induction s) (auto simp: to_crlf_def crlf_to_lf_Cons)

lemma cr_to_lf_id: "CR \<notin> set s \<Longrightarrow> cr_to_lf s = s"
  by (auto simp: cr_to_lf_def intro!: map_idI)

lemma cr_to_lf_to_cr: "CR \<notin> set s \<Longrightarrow> cr_to_lf (to_cr s) = s"
  by (auto simp: cr_to_lf_def to_cr_def o_def intro!: map_idI)

lemma no_CR [simp]: "CR \<notin> set (cr_to_lf s)"
  by (auto simp: cr_to_lf_def)

text \<open>
  Line endings never count: a text written with carriage return and line feed, or with
  carriage returns alone, normalises to the same text as the one written with line feeds.
\<close>

theorem normaliseText_line_endings:
  assumes "CR \<notin> set s"
  shows "normaliseText (to_crlf s) = normaliseText s \<and> normaliseText (to_cr s) = normaliseText s"
proof -
  have "LF \<notin> set (to_cr s)" by (auto simp: to_cr_def)
  then show ?thesis
    using assms
    by (simp add: normaliseText_def crlf_to_lf_to_crlf crlf_to_lf_id cr_to_lf_to_cr cr_to_lf_id)
qed

theorem normaliseText_line_endings_witness:
  "to_crlf [LF] \<noteq> [LF] \<and> normaliseText (to_crlf (''a'' @ [LF] @ ''b'')) = normaliseText (''a'' @ [LF] @ ''b'')"
proof -
  have "CR \<notin> set (''a'' @ [LF] @ ''b'')" by (simp add: CR_def LF_def)
  from normaliseText_line_endings [OF this] show ?thesis by (simp add: to_crlf_def)
qed

lemma dropWhile_twice [simp]: "dropWhile P (dropWhile P xs) = dropWhile P xs"
  by (induction xs) auto

lemma strip_end_idem [simp]: "strip_end P (strip_end P s) = strip_end P s"
  by (simp add: strip_end_def)

lemma set_strip_end: "set (strip_end P s) \<subseteq> set s"
  using set_dropWhileD [of _ P "rev s"] by (auto simp: strip_end_def)

lemma strip_end_append:
  "strip_end P (xs @ ys) = (if list_all P ys then strip_end P xs else xs @ strip_end P ys)"
  by (auto simp: strip_end_def dropWhile_append list_all_iff)

lemma strip_end_all: "list_all P ys \<Longrightarrow> strip_end P ys = []"
  by (simp add: strip_end_def list_all_iff)

definition blank_tail :: "string list \<Rightarrow> string list" where
  "blank_tail ls = rev (dropWhile (\<lambda>l. l = []) (rev ls))"

lemma join_append:
  "xs \<noteq> [] \<Longrightarrow> ys \<noteq> [] \<Longrightarrow> join sep (xs @ ys) = join sep xs @ sep @ join sep ys"
  by (induction sep xs rule: join.induct) (auto simp: neq_Nil_conv)

lemma strip_join:
  assumes "\<forall>l \<in> set ls. LF \<notin> set l"
  shows "strip_end (\<lambda>c. c = LF) (join [LF] ls) = join [LF] (blank_tail ls)"
  using assms
proof (induction ls rule: rev_induct)
  case Nil
  then show ?case by (simp add: strip_end_def blank_tail_def)
next
  case (snoc l ls)
  have l: "LF \<notin> set l" using snoc.prems by simp
  have st: "strip_end (\<lambda>c. c = LF) (x @ l) = x @ l" if "l \<noteq> []" for x
  proof -
    have "last l \<noteq> LF" using l that last_in_set by metis
    then show ?thesis using that
      by (cases l rule: rev_cases) (auto simp: strip_end_def)
  qed
  show ?case
  proof (cases "ls = []")
    case True
    then show ?thesis using st [of "[]"]
      by (cases "l = []") (auto simp: blank_tail_def strip_end_def)
  next
    case False
    then have j: "join [LF] (ls @ [l]) = (join [LF] ls @ [LF]) @ l"
      by (simp add: join_append)
    show ?thesis
    proof (cases "l = []")
      case True
      then have "strip_end (\<lambda>c. c = LF) (join [LF] (ls @ [l])) = strip_end (\<lambda>c. c = LF) (join [LF] ls)"
        unfolding j by (simp add: strip_end_append)
      then show ?thesis using snoc True by (simp add: blank_tail_def)
    next
      case l: False
      then have "blank_tail (ls @ [l]) = ls @ [l]" by (simp add: blank_tail_def)
      then show ?thesis unfolding j using st [OF l, of "join [LF] ls @ [LF]"] j by simp
    qed
  qed
qed

lemma split_on_no_sep: "\<forall>l \<in> set (split_on c s). c \<notin> set l"
  by (induction s) (auto split: list.splits)

lemma set_split_on: "\<forall>l \<in> set (split_on c s). set l \<subseteq> set s"
proof (induction s)
  case Nil
  then show ?case by simp
next
  case (Cons x s)
  then show ?case by (cases "split_on c s") auto
qed

lemma split_join:
  assumes "\<forall>l \<in> set ls. c \<notin> set l" and "ls \<noteq> []"
  shows "split_on c (join [c] ls) = ls"
  using assms
proof (induction ls)
  case Nil
  then show ?case by simp
next
  case (Cons l ls)
  then show ?case by (cases ls) (auto simp: split_on_append)
qed

lemma set_blank_tail: "set (blank_tail ls) \<subseteq> set ls"
  using set_dropWhileD [of _ "\<lambda>l. l = []" "rev ls"] by (auto simp: blank_tail_def)

lemma blank_tail_idem [simp]: "blank_tail (blank_tail ls) = blank_tail ls"
  by (simp add: blank_tail_def)

lemma set_join: "set (join sep ls) \<subseteq> set sep \<union> (\<Union>l \<in> set ls. set l)"
  by (induction sep ls rule: join.induct) auto

lemma normaliseText_idem: "normaliseText (normaliseText s) = normaliseText s"
proof -
  define u where "u = cr_to_lf (crlf_to_lf s)"
  define ls where "ls = map (strip_end is_blank) (split_on LF u)"
  let ?b = "blank_tail ls"
  have noLF: "\<forall>l \<in> set ls. LF \<notin> set l"
    using split_on_no_sep [of LF u] set_strip_end [of is_blank] by (auto simp: ls_def)
  have n: "normaliseText s = join [LF] ?b"
    by (simp add: normaliseText_def strip_join [OF noLF] flip: u_def ls_def)
  have "CR \<notin> set u" by (simp add: u_def)
  then have "\<forall>l \<in> set (split_on LF u). CR \<notin> set l"
    using set_split_on [of LF u] by blast
  then have "\<forall>l \<in> set ls. CR \<notin> set l"
    using set_strip_end [of is_blank] by (auto simp: ls_def)
  then have "CR \<notin> set (join [LF] ?b)"
    using set_join [of "[LF]" ?b] set_blank_tail [of ls] by (simp add: subset_iff) (metis CR_LF(1))
  then have u2: "cr_to_lf (crlf_to_lf (join [LF] ?b)) = join [LF] ?b"
    by (simp add: crlf_to_lf_id cr_to_lf_id)
  have noLF2: "\<forall>l \<in> set ?b. LF \<notin> set l" using noLF set_blank_tail by blast
  show ?thesis
  proof (cases "?b = []")
    case True
    then show ?thesis
      unfolding n
      by (simp add: normaliseText_def crlf_to_lf_id cr_to_lf_id strip_end_def)
  next
    case False
    have "map (strip_end is_blank) ?b = ?b"
      using set_blank_tail [of ls] by (intro map_idI) (auto simp: ls_def)
    then show ?thesis
      unfolding n
      unfolding normaliseText_def u2 split_join [OF noLF2 False]
      using strip_join [OF noLF2] by simp
  qed
qed

text \<open>
  Normalising is idempotent: the stored form of a job is its own canonical form, so reading a
  stored definition back and canonicalising it again changes neither text nor hash.
\<close>

theorem normaliseJobDefinition_idem:
  "normaliseJobDefinition (normaliseJobDefinition j) = normaliseJobDefinition j"
proof -
  have m: "map stepId (map (\<lambda>s. s\<lparr>command := f s\<rparr>) xs) = map stepId xs" for f and xs :: "job_step list"
    by (induction xs) auto
  have "sorted (map stepId (sort_key stepId (steps j)))" by simp
  then have "sort_key stepId (map (\<lambda>s. s\<lparr>command := normaliseText (command s)\<rparr>) (sort_key stepId (steps j))) =
      map (\<lambda>s. s\<lparr>command := normaliseText (command s)\<rparr>) (sort_key stepId (steps j))"
    by (intro sort_key_id_if_sorted) (simp only: m)
  then show ?thesis
    by (cases "description j")
       (simp_all add: normaliseJobDefinition_def normaliseText_idem sort_key_id_if_sorted o_def)
qed

end
