(* ===== verification/Capabilities.thy ===== *)
theory Capabilities
  imports Prelude
begin

text \<open>
  The authorisation vocabulary shared by the control plane and the worker: the capability gates of
  \<open>packages/protocol/src/capabilities.ts\<close>, the dashboard roles of \<open>roles.ts\<close>, and the rule of
  \<open>job-write.ts\<close> for which jobs a worker's login can edit. The roles and the ceilings are
  instances of \<open>linorder\<close>, by increasing power.

  A property lookup on a plain object also finds what the object inherits, so tiers and command
  kinds that arrive as strings are looked up through \<open>object_prototype_keys\<close>; a lookup that
  yields an inherited function makes \<open>new Set(\<dots>)\<close> throw, which is \<^term>\<open>None\<close> here.
\<close>

section \<open>Capabilities and ceilings\<close>

datatype capability =
  Observe | JobToggle | JobRun | ScheduleWrite | JobWrite | OperatorWrite

fun cap_name :: "capability \<Rightarrow> string" where
  "cap_name Observe = ''observe''"
| "cap_name JobToggle = ''job.toggle''"
| "cap_name JobRun = ''job.run''"
| "cap_name ScheduleWrite = ''schedule.write''"
| "cap_name JobWrite = ''job.write''"
| "cap_name OperatorWrite = ''operator.write''"

definition CAPABILITIES :: "capability list" where
  "CAPABILITIES = [Observe, JobToggle, JobRun, ScheduleWrite, JobWrite, OperatorWrite]"

definition ALWAYS_GRANTED :: "capability list" where
  "ALWAYS_GRANTED = [Observe]"

datatype tier = ReadOnly | Operate | Schedule | Full

fun tier_name :: "tier \<Rightarrow> string" where
  "tier_name ReadOnly = ''readOnly''"
| "tier_name Operate = ''operate''"
| "tier_name Schedule = ''schedule''"
| "tier_name Full = ''full''"

definition TIERS :: "tier list" where
  "TIERS = [ReadOnly, Operate, Schedule, Full]"

fun MAX_CAPABILITY_TIERS :: "tier \<Rightarrow> capability list" where
  "MAX_CAPABILITY_TIERS ReadOnly = [Observe]"
| "MAX_CAPABILITY_TIERS Operate = [Observe, JobToggle, JobRun]"
| "MAX_CAPABILITY_TIERS Schedule = [Observe, JobToggle, JobRun, ScheduleWrite]"
| "MAX_CAPABILITY_TIERS Full =
     [Observe, JobToggle, JobRun, ScheduleWrite, JobWrite, OperatorWrite]"

fun tier_rank :: "tier \<Rightarrow> nat" where
  "tier_rank ReadOnly = 0" | "tier_rank Operate = 1" | "tier_rank Schedule = 2"
| "tier_rank Full = 3"

instantiation tier :: linorder
begin

definition less_eq_tier :: "tier \<Rightarrow> tier \<Rightarrow> bool" where
  "less_eq_tier a b \<longleftrightarrow> tier_rank a \<le> tier_rank b"

definition less_tier :: "tier \<Rightarrow> tier \<Rightarrow> bool" where
  "less_tier a b \<longleftrightarrow> tier_rank a < tier_rank b"

instance
proof
  fix a b c :: tier
  show "a \<le> b \<Longrightarrow> b \<le> a \<Longrightarrow> a = b" by (cases a; cases b; simp add: less_eq_tier_def)
qed (auto simp: less_eq_tier_def less_tier_def)

end

definition object_prototype_keys :: "string list" where
  "object_prototype_keys = [''constructor'', ''__defineGetter__'', ''__defineSetter__'',
     ''hasOwnProperty'', ''__lookupGetter__'', ''__lookupSetter__'', ''isPrototypeOf'',
     ''propertyIsEnumerable'', ''toString'', ''valueOf'', ''__proto__'', ''toLocaleString'']"

definition isCapability :: "string \<Rightarrow> bool" where
  "isCapability v \<longleftrightarrow> v \<in> set (map cap_name CAPABILITIES)"

text \<open>\<open>value in MAX_CAPABILITY_TIERS\<close>.\<close>

definition isMaxCapabilityTier :: "string \<Rightarrow> bool" where
  "isMaxCapabilityTier v \<longleftrightarrow> v \<in> set (map tier_name TIERS) \<or> v \<in> set object_prototype_keys"

text \<open>
  \<open>new Set(MAX_CAPABILITY_TIERS[ceiling])\<close>: the tier's list, nothing for an unknown name, and a
  throw for an inherited property, which is not iterable.
\<close>

definition ceiling_set :: "string \<Rightarrow> capability list option" where
  "ceiling_set v =
     (case find (\<lambda>t. tier_name t = v) TIERS of
        Some t \<Rightarrow> Some (MAX_CAPABILITY_TIERS t)
      | None \<Rightarrow> if v \<in> set object_prototype_keys then None else Some [])"

definition effectiveCapabilities :: "string list \<Rightarrow> string \<Rightarrow> capability list option" where
  "effectiveCapabilities grant ceiling =
     (case ceiling_set ceiling of
        None \<Rightarrow> None
      | Some allowed \<Rightarrow>
          (let granted = foldl (\<lambda>acc cap.
                 if isCapability cap \<and> cap \<in> set (map cap_name allowed) then cap # acc else acc)
                 (map cap_name ALWAYS_GRANTED) grant
           in Some (filter (\<lambda>c. cap_name c \<in> set granted) CAPABILITIES)))"

section \<open>Commands\<close>

datatype command_kind =
    ToggleJob | RunJob | StopJob | UpsertJob | DeleteJob | UpsertSchedule | DeleteSchedule
  | UpsertOperator | DeleteOperator | SetJobWriteAllowed

fun kind_name :: "command_kind \<Rightarrow> string" where
  "kind_name ToggleJob = ''toggleJob''" | "kind_name RunJob = ''runJob''"
| "kind_name StopJob = ''stopJob''" | "kind_name UpsertJob = ''upsertJob''"
| "kind_name DeleteJob = ''deleteJob''" | "kind_name UpsertSchedule = ''upsertSchedule''"
| "kind_name DeleteSchedule = ''deleteSchedule''" | "kind_name UpsertOperator = ''upsertOperator''"
| "kind_name DeleteOperator = ''deleteOperator''"
| "kind_name SetJobWriteAllowed = ''setJobWriteAllowed''"

fun COMMAND_CAPABILITY :: "command_kind \<Rightarrow> capability" where
  "COMMAND_CAPABILITY ToggleJob = JobToggle" | "COMMAND_CAPABILITY RunJob = JobRun"
| "COMMAND_CAPABILITY StopJob = JobRun" | "COMMAND_CAPABILITY UpsertJob = JobWrite"
| "COMMAND_CAPABILITY DeleteJob = JobWrite" | "COMMAND_CAPABILITY UpsertSchedule = ScheduleWrite"
| "COMMAND_CAPABILITY DeleteSchedule = ScheduleWrite"
| "COMMAND_CAPABILITY UpsertOperator = OperatorWrite"
| "COMMAND_CAPABILITY DeleteOperator = OperatorWrite"
| "COMMAND_CAPABILITY SetJobWriteAllowed = JobWrite"

definition COMMAND_KINDS :: "command_kind list" where
  "COMMAND_KINDS = [ToggleJob, RunJob, StopJob, UpsertJob, DeleteJob, UpsertSchedule, DeleteSchedule,
     UpsertOperator, DeleteOperator, SetJobWriteAllowed]"

definition kind_of :: "string \<Rightarrow> command_kind option" where
  "kind_of v = find (\<lambda>k. kind_name k = v) COMMAND_KINDS"

definition isCommandKind :: "string \<Rightarrow> bool" where
  "isCommandKind v \<longleftrightarrow> v \<in> set (map kind_name COMMAND_KINDS) \<or> v \<in> set object_prototype_keys"

definition APPROVAL_REQUIRED_BY_DEFAULT :: "command_kind list" where
  "APPROVAL_REQUIRED_BY_DEFAULT = [UpsertJob, DeleteJob, UpsertOperator, DeleteOperator]"

section \<open>Roles\<close>

datatype role = Viewer | Operator | Editor | Admin

datatype permission =
    InstanceRead | JobRead | HistoryRead | VersionRead | MayToggle | MayRun | MayWriteSchedule
  | MayWriteJob | MayWriteOperator | CommandApprove | WorkerAdmin | UserAdmin | AuditRead

definition ROLES :: "role list" where
  "ROLES = [Viewer, Operator, Editor, Admin]"

fun role_name :: "role \<Rightarrow> string" where
  "role_name Viewer = ''Viewer''" | "role_name Operator = ''Operator''"
| "role_name Editor = ''Editor''" | "role_name Admin = ''Admin''"

definition VIEWER :: "permission list" where
  "VIEWER = [InstanceRead, JobRead, HistoryRead, VersionRead]"

definition OPERATOR :: "permission list" where
  "OPERATOR = VIEWER @ [MayToggle, MayRun]"

definition EDITOR :: "permission list" where
  "EDITOR = OPERATOR @ [MayWriteSchedule, MayWriteJob]"

definition ADMIN :: "permission list" where
  "ADMIN = EDITOR @ [MayWriteOperator, CommandApprove, WorkerAdmin, UserAdmin, AuditRead]"

fun ROLE_PERMISSIONS :: "role \<Rightarrow> permission list" where
  "ROLE_PERMISSIONS Viewer = VIEWER"
| "ROLE_PERMISSIONS Operator = OPERATOR"
| "ROLE_PERMISSIONS Editor = EDITOR"
| "ROLE_PERMISSIONS Admin = ADMIN"

lemmas role_lists = VIEWER_def OPERATOR_def EDITOR_def ADMIN_def

definition roleHasPermission :: "role \<Rightarrow> permission \<Rightarrow> bool" where
  "roleHasPermission r p \<longleftrightarrow> p \<in> set (ROLE_PERMISSIONS r)"

definition isRole :: "string \<Rightarrow> bool" where
  "isRole v \<longleftrightarrow> v \<in> set (map role_name ROLES)"

fun role_rank :: "role \<Rightarrow> nat" where
  "role_rank Viewer = 0" | "role_rank Operator = 1" | "role_rank Editor = 2" | "role_rank Admin = 3"

instantiation role :: linorder
begin

definition less_eq_role :: "role \<Rightarrow> role \<Rightarrow> bool" where
  "less_eq_role a b \<longleftrightarrow> role_rank a \<le> role_rank b"

definition less_role :: "role \<Rightarrow> role \<Rightarrow> bool" where
  "less_role a b \<longleftrightarrow> role_rank a < role_rank b"

instance
proof
  fix a b c :: role
  show "a \<le> b \<Longrightarrow> b \<le> a \<Longrightarrow> a = b" by (cases a; cases b; simp add: less_eq_role_def)
qed (auto simp: less_eq_role_def less_role_def)

end

section \<open>Which jobs can be edited\<close>

record job_write_mode =
  sqlLoginName :: string
  isSysadmin :: bool
  wrapperInstalled :: bool
  wrapperAllowsDashboardManagement :: bool
  allowlistedJobs :: "string list"

definition NO_JOB_WRITE :: job_write_mode where
  "NO_JOB_WRITE = \<lparr> sqlLoginName = [], isSysadmin = False, wrapperInstalled = False,
     wrapperAllowsDashboardManagement = False, allowlistedJobs = [] \<rparr>"

text \<open>The job is its name and its owner; an empty owner name is falsy.\<close>

definition canEditJob :: "job_write_mode \<Rightarrow> string \<Rightarrow> string option \<Rightarrow> bool" where
  "canEditJob mode name owner \<longleftrightarrow>
     (if isSysadmin mode then True
      else if (case owner of None \<Rightarrow> False
               | Some x \<Rightarrow> x \<noteq> [] \<and> to_lower x = to_lower (sqlLoginName mode)) then True
      else if \<not> wrapperInstalled mode then False
      else list_ex (\<lambda>n. to_lower n = to_lower name) (allowlistedJobs mode))"

text \<open>The dash of the first message is outside the modelled characters; \<open>0x97\<close> stands for it.\<close>

definition explainJobWriteBlock :: "job_write_mode \<Rightarrow> string \<Rightarrow> string option \<Rightarrow> string option" where
  "explainJobWriteBlock mode name owner =
     (if canEditJob mode name owner then None
      else
        (let unknown = ''an unknown login'';
             own = (case owner of None \<Rightarrow> unknown | Some x \<Rightarrow> x);
             q = [CHR 0x22];
             base = ''SQL Server will not let this worker edit '' @ q @ name @ q @
               '', because the job is owned by '' @ own @ '' and the worker connects as '' @
               (if sqlLoginName mode = [] then unknown else sqlLoginName mode) @ ''. '' @
               ''Enabling, disabling, starting and stopping still work.''
         in if \<not> wrapperInstalled mode
            then Some (base @
                '' To edit it, a DBA installs deploy/sql/worker-write-wrapper.sql on this instance '' @
                [CHR 0x97] @ '' that grants editing of named jobs without giving the worker sysadmin.'')
            else if \<not> wrapperAllowsDashboardManagement mode
            then Some (base @
                '' The write wrapper is installed but maintained by a DBA on this instance, so add '' @
                ''the job to msdb.dbo.rsagent_write_allowlist there.'')
            else Some (base @ '' Put it under central management to allow editing.'')))"

section \<open>What the gates guarantee\<close>

lemma cap_name_inject [simp]: "cap_name c = cap_name d \<longleftrightarrow> c = d"
  by (cases c; cases d) auto

lemma cap_observe [simp]: "cap_name c = ''observe'' \<longleftrightarrow> c = Observe"
  by (cases c) auto

lemma kind_name_inject [simp]: "kind_name c = kind_name d \<longleftrightarrow> c = d"
  by (cases c; cases d; simp)

lemma tier_name_inject [simp]: "tier_name c = tier_name d \<longleftrightarrow> c = d"
  by (cases c; cases d) auto

lemma set_CAPABILITIES [simp]: "c \<in> set CAPABILITIES"
  by (cases c) (auto simp: CAPABILITIES_def)

lemma set_COMMAND_KINDS [simp]: "k \<in> set COMMAND_KINDS"
  by (cases k) (auto simp: COMMAND_KINDS_def)

lemma ceiling_set_tier [simp]: "ceiling_set (tier_name t) = Some (MAX_CAPABILITY_TIERS t)"
  by (cases t) (auto simp: ceiling_set_def TIERS_def)

lemma kind_of_name [simp]: "kind_of (kind_name k) = Some k"
  by (cases k) (simp_all add: kind_of_def COMMAND_KINDS_def)

lemma kind_of_SomeD: "kind_of v = Some k \<Longrightarrow> v = kind_name k"
  by (auto simp: kind_of_def dest: find_SomeD)

lemma set_granted:
  "set (foldl (\<lambda>acc cap. if P cap then cap # acc else acc) acc grant) = set acc \<union> {c \<in> set grant. P c}"
  by (induction grant arbitrary: acc) auto

lemma effectiveCapabilities_set:
  assumes "effectiveCapabilities grant v = Some caps" and "ceiling_set v = Some allowed"
  shows "set caps = insert Observe {c \<in> set allowed. cap_name c \<in> set grant}"
  using assms
  by (auto simp: effectiveCapabilities_def Let_def set_granted ALWAYS_GRANTED_def isCapability_def)

lemma effectiveCapabilities_tier:
  "\<exists>caps. effectiveCapabilities grant (tier_name t) = Some caps \<and>
     set caps = insert Observe {c \<in> set (MAX_CAPABILITY_TIERS t). cap_name c \<in> set grant}"
proof -
  obtain caps where "effectiveCapabilities grant (tier_name t) = Some caps"
    by (simp add: effectiveCapabilities_def Let_def)
  with effectiveCapabilities_set [OF this ceiling_set_tier] show ?thesis by blast
qed

lemma tier_mono: "s \<le> t \<Longrightarrow> set (MAX_CAPABILITY_TIERS s) \<subseteq> set (MAX_CAPABILITY_TIERS t)"
  by (cases s; cases t) (auto simp: less_eq_tier_def)

text \<open>
  C7. The worker's ceiling is a hard bound. Whatever strings the control plane grants, the
  effective set is exactly what is both granted and within the ceiling, plus observing; it grows
  only with the grant and with the ceiling, and a name this worker does not know has no effect.
\<close>

theorem effectiveCapabilities_bound:
  "\<exists>caps. effectiveCapabilities grant (tier_name t) = Some caps \<and>
     set caps = insert Observe {c \<in> set (MAX_CAPABILITY_TIERS t). cap_name c \<in> set grant} \<and>
     (\<forall>grant' t' caps'. set grant \<subseteq> set grant' \<longrightarrow> t \<le> t' \<longrightarrow>
        effectiveCapabilities grant' (tier_name t') = Some caps' \<longrightarrow> set caps \<subseteq> set caps')"
proof -
  obtain caps where c: "effectiveCapabilities grant (tier_name t) = Some caps"
    and s: "set caps = insert Observe {c \<in> set (MAX_CAPABILITY_TIERS t). cap_name c \<in> set grant}"
    using effectiveCapabilities_tier by blast
  have "set caps \<subseteq> set caps'"
    if "set grant \<subseteq> set grant'" "t \<le> t'" "effectiveCapabilities grant' (tier_name t') = Some caps'"
    for grant' t' caps'
    using s effectiveCapabilities_set [OF that(3) ceiling_set_tier] that(1) tier_mono [OF that(2)]
    by auto
  with c s show ?thesis by blast
qed

theorem effectiveCapabilities_bound_witness:
  "\<exists>caps. effectiveCapabilities [''job.write'', ''job.run'', ''root''] (tier_name Operate) = Some caps \<and>
     set caps = {Observe, JobRun}"
proof -
  obtain caps where "effectiveCapabilities [''job.write'', ''job.run'', ''root''] (tier_name Operate) = Some caps"
    and "set caps = insert Observe {c \<in> set (MAX_CAPABILITY_TIERS Operate).
      cap_name c \<in> set [''job.write'', ''job.run'', ''root'']}"
    using effectiveCapabilities_bound [of "[''job.write'', ''job.run'', ''root'']" Operate] by blast
  moreover have "insert Observe {c \<in> set (MAX_CAPABILITY_TIERS Operate).
      cap_name c \<in> set [''job.write'', ''job.run'', ''root'']} = {Observe, JobRun}"
    by auto
  ultimately show ?thesis by simp
qed

text \<open>
  The predicate that narrows a string to a tier also accepts the names every object inherits, and
  for these the computation throws instead of falling back to the lowest tier.
\<close>

lemma inherited_tier_throws:
  "isMaxCapabilityTier ''toString'' \<and> effectiveCapabilities g ''toString'' = None"
proof -
  have "ceiling_set ''toString'' = None"
    by (simp add: ceiling_set_def TIERS_def object_prototype_keys_def)
  moreover have "isMaxCapabilityTier ''toString''"
    by (simp add: isMaxCapabilityTier_def object_prototype_keys_def)
  ultimately show ?thesis by (simp add: effectiveCapabilities_def)
qed

lemma role_mono: "r \<le> r' \<Longrightarrow> roleHasPermission r p \<Longrightarrow> roleHasPermission r' p"
  by (cases r; cases r') (auto simp: less_eq_role_def roleHasPermission_def role_lists)

lemma approve_admin: "roleHasPermission r CommandApprove \<longleftrightarrow> r = Admin"
  by (cases r) (auto simp: roleHasPermission_def role_lists)

lemma explain_iff: "explainJobWriteBlock mode name owner = None \<longleftrightarrow> canEditJob mode name owner"
  by (simp add: explainJobWriteBlock_def Let_def)

lemma no_job_write: "owner \<noteq> Some [] \<Longrightarrow> \<not> canEditJob NO_JOB_WRITE name owner"
  by (auto simp: canEditJob_def NO_JOB_WRITE_def to_lower_def split: option.split)

lemma canEditJob_case:
  "canEditJob mode (to_lower name) (map_option to_lower owner) = canEditJob mode name owner"
proof -
  have "to_lower s = [] \<longleftrightarrow> s = []" for s by (simp add: to_lower_def)
  then show ?thesis by (cases owner) (simp_all add: canEditJob_def)
qed

end
