(* ===== verification/Signing.thy ===== *)
theory Signing
  imports CanonicalLaws Capabilities "HOL-Library.Word"
begin

text \<open>
  Per-command signatures (\<open>packages/protocol/src/signing.ts\<close>), the command message they cover
  and the timestamp conversions of \<open>timestamp.ts\<close>. The signed bytes are length-prefixed fields;
  they are shown to determine the command, so that a signature made for one command verifies for
  no other. SHA-256, key parsing and the RSA primitives are parameters.
\<close>

section \<open>Commands\<close>

text \<open>The payload \<open>oneof\<close> of the \<open>Command\<close> message, fields in the order of the schema.\<close>

datatype command_payload =
    PToggleJob (jobUuid: string) (toEnabled: bool) (baseHash: string)
  | PRunJob string (stepToRun: string)
  | PStopJob string
  | PUpsertJob string string string (allowOverwrite: bool)
  | PDeleteJob string string
  | PUpsertSchedule string string string
  | PDeleteSchedule string string
  | PUpsertOperator int string string
  | PDeleteOperator int string
  | PSetJobWriteAllowed string string bool

record agent_command =
  commandId :: string
  issuedAt :: "(int \<times> int) option"
  instanceName :: string
  signature :: "8 word list"
  payload :: "command_payload option"

fun payload_kind :: "command_payload \<Rightarrow> command_kind" where
  "payload_kind (PToggleJob _ _ _) = ToggleJob" | "payload_kind (PRunJob _ _) = RunJob"
| "payload_kind (PStopJob _) = StopJob" | "payload_kind (PUpsertJob _ _ _ _) = UpsertJob"
| "payload_kind (PDeleteJob _ _) = DeleteJob" | "payload_kind (PUpsertSchedule _ _ _) = UpsertSchedule"
| "payload_kind (PDeleteSchedule _ _) = DeleteSchedule"
| "payload_kind (PUpsertOperator _ _ _) = UpsertOperator"
| "payload_kind (PDeleteOperator _ _) = DeleteOperator"
| "payload_kind (PSetJobWriteAllowed _ _ _) = SetJobWriteAllowed"

fun js_of_payload :: "command_payload \<Rightarrow> js_value" where
  "js_of_payload (PToggleJob u e h) = JsObj [(''jobUuid'', JsStr u), (''enabled'', JsBool e),
     (''baseDefinitionHash'', JsStr h)]"
| "js_of_payload (PRunJob u s) = JsObj [(''jobUuid'', JsStr u), (''stepName'', JsStr s)]"
| "js_of_payload (PStopJob u) = JsObj [(''jobUuid'', JsStr u)]"
| "js_of_payload (PUpsertJob u j h a) = JsObj [(''jobUuid'', JsStr u), (''canonicalJson'', JsStr j),
     (''baseDefinitionHash'', JsStr h), (''allowOverwrite'', JsBool a)]"
| "js_of_payload (PDeleteJob u h) = JsObj [(''jobUuid'', JsStr u), (''baseDefinitionHash'', JsStr h)]"
| "js_of_payload (PUpsertSchedule n j h) = JsObj [(''scheduleName'', JsStr n),
     (''canonicalJson'', JsStr j), (''baseDefinitionHash'', JsStr h)]"
| "js_of_payload (PDeleteSchedule n h) = JsObj [(''scheduleName'', JsStr n),
     (''baseDefinitionHash'', JsStr h)]"
| "js_of_payload (PUpsertOperator i j h) = JsObj [(''operatorId'', js_int i),
     (''canonicalJson'', JsStr j), (''baseDefinitionHash'', JsStr h)]"
| "js_of_payload (PDeleteOperator i h) = JsObj [(''operatorId'', js_int i),
     (''baseDefinitionHash'', JsStr h)]"
| "js_of_payload (PSetJobWriteAllowed u n a) = JsObj [(''jobUuid'', JsStr u), (''jobName'', JsStr n),
     (''allowed'', JsBool a)]"

section \<open>Signed bytes\<close>

text \<open>\<open>Buffer.from(part, 'utf8')\<close> on code units below 256.\<close>

definition utf8_char :: "char \<Rightarrow> 8 word list" where
  "utf8_char c = (let n = of_char c :: nat in
     if n < 128 then [word_of_nat n]
     else [word_of_nat (192 + n div 64), word_of_nat (128 + n mod 64)])"

definition utf8 :: "string \<Rightarrow> 8 word list" where
  "utf8 s = concat (map utf8_char s)"

definition writeUInt32BE :: "nat \<Rightarrow> 8 word list" where
  "writeUInt32BE n = map (\<lambda>i. word_of_nat (n div 256 ^ i mod 256)) [3, 2, 1, 0]"

text \<open>\<open>writeUInt32BE\<close> throws for a length of 2^32 or more.\<close>

definition fits :: "string \<Rightarrow> bool" where
  "fits s \<longleftrightarrow> length (utf8 s) < 2 ^ 32"

definition length_field :: "string \<Rightarrow> 8 word list" where
  "length_field s = writeUInt32BE (length (utf8 s)) @ utf8 s"

definition lengthPrefixed :: "string list \<Rightarrow> 8 word list option" where
  "lengthPrefixed parts =
     (if list_all fits parts then Some (concat (map length_field parts)) else None)"

definition commandKind :: "agent_command \<Rightarrow> string" where
  "commandKind c = (case payload c of None \<Rightarrow> ''unknown'' | Some p \<Rightarrow> kind_name (payload_kind p))"

definition payload_text :: "agent_command \<Rightarrow> string" where
  "payload_text c =
     (case payload c of
        None \<Rightarrow> []
      | Some p \<Rightarrow> kind_name (payload_kind p) @ CHR '':'' #
          the (canonicalJsonStringify (js_of_payload p)))"

definition commandPayloadHash :: "(string \<Rightarrow> string) \<Rightarrow> agent_command \<Rightarrow> string" where
  "commandPayloadHash sha256 c = sha256 (payload_text c)"

definition issued_text :: "agent_command \<Rightarrow> string" where
  "issued_text c =
     (case issuedAt c of None \<Rightarrow> ''0.0'' | Some (s, n) \<Rightarrow> show_int s @ CHR ''.'' # show_int n)"

definition commandSigningBytes :: "(string \<Rightarrow> string) \<Rightarrow> agent_command \<Rightarrow> 8 word list option" where
  "commandSigningBytes sha256 c = lengthPrefixed
     [commandId c, commandKind c, commandPayloadHash sha256 c, issued_text c, instanceName c]"

text \<open>
  \<open>rsa_sign\<close> maps a private key and bytes to a signature; \<open>rsa_verify\<close> maps a public key, bytes and
  a signature to the verdict, \<^term>\<open>None\<close> when the platform throws on the key.
\<close>

definition signCommand ::
  "(string \<Rightarrow> string) \<Rightarrow> (string \<Rightarrow> 8 word list \<Rightarrow> 8 word list) \<Rightarrow> agent_command \<Rightarrow> string
     \<Rightarrow> 8 word list option" where
  "signCommand sha256 rsa_sign c privateKeyPem =
     map_option (rsa_sign privateKeyPem) (commandSigningBytes sha256 c)"

definition verifyCommandSignature ::
  "(string \<Rightarrow> string) \<Rightarrow> (string \<Rightarrow> 8 word list \<Rightarrow> 8 word list \<Rightarrow> bool option) \<Rightarrow> agent_command
     \<Rightarrow> string \<Rightarrow> bool option" where
  "verifyCommandSignature sha256 rsa_verify c publicKeyPem =
     (if signature c = [] then Some False
      else case commandSigningBytes sha256 c of
             None \<Rightarrow> None
           | Some bytes \<Rightarrow>
               (case rsa_verify publicKeyPem bytes (signature c) of
                  None \<Rightarrow> Some False | Some b \<Rightarrow> Some b))"

text \<open>\<open>der\<close> parses a PEM key to its SPKI bytes; it may throw.\<close>

definition signingKeyFingerprint ::
  "(string \<Rightarrow> 'd option) \<Rightarrow> ('d \<Rightarrow> string) \<Rightarrow> string \<Rightarrow> string" where
  "signingKeyFingerprint der digest pem =
     (if pem = [] then [] else case der pem of None \<Rightarrow> [] | Some d \<Rightarrow> digest d)"

section \<open>Replay window\<close>

definition MAX_COMMAND_AGE_MS :: int where "MAX_COMMAND_AGE_MS = 15 * 60 * 1000"
definition MAX_COMMAND_CLOCK_SKEW_MS :: int where "MAX_COMMAND_CLOCK_SKEW_MS = 60 * 1000"

definition isCommandFresh :: "int \<Rightarrow> int \<Rightarrow> bool" where
  "isCommandFresh issuedAtMs nowMs =
     (let age = nowMs - issuedAtMs
      in age \<le> MAX_COMMAND_AGE_MS \<and> age \<ge> - MAX_COMMAND_CLOCK_SKEW_MS)"

section \<open>Timestamps\<close>

text \<open>
  A \<open>Date\<close> is its integral milliseconds; \<open>Math.round\<close> of \<open>nanos / 1e6\<close> rounds halves up.
\<close>

definition toTimestamp :: "int \<Rightarrow> int \<times> int" where
  "toTimestamp ms = (let seconds = ms div 1000 in (seconds, (ms - seconds * 1000) * 1000000))"

definition fromTimestamp :: "(int \<times> int) option \<Rightarrow> int option" where
  "fromTimestamp ts = (case ts of None \<Rightarrow> None
     | Some (seconds, nanos) \<Rightarrow> Some (seconds * 1000 + (nanos + 500000) div 1000000))"

definition fromTimestampOrEpoch :: "(int \<times> int) option \<Rightarrow> int" where
  "fromTimestampOrEpoch ts = (case fromTimestamp ts of None \<Rightarrow> 0 | Some d \<Rightarrow> d)"

definition toTimestampOrUndefined :: "int option \<Rightarrow> (int \<times> int) option" where
  "toTimestampOrUndefined d = map_option toTimestamp d"

lemma timestamp_roundtrip: "fromTimestamp (Some (toTimestamp ms)) = Some ms"
proof -
  have "(k * 1000000 + 500000) div 1000000 = (k :: int)" for k by simp
  then show ?thesis by (simp add: fromTimestamp_def toTimestamp_def Let_def)
qed

lemma timestamp_absent: "fromTimestamp (toTimestampOrUndefined d) = d"
  using timestamp_roundtrip by (cases d) (simp_all add: toTimestampOrUndefined_def fromTimestamp_def)

section \<open>The signed bytes determine the command\<close>

lemma unat_byte: "n < 256 \<Longrightarrow> unat (word_of_nat n :: 8 word) = n"
  by (simp add: unat_of_nat)

lemma byte_inject: "m < 256 \<Longrightarrow> n < 256 \<Longrightarrow> (word_of_nat m :: 8 word) = word_of_nat n \<longleftrightarrow> m = n"
  using unat_byte [of m] unat_byte [of n] by metis

lemma of_char_less: "(of_char c :: nat) < 256"
  by (rule nat_of_char_less_256)

interpretation utf8: prefix_code utf8_char "\<lambda>_. True"
proof
  show "utf8_char c \<noteq> []" for c by (simp add: utf8_char_def Let_def)
  show "c = d \<and> r = r'" if eq: "utf8_char c @ r = utf8_char d @ r'" for c d r r'
  proof -
    let ?m = "of_char c :: nat" and ?n = "of_char d :: nat"
    have lt: "?m < 256" "?n < 256" by (rule of_char_less)+
    then have "?m div 64 < 4" "?n div 64 < 4" by (simp_all add: less_mult_imp_div_less)
    then have lead: "192 + ?m div 64 < 256" "192 + ?n div 64 < 256"
      "128 + ?m mod 64 < 256" "128 + ?n mod 64 < 256" by simp_all
    have "?m = ?n \<and> r = r'"
    proof (cases "?m < 128"; cases "?n < 128")
      assume "?m < 128" "?n < 128"
      then show ?thesis using eq lt by (simp add: utf8_char_def Let_def byte_inject del: of_nat_add)
    next
      assume "?m < 128" "\<not> ?n < 128"
      then show ?thesis using eq lt lead by (simp add: utf8_char_def Let_def byte_inject del: of_nat_add)
    next
      assume "\<not> ?m < 128" "?n < 128"
      then show ?thesis using eq lt lead by (simp add: utf8_char_def Let_def byte_inject del: of_nat_add)
    next
      assume "\<not> ?m < 128" "\<not> ?n < 128"
      then have "?m div 64 = ?n div 64" "?m mod 64 = ?n mod 64" "r = r'"
        using eq lead by (auto simp: utf8_char_def Let_def byte_inject simp del: of_nat_add)
      then show ?thesis by (metis div_mult_mod_eq)
    qed
    then show ?thesis by simp
  qed
qed

lemma utf8_inject: "utf8 s = utf8 t \<longleftrightarrow> s = t"
  using utf8.concat_inject [of s t] by (simp add: utf8_def list_all_iff)

lemma length_writeUInt32BE [simp]: "length (writeUInt32BE n) = 4"
  by (simp add: writeUInt32BE_def)

lemma writeUInt32BE_inject:
  assumes "writeUInt32BE m = writeUInt32BE n" and "m < 2 ^ 32" and "n < 2 ^ 32"
  shows "m = n"
proof -
  have b: "k div 256 ^ i mod 256 < 256" for k i :: nat by simp
  have e: "(word_of_nat (m div 256 ^ i mod 256) :: 8 word) = word_of_nat (n div 256 ^ i mod 256)"
    if "i \<in> set [3, 2, 1, 0]" for i
    using assms(1) that unfolding writeUInt32BE_def map_eq_conv by blast
  then have "m div 256 ^ i mod 256 = n div 256 ^ i mod 256" if "i \<in> set [3, 2, 1, 0]" for i
    using e [OF that] by (simp only: byte_inject [OF b b])
  from this [of 0] this [of 1] this [of 2] this [of 3] have d: "m mod 256 = n mod 256" "m div 256 mod 256 = n div 256 mod 256"
    "m div 256 ^ 2 mod 256 = n div 256 ^ 2 mod 256" "m div 256 ^ 3 mod 256 = n div 256 ^ 3 mod 256"
    by simp_all
  have top: "k div 256 ^ 3 < 256" if "k < 2 ^ 32" for k :: nat using that by simp
  have "m div 256 ^ 3 = n div 256 ^ 3"
    using d(4) top [OF assms(2)] top [OF assms(3)] by simp
  moreover have "k div 256 ^ 2 = k div 256 ^ 3 * 256 + k div 256 ^ 2 mod 256" for k :: nat
  proof -
    have "k div 256 ^ 3 = k div 256 ^ 2 div 256"
      using div_mult2_eq [of k "256 ^ 2" 256] by simp
    then show ?thesis by (simp only: div_mult_mod_eq)
  qed
  ultimately have "m div 256 ^ 2 = n div 256 ^ 2" using d(3) by metis
  moreover have "k div 256 = k div 256 ^ 2 * 256 + k div 256 mod 256" for k :: nat
  proof -
    have "k div 256 ^ 2 = k div 256 div 256"
      using div_mult2_eq [of k 256 256] by simp
    then show ?thesis by (simp only: div_mult_mod_eq)
  qed
  ultimately have "m div 256 = n div 256" using d(2) by metis
  then show ?thesis using d(1) by (metis div_mult_mod_eq)
qed

interpretation field: prefix_code length_field fits
proof
  show "length_field s \<noteq> []" if "fits s" for s
    by (simp add: length_field_def writeUInt32BE_def)
  show "s = t \<and> r = r'" if "fits s" "fits t" and eq: "length_field s @ r = length_field t @ r'"
    for s t r r'
  proof -
    have "writeUInt32BE (length (utf8 s)) = writeUInt32BE (length (utf8 t))"
      and rest: "utf8 s @ r = utf8 t @ r'"
      using eq by (simp_all add: length_field_def append_eq_append_conv)
    then have "length (utf8 s) = length (utf8 t)"
      using that(1,2) writeUInt32BE_inject by (simp add: fits_def)
    with rest show ?thesis by (simp add: append_eq_append_conv utf8_inject)
  qed
qed

lemma lengthPrefixed_inject:
  "lengthPrefixed ps = Some b \<Longrightarrow> lengthPrefixed qs = Some b \<Longrightarrow> ps = qs"
  using field.concat_inject [of ps qs] by (auto simp: lengthPrefixed_def split: if_splits)

lemma show_int_no_dot: "CHR ''.'' \<notin> set (show_int n)"
  using show_int_chars [of n] by (auto simp: list_all_iff num_char_def is_digit_def)

lemma split_mark:
  assumes "x \<notin> set a" "x \<notin> set b" "a @ x # r = b @ x # r'"
  shows "a = b \<and> r = r'"
proof -
  have "takeWhile (\<lambda>y. y \<noteq> x) (c @ x # t) = c" if "x \<notin> set c" for c t
    using that by (subst takeWhile_append2) auto
  then have "a = b" using assms by metis
  then show ?thesis using assms(3) by simp
qed

text \<open>A missing time is signed as time zero.\<close>

definition issued_or_zero :: "agent_command \<Rightarrow> int \<times> int" where
  "issued_or_zero c = (case issuedAt c of None \<Rightarrow> (0, 0) | Some t \<Rightarrow> t)"

lemma issued_text_eq:
  "issued_text c = show_int (fst (issued_or_zero c)) @ CHR ''.'' # show_int (snd (issued_or_zero c))"
proof -
  have "show_int 0 = ''0''" by (simp add: show_int_def show_nat.simps char_of_def bit_0)
  then show ?thesis by (auto simp: issued_text_def issued_or_zero_def split: option.split)
qed

lemma issued_text_inject: "issued_text c = issued_text d \<Longrightarrow> issued_or_zero c = issued_or_zero d"
  using split_mark [OF show_int_no_dot show_int_no_dot, of "fst (issued_or_zero c)"
      "show_int (snd (issued_or_zero c))" "fst (issued_or_zero d)" "show_int (snd (issued_or_zero d))"]
  by (simp add: issued_text_eq prod_eq_iff)

lemma kind_name_no_colon: "CHR '':'' \<notin> set (kind_name k)"
  by (cases k) auto

lemma kind_name_ne: "kind_name k \<noteq> []"
  by (cases k) auto

lemma payload_canonical: "\<exists>v. sortKeysDeep (js_of_payload p) = Some v"
  by (cases p) auto

lemma payload_canonical_inject:
  "payload_kind p = payload_kind q \<Longrightarrow> sortKeysDeep (js_of_payload p) = sortKeysDeep (js_of_payload q) \<Longrightarrow>
     p = q"
  by (cases p; cases q) (simp_all add: obj_inject)

lemma payload_text_inject:
  assumes "payload_text c = payload_text d"
  shows "payload c = payload d"
proof (cases "payload c")
  case None
  then show ?thesis using assms kind_name_ne by (cases "payload d") (auto simp: payload_text_def)
next
  case (Some p)
  then obtain q where q: "payload d = Some q"
    using assms by (cases "payload d") (auto simp: payload_text_def)
  let ?j = "\<lambda>p. the (canonicalJsonStringify (js_of_payload p))"
  have "kind_name (payload_kind p) @ CHR '':'' # ?j p = kind_name (payload_kind q) @ CHR '':'' # ?j q"
    using assms Some q by (simp add: payload_text_def)
  from split_mark [OF kind_name_no_colon kind_name_no_colon this]
  have "payload_kind p = payload_kind q" and "?j p = ?j q" by simp_all
  moreover obtain v w where "sortKeysDeep (js_of_payload p) = Some v" "sortKeysDeep (js_of_payload q) = Some w"
    using payload_canonical by metis
  ultimately have "p = q"
    by (intro payload_canonical_inject) (simp_all add: canonicalJsonStringify_def stringify_inject)
  then show ?thesis using Some q by simp
qed

text \<open>
  C5. A signature is good for one command only. Assume a signature scheme that accepts a signature
  exactly for the bytes it was made for, and a digest without a collision on the two payload
  texts: then a command that verifies under a signature made for another one has the same id, the
  same payload in every field, the same issue time and the same instance. Field boundaries cannot
  be shifted, because every field is length-prefixed.
\<close>

theorem signature_binds_command:
  assumes "signCommand sha256 rsa_sign c priv = Some sig"
    and "\<And>bytes bytes'. rsa_verify pub bytes' (rsa_sign priv bytes) = Some True \<Longrightarrow> bytes' = bytes"
    and "sha256 (payload_text d) = sha256 (payload_text c) \<Longrightarrow> payload_text d = payload_text c"
    and "verifyCommandSignature sha256 rsa_verify (d\<lparr>signature := sig\<rparr>) pub = Some True"
  shows "commandId d = commandId c \<and> payload d = payload c \<and> instanceName d = instanceName c \<and>
    issued_or_zero d = issued_or_zero c"
proof -
  obtain b where b: "commandSigningBytes sha256 c = Some b" and sig: "sig = rsa_sign priv b"
    using assms(1) by (auto simp: signCommand_def)
  have same: "commandSigningBytes sha256 (d\<lparr>signature := sig\<rparr>) = commandSigningBytes sha256 d"
    by (simp add: commandSigningBytes_def commandKind_def commandPayloadHash_def payload_text_def
        issued_text_def)
  obtain b' where b': "commandSigningBytes sha256 d = Some b'" and "rsa_verify pub b' sig = Some True"
    using assms(4) by (auto simp: verifyCommandSignature_def same split: if_splits option.splits)
  then have "b' = b" using assms(2) sig by blast
  with b b' have "[commandId d, commandKind d, commandPayloadHash sha256 d, issued_text d, instanceName d] =
      [commandId c, commandKind c, commandPayloadHash sha256 c, issued_text c, instanceName c]"
    by (intro lengthPrefixed_inject) (simp_all add: commandSigningBytes_def)
  then have eq: "commandId d = commandId c" "commandPayloadHash sha256 d = commandPayloadHash sha256 c"
    "issued_text d = issued_text c" "instanceName d = instanceName c" by simp_all
  have "payload d = payload c"
    using eq(2) assms(3) by (intro payload_text_inject) (simp add: commandPayloadHash_def)
  with eq issued_text_inject [OF eq(3)] show ?thesis by simp
qed

definition toggle_command :: "string \<Rightarrow> agent_command" where
  "toggle_command cid = \<lparr> commandId = cid, issuedAt = Some (5, 0), instanceName = ''S'',
     signature = [], payload = Some (PToggleJob ''j'' False []) \<rparr>"

lemma signing_bytes_Some:
  "list_all fits [commandId c, commandKind c, commandPayloadHash sha256 c, issued_text c, instanceName c]
     \<Longrightarrow> \<exists>b. commandSigningBytes sha256 c = Some b"
  by (simp add: commandSigningBytes_def lengthPrefixed_def)

lemma length_utf8: "length (utf8 s) \<le> 2 * length s"
  by (induction s) (auto simp: utf8_def utf8_char_def Let_def)

lemma fits_short: "length s < 1000 \<Longrightarrow> fits s"
  using length_utf8 [of s] by (simp add: fits_def)

theorem signature_binds_command_witness:
  "verifyCommandSignature (\<lambda>_. ''h'') (\<lambda>_ bytes sig. Some (bytes = sig))
     ((toggle_command ''b'')\<lparr>signature := the (commandSigningBytes (\<lambda>_. ''h'') (toggle_command ''a''))\<rparr>)
     ''pub'' \<noteq> Some True"
proof
  let ?sha = "\<lambda>_ :: string. ''h''" and ?a = "toggle_command ''a''" and ?b = "toggle_command ''b''"
  have "list_all fits [commandId ?a, commandKind ?a, commandPayloadHash ?sha ?a, issued_text ?a, instanceName ?a]"
    by (simp add: fits_short toggle_command_def commandKind_def commandPayloadHash_def issued_text_def
        show_int_def show_nat.simps)
  then obtain bytes where "commandSigningBytes ?sha ?a = Some bytes"
    using signing_bytes_Some by blast
  then have s: "signCommand ?sha (\<lambda>_ x. x) ?a ''priv'' = Some (the (commandSigningBytes ?sha ?a))"
    by (simp add: signCommand_def)
  assume v: "verifyCommandSignature ?sha (\<lambda>_ bytes sig. Some (bytes = sig))
     (?b\<lparr>signature := the (commandSigningBytes ?sha ?a)\<rparr>) ''pub'' = Some True"
  have t: "payload_text ?b = payload_text ?a" by (simp add: payload_text_def toggle_command_def)
  from signature_binds_command [OF s _ t v] show False by (simp add: toggle_command_def)
qed

end
