(* ===== verification/DrainSource.thy ===== *)
theory DrainSource
  imports Prelude
begin

text \<open>
  Draining the outbox (\<open>packages/worker/src/drain-outbox.ts\<close>) against the slice of it that the
  drain needs, \<open>DrainSource\<close>: reading a batch without removing it and acknowledging what was
  sent. The slice is a locale; inside it the batched loop is shown to return and to do exactly
  what sending the rows one by one in order would do. JSON parsing and the session are parameters:
  \<open>parse\<close> fails on a row that is not valid JSON, \<open>send\<close> maps the session's state and a message to
  the next state and whether the stream accepted it.
\<close>

section \<open>Rows\<close>

datatype outbox_kind = HistoryRow | ActivityRow | AgentLogRow

record outbox_row =
  rowId :: int
  rowKind :: outbox_kind
  rowInstance :: string
  rowPayload :: string
  rowCreatedAt :: int

definition delete_ids :: "int list \<Rightarrow> outbox_row list \<Rightarrow> outbox_row list" where
  "delete_ids ids rs = filter (\<lambda>r. rowId r \<notin> set ids) rs"

lemma delete_ids_take:
  assumes "distinct (map rowId rs)"
  shows "delete_ids (map rowId (take k rs)) rs = drop k rs"
proof -
  have d: "distinct (map rowId (take k rs) @ map rowId (drop k rs))"
    using assms by (metis append_take_drop_id map_append)
  have "filter (\<lambda>r. rowId r \<notin> set (map rowId (take k rs))) (take k rs) = []"
    by (auto simp: filter_empty_conv)
  moreover have "filter (\<lambda>r. rowId r \<notin> set (map rowId (take k rs))) (drop k rs) = drop k rs"
    using d by (intro filter_True) (force simp: disjoint_iff)
  ultimately have "filter (\<lambda>r. rowId r \<notin> set (map rowId (take k rs))) (take k rs @ drop k rs) = drop k rs"
    by (simp only: filter_append append_Nil)
  then show ?thesis by (simp add: delete_ids_def)
qed

section \<open>The drain\<close>

definition OUTBOX_DRAIN_BATCH :: nat where
  "OUTBOX_DRAIN_BATCH = 50"

text \<open>The inner loop: session state, ids sent, and whether it stopped early.\<close>

fun send_batch ::
  "(string \<Rightarrow> 'm option) \<Rightarrow> ('s \<Rightarrow> 'm \<Rightarrow> 's \<times> bool) \<Rightarrow> outbox_row list \<Rightarrow> 's \<Rightarrow> int list
     \<Rightarrow> 's \<times> int list \<times> bool" where
  "send_batch parse send [] s sent = (s, sent, False)"
| "send_batch parse send (r # rs) s sent =
     (case parse (rowPayload r) of
        None \<Rightarrow> send_batch parse send rs s (sent @ [rowId r])
      | Some m \<Rightarrow>
          (let (s', accepted) = send s m
           in if \<not> accepted then (s', sent, True)
              else send_batch parse send rs s' (sent @ [rowId r])))"

partial_function (option) drain_loop ::
  "('q \<Rightarrow> nat \<Rightarrow> outbox_row list) \<Rightarrow> ('q \<Rightarrow> int list \<Rightarrow> 'q) \<Rightarrow> (string \<Rightarrow> 'm option)
     \<Rightarrow> ('s \<Rightarrow> 'm \<Rightarrow> 's \<times> bool) \<Rightarrow> 'q \<Rightarrow> 's \<Rightarrow> ('q \<times> 's) option" where
  "drain_loop pk ack parse send q s =
     (let batch = pk q OUTBOX_DRAIN_BATCH
      in if batch = [] then Some (q, s)
         else (let (s', sent, stoppedEarly) = send_batch parse send batch s []; q' = ack q sent
               in if stoppedEarly then Some (q', s') else drain_loop pk ack parse send q' s'))"

definition drainOutbox ::
  "('q \<Rightarrow> nat \<Rightarrow> outbox_row list) \<Rightarrow> ('q \<Rightarrow> int list \<Rightarrow> 'q) \<Rightarrow> (string \<Rightarrow> 'm option)
     \<Rightarrow> ('s \<Rightarrow> 'm \<Rightarrow> 's \<times> bool) \<Rightarrow> ('s \<Rightarrow> bool) \<Rightarrow> 'q \<Rightarrow> 's \<Rightarrow> ('q \<times> 's) option" where
  "drainOutbox pk ack parse send connected q s =
     (if \<not> connected s then Some (q, s) else drain_loop pk ack parse send q s)"

declare drain_loop.simps [code]

section \<open>Row by row\<close>

text \<open>The specification: what is left, and the session's state, after sending in order.\<close>

fun deliver ::
  "(string \<Rightarrow> 'm option) \<Rightarrow> ('s \<Rightarrow> 'm \<Rightarrow> 's \<times> bool) \<Rightarrow> outbox_row list \<Rightarrow> 's \<Rightarrow> outbox_row list \<times> 's"
  where
  "deliver parse send [] s = ([], s)"
| "deliver parse send (r # rs) s =
     (case parse (rowPayload r) of
        None \<Rightarrow> deliver parse send rs s
      | Some m \<Rightarrow>
          (let (s', accepted) = send s m
           in if accepted then deliver parse send rs s' else (r # rs, s')))"

lemma deliver_suffix: "\<exists>k \<le> length rs. fst (deliver parse send rs s) = drop k rs"
proof (induction rs arbitrary: s)
  case Nil
  then show ?case by simp
next
  case (Cons r rs)
  have "\<exists>k \<le> length (r # rs). fst (deliver parse send rs t) = drop k (r # rs)" for t
  proof -
    obtain k where "k \<le> length rs" "fst (deliver parse send rs t) = drop k rs"
      using Cons.IH by blast
    then show ?thesis by (intro exI [of _ "Suc k"]) simp
  qed
  moreover have "\<exists>k \<le> length (r # rs). r # rs = drop k (r # rs)" by (intro exI [of _ 0]) simp
  ultimately show ?case
    by (auto split: option.split prod.split)
qed

lemma deliver_append:
  "deliver parse send (xs @ ys) s =
     (let (rest, s') = deliver parse send xs s
      in if rest = [] then deliver parse send ys s' else (rest @ ys, s'))"
  by (induction xs arbitrary: s) (auto simp: Let_def split: option.split prod.split)

lemma send_batch_deliver:
  "send_batch parse send rs s sent =
     (let (rest, s') = deliver parse send rs s
      in (s', sent @ map rowId (take (length rs - length rest) rs), rest \<noteq> []))"
proof (induction rs arbitrary: s sent)
  case Nil
  then show ?case by simp
next
  case (Cons r rs)
  have len: "length (fst (deliver parse send rs t)) \<le> length rs" for t
    using deliver_suffix [of rs parse send t] by auto
  show ?case
  proof (cases "parse (rowPayload r)")
    case None
    then show ?thesis
      using len [of s] Cons.IH [of s "sent @ [rowId r]"]
      by (simp add: case_prod_beta Let_def Suc_diff_le)
  next
    case (Some m)
    then show ?thesis
      using len [of "fst (send s m)"] Cons.IH [of "fst (send s m)" "sent @ [rowId r]"]
      by (simp add: case_prod_beta Let_def Suc_diff_le)
  qed
qed

section \<open>The interface\<close>

locale drain_queue =
  fixes pk :: "'q \<Rightarrow> nat \<Rightarrow> outbox_row list" and ack :: "'q \<Rightarrow> int list \<Rightarrow> 'q"
    and inv :: "'q \<Rightarrow> bool" and contents :: "'q \<Rightarrow> outbox_row list"
  assumes peek_take: "inv q \<Longrightarrow> pk q n = take n (contents q)"
    and ack_inv: "inv q \<Longrightarrow> inv (ack q ids)"
    and ack_contents: "inv q \<Longrightarrow> contents (ack q ids) = delete_ids ids (contents q)"
    and ids_distinct: "inv q \<Longrightarrow> distinct (map rowId (contents q))"
begin

lemma ack_prefix: "inv q \<Longrightarrow> contents (ack q (map rowId (take k (contents q)))) = drop k (contents q)"
  by (simp add: ack_contents delete_ids_take ids_distinct)

text \<open>The batched loop returns, and leaves what the row-by-row specification leaves.\<close>

lemma drain_loop_deliver:
  "inv q \<Longrightarrow> \<exists>q' s'. drain_loop pk ack parse send q s = Some (q', s') \<and> inv q' \<and>
     deliver parse send (contents q) s = (contents q', s')"
proof (induction "length (contents q)" arbitrary: q s rule: less_induct)
  case less
  let ?c = "contents q" and ?n = OUTBOX_DRAIN_BATCH
  have n: "0 < ?n" by (simp add: OUTBOX_DRAIN_BATCH_def)
  have batch: "pk q ?n = take ?n ?c" by (rule peek_take [OF less.prems])
  obtain rest t where d: "deliver parse send (take ?n ?c) s = (rest, t)" by fastforce
  obtain k where k: "k \<le> length (take ?n ?c)" "rest = drop k (take ?n ?c)"
    using deliver_suffix [of "take ?n ?c" parse send s] d by auto
  have whole: "deliver parse send ?c s =
      (if rest = [] then deliver parse send (drop ?n ?c) t else (rest @ drop ?n ?c, t))"
    using deliver_append [of parse send "take ?n ?c" "drop ?n ?c" s] d by simp
  have sent: "map rowId (take (length (take ?n ?c) - length rest) (take ?n ?c)) = map rowId (take k ?c)"
  proof -
    have "length (take ?n ?c) - length rest = k" "k \<le> ?n" using k by auto
    then show ?thesis by (simp add: min_absorb1)
  qed
  let ?q' = "ack q (map rowId (take k ?c))"
  have q': "inv ?q'" "contents ?q' = drop k ?c"
    using less.prems by (simp_all add: ack_inv ack_prefix)
  have sb: "send_batch parse send (take ?n ?c) s [] = (t, map rowId (take k ?c), rest \<noteq> [])"
    by (simp only: send_batch_deliver d prod.case Let_def sent append_Nil)
  have loop: "drain_loop pk ack parse send q s =
      (if ?c = [] then Some (q, s)
       else if rest \<noteq> [] then Some (?q', t) else drain_loop pk ack parse send ?q' t)"
    by (subst drain_loop.simps) (use n in \<open>simp add: batch Let_def sb\<close>)
  show ?case
  proof (cases "?c = []")
    case True
    then show ?thesis using loop less.prems by simp
  next
    case c: False
    show ?thesis
    proof (cases "rest = []")
      case True
      then have "length (take ?n ?c) \<le> k" using k(2) by simp
      then have kn: "k = length (take ?n ?c)" using k(1) by linarith
      then have dk: "drop k ?c = drop ?n ?c" by (simp add: min_def)
      have "length (contents ?q') < length ?c" using c n dk q'(2) by simp
      from less.hyps [OF this q'(1), of t] show ?thesis
        using loop whole c True q'(2) dk by simp
    next
      case False
      have "rest @ drop ?n ?c = drop k ?c"
        using k by (metis append_take_drop_id drop_append diff_is_0_eq' drop0)
      then show ?thesis using loop whole c False q' by simp
    qed
  qed
qed

end

end
