(* ===== verification/Outbox.thy ===== *)
theory Outbox
  imports DrainSource
begin

text \<open>
  The worker's local durable store (\<open>packages/worker/src/outbox.ts\<close>): the bounded queue of rows
  waiting for the control plane, the record of applied commands and the sync bookmarks. The state
  is the three SQLite tables and the counters kept beside them; a statement of the source is the
  update it makes. SQLite itself is assumed to run each statement.

  The store provides three interfaces: the queue of theory DrainSource, a record where the first
  write wins, and a bookmark that only moves forward. The last two are locales of this theory.
\<close>

section \<open>The store\<close>

record applied_row =
  appliedAt :: int
  appliedSuccess :: bool
  appliedResult :: "string option"

record sync_row =
  historyHwm :: int
  agentLogHwm :: "int option"
  definitionHashes :: "(string \<times> string) list option"

record outbox =
  outboxRows :: "outbox_row list"
  nextRowId :: int
  appliedCommands :: "string \<rightharpoonup> applied_row"
  syncState :: "string \<rightharpoonup> sync_row"
  maxRows :: int
  evictedCount :: int
  outboxDepth :: int
  lastPruneAt :: int

text \<open>The constructor: the tables are what an earlier run left, the depth is counted once.\<close>

definition openOutbox ::
  "outbox_row list \<Rightarrow> int \<Rightarrow> (string \<rightharpoonup> applied_row) \<Rightarrow> (string \<rightharpoonup> sync_row) \<Rightarrow> int \<Rightarrow> outbox" where
  "openOutbox rs nxt applied sync limit = \<lparr> outboxRows = rs, nextRowId = nxt,
     appliedCommands = applied, syncState = sync, maxRows = limit, evictedCount = 0,
     outboxDepth = int (length rs), lastPruneAt = 0 \<rparr>"

definition rows_by_id :: "outbox \<Rightarrow> outbox_row list" where
  "rows_by_id q = sort_key rowId (outboxRows q)"

definition evictIfNeeded :: "outbox \<Rightarrow> outbox" where
  "evictIfNeeded q =
     (if outboxDepth q \<le> maxRows q then q
      else
        (let excess = nat (outboxDepth q - maxRows q);
             rs = delete_ids (map rowId (take excess (rows_by_id q))) (outboxRows q);
             removed = int (length (outboxRows q)) - int (length rs)
         in q\<lparr>outboxRows := rs, evictedCount := evictedCount q + removed,
              outboxDepth := outboxDepth q - removed\<rparr>))"

definition new_row :: "outbox_kind \<Rightarrow> string \<Rightarrow> string \<Rightarrow> int \<Rightarrow> outbox \<Rightarrow> outbox_row" where
  "new_row kind inst pay now q = \<lparr>rowId = nextRowId q, rowKind = kind, rowInstance = inst,
     rowPayload = pay, rowCreatedAt = now\<rparr>"

definition enqueue :: "outbox_kind \<Rightarrow> string \<Rightarrow> string \<Rightarrow> int \<Rightarrow> outbox \<Rightarrow> outbox" where
  "enqueue kind inst pay now q =
     evictIfNeeded (q\<lparr>outboxRows := outboxRows q @ [new_row kind inst pay now q],
                      nextRowId := nextRowId q + 1, outboxDepth := outboxDepth q + 1\<rparr>)"

definition peek :: "outbox \<Rightarrow> nat \<Rightarrow> outbox_row list" where
  "peek q limit = take limit (rows_by_id q)"

text \<open>One \<open>DELETE ... WHERE id = ?\<close> per id, counting the rows each removes.\<close>

definition delete_one :: "outbox_row list \<times> int \<Rightarrow> int \<Rightarrow> outbox_row list \<times> int" where
  "delete_one acc i =
     (let (rs, removed) = acc; rs' = delete_ids [i] rs
      in (rs', removed + (int (length rs) - int (length rs'))))"

definition acknowledge :: "outbox \<Rightarrow> int list \<Rightarrow> outbox" where
  "acknowledge q ids =
     (if ids = [] then q
      else (let (rs, removed) = foldl delete_one (outboxRows q, 0) ids
            in q\<lparr>outboxRows := rs, outboxDepth := outboxDepth q - removed\<rparr>))"

definition stats :: "outbox \<Rightarrow> int \<times> int" where
  "stats q = (outboxDepth q, evictedCount q)"

section \<open>Bookmarks\<close>

definition fresh_sync :: sync_row where
  "fresh_sync = \<lparr> historyHwm = 0, agentLogHwm = None, definitionHashes = None \<rparr>"

definition getHistoryHighWaterMark :: "string \<Rightarrow> outbox \<Rightarrow> int" where
  "getHistoryHighWaterMark inst q =
     (case syncState q inst of None \<Rightarrow> 0 | Some r \<Rightarrow> historyHwm r)"

definition setHistoryHighWaterMark :: "string \<Rightarrow> int \<Rightarrow> outbox \<Rightarrow> outbox" where
  "setHistoryHighWaterMark inst v q =
     (let row = (case syncState q inst of
                   None \<Rightarrow> fresh_sync\<lparr>historyHwm := v\<rparr>
                 | Some r \<Rightarrow> r\<lparr>historyHwm := max (historyHwm r) v\<rparr>)
      in q\<lparr>syncState := (syncState q)(inst \<mapsto> row)\<rparr>)"

text \<open>A stored mark of 0 is falsy and read as absent.\<close>

definition getAgentLogHighWaterMark :: "string \<Rightarrow> outbox \<Rightarrow> int option" where
  "getAgentLogHighWaterMark inst q =
     (case syncState q inst of
        None \<Rightarrow> None
      | Some r \<Rightarrow> (case agentLogHwm r of None \<Rightarrow> None | Some t \<Rightarrow> if t = 0 then None else Some t))"

definition setAgentLogHighWaterMark :: "string \<Rightarrow> int \<Rightarrow> outbox \<Rightarrow> outbox" where
  "setAgentLogHighWaterMark inst v q =
     (let row = (case syncState q inst of
                   None \<Rightarrow> fresh_sync\<lparr>agentLogHwm := Some v\<rparr>
                 | Some r \<Rightarrow> r\<lparr>agentLogHwm := Some (max (case agentLogHwm r of None \<Rightarrow> 0 | Some t \<Rightarrow> t) v)\<rparr>)
      in q\<lparr>syncState := (syncState q)(inst \<mapsto> row)\<rparr>)"

definition getDefinitionHashes :: "string \<Rightarrow> outbox \<Rightarrow> (string \<times> string) list" where
  "getDefinitionHashes inst q =
     (case syncState q inst of
        None \<Rightarrow> []
      | Some r \<Rightarrow> (case definitionHashes r of None \<Rightarrow> [] | Some h \<Rightarrow> h))"

definition setDefinitionHashes :: "string \<Rightarrow> (string \<times> string) list \<Rightarrow> outbox \<Rightarrow> outbox" where
  "setDefinitionHashes inst h q =
     (let row = (case syncState q inst of
                   None \<Rightarrow> fresh_sync\<lparr>definitionHashes := Some h\<rparr>
                 | Some r \<Rightarrow> r\<lparr>definitionHashes := Some h\<rparr>)
      in q\<lparr>syncState := (syncState q)(inst \<mapsto> row)\<rparr>)"

section \<open>Applied commands\<close>

definition APPLIED_COMMAND_RETENTION_MS :: int where
  "APPLIED_COMMAND_RETENTION_MS = 24 * 60 * 60 * 1000"

definition APPLIED_COMMAND_PRUNE_INTERVAL_MS :: int where
  "APPLIED_COMMAND_PRUNE_INTERVAL_MS = 60 * 60 * 1000"

definition hasAppliedCommand :: "string \<Rightarrow> outbox \<Rightarrow> bool" where
  "hasAppliedCommand cid q \<longleftrightarrow> appliedCommands q cid \<noteq> None"

definition appliedCommandOutcome :: "string \<Rightarrow> outbox \<Rightarrow> (bool \<times> string option) option" where
  "appliedCommandOutcome cid q =
     map_option (\<lambda>r. (appliedSuccess r, appliedResult r)) (appliedCommands q cid)"

definition recordAppliedCommand :: "string \<Rightarrow> bool \<Rightarrow> string option \<Rightarrow> int \<Rightarrow> outbox \<Rightarrow> outbox" where
  "recordAppliedCommand cid succ res now q =
     (case appliedCommands q cid of
        Some _ \<Rightarrow> q
      | None \<Rightarrow> q\<lparr>appliedCommands := (appliedCommands q)(cid \<mapsto>
                   \<lparr>appliedAt = now, appliedSuccess = succ, appliedResult = res\<rparr>)\<rparr>)"

definition pruneAppliedCommands :: "int \<Rightarrow> int \<Rightarrow> outbox \<Rightarrow> outbox" where
  "pruneAppliedCommands maxAgeMs now q =
     (if now - lastPruneAt q < APPLIED_COMMAND_PRUNE_INTERVAL_MS then q
      else q\<lparr>lastPruneAt := now,
             appliedCommands := (\<lambda>cid. case appliedCommands q cid of
                None \<Rightarrow> None
              | Some r \<Rightarrow> if appliedAt r < now - maxAgeMs then None else Some r)\<rparr>)"

section \<open>The queue invariant\<close>

definition outbox_ok :: "outbox \<Rightarrow> bool" where
  "outbox_ok q \<longleftrightarrow> sorted_wrt (<) (map rowId (outboxRows q)) \<and>
     list_all (\<lambda>r. rowId r < nextRowId q) (outboxRows q) \<and>
     outboxDepth q = int (length (outboxRows q)) \<and> outboxDepth q \<le> maxRows q"

lemma strict_sorted_rows:
  assumes "sorted_wrt (<) (map rowId rs)"
  shows "sort_key rowId rs = rs" and "distinct (map rowId rs)"
proof -
  have "sorted (map rowId rs) \<and> distinct (map rowId rs)"
    using assms strict_sorted_iff by blast
  then show "sort_key rowId rs = rs" and "distinct (map rowId rs)"
    by (simp_all add: sort_key_id_if_sorted)
qed

lemma foldl_delete_one:
  "foldl delete_one (rs, n) ids =
     (delete_ids ids rs, n + (int (length rs) - int (length (delete_ids ids rs))))"
proof (induction ids arbitrary: rs n)
  case Nil
  then show ?case by (simp add: delete_ids_def)
next
  case (Cons i ids)
  have "delete_ids ids (delete_ids [i] rs) = delete_ids (i # ids) rs"
    by (auto simp: delete_ids_def intro: filter_cong)
  moreover have "delete_one (rs, n) i =
      (delete_ids [i] rs, n + (int (length rs) - int (length (delete_ids [i] rs))))"
    by (simp add: delete_one_def Let_def)
  ultimately show ?case by (simp add: Cons.IH)
qed

lemma strict_sorted_filter: "sorted_wrt (<) (map f xs) \<Longrightarrow> sorted_wrt (<) (map f (filter P xs))"
  by (induction xs) auto

lemma strict_sorted_drop: "sorted_wrt (<) (map f xs) \<Longrightarrow> sorted_wrt (<) (map f (drop k xs))"
  by (simp add: drop_map [symmetric] sorted_wrt_drop)

lemma acknowledge_rows: "outboxRows (acknowledge q ids) = delete_ids ids (outboxRows q)"
  by (simp add: acknowledge_def foldl_delete_one delete_ids_def)

lemma acknowledge_ok: "outbox_ok q \<Longrightarrow> outbox_ok (acknowledge q ids)"
  by (auto simp: outbox_ok_def acknowledge_def foldl_delete_one delete_ids_def strict_sorted_filter
      list_all_iff order_trans [OF of_nat_mono [OF length_filter_le]])

text \<open>What an insertion leaves: the newest \<open>maxRows\<close> rows, in order.\<close>

lemma enqueue_rows:
  assumes ok: "outbox_ok q" and "0 \<le> maxRows q"
  defines "k \<equiv> (if outboxDepth q = maxRows q then 1 else 0)"
  shows "outboxRows (enqueue kind inst pay now q) = drop k (outboxRows q @ [new_row kind inst pay now q])"
    and "outbox_ok (enqueue kind inst pay now q)"
    and "evictedCount (enqueue kind inst pay now q) = evictedCount q + int k"
    and "outboxDepth (enqueue kind inst pay now q) = outboxDepth q + 1 - int k"
proof -
  let ?rs = "outboxRows q @ [new_row kind inst pay now q]"
  have ss: "sorted_wrt (<) (map rowId ?rs)"
    using ok by (auto simp: outbox_ok_def new_row_def sorted_wrt_append list_all_iff)
  note rs = strict_sorted_rows [OF ss]
  have e: "enqueue kind inst pay now q =
      (if outboxDepth q + 1 \<le> maxRows q
       then q\<lparr>outboxRows := ?rs, nextRowId := nextRowId q + 1, outboxDepth := outboxDepth q + 1\<rparr>
       else q\<lparr>outboxRows := drop k ?rs, nextRowId := nextRowId q + 1,
              evictedCount := evictedCount q + int k, outboxDepth := outboxDepth q + 1 - int k\<rparr>)"
  proof (cases "outboxDepth q + 1 \<le> maxRows q")
    case True
    then show ?thesis by (simp add: enqueue_def evictIfNeeded_def)
  next
    case False
    then have "outboxDepth q = maxRows q" using ok by (simp add: outbox_ok_def)
    then have "k = 1" "nat (outboxDepth q + 1 - maxRows q) = 1" by (simp_all add: k_def)
    then show ?thesis
      using False rs(1) delete_ids_take [OF rs(2), of k]
      by (simp add: enqueue_def evictIfNeeded_def rows_by_id_def Let_def)
  qed
  have k: "k = 0" if "outboxDepth q + 1 \<le> maxRows q" using that by (simp add: k_def)
  show "outboxRows (enqueue kind inst pay now q) = drop k ?rs"
    "evictedCount (enqueue kind inst pay now q) = evictedCount q + int k"
    "outboxDepth (enqueue kind inst pay now q) = outboxDepth q + 1 - int k"
    using k by (simp_all add: e)
  have len: "outboxDepth q = int (length (outboxRows q))" "outboxDepth q \<le> maxRows q"
    "list_all (\<lambda>r. rowId r < nextRowId q + 1) ?rs"
    using ok by (auto simp: outbox_ok_def list_all_iff new_row_def)
  then have "list_all (\<lambda>r. rowId r < nextRowId q + 1) (drop k ?rs)"
    by (auto simp: list_all_iff dest: in_set_dropD)
  moreover have "outboxDepth q + 1 - int k = int (length (drop k ?rs))" "outboxDepth q + 1 - int k \<le> maxRows q"
    using len(1,2) assms(2) by (auto simp: k_def split: if_splits)
  ultimately show "outbox_ok (enqueue kind inst pay now q)"
    using strict_sorted_drop [OF ss, of k] len k
    by (auto simp: outbox_ok_def e)
qed

section \<open>Interfaces\<close>

text \<open>The first outcome written for a key is the one that is read, for ever.\<close>

locale first_write_wins =
  fixes lookup :: "'k \<Rightarrow> 's \<Rightarrow> 'v option" and note_down :: "'k \<Rightarrow> 'v \<Rightarrow> 's \<Rightarrow> 's"
  assumes lookup_write: "lookup k (note_down k v s) = (case lookup k s of None \<Rightarrow> Some v | Some w \<Rightarrow> Some w)"
    and lookup_other: "k \<noteq> k' \<Longrightarrow> lookup k (note_down k' v s) = lookup k s"
begin

lemma write_keeps: "lookup k s = Some v \<Longrightarrow> lookup k (note_down k' w s) = Some v"
  by (cases "k = k'") (simp_all add: lookup_write lookup_other)

lemma first_of_many:
  "lookup k (foldl (\<lambda>s (k, v). note_down k v s) s kvs) =
     (case lookup k s of Some v \<Rightarrow> Some v | None \<Rightarrow> map_of kvs k)"
proof (induction kvs arbitrary: s)
  case Nil
  then show ?case by (simp split: option.split)
next
  case (Cons kv kvs)
  obtain k' v where kv: "kv = (k', v)" by fastforce
  show ?case
    using Cons.IH [of "note_down k' v s"]
    by (auto simp: kv lookup_write lookup_other split: option.splits)
qed

end

text \<open>A bookmark per key that never moves back.\<close>

locale forward_mark =
  fixes mark :: "'k \<Rightarrow> 's \<Rightarrow> int" and advance :: "'k \<Rightarrow> int \<Rightarrow> 's \<Rightarrow> 's"
  assumes mark_advance: "0 \<le> v \<Longrightarrow> mark k (advance k v s) = max (mark k s) v"
    and mark_other: "k \<noteq> k' \<Longrightarrow> mark k (advance k' v s) = mark k s"
begin

lemma mark_of_many:
  "list_all (\<lambda>(k, v). 0 \<le> v) kvs \<Longrightarrow>
     mark k (foldl (\<lambda>s (k, v). advance k v s) s kvs) =
     foldl max (mark k s) (map snd (filter (\<lambda>(k', v). k' = k) kvs))"
proof (induction kvs arbitrary: s)
  case Nil
  then show ?case by simp
next
  case (Cons kv kvs)
  obtain k' v where kv: "kv = (k', v)" by fastforce
  show ?case
    using Cons by (cases "k' = k") (simp_all add: kv mark_advance mark_other)
qed

lemma foldl_max_ge: "x \<le> foldl max x (ys :: int list)"
proof (induction ys arbitrary: x)
  case Nil
  then show ?case by simp
next
  case (Cons y ys)
  have "max x y \<le> foldl max (max x y) ys" by (rule Cons.IH)
  then show ?case by simp
qed

lemma mark_forward:
  "list_all (\<lambda>(k, v). 0 \<le> v) kvs \<Longrightarrow> mark k s \<le> mark k (foldl (\<lambda>s (k, v). advance k v s) s kvs)"
  by (simp add: mark_of_many foldl_max_ge)

end

interpretation outbox_queue: drain_queue peek acknowledge outbox_ok outboxRows
proof
  fix q :: outbox and n ids
  assume ok: "outbox_ok q"
  then have s: "sorted_wrt (<) (map rowId (outboxRows q))" by (simp add: outbox_ok_def)
  show "peek q n = take n (outboxRows q)"
    by (simp add: peek_def rows_by_id_def strict_sorted_rows(1) [OF s])
  show "outbox_ok (acknowledge q ids)" using ok by (rule acknowledge_ok)
  show "outboxRows (acknowledge q ids) = delete_ids ids (outboxRows q)" by (rule acknowledge_rows)
  show "distinct (map rowId (outboxRows q))" by (rule strict_sorted_rows(2) [OF s])
qed

interpretation applied_record: first_write_wins appliedCommandOutcome
    "\<lambda>cid v. recordAppliedCommand cid (fst v) (snd v) now" for now
  by unfold_locales
     (auto simp: appliedCommandOutcome_def recordAppliedCommand_def split: option.splits)

interpretation history_mark: forward_mark getHistoryHighWaterMark setHistoryHighWaterMark
  by unfold_locales
     (auto simp: getHistoryHighWaterMark_def setHistoryHighWaterMark_def fresh_sync_def Let_def
       split: option.splits)

definition agent_log_mark :: "string \<Rightarrow> outbox \<Rightarrow> int" where
  "agent_log_mark inst q = (case getAgentLogHighWaterMark inst q of None \<Rightarrow> 0 | Some t \<Rightarrow> t)"

interpretation agent_log: forward_mark agent_log_mark setAgentLogHighWaterMark
  by unfold_locales
     (auto simp: agent_log_mark_def getAgentLogHighWaterMark_def setAgentLogHighWaterMark_def
       fresh_sync_def Let_def max_def split: option.splits if_splits)

section \<open>What the store guarantees\<close>

text \<open>Dropping the oldest row before or after more rows arrive leaves the same newest rows.\<close>

lemma drop_newest:
  assumes "d \<le> length (xs @ [r])" and "d + k \<le> length (xs @ r # ys)"
  shows "drop (length (drop d (xs @ [r]) @ ys) - k) (drop d (xs @ [r]) @ ys) =
    drop (length (xs @ r # ys) - k) (xs @ r # ys)"
proof -
  have e: "drop d (xs @ [r]) @ ys = drop d (xs @ r # ys)" using assms(1) drop_append [of d "xs @ [r]" ys] by simp
  show ?thesis
    unfolding e drop_drop length_drop by (rule arg_cong2 [where f = drop]) (use assms(2) in linarith, rule refl)
qed

lemma enqueue_maxRows [simp]: "maxRows (enqueue k i p t q) = maxRows q"
  by (simp add: enqueue_def evictIfNeeded_def Let_def)

text \<open>
  C29. The queue is bounded and its eviction is accounted for. However many rows are queued, what
  is kept is the newest \<open>maxRows\<close> of them in the order they came, the oldest go first, and the
  reported counts add up: every row ever queued is either still there or counted as evicted.
\<close>

theorem enqueue_bounded:
  assumes "outbox_ok q" and "0 \<le> maxRows q"
  shows "\<exists>new. length new = length es \<and>
    map (\<lambda>r. (rowKind r, rowInstance r, rowPayload r, rowCreatedAt r)) new = es \<and>
    (let q' = foldl (\<lambda>q (k, i, p, t). enqueue k i p t q) q es;
         kept = nat (min (maxRows q) (outboxDepth q + int (length es)))
     in outbox_ok q' \<and> outboxDepth q' = int kept \<and>
        outboxRows q' = drop (length (outboxRows q @ new) - kept) (outboxRows q @ new) \<and>
        evictedCount q' + outboxDepth q' = evictedCount q + outboxDepth q + int (length es))"
  using assms
proof (induction es arbitrary: q)
  case Nil
  then have "nat (min (maxRows q) (outboxDepth q)) = length (outboxRows q)"
    by (simp add: outbox_ok_def)
  with Nil show ?case by (simp add: outbox_ok_def)
next
  case (Cons e es)
  obtain k i p t where e: "e = (k, i, p, t)" by (cases e)
  let ?r = "new_row k i p t q" and ?q1 = "enqueue k i p t q"
  define d where "d = (if outboxDepth q = maxRows q then 1 else 0 :: nat)"
  note E = enqueue_rows [OF Cons.prems, of k i p t, folded d_def]
  have depth: "outboxDepth q = int (length (outboxRows q))" "outboxDepth q \<le> maxRows q"
    using Cons.prems(1) by (simp_all add: outbox_ok_def)
  obtain new where new: "length new = length es"
    "map (\<lambda>r. (rowKind r, rowInstance r, rowPayload r, rowCreatedAt r)) new = es"
    and IH: "let q' = foldl (\<lambda>q (k, i, p, t). enqueue k i p t q) ?q1 es;
         kept = nat (min (maxRows q) (outboxDepth ?q1 + int (length es)))
     in outbox_ok q' \<and> outboxDepth q' = int kept \<and>
        outboxRows q' = drop (length (outboxRows ?q1 @ new) - kept) (outboxRows ?q1 @ new) \<and>
        evictedCount q' + outboxDepth q' = evictedCount ?q1 + outboxDepth ?q1 + int (length es)"
    using Cons.IH [OF E(2)] Cons.prems(2) by (simp only: enqueue_maxRows) blast
  let ?kept = "nat (min (maxRows q) (outboxDepth q + int (length (e # es))))"
  have k1: "nat (min (maxRows q) (outboxDepth ?q1 + int (length es))) = ?kept"
    using depth E(4) by (auto simp: d_def)
  have rows: "drop (length (outboxRows ?q1 @ new) - ?kept) (outboxRows ?q1 @ new) =
      drop (length (outboxRows q @ ?r # new) - ?kept) (outboxRows q @ ?r # new)"
    unfolding E(1) by (rule drop_newest) (use depth Cons.prems(2) new(1) in \<open>auto simp: d_def\<close>)
  have cnt: "evictedCount ?q1 + outboxDepth ?q1 + int (length es) =
      evictedCount q + outboxDepth q + int (length (e # es))"
    using E(3,4) by simp
  have mp: "length (?r # new) = length (e # es)"
    "map (\<lambda>r. (rowKind r, rowInstance r, rowPayload r, rowCreatedAt r)) (?r # new) = e # es"
    using new by (simp_all add: e new_row_def)
  have fold: "foldl (\<lambda>q (k, i, p, t). enqueue k i p t q) q (e # es) =
      foldl (\<lambda>q (k, i, p, t). enqueue k i p t q) ?q1 es" by (simp add: e)
  show ?case
    unfolding Let_def fold using mp IH [unfolded Let_def k1 rows cnt]
    by (intro exI [of _ "?r # new"]) (elim conjE, (rule conjI | assumption)+)
qed

definition empty_outbox :: "int \<Rightarrow> outbox" where
  "empty_outbox n = openOutbox [] 1 Map.empty Map.empty n"

lemma empty_outbox_ok: "0 \<le> n \<Longrightarrow> outbox_ok (empty_outbox n) \<and> 0 \<le> maxRows (empty_outbox n)"
  by (simp add: empty_outbox_def openOutbox_def outbox_ok_def)

theorem enqueue_bounded_witness:
  "outboxDepth (foldl (\<lambda>q (k, i, p, t). enqueue k i p t q) (empty_outbox 2)
     [(HistoryRow, ''S'', ''a'', 1), (HistoryRow, ''S'', ''b'', 2), (ActivityRow, ''S'', ''c'', 3)]) = 2"
  using enqueue_bounded [of "empty_outbox 2" "[(HistoryRow, ''S'', ''a'', 1), (HistoryRow, ''S'', ''b'', 2), (ActivityRow, ''S'', ''c'', 3)]"]
    empty_outbox_ok [of 2]
  by (auto simp: Let_def empty_outbox_def openOutbox_def)

text \<open>
  Draining the outbox returns, and loses nothing: it sends the queued rows one by one in order,
  drops the rows that are not valid JSON, stops at the first row the stream does not accept, and
  leaves exactly that row and the ones behind it queued. Batches are invisible in the result, and
  nothing is acknowledged that was not accepted.
\<close>

theorem drainOutbox_delivers:
  assumes "outbox_ok q" and "connected s"
  shows "\<exists>q' s'. drainOutbox peek acknowledge parse send connected q s = Some (q', s') \<and>
    outbox_ok q' \<and> deliver parse send (outboxRows q) s = (outboxRows q', s')"
  using outbox_queue.drain_loop_deliver [OF assms(1), of parse send s] assms(2)
  by (simp add: drainOutbox_def)

definition two_rows :: outbox where
  "two_rows = enqueue HistoryRow ''S'' ''b'' 2 (enqueue HistoryRow ''S'' ''a'' 1 (empty_outbox 9))"

text \<open>A session that accepts one message: it is the list of the messages accepted so far.\<close>

definition one_slot :: "string list \<Rightarrow> string \<Rightarrow> string list \<times> bool" where
  "one_slot sent m = (if sent = [] then ([m], True) else (sent, False))"

theorem drainOutbox_delivers_witness:
  "\<exists>q'. drainOutbox peek acknowledge Some one_slot (\<lambda>_. True) two_rows [] = Some (q', [''a'']) \<and>
     map rowPayload (outboxRows q') = [''b'']"
proof -
  have ok: "outbox_ok two_rows"
    by (simp add: two_rows_def enqueue_def evictIfNeeded_def empty_outbox_def openOutbox_def
        outbox_ok_def new_row_def)
  have d: "deliver Some one_slot (outboxRows two_rows) [] = ([last (outboxRows two_rows)], [''a''])"
    "rowPayload (last (outboxRows two_rows)) = ''b''"
    by (simp_all add: two_rows_def enqueue_def evictIfNeeded_def empty_outbox_def openOutbox_def
        new_row_def one_slot_def)
  obtain q' s' where "drainOutbox peek acknowledge Some one_slot (\<lambda>_. True) two_rows [] = Some (q', s')"
    and "deliver Some one_slot (outboxRows two_rows) [] = (outboxRows q', s')"
    using drainOutbox_delivers [where connected = "\<lambda>_. True" and parse = Some and send = one_slot and s = "[]",
        OF ok TrueI] by blast
  moreover from this(2) have "s' = [''a'']" "outboxRows q' = [last (outboxRows two_rows)]"
    using d(1) by simp_all
  ultimately show ?thesis using d(2) by (intro exI [of _ q']) simp
qed

text \<open>
  The outcome replayed for a command is the outcome of its first application: whatever is
  recorded later for the same id, at whatever times, and whatever is recorded for other commands,
  the first record stands.
\<close>

theorem applied_outcome_is_first:
  "appliedCommandOutcome cid
     (foldl (\<lambda>q (c, v). recordAppliedCommand c (fst v) (snd v) now q) q records) =
   (case appliedCommandOutcome cid q of Some v \<Rightarrow> Some v | None \<Rightarrow> map_of records cid)"
  by (rule applied_record.first_of_many)

text \<open>
  The history bookmark of an instance only moves forward: after any acknowledgements, for any
  instances and in any order, it is the largest of its old value and the marks acknowledged for
  that instance.
\<close>

theorem history_mark_forward:
  assumes "list_all (\<lambda>(i, v). 0 \<le> v) acks"
  shows "getHistoryHighWaterMark inst (foldl (\<lambda>q (i, v). setHistoryHighWaterMark i v q) q acks) =
      foldl max (getHistoryHighWaterMark inst q) (map snd (filter (\<lambda>(i, v). i = inst) acks)) \<and>
    getHistoryHighWaterMark inst q \<le>
      getHistoryHighWaterMark inst (foldl (\<lambda>q (i, v). setHistoryHighWaterMark i v q) q acks)"
  using history_mark.mark_of_many [OF assms] history_mark.mark_forward [OF assms] by simp

theorem history_mark_forward_witness:
  "getHistoryHighWaterMark ''S'' (foldl (\<lambda>q (i, v). setHistoryHighWaterMark i v q) (empty_outbox 5)
     [(''S'', 7), (''T'', 9), (''S'', 3)]) = 7"
proof -
  have "list_all (\<lambda>(i, v). 0 \<le> v) [(''S'', 7 :: int), (''T'', 9), (''S'', 3)]" by simp
  from history_mark_forward [OF this, of "''S''" "empty_outbox 5"] show ?thesis
    by (simp add: getHistoryHighWaterMark_def empty_outbox_def openOutbox_def)
qed

end
