(* ===== verification/CommandHandler.thy ===== *)
theory CommandHandler
  imports Signing Outbox
begin

text \<open>
  Applying commands on the worker (\<open>packages/worker/src/command-handler.ts\<close>): the gates in their
  order (signature, freshness, capability, idempotency, conflict), the dispatch on the payload and
  the idempotency record. The state is msdb, of any type, and the outbox.

  The msdb operations of \<open>sql/agent-writer.ts\<close> (modelled in AgentWriter) and \<open>sql/agent-repo.ts\<close> and
  the parsers (JSON and the zod schemas) are fields of the environment: an operation returns the database it leaves,
  whatever its outcome, and either a value, a SQL failure or another exception. Logging is not
  modelled; an error detail is a value that says which message it is.
\<close>

section \<open>Outcomes\<close>

datatype 'a attempt = Finished 'a | SqlFailed string int | Threw

datatype 'a parsed = NotJson string | NotValid string | Parsed 'a

record live_job =
  liveUuid :: string
  liveDefinition :: job_definition
  liveModified :: int

record job_blob =
  blobUuid :: string
  blobJson :: string
  blobHash :: string
  blobModified :: "int \<times> int"

datatype error_detail =
    NoDetail
  | NoSigningKeyDetail
  | BadSignatureDetail
  | StaleDetail
  | NotImplementedKind string
  | NotPermitted capability "capability list"
  | AlreadyAppliedDetail
  | AlreadyFailedDetail "string option"
  | SqlMessage string
  | NoPayloadDetail
  | InvalidJobDetail string
  | ScheduleNotJson string
  | ScheduleNotValid
  | OperatorNotJson string
  | OperatorNotValid
  | OperatorDeleteUnsupported
  | JobGoneDetail
  | JobChangedDetail

record apply_outcome =
  success :: bool
  errorCode :: string
  errorDetail :: error_detail
  sqlErrorNumber :: int
  resultingJob :: "job_blob option"

definition ok_outcome :: "job_blob option \<Rightarrow> apply_outcome" where
  "ok_outcome job = \<lparr> success = True, errorCode = [], errorDetail = NoDetail, sqlErrorNumber = 0,
     resultingJob = job \<rparr>"

definition refuse :: "string \<Rightarrow> error_detail \<Rightarrow> apply_outcome" where
  "refuse code detail = \<lparr> success = False, errorCode = code, errorDetail = detail,
     sqlErrorNumber = 0, resultingJob = None \<rparr>"

record 'd agent_env =
  commandSigningPublicKey :: string
  capabilities :: "capability list"
  sha256_hex :: "string \<Rightarrow> string"
  rsa_verify :: "string \<Rightarrow> 8 word list \<Rightarrow> 8 word list \<Rightarrow> bool option"
  readJobs :: "'d \<Rightarrow> live_job list attempt"
  toggleJob :: "string \<Rightarrow> bool \<Rightarrow> 'd \<Rightarrow> 'd \<times> unit attempt"
  startJob :: "string \<Rightarrow> string option \<Rightarrow> 'd \<Rightarrow> 'd \<times> unit attempt"
  stopJob :: "string \<Rightarrow> 'd \<Rightarrow> 'd \<times> unit attempt"
  upsertJob :: "string \<Rightarrow> job_definition \<Rightarrow> 'd \<Rightarrow> 'd \<times> string attempt"
  deleteJob :: "string \<Rightarrow> 'd \<Rightarrow> 'd \<times> unit attempt"
  upsertSchedule :: "schedule_definition \<Rightarrow> 'd \<Rightarrow> 'd \<times> unit attempt"
  deleteSchedule :: "string \<Rightarrow> 'd \<Rightarrow> 'd \<times> unit attempt"
  upsertOperator :: "operator_definition \<Rightarrow> 'd \<Rightarrow> 'd \<times> unit attempt"
  setJobWriteAllowed :: "string \<Rightarrow> bool \<Rightarrow> 'd \<Rightarrow> 'd \<times> unit attempt"
  parseJobDefinition :: "string \<Rightarrow> job_definition parsed"
  parseSchedule :: "string \<Rightarrow> schedule_definition parsed"
  parseOperator :: "string \<Rightarrow> operator_definition parsed"

record 'd worker =
  msdb :: 'd
  outbox :: outbox

section \<open>Reading live state\<close>

definition blob_of :: "'d agent_env \<Rightarrow> live_job \<Rightarrow> job_blob attempt" where
  "blob_of env l =
     (case canonicaliseJobWithHash (sha256_hex env) (liveDefinition l) of
        None \<Rightarrow> Threw
      | Some r \<Rightarrow> Finished \<lparr> blobUuid = liveUuid l, blobJson = canonicalJson r, blobHash = hash r,
                    blobModified = toTimestamp (liveModified l) \<rparr>)"

definition readJobBlob :: "'d agent_env \<Rightarrow> 'd \<Rightarrow> string \<Rightarrow> job_blob option attempt" where
  "readJobBlob env db uuid =
     (case readJobs env db of
        SqlFailed m n \<Rightarrow> SqlFailed m n
      | Threw \<Rightarrow> Threw
      | Finished jobs \<Rightarrow>
          (case find (\<lambda>j. liveUuid j = to_lower uuid) jobs of
             None \<Rightarrow> Finished None
           | Some j \<Rightarrow>
               (case blob_of env j of
                  SqlFailed m n \<Rightarrow> SqlFailed m n | Threw \<Rightarrow> Threw
                | Finished b \<Rightarrow> Finished (Some b))))"

definition checkConflict ::
  "'d agent_env \<Rightarrow> 'd \<Rightarrow> string \<Rightarrow> string \<Rightarrow> bool \<Rightarrow> apply_outcome option attempt" where
  "checkConflict env db uuid base allow =
     (if base = [] then Finished None
      else case readJobBlob env db uuid of
             SqlFailed m n \<Rightarrow> SqlFailed m n
           | Threw \<Rightarrow> Threw
           | Finished None \<Rightarrow> Finished (Some (refuse ''Conflict'' JobGoneDetail))
           | Finished (Some blob) \<Rightarrow>
               if allow then Finished None
               else if blobHash blob \<noteq> base
               then Finished (Some \<lparr> success = False, errorCode = ''Conflict'',
                      errorDetail = JobChangedDetail, sqlErrorNumber = 0, resultingJob = Some blob \<rparr>)
               else Finished None)"

section \<open>Dispatch\<close>

text \<open>Run an operation and report success, the job read back when a reader is given.\<close>

fun after_op :: "'d \<times> 'a attempt \<Rightarrow> ('d \<Rightarrow> 'a \<Rightarrow> job_blob option attempt) \<Rightarrow> 'd \<times> apply_outcome attempt"
  where
  "after_op (db, SqlFailed m n) reread = (db, SqlFailed m n)"
| "after_op (db, Threw) reread = (db, Threw)"
| "after_op (db, Finished x) reread =
     (case reread db x of
        Finished b \<Rightarrow> (db, Finished (ok_outcome b))
      | SqlFailed m n \<Rightarrow> (db, SqlFailed m n)
      | Threw \<Rightarrow> (db, Threw))"

definition no_job :: "'d \<Rightarrow> 'a \<Rightarrow> job_blob option attempt" where
  "no_job db x = Finished None"

text \<open>Continue unless the conflict check refused or failed.\<close>

definition unless_conflict ::
  "apply_outcome option attempt \<Rightarrow> 'd \<Rightarrow> 'd \<times> apply_outcome attempt \<Rightarrow> 'd \<times> apply_outcome attempt" where
  "unless_conflict check db act =
     (case check of
        SqlFailed m n \<Rightarrow> (db, SqlFailed m n)
      | Threw \<Rightarrow> (db, Threw)
      | Finished (Some refusal) \<Rightarrow> (db, Finished refusal)
      | Finished None \<Rightarrow> act)"

fun apply_payload ::
  "'d agent_env \<Rightarrow> command_payload \<Rightarrow> 'd \<Rightarrow> 'd \<times> apply_outcome attempt" where
  "apply_payload env (PToggleJob uuid e base) db =
     unless_conflict (checkConflict env db uuid base False) db
       (after_op (toggleJob env uuid e db) (\<lambda>db _. readJobBlob env db uuid))"
| "apply_payload env (PRunJob uuid step) db =
     after_op (startJob env uuid (if step = [] then None else Some step) db) no_job"
| "apply_payload env (PStopJob uuid) db = after_op (stopJob env uuid db) no_job"
| "apply_payload env (PUpsertJob uuid json base allow) db =
     (case parseJobDefinition env json of
        NotJson m \<Rightarrow> (db, Finished (refuse ''Invalid'' (InvalidJobDetail m)))
      | NotValid m \<Rightarrow> (db, Finished (refuse ''Invalid'' (InvalidJobDetail m)))
      | Parsed def \<Rightarrow>
          unless_conflict (if uuid = [] then Finished None else checkConflict env db uuid base allow) db
            (after_op (upsertJob env uuid def db) (\<lambda>db u. readJobBlob env db u)))"
| "apply_payload env (PDeleteJob uuid base) db =
     unless_conflict (checkConflict env db uuid base False) db
       (after_op (deleteJob env uuid db) no_job)"
| "apply_payload env (PUpsertSchedule name json base) db =
     (case parseSchedule env json of
        NotJson m \<Rightarrow> (db, Finished (refuse ''Invalid'' (ScheduleNotJson m)))
      | NotValid _ \<Rightarrow> (db, Finished (refuse ''Invalid'' ScheduleNotValid))
      | Parsed s \<Rightarrow> after_op (upsertSchedule env s db) no_job)"
| "apply_payload env (PDeleteSchedule name base) db = after_op (deleteSchedule env name db) no_job"
| "apply_payload env (PUpsertOperator i json base) db =
     (case parseOperator env json of
        NotJson m \<Rightarrow> (db, Finished (refuse ''Invalid'' (OperatorNotJson m)))
      | NotValid _ \<Rightarrow> (db, Finished (refuse ''Invalid'' OperatorNotValid))
      | Parsed p \<Rightarrow> after_op (upsertOperator env p db) no_job)"
| "apply_payload env (PDeleteOperator i base) db =
     (db, Finished (refuse ''Unsupported'' OperatorDeleteUnsupported))"
| "apply_payload env (PSetJobWriteAllowed uuid name allowed) db =
     (case after_op (setJobWriteAllowed env name allowed db) no_job of
        (db', SqlFailed m n) \<Rightarrow>
          (db', Finished \<lparr> success = False, errorCode = ''SqlError'', errorDetail = SqlMessage m,
             sqlErrorNumber = n, resultingJob = None \<rparr>)
      | r \<Rightarrow> r)"

definition apply_command :: "'d agent_env \<Rightarrow> agent_command \<Rightarrow> 'd \<Rightarrow> 'd \<times> apply_outcome attempt" where
  "apply_command env cmd db =
     (case payload cmd of
        None \<Rightarrow> (db, Finished (refuse ''Invalid'' NoPayloadDetail))
      | Some p \<Rightarrow> apply_payload env p db)"

section \<open>The gates\<close>

text \<open>
  The gates before the idempotency record; \<^term>\<open>Some\<close> is the refusal. \<^term>\<open>None\<close> of the outer
  option is a throw of the signature check.
\<close>

definition gates :: "'d agent_env \<Rightarrow> agent_command \<Rightarrow> int \<Rightarrow> apply_outcome option option" where
  "gates env cmd now =
     (if commandSigningPublicKey env = [] then Some (Some (refuse ''NoSigningKey'' NoSigningKeyDetail))
      else case verifyCommandSignature (sha256_hex env) (rsa_verify env) cmd (commandSigningPublicKey env) of
             None \<Rightarrow> None
           | Some False \<Rightarrow> Some (Some (refuse ''BadSignature'' BadSignatureDetail))
           | Some True \<Rightarrow>
               if (case fromTimestamp (issuedAt cmd) of None \<Rightarrow> True | Some t \<Rightarrow> \<not> isCommandFresh t now)
               then Some (Some (refuse ''Stale'' StaleDetail))
               else case kind_of (commandKind cmd) of
                      None \<Rightarrow> Some (Some (refuse ''UnknownCommand'' (NotImplementedKind (commandKind cmd))))
                    | Some k \<Rightarrow>
                        if COMMAND_CAPABILITY k \<notin> set (capabilities env)
                        then Some (Some (refuse ''CapabilityDenied''
                               (NotPermitted (COMMAND_CAPABILITY k) (capabilities env))))
                        else Some None)"

definition replayed_outcome :: "bool \<times> string option \<Rightarrow> apply_outcome" where
  "replayed_outcome previous =
     \<lparr> success = fst previous,
       errorCode = (if fst previous then [] else case snd previous of None \<Rightarrow> ''Unknown'' | Some r \<Rightarrow> r),
       errorDetail = (if fst previous then AlreadyAppliedDetail else AlreadyFailedDetail (snd previous)),
       sqlErrorNumber = 0, resultingJob = None \<rparr>"

text \<open>\<open>errorCode || null\<close>.\<close>

definition code_or_null :: "string \<Rightarrow> string option" where
  "code_or_null c = (if c = [] then None else Some c)"

text \<open>
  \<open>checked\<close> and \<open>recorded\<close> are the clock readings of the freshness check and of the idempotency
  record. The result is \<^term>\<open>None\<close> when the call throws.
\<close>

definition evaluateAndApply ::
  "'d agent_env \<Rightarrow> agent_command \<Rightarrow> int \<Rightarrow> int \<Rightarrow> 'd worker \<Rightarrow> 'd worker \<times> apply_outcome option" where
  "evaluateAndApply env cmd checked recorded w =
     (case gates env cmd checked of
        None \<Rightarrow> (w, None)
      | Some (Some refusal) \<Rightarrow> (w, Some refusal)
      | Some None \<Rightarrow>
          (case appliedCommandOutcome (commandId cmd) (outbox w) of
             Some previous \<Rightarrow> (w, Some (replayed_outcome previous))
           | None \<Rightarrow>
               (case apply_command env cmd (msdb w) of
                  (db, Finished r) \<Rightarrow>
                    (\<lparr> msdb = db, outbox = recordAppliedCommand (commandId cmd) (success r)
                         (code_or_null (errorCode r)) recorded (outbox w) \<rparr>, Some r)
                | (db, SqlFailed m n) \<Rightarrow>
                    (\<lparr> msdb = db, outbox = recordAppliedCommand (commandId cmd) False
                         (Some ''SqlError'') recorded (outbox w) \<rparr>,
                     Some \<lparr> success = False, errorCode = ''SqlError'', errorDetail = SqlMessage m,
                       sqlErrorNumber = n, resultingJob = None \<rparr>)
                | (db, Threw) \<Rightarrow> (w\<lparr>msdb := db\<rparr>, None))))"

record command_result =
  resultCommandId :: string
  resultOutcome :: apply_outcome
  resultAppliedAt :: "int \<times> int"

definition handleCommand ::
  "'d agent_env \<Rightarrow> agent_command \<Rightarrow> int \<Rightarrow> int \<Rightarrow> 'd worker \<Rightarrow> 'd worker \<times> command_result option" where
  "handleCommand env cmd checked recorded w =
     (let (w', r) = evaluateAndApply env cmd checked recorded w
      in (w', map_option (\<lambda>oc. \<lparr> resultCommandId = commandId cmd, resultOutcome = oc,
                 resultAppliedAt = toTimestamp recorded \<rparr>) r))"

section \<open>The database changes only behind the gates\<close>

definition gates_passed :: "'d agent_env \<Rightarrow> agent_command \<Rightarrow> int \<Rightarrow> bool" where
  "gates_passed env cmd now \<longleftrightarrow>
     commandSigningPublicKey env \<noteq> [] \<and>
     verifyCommandSignature (sha256_hex env) (rsa_verify env) cmd (commandSigningPublicKey env) = Some True \<and>
     (\<exists>t. fromTimestamp (issuedAt cmd) = Some t \<and> isCommandFresh t now) \<and>
     (\<exists>p. payload cmd = Some p \<and> COMMAND_CAPABILITY (payload_kind p) \<in> set (capabilities env))"

lemma kind_unknown: "kind_of ''unknown'' = None"
  by (simp add: kind_of_def COMMAND_KINDS_def)

lemma gates_iff: "gates env cmd now = Some None \<longleftrightarrow> gates_passed env cmd now"
proof -
  have k: "kind_of (commandKind cmd) = map_option payload_kind (payload cmd)"
    by (simp add: commandKind_def kind_unknown split: option.split)
  show ?thesis
    by (auto simp: gates_def gates_passed_def k split: option.splits bool.splits)
qed

text \<open>The uuid, base hash and overwrite flag of an edit that is checked against live state.\<close>

fun edit_base :: "command_payload \<Rightarrow> (string \<times> string \<times> bool) option" where
  "edit_base (PToggleJob u e b) = Some (u, b, False)"
| "edit_base (PUpsertJob u j b a) = (if u = [] then None else Some (u, b, a))"
| "edit_base (PDeleteJob u b) = Some (u, b, False)"
| "edit_base _ = None"

definition unconflicted :: "'d agent_env \<Rightarrow> command_payload \<Rightarrow> 'd \<Rightarrow> bool" where
  "unconflicted env p db \<longleftrightarrow>
     (case edit_base p of
        None \<Rightarrow> True
      | Some (u, b, allow) \<Rightarrow> b = [] \<or>
          (\<exists>blob. readJobBlob env db u = Finished (Some blob) \<and> (allow \<or> blobHash blob = b)))"

lemma checkConflict_None:
  "checkConflict env db u b a = Finished None \<longleftrightarrow>
     b = [] \<or> (\<exists>blob. readJobBlob env db u = Finished (Some blob) \<and> (a \<or> blobHash blob = b))"
  by (auto simp: checkConflict_def split: attempt.split option.split)

lemma unless_conflict_db:
  "fst (unless_conflict check db act) \<noteq> db \<Longrightarrow> check = Finished None"
  by (auto simp: unless_conflict_def split: attempt.splits option.splits)

lemma apply_payload_guarded:
  "fst (apply_payload env p db) \<noteq> db \<Longrightarrow> unconflicted env p db"
proof (cases p)
  case (PToggleJob u e b)
  moreover assume "fst (apply_payload env p db) \<noteq> db"
  ultimately have "checkConflict env db u b False = Finished None"
    by (simp del: fst_conv) (rule unless_conflict_db)
  then show ?thesis by (simp add: PToggleJob unconflicted_def checkConflict_None)
next
  case (PUpsertJob u j b a)
  moreover assume "fst (apply_payload env p db) \<noteq> db"
  ultimately have "(if u = [] then Finished None else checkConflict env db u b a) = Finished None"
    by (cases "parseJobDefinition env j") (auto dest: unless_conflict_db split: if_splits)
  then show ?thesis by (simp add: PUpsertJob unconflicted_def checkConflict_None split: if_splits)
next
  case (PDeleteJob u b)
  moreover assume "fst (apply_payload env p db) \<noteq> db"
  ultimately have "checkConflict env db u b False = Finished None"
    by (simp del: fst_conv) (rule unless_conflict_db)
  then show ?thesis by (simp add: PDeleteJob unconflicted_def checkConflict_None)
qed (simp_all add: unconflicted_def)

lemma evaluate_cases:
  "evaluateAndApply env cmd checked recorded w =
     (case gates env cmd checked of
        None \<Rightarrow> (w, None)
      | Some (Some refusal) \<Rightarrow> (w, Some refusal)
      | Some None \<Rightarrow>
          (case appliedCommandOutcome (commandId cmd) (outbox w) of
             Some previous \<Rightarrow> (w, Some (replayed_outcome previous))
           | None \<Rightarrow>
               (let (db, r) = apply_command env cmd (msdb w);
                    note_it = (\<lambda>s c. recordAppliedCommand (commandId cmd) s c recorded (outbox w))
                in case r of
                     Finished r \<Rightarrow> (\<lparr>msdb = db, outbox = note_it (success r) (code_or_null (errorCode r))\<rparr>, Some r)
                   | SqlFailed m n \<Rightarrow>
                       (\<lparr>msdb = db, outbox = note_it False (Some ''SqlError'')\<rparr>,
                        Some \<lparr> success = False, errorCode = ''SqlError'', errorDetail = SqlMessage m,
                          sqlErrorNumber = n, resultingJob = None \<rparr>)
                   | Threw \<Rightarrow> (w\<lparr>msdb := db\<rparr>, None))))"
  by (auto simp: evaluateAndApply_def Let_def split: option.split prod.split attempt.split)

lemma evaluate_db:
  assumes "msdb (fst (evaluateAndApply env cmd checked recorded w)) \<noteq> msdb w"
  shows "gates env cmd checked = Some None" and "appliedCommandOutcome (commandId cmd) (outbox w) = None"
    and "fst (apply_command env cmd (msdb w)) \<noteq> msdb w"
proof -
  show g: "gates env cmd checked = Some None"
    using assms by (auto simp: evaluate_cases split: option.splits)
  show a: "appliedCommandOutcome (commandId cmd) (outbox w) = None"
    using assms g by (auto simp: evaluate_cases split: option.splits)
  show "fst (apply_command env cmd (msdb w)) \<noteq> msdb w"
    using assms g a by (auto simp: evaluate_cases case_prod_beta Let_def split: attempt.splits)
qed

text \<open>
  C1. Five gates stand before msdb. If handling a command changed the database, then the worker
  has a signing key and the command verifies under it, the command is inside the replay window,
  its kind is one the worker knows and its own ceiling permits, no outcome was recorded for it
  before, and for an edit of a job made against a base hash the job still exists and either has
  that hash or the operator chose to overwrite. Contrapositively: a command that fails any gate
  leaves msdb as it was, whatever the control plane says and whatever the msdb operations do.
\<close>

theorem msdb_behind_gates:
  assumes "msdb (fst (evaluateAndApply env cmd checked recorded w)) \<noteq> msdb w"
  shows "gates_passed env cmd checked \<and>
    appliedCommandOutcome (commandId cmd) (outbox w) = None \<and>
    (\<exists>p. payload cmd = Some p \<and> unconflicted env p (msdb w))"
proof -
  note E = evaluate_db [OF assms]
  have "\<exists>p. payload cmd = Some p \<and> unconflicted env p (msdb w)"
    using E(3) apply_payload_guarded [of env _ "msdb w"]
    by (auto simp: apply_command_def split: option.splits)
  with E(1,2) show ?thesis by (simp add: gates_iff)
qed

section \<open>Applied at most once\<close>

lemma conflict_outcome: "checkConflict env db u b a = Finished (Some r) \<Longrightarrow> \<not> success r \<and> errorCode r \<noteq> []"
  by (auto simp: checkConflict_def refuse_def split: if_splits attempt.splits option.splits)

lemma after_op_outcome: "after_op act f = (db, Finished r) \<Longrightarrow> success r \<and> errorCode r = []"
  by (cases "(act, f)" rule: after_op.cases) (auto simp: ok_outcome_def split: attempt.splits)

lemma unless_conflict_outcome:
  "unless_conflict check db act = (db', Finished r) \<Longrightarrow>
     check = Finished (Some r) \<or> (check = Finished None \<and> act = (db', Finished r))"
  by (auto simp: unless_conflict_def split: attempt.splits option.splits)

text \<open>A failure always carries a code, a success never does.\<close>

lemma apply_payload_code:
  "apply_payload env p db = (db', Finished r) \<Longrightarrow> success r \<longleftrightarrow> errorCode r = []"
proof (cases p)
  case (PToggleJob u e b)
  moreover assume "apply_payload env p db = (db', Finished r)"
  ultimately show ?thesis
    by (auto dest!: unless_conflict_outcome dest: conflict_outcome after_op_outcome)
next
  case (PUpsertJob u j b a)
  moreover assume "apply_payload env p db = (db', Finished r)"
  ultimately show ?thesis
    by (auto simp: refuse_def dest!: unless_conflict_outcome dest: conflict_outcome after_op_outcome
        split: parsed.splits if_splits)
next
  case (PDeleteJob u b)
  moreover assume "apply_payload env p db = (db', Finished r)"
  ultimately show ?thesis
    by (auto dest!: unless_conflict_outcome dest: conflict_outcome after_op_outcome)
next
  case (PSetJobWriteAllowed u n a)
  moreover assume "apply_payload env p db = (db', Finished r)"
  ultimately show ?thesis
    by (auto dest: after_op_outcome split: prod.splits attempt.splits)
qed (auto simp: refuse_def dest: after_op_outcome split: parsed.splits)

lemma apply_command_code:
  "apply_command env cmd db = (db', Finished r) \<Longrightarrow> success r \<longleftrightarrow> errorCode r = []"
  by (auto simp: apply_command_def refuse_def dest: apply_payload_code split: option.splits)

text \<open>What the first application records.\<close>

lemma first_application:
  assumes "evaluateAndApply env cmd checked recorded w = (w', Some r)"
    and "gates env cmd checked = Some None" and "appliedCommandOutcome (commandId cmd) (outbox w) = None"
  shows "appliedCommands (outbox w') (commandId cmd) =
      Some \<lparr>appliedAt = recorded, appliedSuccess = success r, appliedResult = code_or_null (errorCode r)\<rparr> \<and>
    (success r \<longleftrightarrow> errorCode r = [])"
proof -
  have a: "appliedCommands (outbox w) (commandId cmd) = None"
    using assms(3) by (simp add: appliedCommandOutcome_def)
  obtain db x where x: "apply_command env cmd (msdb w) = (db, x)" by fastforce
  show ?thesis
  proof (cases x)
    case (Finished y)
    then show ?thesis
      using assms x a apply_command_code [of env cmd "msdb w" db y]
      by (auto simp: evaluate_cases recordAppliedCommand_def)
  next
    case (SqlFailed m n)
    then show ?thesis
      using assms x a by (auto simp: evaluate_cases recordAppliedCommand_def code_or_null_def)
  next
    case Threw
    then show ?thesis using assms x by (simp add: evaluate_cases)
  qed
qed

text \<open>What the worker does between two deliveries.\<close>

datatype worker_event = Deliver agent_command int int | Prune int

fun worker_step :: "'d agent_env \<Rightarrow> 'd worker \<Rightarrow> worker_event \<Rightarrow> 'd worker" where
  "worker_step env w (Deliver c t1 t2) = fst (evaluateAndApply env c t1 t2 w)"
| "worker_step env w (Prune t) =
     w\<lparr>outbox := pruneAppliedCommands APPLIED_COMMAND_RETENTION_MS t (outbox w)\<rparr>"

fun prune_time_ok :: "int \<Rightarrow> worker_event \<Rightarrow> bool" where
  "prune_time_ok now (Prune t) \<longleftrightarrow> t \<le> now"
| "prune_time_ok now (Deliver _ _ _) \<longleftrightarrow> True"

lemma recordAppliedCommand_keeps:
  "appliedCommands q cid = Some r \<Longrightarrow> appliedCommands (recordAppliedCommand c s x t q) cid = Some r"
  by (auto simp: recordAppliedCommand_def split: option.split)

lemma evaluate_keeps_record:
  "appliedCommands (outbox w) cid = Some r \<Longrightarrow>
     appliedCommands (outbox (fst (evaluateAndApply env c t1 t2 w))) cid = Some r"
  by (auto simp: evaluate_cases Let_def case_prod_beta recordAppliedCommand_keeps
      split: option.split attempt.split)

lemma record_survives:
  assumes "appliedCommands (outbox w) cid = Some r"
    and "now - APPLIED_COMMAND_RETENTION_MS \<le> appliedAt r" and "list_all (prune_time_ok now) evs"
  shows "appliedCommands (outbox (foldl (worker_step env) w evs)) cid = Some r"
  using assms
proof (induction evs arbitrary: w)
  case Nil
  then show ?case by simp
next
  case (Cons e evs)
  have "appliedCommands (outbox (worker_step env w e)) cid = Some r"
  proof (cases e)
    case (Deliver c t1 t2)
    then show ?thesis using Cons.prems(1) by (simp add: evaluate_keeps_record)
  next
    case (Prune t)
    then show ?thesis using Cons.prems by (simp add: pruneAppliedCommands_def)
  qed
  then show ?case using Cons by simp
qed

lemma redelivery_inert:
  assumes "appliedCommands (outbox w) (commandId cmd) = Some r"
  shows "fst (evaluateAndApply env cmd checked recorded w) = w"
    and "gates env cmd checked = Some None \<Longrightarrow> snd (evaluateAndApply env cmd checked recorded w) =
      Some (replayed_outcome (appliedSuccess r, appliedResult r))"
  using assms by (auto simp: evaluate_cases appliedCommandOutcome_def split: option.split)

text \<open>
  C2. A command is applied at most once. Once a command has been applied and its outcome returned,
  then, whatever commands are handled and whenever old records are pruned in between, delivering
  the same command again at a later time leaves msdb and the outbox exactly as they are; and if
  the command is still inside its replay window the answer is the recorded outcome: the same
  verdict and the same error code. The window and the retention period fit together: a record
  outlives every moment at which its command could still pass the freshness gate.
\<close>

theorem applied_at_most_once:
  assumes first: "evaluateAndApply env cmd c1 r1 w = (w1, Some r)" "gates env cmd c1 = Some None"
      "appliedCommandOutcome (commandId cmd) (outbox w) = None"
    and clock: "c1 \<le> r1" "list_all (prune_time_ok c2) evs"
  defines "w2 \<equiv> foldl (worker_step env) w1 evs"
  shows "msdb (fst (evaluateAndApply env cmd c2 r2 w2)) = msdb w2 \<and>
    (gates env cmd c2 = Some None \<longrightarrow>
       fst (evaluateAndApply env cmd c2 r2 w2) = w2 \<and>
       (\<exists>r'. snd (evaluateAndApply env cmd c2 r2 w2) = Some r' \<and>
          success r' = success r \<and> errorCode r' = errorCode r))"
proof (cases "gates env cmd c2 = Some None")
  case False
  then show ?thesis using evaluate_db(1) [of env cmd c2 r2 w2] by blast
next
  case True
  obtain t where t: "fromTimestamp (issuedAt cmd) = Some t" "isCommandFresh t c1" "isCommandFresh t c2"
    using first(2) True by (auto simp: gates_iff gates_passed_def)
  let ?rec = "\<lparr>appliedAt = r1, appliedSuccess = success r, appliedResult = code_or_null (errorCode r)\<rparr>"
  note F = first_application [OF first]
  have "c2 - APPLIED_COMMAND_RETENTION_MS \<le> r1"
    using t(2,3) clock(1)
    by (simp add: isCommandFresh_def Let_def APPLIED_COMMAND_RETENTION_MS_def MAX_COMMAND_AGE_MS_def
        MAX_COMMAND_CLOCK_SKEW_MS_def)
  then have "appliedCommands (outbox w2) (commandId cmd) = Some ?rec"
    unfolding w2_def using F clock(2) by (intro record_survives) simp_all
  note R = redelivery_inert [OF this, of env c2 r2]
  have "replayed_outcome (success r, code_or_null (errorCode r)) =
      \<lparr> success = success r, errorCode = errorCode r,
        errorDetail = (if success r then AlreadyAppliedDetail else AlreadyFailedDetail (Some (errorCode r))),
        sqlErrorNumber = 0, resultingJob = None \<rparr>"
    using F by (auto simp: replayed_outcome_def code_or_null_def)
  then show ?thesis using R True by simp
qed

section \<open>Conflicts\<close>

text \<open>
  An edit made against a definition that has since changed is refused, not merged and not
  written over: unless the operator chose to overwrite, the outcome is a conflict that carries the
  live definition, nothing is written to msdb, and the refusal is what the command's record says.
\<close>

theorem stale_edit_refused:
  assumes "gates env cmd checked = Some None" and "appliedCommandOutcome (commandId cmd) (outbox w) = None"
    and "payload cmd = Some (PUpsertJob uuid json base False)" and "parseJobDefinition env json = Parsed def"
    and "uuid \<noteq> []" and "base \<noteq> []"
    and "readJobBlob env (msdb w) uuid = Finished (Some blob)" and "blobHash blob \<noteq> base"
  shows "evaluateAndApply env cmd checked recorded w =
    (w\<lparr>outbox := recordAppliedCommand (commandId cmd) False (Some ''Conflict'') recorded (outbox w)\<rparr>,
     Some \<lparr> success = False, errorCode = ''Conflict'', errorDetail = JobChangedDetail,
       sqlErrorNumber = 0, resultingJob = Some blob \<rparr>)"
  using assms
  by (simp add: evaluate_cases apply_command_def unless_conflict_def checkConflict_def code_or_null_def)

section \<open>A worker with one job\<close>

text \<open>
  The database of the example counts the changes made to it; the job it holds is the sample job of
  theory CanonicalLaws, and every signature verifies.
\<close>

definition count_change :: "nat \<Rightarrow> nat \<times> unit attempt" where
  "count_change n = (n + 1, Finished ())"

definition demo_env :: "nat agent_env" where
  "demo_env = \<lparr> commandSigningPublicKey = ''k'', capabilities = [Observe, JobRun, JobWrite],
     sha256_hex = (\<lambda>_. ''h''), rsa_verify = (\<lambda>_ _ _. Some True),
     readJobs = (\<lambda>_. Finished [\<lparr> liveUuid = ''j'', liveDefinition = sample_job ''x'', liveModified = 0 \<rparr>]),
     toggleJob = (\<lambda>_ _. count_change), startJob = (\<lambda>_ _. count_change), stopJob = (\<lambda>_. count_change),
     upsertJob = (\<lambda>u _ n. (n + 1, Finished u)), deleteJob = (\<lambda>_. count_change),
     upsertSchedule = (\<lambda>_. count_change), deleteSchedule = (\<lambda>_. count_change),
     upsertOperator = (\<lambda>_. count_change), setJobWriteAllowed = (\<lambda>_ _. count_change),
     parseJobDefinition = (\<lambda>_. Parsed (sample_job ''y'')), parseSchedule = NotJson, parseOperator = NotJson \<rparr>"

definition demo_command :: "command_payload \<Rightarrow> agent_command" where
  "demo_command p = \<lparr> commandId = ''c'', issuedAt = Some (0, 0), instanceName = ''S'',
     signature = [1], payload = Some p \<rparr>"

definition demo_worker :: "nat worker" where
  "demo_worker = \<lparr> msdb = 0, outbox = empty_outbox 10 \<rparr>"

lemma demo_gates:
  assumes "COMMAND_CAPABILITY (payload_kind p) \<in> {Observe, JobRun, JobWrite}" and "0 \<le> now" "now \<le> 60000"
  shows "gates demo_env (demo_command p) now = Some None"
proof -
  let ?c = "demo_command p"
  have "length (kind_name (payload_kind p)) < 1000" by (cases p) simp_all
  then have "list_all fits [commandId ?c, commandKind ?c, commandPayloadHash (\<lambda>_. ''h'') ?c,
      issued_text ?c, instanceName ?c]"
    by (simp add: fits_short demo_command_def commandKind_def commandPayloadHash_def issued_text_def
        show_int_def show_nat.simps)
  then obtain b where "commandSigningBytes (\<lambda>_. ''h'') ?c = Some b" using signing_bytes_Some by blast
  then have "verifyCommandSignature (\<lambda>_. ''h'') (\<lambda>_ _ _. Some True) ?c ''k'' = Some True"
    by (simp add: verifyCommandSignature_def) (simp add: demo_command_def)
  moreover have "\<exists>t. fromTimestamp (issuedAt ?c) = Some t \<and> isCommandFresh t now"
    using assms(2,3) by (simp add: demo_command_def fromTimestamp_def isCommandFresh_def
        MAX_COMMAND_AGE_MS_def MAX_COMMAND_CLOCK_SKEW_MS_def)
  ultimately show ?thesis
    using assms(1) by (auto simp: gates_iff gates_passed_def demo_env_def demo_command_def)
qed

lemma demo_first:
  "evaluateAndApply demo_env (demo_command (PRunJob ''j'' [])) 5 6 demo_worker =
     (\<lparr>msdb = 1, outbox = recordAppliedCommand ''c'' True None 6 (empty_outbox 10)\<rparr>, Some (ok_outcome None))"
proof -
  have "appliedCommandOutcome ''c'' (empty_outbox 10) = None"
    by (simp add: appliedCommandOutcome_def empty_outbox_def openOutbox_def)
  then show ?thesis
    using demo_gates [of "PRunJob ''j'' []" 5]
    by (simp add: evaluate_cases demo_worker_def apply_command_def demo_command_def)
       (simp add: demo_env_def count_change_def no_job_def ok_outcome_def code_or_null_def)
qed

theorem msdb_behind_gates_witness:
  "msdb (fst (evaluateAndApply demo_env (demo_command (PRunJob ''j'' [])) 5 6 demo_worker)) \<noteq> msdb demo_worker \<and>
   gates_passed demo_env (demo_command (PRunJob ''j'' [])) 5"
proof -
  have c: "msdb (fst (evaluateAndApply demo_env (demo_command (PRunJob ''j'' [])) 5 6 demo_worker)) \<noteq> msdb demo_worker"
    by (simp only: demo_first) (simp add: demo_worker_def)
  then show ?thesis using msdb_behind_gates [OF c] by blast
qed

theorem applied_at_most_once_witness:
  "msdb (fst (evaluateAndApply demo_env (demo_command (PRunJob ''j'' [])) 50000 50000
     (foldl (worker_step demo_env) \<lparr>msdb = 1, outbox = recordAppliedCommand ''c'' True None 6 (empty_outbox 10)\<rparr>
       [Prune 40000]))) = 1"
proof -
  let ?c = "demo_command (PRunJob ''j'' [])"
  have g: "gates demo_env ?c 5 = Some None" by (rule demo_gates) simp_all
  have a: "appliedCommandOutcome (commandId ?c) (outbox demo_worker) = None"
    by (simp add: appliedCommandOutcome_def demo_worker_def empty_outbox_def openOutbox_def)
  have p: "list_all (prune_time_ok 50000) [Prune 40000]" by simp
  from applied_at_most_once [OF demo_first g a _ p, of 50000] show ?thesis
    by simp
qed

theorem stale_edit_refused_witness:
  "snd (evaluateAndApply demo_env (demo_command (PUpsertJob ''j'' ''{}'' ''old'' False)) 5 6 demo_worker) \<noteq> None \<and>
   msdb (fst (evaluateAndApply demo_env (demo_command (PUpsertJob ''j'' ''{}'' ''old'' False)) 5 6 demo_worker)) = 0"
proof -
  let ?c = "demo_command (PUpsertJob ''j'' ''{}'' ''old'' False)"
  have g: "gates demo_env ?c 5 = Some None" by (rule demo_gates) simp_all
  have a: "appliedCommandOutcome (commandId ?c) (outbox demo_worker) = None"
    by (simp add: appliedCommandOutcome_def demo_worker_def empty_outbox_def openOutbox_def)
  have p: "payload ?c = Some (PUpsertJob ''j'' ''{}'' ''old'' False)" by (simp add: demo_command_def)
  have d: "parseJobDefinition demo_env ''{}'' = Parsed (sample_job ''y'')" by (simp add: demo_env_def)
  have "to_lower ''j'' = ''j''" by code_simp
  then obtain blob where r: "readJobBlob demo_env (msdb demo_worker) ''j'' = Finished (Some blob)"
    and h: "blobHash blob = ''h''"
    by (simp add: readJobBlob_def demo_env_def blob_of_def canonicaliseJobWithHash_def sample_job_valid
        canonicalJsonStringify_job Let_def)
  from stale_edit_refused [OF g a p d _ _ r] show ?thesis by (simp add: h) (simp add: demo_worker_def)
qed

text \<open>
  A write followed by a read of the job that fails outside SQL leaves the write without a record
  and without a result: the same command, delivered again, is applied again.
\<close>

definition unreadable_env :: "nat agent_env" where
  "unreadable_env = demo_env\<lparr>capabilities := [Observe, JobToggle], readJobs := (\<lambda>_. Threw)\<rparr>"

lemma unreadable_write_unrecorded:
  "apply_command unreadable_env (demo_command (PToggleJob ''j'' False [])) 0 = (1, Threw)"
  by (simp add: apply_command_def demo_command_def unreadable_env_def demo_env_def count_change_def
      unless_conflict_def checkConflict_def readJobBlob_def)

lemma threw_leaves_no_record:
  "gates env cmd t1 = Some None \<Longrightarrow> appliedCommandOutcome (commandId cmd) (outbox w) = None \<Longrightarrow>
     apply_command env cmd (msdb w) = (db, Threw) \<Longrightarrow>
     evaluateAndApply env cmd t1 t2 w = (w\<lparr>msdb := db\<rparr>, None)"
  by (simp add: evaluate_cases)

end
