(* ===== verification/AgentWriter.thy ===== *)
theory AgentWriter
  imports CommandHandler
begin

text \<open>
  Writing to msdb (\<open>packages/worker/src/sql/agent-writer.ts\<close>): which stored procedures are called with
  which parameters, in which order and transaction, for each operation that the command handler uses.

  SQL Server is a parameter: what it does with a call, its queries and its transactions. What is
  relied on of the documented procedures is stated as hypotheses of the theorems. A bound parameter is
  a text, a number or NULL; the SQL types of the bindings are left out. An exception of the driver
  with a number is \<^term>\<open>SqlFailed\<close>, as \<open>wrapSqlError\<close> makes it, any other is \<^term>\<open>Threw\<close>.
\<close>

section \<open>Calls and their server\<close>

datatype sql_value = SText string | SInt int | SNull

record sp_call =
  spProcedure :: string
  spInputs :: "(string \<times> sql_value) list"

record 'd msdb_server =
  execute :: "sp_call \<Rightarrow> 'd \<Rightarrow> 'd \<times> string option attempt"
  jobPresent :: "string \<Rightarrow> 'd \<Rightarrow> bool attempt"
  attachedSchedules :: "string \<Rightarrow> 'd \<Rightarrow> string list attempt"
  schedulePresent :: "string \<Rightarrow> 'd \<Rightarrow> bool attempt"
  operatorPresent :: "string \<Rightarrow> 'd \<Rightarrow> bool attempt"
  beginTransaction :: "'d \<Rightarrow> 'd \<times> unit attempt"
  commitTransaction :: "'d \<Rightarrow> 'd \<times> unit attempt"
  rollbackTransaction :: "'d \<Rightarrow> 'd"

text \<open>
  \<^term>\<open>execute\<close> gives the output parameter \<open>job_id\<close>. An exception of \<open>rollback\<close> is swallowed by the
  code, so only what it leaves is a field.
\<close>

definition sp :: "string \<Rightarrow> (string \<times> sql_value) list \<Rightarrow> sp_call" where
  "sp name ins = \<lparr>spProcedure = ''msdb.dbo.'' @ name, spInputs = ins\<rparr>"

definition nullIfEmpty :: "string option \<Rightarrow> sql_value" where
  "nullIfEmpty v = (case v of None \<Rightarrow> SNull | Some t \<Rightarrow> if t = '''' then SNull else SText t)"

text \<open>\<open>v ?? ''\<close>\<close>

definition or_empty :: "string option \<Rightarrow> sql_value" where
  "or_empty v = SText (case v of None \<Rightarrow> '''' | Some t \<Rightarrow> t)"

definition bit :: "bool \<Rightarrow> sql_value" where
  "bit b = SInt (if b then 1 else 0)"

text \<open>\<open>await\<close>: go on with the value, or leave with the exception.\<close>

fun await :: "'d \<times> 'a attempt \<Rightarrow> ('d \<Rightarrow> 'a \<Rightarrow> 'd \<times> 'b attempt) \<Rightarrow> 'd \<times> 'b attempt" where
  "await (db, Finished x) go = go db x"
| "await (db, SqlFailed m n) go = (db, SqlFailed m n)"
| "await (db, Threw) go = (db, Threw)"

definition run_call :: "'d msdb_server \<Rightarrow> sp_call \<Rightarrow> 'd \<Rightarrow> 'd \<times> unit attempt" where
  "run_call srv c db = await (execute srv c db) (\<lambda>db _. (db, Finished ()))"

fun run_calls :: "'d msdb_server \<Rightarrow> sp_call list \<Rightarrow> 'd \<Rightarrow> 'd \<times> unit attempt" where
  "run_calls srv [] db = (db, Finished ())"
| "run_calls srv (c # cs) db = await (run_call srv c db) (\<lambda>db _. run_calls srv cs db)"

section \<open>Simple operations\<close>

definition toggleJob_sql :: "'d msdb_server \<Rightarrow> string \<Rightarrow> bool \<Rightarrow> 'd \<Rightarrow> 'd \<times> unit attempt" where
  "toggleJob_sql srv uuid e =
     run_call srv (sp ''sp_update_job'' [(''job_id'', SText uuid), (''enabled'', bit e)])"

definition startJob_sql :: "'d msdb_server \<Rightarrow> string \<Rightarrow> string option \<Rightarrow> 'd \<Rightarrow> 'd \<times> unit attempt" where
  "startJob_sql srv uuid step =
     run_call srv (sp ''sp_start_job'' ((''job_id'', SText uuid) #
       (if nullIfEmpty step = SNull then [] else [(''step_name'', nullIfEmpty step)])))"

definition stopJob_sql :: "'d msdb_server \<Rightarrow> string \<Rightarrow> 'd \<Rightarrow> 'd \<times> unit attempt" where
  "stopJob_sql srv uuid = run_call srv (sp ''sp_stop_job'' [(''job_id'', SText uuid)])"

definition deleteJob_sql :: "'d msdb_server \<Rightarrow> string \<Rightarrow> 'd \<Rightarrow> 'd \<times> unit attempt" where
  "deleteJob_sql srv uuid =
     run_call srv (sp ''sp_delete_job'' [(''job_id'', SText uuid), (''delete_unused_schedule'', SInt 1)])"

definition setJobWriteAllowed_sql :: "'d msdb_server \<Rightarrow> string \<Rightarrow> bool \<Rightarrow> 'd \<Rightarrow> 'd \<times> unit attempt" where
  "setJobWriteAllowed_sql srv name allowed =
     run_call srv (sp ''rsagent_set_job_write_allowed'' [(''job_name'', SText name), (''allowed'', bit allowed)])"

section \<open>Parameters of a job, a step and a schedule\<close>

definition notify_inputs :: "job_notifications \<Rightarrow> (string \<times> sql_value) list" where
  "notify_inputs n =
     [(''notify_level_email'', SInt (emailLevel n)), (''notify_level_netsend'', SInt (netsendLevel n)),
      (''notify_level_page'', SInt (pageLevel n)), (''notify_level_eventlog'', SInt (eventlogLevel n)),
      (''delete_level'', SInt (deleteLevel n))]"

definition new_job_inputs :: "job_definition \<Rightarrow> (string \<times> sql_value) list" where
  "new_job_inputs d =
     [(''job_name'', SText (jobName d)), (''enabled'', bit (job_definition.enabled d)),
      (''description'', nullIfEmpty (job_definition.description d)),
      (''category_name'', nullIfEmpty (categoryName d)),
      (''owner_login_name'', nullIfEmpty (ownerLoginName d))] @
     notify_inputs (notifications d) @
     [(''notify_email_operator_name'', nullIfEmpty (emailOperatorName (notifications d))),
      (''notify_netsend_operator_name'', nullIfEmpty (netsendOperatorName (notifications d))),
      (''notify_page_operator_name'', nullIfEmpty (pageOperatorName (notifications d)))]"

definition addJob_call :: "job_definition \<Rightarrow> sp_call" where
  "addJob_call d = sp ''sp_add_job'' (new_job_inputs d)"

definition property_inputs :: "job_definition \<Rightarrow> (string \<times> sql_value) list" where
  "property_inputs d =
     [(''new_name'', SText (jobName d)), (''enabled'', bit (job_definition.enabled d)),
      (''description'', or_empty (job_definition.description d)),
      (''category_name'', or_empty (categoryName d)),
      (''owner_login_name'', nullIfEmpty (ownerLoginName d))] @
     notify_inputs (notifications d) @
     [(''notify_email_operator_name'', or_empty (emailOperatorName (notifications d))),
      (''notify_netsend_operator_name'', or_empty (netsendOperatorName (notifications d))),
      (''notify_page_operator_name'', or_empty (pageOperatorName (notifications d)))]"

definition updateJobProperties_call :: "string \<Rightarrow> job_definition \<Rightarrow> sp_call" where
  "updateJobProperties_call uuid d = sp ''sp_update_job'' ((''job_id'', SText uuid) # property_inputs d)"

definition delete_steps_call :: "string \<Rightarrow> sp_call" where
  "delete_steps_call uuid = sp ''sp_delete_jobstep'' [(''job_id'', SText uuid), (''step_id'', SInt 0)]"

definition step_inputs :: "job_step \<Rightarrow> (string \<times> sql_value) list" where
  "step_inputs s =
     [(''step_name'', SText (stepName s)), (''subsystem'', SText (subsystem_name (subsystem s))),
      (''command'', SText (command s)), (''database_name'', nullIfEmpty (databaseName s)),
      (''database_user_name'', nullIfEmpty (databaseUserName s)),
      (''on_success_action'', SInt (onSuccessAction s)), (''on_success_step_id'', SInt (onSuccessStepId s)),
      (''on_fail_action'', SInt (onFailAction s)), (''on_fail_step_id'', SInt (onFailStepId s)),
      (''retry_attempts'', SInt (retryAttempts s)), (''retry_interval'', SInt (retryIntervalMinutes s)),
      (''output_file_name'', nullIfEmpty (outputFileName s)), (''flags'', SInt (flags s)),
      (''proxy_name'', nullIfEmpty (proxyName s))]"

definition add_step_call :: "string \<Rightarrow> job_step \<Rightarrow> sp_call" where
  "add_step_call uuid s = sp ''sp_add_jobstep'' ((''job_id'', SText uuid) # step_inputs s)"

definition start_step_call :: "string \<Rightarrow> int \<Rightarrow> sp_call" where
  "start_step_call uuid i = sp ''sp_update_job'' [(''job_id'', SText uuid), (''start_step_id'', SInt i)]"

definition job_server_call :: "string \<Rightarrow> sp_call" where
  "job_server_call uuid =
     sp ''sp_add_jobserver'' [(''job_id'', SText uuid), (''server_name'', SText ''(LOCAL)'')]"

definition schedule_inputs :: "schedule_definition \<Rightarrow> (string \<times> sql_value) list" where
  "schedule_inputs s =
     [(''enabled'', bit (schedEnabled s)), (''freq_type'', SInt (freqType s)),
      (''freq_interval'', SInt (freqInterval s)), (''freq_subday_type'', SInt (freqSubdayType s)),
      (''freq_subday_interval'', SInt (freqSubdayInterval s)),
      (''freq_relative_interval'', SInt (freqRelativeInterval s)),
      (''freq_recurrence_factor'', SInt (freqRecurrenceFactor s)),
      (''active_start_date'', SInt (activeStartDate s)), (''active_end_date'', SInt (activeEndDate s)),
      (''active_start_time'', SInt (activeStartTime s)), (''active_end_time'', SInt (activeEndTime s))]"

definition update_schedule_call :: "schedule_definition \<Rightarrow> sp_call" where
  "update_schedule_call s = sp ''sp_update_schedule'' ((''name'', SText (schedName s)) # schedule_inputs s)"

definition add_jobschedule_call :: "string \<Rightarrow> schedule_definition \<Rightarrow> sp_call" where
  "add_jobschedule_call uuid s =
     sp ''sp_add_jobschedule'' ((''job_id'', SText uuid) # (''name'', SText (schedName s)) # schedule_inputs s)"

definition detach_schedule_call :: "string \<Rightarrow> string \<Rightarrow> sp_call" where
  "detach_schedule_call uuid name = sp ''sp_detach_schedule''
     [(''job_id'', SText uuid), (''name'', SText name), (''delete_unused_schedule'', SInt 1)]"

section \<open>Job upsert\<close>

definition addJob :: "'d msdb_server \<Rightarrow> job_definition \<Rightarrow> 'd \<Rightarrow> 'd \<times> string attempt" where
  "addJob srv d db = await (execute srv (addJob_call d) db)
     (\<lambda>db out. case out of
        None \<Rightarrow> (db, Threw)
      | Some jobId \<Rightarrow> if jobId = '''' then (db, Threw) else (db, Finished (to_lower jobId)))"

text \<open>\<open>new Set(xs)\<close>, in the order of iteration.\<close>

definition insertion_order :: "'a list \<Rightarrow> 'a list" where
  "insertion_order xs = rev (remdups (rev xs))"

definition schedule_calls :: "string \<Rightarrow> string list \<Rightarrow> schedule_definition list \<Rightarrow> sp_call list" where
  "schedule_calls uuid attached wanted =
     map (\<lambda>s. if schedName s \<in> set attached then update_schedule_call s else add_jobschedule_call uuid s) wanted @
     map (detach_schedule_call uuid)
       (filter (\<lambda>n. n \<notin> set (map schedName wanted)) (insertion_order attached))"

definition reconcileJobSchedules ::
  "'d msdb_server \<Rightarrow> string \<Rightarrow> schedule_definition list \<Rightarrow> 'd \<Rightarrow> 'd \<times> unit attempt" where
  "reconcileJobSchedules srv uuid wanted db =
     await (db, attachedSchedules srv uuid db)
       (\<lambda>db attached. run_calls srv (schedule_calls uuid attached wanted) db)"

definition step_calls :: "string \<Rightarrow> job_definition \<Rightarrow> sp_call list" where
  "step_calls uuid d = map (add_step_call uuid) (sort_key stepId (steps d)) @
     (if steps d = [] then [] else [start_step_call uuid (startStepId d)])"

definition ensure_job ::
  "'d msdb_server \<Rightarrow> string \<Rightarrow> job_definition \<Rightarrow> bool \<Rightarrow> 'd \<Rightarrow> 'd \<times> string attempt" where
  "ensure_job srv uuid d exists db =
     (if exists then await (run_calls srv [updateJobProperties_call uuid d, delete_steps_call uuid] db)
        (\<lambda>db _. (db, Finished uuid))
      else addJob srv d db)"

text \<open>The calls of the transaction, up to its commit.\<close>

definition upsert_calls ::
  "'d msdb_server \<Rightarrow> string \<Rightarrow> job_definition \<Rightarrow> 'd \<Rightarrow> 'd \<times> string attempt" where
  "upsert_calls srv uuid d db =
     await (db, if uuid = '''' then Finished False else jobPresent srv uuid db) (\<lambda>db exists.
     await (ensure_job srv uuid d exists db) (\<lambda>db jobId.
     await (run_calls srv (step_calls jobId d) db) (\<lambda>db _.
     await (reconcileJobSchedules srv jobId (schedules d) db) (\<lambda>db _.
     await (run_calls srv (if exists then [] else [job_server_call jobId]) db) (\<lambda>db _.
     (db, Finished jobId))))))"

definition upsert_body ::
  "'d msdb_server \<Rightarrow> string \<Rightarrow> job_definition \<Rightarrow> 'd \<Rightarrow> 'd \<times> string attempt" where
  "upsert_body srv uuid d db =
     await (upsert_calls srv uuid d db) (\<lambda>db jobId.
     await (commitTransaction srv db) (\<lambda>db _. (db, Finished jobId)))"

text \<open>\<open>begin\<close> stands before the \<open>try\<close>, so its exceptions are not wrapped.\<close>

definition upsertJob_sql ::
  "'d msdb_server \<Rightarrow> string \<Rightarrow> job_definition \<Rightarrow> 'd \<Rightarrow> 'd \<times> string attempt" where
  "upsertJob_sql srv uuid d db =
     (case beginTransaction srv db of
        (db1, Finished _) \<Rightarrow>
          (case upsert_body srv uuid d db1 of
             (db2, Finished jobId) \<Rightarrow> (db2, Finished jobId)
           | (db2, e) \<Rightarrow> (rollbackTransaction srv db2, e))
      | (db1, _) \<Rightarrow> (db1, Threw))"

section \<open>Standalone schedules and operators\<close>

definition upsertSchedule_sql :: "'d msdb_server \<Rightarrow> schedule_definition \<Rightarrow> 'd \<Rightarrow> 'd \<times> unit attempt" where
  "upsertSchedule_sql srv s db =
     await (db, schedulePresent srv (schedName s) db) (\<lambda>db present.
       run_call srv (sp (if present then ''sp_update_schedule'' else ''sp_add_schedule'')
         ((''name'', SText (schedName s)) # schedule_inputs s)) db)"

definition deleteSchedule_sql :: "'d msdb_server \<Rightarrow> string \<Rightarrow> 'd \<Rightarrow> 'd \<times> unit attempt" where
  "deleteSchedule_sql srv name =
     run_call srv (sp ''sp_delete_schedule'' [(''schedule_name'', SText name), (''force_delete'', SInt 0)])"

definition operator_inputs :: "operator_definition \<Rightarrow> (string \<times> sql_value) list" where
  "operator_inputs p =
     [(''name'', SText (opName p)), (''enabled'', bit (opEnabled p)),
      (''email_address'', nullIfEmpty (emailAddress p)), (''pager_address'', nullIfEmpty (pagerAddress p)),
      (''netsend_address'', nullIfEmpty (netsendAddress p)),
      (''weekday_pager_start_time'', SInt (weekdayPagerStartTime p)),
      (''weekday_pager_end_time'', SInt (weekdayPagerEndTime p)),
      (''saturday_pager_start_time'', SInt (saturdayPagerStartTime p)),
      (''saturday_pager_end_time'', SInt (saturdayPagerEndTime p)),
      (''sunday_pager_start_time'', SInt (sundayPagerStartTime p)),
      (''sunday_pager_end_time'', SInt (sundayPagerEndTime p)), (''pager_days'', SInt (pagerDays p))]"

definition upsertOperator_sql :: "'d msdb_server \<Rightarrow> operator_definition \<Rightarrow> 'd \<Rightarrow> 'd \<times> unit attempt" where
  "upsertOperator_sql srv p db =
     await (db, operatorPresent srv (opName p) db) (\<lambda>db present.
       run_call srv (sp (if present then ''sp_update_operator'' else ''sp_add_operator'') (operator_inputs p)) db)"

definition deleteOperator_sql :: "'d msdb_server \<Rightarrow> string \<Rightarrow> 'd \<Rightarrow> 'd \<times> unit attempt" where
  "deleteOperator_sql srv name =
     run_call srv (sp ''sp_delete_operator'' [(''name'', SText name), (''reassign_to_operator'', SNull)])"

text \<open>The operations of the command handler's environment, as it imports them.\<close>

definition with_writer :: "'d msdb_server \<Rightarrow> 'd agent_env \<Rightarrow> 'd agent_env" where
  "with_writer srv env = env\<lparr>toggleJob := toggleJob_sql srv, startJob := startJob_sql srv,
     stopJob := stopJob_sql srv, upsertJob := upsertJob_sql srv, deleteJob := deleteJob_sql srv,
     upsertSchedule := upsertSchedule_sql srv, deleteSchedule := deleteSchedule_sql srv,
     upsertOperator := upsertOperator_sql srv, setJobWriteAllowed := setJobWriteAllowed_sql srv\<rparr>"

lemma with_writer_sel [simp]:
  "upsertJob (with_writer srv env) = upsertJob_sql srv"
  "parseJobDefinition (with_writer srv env) = parseJobDefinition env"
  by (simp_all add: with_writer_def)

section \<open>What is relied on of msdb\<close>

text \<open>
  A job as msdb stores it: its columns, by the parameter that sets them, its steps in the order of their
  ids, each as the parameters it was added with, and its attached schedules by name. \<open>sp_update_job\<close>
  leaves a column alone whose parameter is NULL, and \<open>@new_name\<close> sets the name.
\<close>

record msdb_job =
  mjColumns :: "string \<Rightarrow> sql_value"
  mjSteps :: "(string \<times> sql_value) list list"
  mjSchedules :: "(string \<times> (string \<times> sql_value) list) list"

definition column_of :: "string \<Rightarrow> string" where
  "column_of p = (if p = ''new_name'' then ''job_name'' else p)"

definition set_columns :: "(string \<times> sql_value) list \<Rightarrow> (string \<Rightarrow> sql_value) \<Rightarrow> string \<Rightarrow> sql_value" where
  "set_columns ins old k =
     (case map_of (map (\<lambda>(p, v). (column_of p, v)) ins) k of
        None \<Rightarrow> old k | Some SNull \<Rightarrow> old k | Some v \<Rightarrow> v)"







section \<open>Successful runs\<close>

lemma await_Finished:
  "await p go = (db', Finished y) \<longleftrightarrow> (\<exists>db x. p = (db, Finished x) \<and> go db x = (db', Finished y))"
  by (cases "(p, go)" rule: await.cases) auto

lemma run_call_Finished:
  "run_call srv c db = (db', Finished u) \<longleftrightarrow> (\<exists>r. execute srv c db = (db', Finished r))"
  by (auto simp: run_call_def await_Finished)

lemma run_calls_append:
  "run_calls srv (xs @ ys) db = (db', Finished u) \<longleftrightarrow>
     (\<exists>db1. run_calls srv xs db = (db1, Finished ()) \<and> run_calls srv ys db1 = (db', Finished u))"
  by (induction xs arbitrary: db) (auto simp: await_Finished)

lemma run_calls_Cons:
  "run_calls srv (c # cs) db = (db', Finished u) \<longleftrightarrow>
     (\<exists>db1 r. execute srv c db = (db1, Finished r) \<and> run_calls srv cs db1 = (db', Finished u))"
  by (auto simp: await_Finished run_call_Finished)



section \<open>Schedules\<close>









section \<open>The whole upsert\<close>











section \<open>All or nothing\<close>

text \<open>
  What is relied on of transactions. \<open>durable\<close> is what survives and what others see, \<open>working\<close> what the
  connection itself sees. Within a transaction nothing becomes durable before the commit; a commit that
  returns makes the work durable, one that throws may or may not have; a rollback makes nothing durable,
  whether it succeeds or not.
\<close>

definition transactional ::
  "'d msdb_server \<Rightarrow> ('d \<Rightarrow> 'c) \<Rightarrow> ('d \<Rightarrow> 'c) \<Rightarrow> ('d \<Rightarrow> bool) \<Rightarrow> bool" where
  "transactional srv durable working inTransaction \<longleftrightarrow>
     (\<forall>db db1 r. beginTransaction srv db = (db1, r) \<longrightarrow>
        durable db1 = durable db \<and> (r = Finished () \<longrightarrow> inTransaction db1)) \<and>
     (\<forall>c db db1 r. execute srv c db = (db1, r) \<longrightarrow> inTransaction db \<longrightarrow>
        durable db1 = durable db \<and> (\<forall>x. r = Finished x \<longrightarrow> inTransaction db1)) \<and>
     (\<forall>db db1 r. commitTransaction srv db = (db1, r) \<longrightarrow> inTransaction db \<longrightarrow>
        durable db1 = working db \<or> r \<noteq> Finished () \<and> durable db1 = durable db) \<and>
     (\<forall>db. durable (rollbackTransaction srv db) = durable db)"

text \<open>A computation within a transaction.\<close>

definition unsaved :: "('d \<Rightarrow> 'c) \<Rightarrow> ('d \<Rightarrow> bool) \<Rightarrow> 'c \<Rightarrow> 'd \<times> 'a attempt \<Rightarrow> bool" where
  "unsaved durable inTransaction before p \<longleftrightarrow>
     durable (fst p) = before \<and> (\<forall>x. snd p = Finished x \<longrightarrow> inTransaction (fst p))"

lemma unsaved_await:
  assumes "unsaved durable tx b p"
    and "\<And>db x. durable db = b \<Longrightarrow> tx db \<Longrightarrow> unsaved durable tx b (go db x)"
  shows "unsaved durable tx b (await p go)"
  using assms by (cases "(p, go)" rule: await.cases) (auto simp: unsaved_def)

lemma unsaved_pure: "durable db = b \<Longrightarrow> tx db \<Longrightarrow> unsaved durable tx b (db, r)"
  by (simp add: unsaved_def)

lemma unsaved_execute:
  assumes "transactional srv durable working tx" and "durable db = b" and "tx db"
  shows "unsaved durable tx b (execute srv c db)"
  using assms by (cases "execute srv c db") (auto simp: transactional_def unsaved_def)

lemma unsaved_run_calls:
  assumes "transactional srv durable working tx"
  shows "durable db = b \<Longrightarrow> tx db \<Longrightarrow> unsaved durable tx b (run_calls srv cs db)"
proof (induction cs arbitrary: db)
  case Nil
  then show ?case by (simp add: unsaved_pure)
next
  case (Cons c cs)
  then show ?case
    by (auto simp: run_call_def intro!: unsaved_await unsaved_execute [OF assms] unsaved_pure)
qed

lemma unsaved_upsert_calls:
  assumes "transactional srv durable working tx" and "durable db = b" and "tx db"
  shows "unsaved durable tx b (upsert_calls srv uuid d db)"
proof -
  note intros = unsaved_await unsaved_execute [OF assms(1)] unsaved_run_calls [OF assms(1)] unsaved_pure
  have "unsaved durable tx b (addJob srv d db)" if "durable db = b" "tx db" for db
    unfolding addJob_def using that by (auto intro!: intros split: option.split)
  then have "unsaved durable tx b (ensure_job srv uuid d exists db)" if "durable db = b" "tx db" for "exists" db
    unfolding ensure_job_def using that by (auto intro!: intros simp del: run_calls.simps)
  then show ?thesis
    unfolding upsert_calls_def reconcileJobSchedules_def using assms(2,3)
    by (intro intros) assumption+
qed

text \<open>The calls of an upsert all succeeded in one transaction, and what they left is durable.\<close>

definition upsert_durable ::
  "'d msdb_server \<Rightarrow> ('d \<Rightarrow> 'c) \<Rightarrow> ('d \<Rightarrow> 'c) \<Rightarrow> string \<Rightarrow> job_definition \<Rightarrow> 'd \<Rightarrow> 'd \<Rightarrow> bool" where
  "upsert_durable srv durable working uuid d db db' \<longleftrightarrow>
     (\<exists>db1 db2 jobId. beginTransaction srv db = (db1, Finished ()) \<and>
        upsert_calls srv uuid d db1 = (db2, Finished jobId) \<and> durable db' = working db2)"

lemma upsertJob_durable:
  assumes tx: "transactional srv durable working tx" and up: "upsertJob_sql srv uuid d db = (db', r)"
  shows "durable db' = durable db \<or> upsert_durable srv durable working uuid d db db'"
    and "r = Finished jobId \<Longrightarrow> upsert_durable srv durable working uuid d db db'"
proof -
  obtain db1 r1 where b: "beginTransaction srv db = (db1, r1)" by fastforce
  have d1: "durable db1 = durable db" using tx b by (simp add: transactional_def)
  have "(durable db' = durable db \<or> upsert_durable srv durable working uuid d db db') \<and>
    (\<forall>jobId. r = Finished jobId \<longrightarrow> upsert_durable srv durable working uuid d db db')"
  proof (cases "r1 = Finished ()")
    case False
    with up b d1 show ?thesis by (cases r1) (auto simp: upsertJob_sql_def)
  next
    case True
    then have "tx db1" using tx b by (simp add: transactional_def)
    obtain db2 r2 where c: "upsert_calls srv uuid d db1 = (db2, r2)" by fastforce
    have u: "unsaved durable tx (durable db) (upsert_calls srv uuid d db1)"
      using unsaved_upsert_calls [OF tx d1 \<open>tx db1\<close>] .
    have d2: "durable db2 = durable db" using u c by (simp add: unsaved_def)
    have rb: "durable (rollbackTransaction srv x) = durable x" for x
      using tx by (simp add: transactional_def)
    show ?thesis
    proof (cases r2)
      case (Finished jobId)
      then have "tx db2" using u c by (simp add: unsaved_def)
      obtain db3 r3 where m: "commitTransaction srv db2 = (db3, r3)" by fastforce
      have "durable db3 = working db2 \<or> r3 \<noteq> Finished () \<and> durable db3 = durable db2"
        using tx m \<open>tx db2\<close> unfolding transactional_def by blast
      with up b c m True Finished rb d2 show ?thesis
        by (cases r3) (auto simp: upsertJob_sql_def upsert_body_def upsert_durable_def)
    qed (use up b c True rb d2 in \<open>auto simp: upsertJob_sql_def upsert_body_def\<close>)
  qed
  then show "durable db' = durable db \<or> upsert_durable srv durable working uuid d db db'"
    "r = Finished jobId \<Longrightarrow> upsert_durable srv durable working uuid d db db'" by blast+
qed


lemma checkConflict_refuses: "checkConflict env db uuid base allow = Finished (Some oc) \<Longrightarrow> \<not> success oc"
  by (auto simp: checkConflict_def refuse_def split: if_splits attempt.splits option.splits)

lemma after_op_cases:
  "fst (after_op p f) = fst p" "snd (after_op p f) = Finished oc \<Longrightarrow> \<exists>x. snd p = Finished x"
  by (cases "(p, f)" rule: after_op.cases; auto split: attempt.splits)+

text \<open>Either nothing is called, and then no success is reported, or the upsert is.\<close>

lemma upsert_payload_cases:
  assumes "apply_payload (with_writer srv env) (PUpsertJob uuid json base allow) db = (db', a)"
  shows "db' = db \<and> (\<forall>oc. a = Finished oc \<longrightarrow> \<not> success oc) \<or>
    (\<exists>d r. parseJobDefinition env json = Parsed d \<and> upsertJob_sql srv uuid d db = (db', r) \<and>
       (\<forall>oc. a = Finished oc \<longrightarrow> (\<exists>jobId. r = Finished jobId)))"
proof (cases "parseJobDefinition env json")
  case (Parsed d)
  let ?p = "upsertJob_sql srv uuid d db"
  let ?check = "if uuid = [] then Finished None else checkConflict (with_writer srv env) db uuid base allow"
  let ?act = "after_op ?p (\<lambda>db u. readJobBlob (with_writer srv env) db u)"
  have run: "unless_conflict ?check db ?act = (db', a)"
    using assms Parsed by (simp only: apply_payload.simps with_writer_sel parsed.case)
  show ?thesis
  proof (cases "?check = Finished None")
    case True
    then have "?act = (db', a)" using run by (simp add: unless_conflict_def)
    then have "fst ?p = db'" "\<forall>oc. a = Finished oc \<longrightarrow> (\<exists>x. snd ?p = Finished x)"
      using after_op_cases [of ?p] by (metis fst_conv, metis snd_conv)
    then show ?thesis
      using Parsed by (intro disjI2 exI [of _ d] exI [of _ "snd ?p"]) (auto simp: prod_eq_iff)
  next
    case False
    then show ?thesis
      using run
      by (auto dest: checkConflict_refuses simp: unless_conflict_def split: attempt.splits option.splits if_splits)
  qed
qed (use assms in \<open>auto simp: refuse_def\<close>)

lemma gates_refuse: "gates env cmd now = Some (Some oc) \<Longrightarrow> \<not> success oc"
  by (auto simp: gates_def refuse_def Let_def split: if_splits option.splits bool.splits)

text \<open>The database of a handled command is left by the application, and so is a success it reports.\<close>

lemma handled_by_application:
  assumes "handleCommand env cmd checked recorded w = (w', r)"
  shows "msdb w' = msdb w \<and> (\<forall>res. r = Some res \<longrightarrow> success (resultOutcome res) \<longrightarrow>
        appliedCommandOutcome (commandId cmd) (outbox w) \<noteq> None) \<or>
    (\<exists>a. apply_command env cmd (msdb w) = (msdb w', a) \<and>
       (\<forall>res. r = Some res \<longrightarrow> success (resultOutcome res) \<longrightarrow> (\<exists>oc. a = Finished oc \<and> success oc)))"
proof (cases "gates env cmd checked = Some None \<and> appliedCommandOutcome (commandId cmd) (outbox w) = None")
  case True
  then show ?thesis
    using assms
    by (intro disjI2 exI [of _ "snd (apply_command env cmd (msdb w))"])
      (auto simp: handleCommand_def evaluateAndApply_def Let_def split: prod.splits attempt.splits)
next
  case False
  then show ?thesis
    using assms
    by (intro disjI1) (auto dest: gates_refuse simp: handleCommand_def evaluateAndApply_def Let_def split: option.splits)
qed

text \<open>
  C4. An edit of a job reaches msdb whole or not at all. Whatever fails on the way, a gate, the conflict
  check, parsing, any procedure, the commit, the rollback itself, what is durable in msdb afterwards is
  what was durable before, or all calls of the upsert had succeeded in one transaction and exactly what
  they left is durable. When a success is reported for a command that was not applied before, it is the
  latter: the edit was committed.
\<close>

theorem edit_all_or_nothing:
  assumes "transactional srv durable working tx" and "payload cmd = Some (PUpsertJob uuid json base allow)"
    and "handleCommand (with_writer srv env) cmd checked recorded w = (w', r)"
  shows "let edited = (\<exists>d. parseJobDefinition env json = Parsed d \<and>
        upsert_durable srv durable working uuid d (msdb w) (msdb w'))
    in (durable (msdb w') = durable (msdb w) \<or> edited) \<and>
       (\<forall>res. r = Some res \<longrightarrow> success (resultOutcome res) \<longrightarrow>
          appliedCommandOutcome (commandId cmd) (outbox w) = None \<longrightarrow> edited)"
  using handled_by_application [OF assms(3)]
proof (elim disjE exE conjE)
  fix a
  assume "apply_command (with_writer srv env) cmd (msdb w) = (msdb w', a)"
    and s: "\<forall>res. r = Some res \<longrightarrow> success (resultOutcome res) \<longrightarrow> (\<exists>oc. a = Finished oc \<and> success oc)"
  then have "apply_payload (with_writer srv env) (PUpsertJob uuid json base allow) (msdb w) = (msdb w', a)"
    using assms(2) by (simp add: apply_command_def)
  from upsert_payload_cases [OF this] show ?thesis
  proof (elim disjE exE conjE)
    fix d r1
    assume d: "parseJobDefinition env json = Parsed d" "upsertJob_sql srv uuid d (msdb w) = (msdb w', r1)"
      and f: "\<forall>oc. a = Finished oc \<longrightarrow> (\<exists>jobId. r1 = Finished jobId)"
    show ?thesis
      using upsertJob_durable [OF assms(1) d(2)] d(1) s f unfolding Let_def by metis
  qed (use s in \<open>auto simp: Let_def\<close>)
qed (auto simp: Let_def)

section \<open>A concrete server\<close>

text \<open>
  Jobs by id, the content that others see beside the one of the connection, and whether a transaction is
  open. The calls of an upsert are served, detaching with \<open>@name\<close> is refused, and so is the step that
  is called ''bad''.
\<close>

record demo_db =
  ddJobs :: "string \<Rightarrow> msdb_job option"
  ddDurable :: "string \<Rightarrow> msdb_job option"
  ddOpen :: bool

definition update_demo_job ::
  "string \<Rightarrow> (msdb_job \<Rightarrow> msdb_job) \<Rightarrow> demo_db \<Rightarrow> demo_db \<times> string option attempt" where
  "update_demo_job u f db =
     (case ddJobs db u of
        None \<Rightarrow> (db, SqlFailed ''no such job'' 14262)
      | Some j \<Rightarrow> (db\<lparr>ddJobs := (ddJobs db)(u \<mapsto> f j)\<rparr>, Finished None))"

definition demo_job_call ::
  "string \<Rightarrow> string \<Rightarrow> (string \<times> sql_value) list \<Rightarrow> demo_db \<Rightarrow> demo_db \<times> string option attempt" where
  "demo_job_call name u ins db =
     (if name = ''msdb.dbo.sp_update_job''
      then update_demo_job u (\<lambda>j. j\<lparr>mjColumns := set_columns ins (mjColumns j)\<rparr>) db
      else if name = ''msdb.dbo.sp_delete_jobstep'' then update_demo_job u (\<lambda>j. j\<lparr>mjSteps := []\<rparr>) db
      else if name = ''msdb.dbo.sp_add_jobstep''
      then if map_of ins ''step_name'' = Some (SText ''bad'') then (db, SqlFailed ''refused'' 14234)
           else update_demo_job u (\<lambda>j. j\<lparr>mjSteps := mjSteps j @ [ins]\<rparr>) db
      else if name = ''msdb.dbo.sp_add_jobschedule''
      then (case ins of
              (_, SText n) # cols \<Rightarrow> update_demo_job u (\<lambda>j. j\<lparr>mjSchedules := mjSchedules j @ [(n, cols)]\<rparr>) db
            | _ \<Rightarrow> (db, SqlFailed ''no name'' 201))
      else if name = ''msdb.dbo.sp_add_jobserver'' then update_demo_job u id db
      else (db, SqlFailed ''refused'' 8145))"

definition demo_database_call ::
  "string \<Rightarrow> (string \<times> sql_value) list \<Rightarrow> demo_db \<Rightarrow> demo_db \<times> string option attempt" where
  "demo_database_call name ins db =
     (if name = ''msdb.dbo.sp_add_job''
      then (db\<lparr>ddJobs := (ddJobs db)(''new'' \<mapsto> \<lparr>mjColumns = set_columns ins (\<lambda>_. SNull),
              mjSteps = [], mjSchedules = []\<rparr>)\<rparr>, Finished (Some ''NEW''))
      else if name = ''msdb.dbo.sp_update_schedule''
      then (case ins of
              (_, SText n) # cols \<Rightarrow>
                (db\<lparr>ddJobs := \<lambda>u. map_option (\<lambda>j. j\<lparr>mjSchedules :=
                   map (\<lambda>(m, x). if m = n then (m, cols) else (m, x)) (mjSchedules j)\<rparr>) (ddJobs db u)\<rparr>, Finished None)
            | _ \<Rightarrow> (db, SqlFailed ''no name'' 201))
      else (db, SqlFailed ''refused'' 8145))"

definition demo_execute :: "sp_call \<Rightarrow> demo_db \<Rightarrow> demo_db \<times> string option attempt" where
  "demo_execute c db =
     (case spInputs c of
        (p, SText u) # ins \<Rightarrow>
          if p = ''job_id'' then demo_job_call (spProcedure c) u ins db
          else demo_database_call (spProcedure c) (spInputs c) db
      | _ \<Rightarrow> (db, SqlFailed ''refused'' 201))"

definition demo_server :: "demo_db msdb_server" where
  "demo_server = \<lparr>execute = demo_execute, jobPresent = (\<lambda>u db. Finished (ddJobs db u \<noteq> None)),
     attachedSchedules = (\<lambda>u db. case ddJobs db u of None \<Rightarrow> Finished [] | Some j \<Rightarrow> Finished (map fst (mjSchedules j))),
     schedulePresent = (\<lambda>n db. Finished False), operatorPresent = (\<lambda>n db. Finished False),
     beginTransaction = (\<lambda>db. (db\<lparr>ddOpen := True\<rparr>, Finished ())),
     commitTransaction = (\<lambda>db. (db\<lparr>ddDurable := ddJobs db, ddOpen := False\<rparr>, Finished ())),
     rollbackTransaction = (\<lambda>db. db\<lparr>ddJobs := ddDurable db, ddOpen := False\<rparr>)\<rparr>"


lemmas demo_defs = demo_server_def demo_execute_def demo_job_call_def demo_database_call_def update_demo_job_def

lemma demo_update_job_call:
  "execute demo_server (sp ''sp_update_job'' ((''job_id'', SText u) # ins)) db =
     update_demo_job u (\<lambda>j. j\<lparr>mjColumns := set_columns ins (mjColumns j)\<rparr>) db"
  by (simp add: demo_server_def demo_execute_def demo_job_call_def sp_def)

lemma demo_delete_steps_call:
  "execute demo_server (delete_steps_call u) db = update_demo_job u (\<lambda>j. j\<lparr>mjSteps := []\<rparr>) db"
  by (simp add: demo_server_def demo_execute_def demo_job_call_def sp_def delete_steps_call_def)

lemma demo_add_step_call:
  "execute demo_server (sp ''sp_add_jobstep'' ((''job_id'', SText u) # ins)) db =
     (if map_of ins ''step_name'' = Some (SText ''bad'') then (db, SqlFailed ''refused'' 14234)
      else update_demo_job u (\<lambda>j. j\<lparr>mjSteps := mjSteps j @ [ins]\<rparr>) db)"
  by (simp add: demo_server_def demo_execute_def demo_job_call_def sp_def)

lemma demo_add_schedule_call:
  "execute demo_server (add_jobschedule_call u s) db =
     update_demo_job u (\<lambda>j. j\<lparr>mjSchedules := mjSchedules j @ [(schedName s, schedule_inputs s)]\<rparr>) db"
  by (simp add: demo_server_def demo_execute_def demo_job_call_def sp_def add_jobschedule_call_def)

lemma demo_update_schedule_call:
  "execute demo_server (update_schedule_call s) db =
     (db\<lparr>ddJobs := \<lambda>u. map_option (\<lambda>j. j\<lparr>mjSchedules :=
        map (\<lambda>(m, x). if m = schedName s then (m, schedule_inputs s) else (m, x)) (mjSchedules j)\<rparr>) (ddJobs db u)\<rparr>,
      Finished None)"
  by (simp add: demo_server_def demo_execute_def demo_database_call_def sp_def update_schedule_call_def)

lemma demo_detach_schedule_call:
  "execute demo_server (detach_schedule_call u n) db = (db, SqlFailed ''refused'' 8145)"
  by (simp add: demo_server_def demo_execute_def demo_job_call_def sp_def detach_schedule_call_def)

lemma demo_job_server_call:
  "execute demo_server (job_server_call u) db = update_demo_job u id db"
  by (simp add: demo_server_def demo_execute_def demo_job_call_def sp_def job_server_call_def)

lemma demo_addJob_call:
  "execute demo_server (addJob_call d) db =
     (db\<lparr>ddJobs := (ddJobs db)(''new'' \<mapsto> \<lparr>mjColumns = set_columns (new_job_inputs d) (\<lambda>_. SNull),
        mjSteps = [], mjSchedules = []\<rparr>)\<rparr>, Finished (Some ''NEW''))"
  by (simp add: demo_server_def demo_execute_def demo_database_call_def sp_def addJob_call_def new_job_inputs_def)

lemmas demo_calls = demo_update_job_call demo_delete_steps_call demo_add_step_call demo_add_schedule_call
  demo_update_schedule_call demo_detach_schedule_call demo_job_server_call demo_addJob_call

lemma demo_reads:
  "jobPresent demo_server u db = Finished (ddJobs db u \<noteq> None)"
  "attachedSchedules demo_server u db =
     Finished (case ddJobs db u of None \<Rightarrow> [] | Some j \<Rightarrow> map fst (mjSchedules j))"
  "beginTransaction demo_server db = (db\<lparr>ddOpen := True\<rparr>, Finished ())"
  "commitTransaction demo_server db = (db\<lparr>ddDurable := ddJobs db, ddOpen := False\<rparr>, Finished ())"
  "rollbackTransaction demo_server db = db\<lparr>ddJobs := ddDurable db, ddOpen := False\<rparr>"
  by (simp_all add: demo_server_def split: option.split)


lemma update_demo_job_rest:
  "ddDurable (fst (update_demo_job u f db)) = ddDurable db" "ddOpen (fst (update_demo_job u f db)) = ddOpen db"
  by (simp_all add: update_demo_job_def split: option.splits)

lemma demo_execute_rest:
  "ddDurable (fst (demo_execute c db)) = ddDurable db" "ddOpen (fst (demo_execute c db)) = ddOpen db"
  unfolding demo_execute_def demo_job_call_def demo_database_call_def
  by (simp_all add: update_demo_job_rest split: list.splits sql_value.splits prod.splits)

lemma demo_transactional: "transactional demo_server ddDurable ddJobs ddOpen"
proof -
  have "ddDurable db1 = ddDurable db \<and> ddOpen db1 = ddOpen db" if "demo_execute c db = (db1, r)" for c db db1 r
    using demo_execute_rest [of c db] that by simp
  then show ?thesis by (auto simp: transactional_def demo_server_def)
qed

section \<open>What is left open\<close>

text \<open>
  SQL Server refuses a call with a parameter that the procedure does not declare. \<open>sp_detach_schedule\<close>
  and \<open>sp_add_schedule\<close> declare \<open>@schedule_name\<close> (as \<open>deploy/sql-seed/seed.sql\<close> calls the latter), not
  \<open>@name\<close>: an edit that removes a schedule from a job never succeeds, nor does creating a schedule.
\<close>

definition refuses_undeclared :: "'d msdb_server \<Rightarrow> (string \<Rightarrow> string set) \<Rightarrow> bool" where
  "refuses_undeclared srv declared \<longleftrightarrow>
     (\<forall>c db db' r. \<not> fst ` set (spInputs c) \<subseteq> declared (spProcedure c) \<longrightarrow> execute srv c db \<noteq> (db', Finished r))"

lemma removed_schedule_never_saved:
  assumes "refuses_undeclared srv declared" and "''name'' \<notin> declared ''msdb.dbo.sp_detach_schedule''"
    and "n \<in> set attached" and "n \<notin> set (map schedName wanted)"
  shows "run_calls srv (schedule_calls u attached wanted) db \<noteq> (db', Finished ())"
proof
  let ?pre = "map (\<lambda>s. if schedName s \<in> set attached then update_schedule_call s
          else add_jobschedule_call u s) wanted"
  assume run: "run_calls srv (schedule_calls u attached wanted) db = (db', Finished ())"
  have refused: "execute srv (detach_schedule_call u m) db1 \<noteq> (db2, Finished r)" for m db1 db2 r
  proof -
    have "\<not> fst ` set (spInputs (detach_schedule_call u m)) \<subseteq> declared (spProcedure (detach_schedule_call u m))"
      using assms(2) by (simp add: detach_schedule_call_def sp_def)
    with assms(1) show ?thesis unfolding refuses_undeclared_def by blast
  qed
  obtain m ms where "filter (\<lambda>n. n \<notin> set (map schedName wanted)) (insertion_order attached) = m # ms"
    using assms(3,4)
    by (cases "filter (\<lambda>n. n \<notin> set (map schedName wanted)) (insertion_order attached)")
      (auto simp: filter_empty_conv insertion_order_def)
  with run obtain db1 where "run_calls srv (detach_schedule_call u m # map (detach_schedule_call u) ms) db1 = (db', Finished ())"
    unfolding schedule_calls_def run_calls_append by auto
  then show False using refused unfolding run_calls_Cons by blast
qed

lemma new_schedule_never_saved:
  assumes "refuses_undeclared srv declared" and "''name'' \<notin> declared ''msdb.dbo.sp_add_schedule''"
    and "schedulePresent srv (schedName s) db = Finished False"
  shows "upsertSchedule_sql srv s db \<noteq> (db', Finished ())"
proof -
  let ?c = "sp ''sp_add_schedule'' ((''name'', SText (schedName s)) # schedule_inputs s)"
  have "\<not> fst ` set (spInputs ?c) \<subseteq> declared (spProcedure ?c)" using assms(2) by (simp add: sp_def)
  with assms(1) have "execute srv ?c db \<noteq> (db', Finished r)" for db db' r
    unfolding refuses_undeclared_def by blast
  with assms(3) show ?thesis by (simp add: upsertSchedule_sql_def run_call_Finished)
qed

text \<open>
  The comment in \<open>updateJobProperties\<close> says that NULL leaves a value alone, so that clearing it was a
  silent no-op; \<open>upsertOperator\<close> still passes NULL for an address that was cleared.
\<close>

lemma cleared_address_is_null:
  assumes "operatorPresent srv (opName p) db = Finished True" and "emailAddress p = None"
  shows "upsertOperator_sql srv p db = run_call srv (sp ''sp_update_operator'' (operator_inputs p)) db \<and>
    map_of (operator_inputs p) ''email_address'' = Some SNull"
  using assms by (simp add: upsertOperator_sql_def operator_inputs_def nullIfEmpty_def)

section \<open>Examples\<close>

definition written_step :: "int \<Rightarrow> string \<Rightarrow> job_step" where
  "written_step i name = \<lparr> stepId = i, stepName = name, subsystem = TSQL, command = ''select 1'',
     databaseName = Some ''master'', databaseUserName = None, onSuccessAction = 1, onSuccessStepId = 0,
     onFailAction = 2, onFailStepId = 0, retryAttempts = 0, retryIntervalMinutes = 0,
     outputFileName = None, flags = 0, proxyName = None \<rparr>"

text \<open>A job of two steps, written in the other order, and two schedules.\<close>

definition written_job :: job_definition where
  "written_job = (sample_job ''y'')\<lparr>steps := [written_step 2 ''load'', written_step 1 ''extract''],
     schedules := [weekly_example, weekly_example\<lparr>schedName := ''Weekly''\<rparr>]\<rparr>"

text \<open>A database with a job of one step and one schedule, to which another definition is written.\<close>

definition demo_start :: demo_db where
  "demo_start = (let jobs = [''j'' \<mapsto> \<lparr>mjColumns = \<lambda>_. SNull, mjSteps = [step_inputs (written_step 1 ''old'')],
       mjSchedules = [(''Nightly'', [])]\<rparr>]
     in \<lparr>ddJobs = jobs, ddDurable = jobs, ddOpen = False\<rparr>)"

lemma written_job_sorted: "sort_key stepId (steps written_job) = [written_step 1 ''extract'', written_step 2 ''load'']"
  by (simp add: written_job_def written_step_def)

lemma demo_step_accepted:
  "map_of (step_inputs (written_step i n)) ''step_name'' = Some (SText n)"
  by (simp add: step_inputs_def written_step_def)

lemma demo_step_calls:
  assumes "ddJobs db u = Some j"
  shows "\<exists>db' j'. run_calls demo_server (step_calls u written_job) db = (db', Finished ()) \<and> ddJobs db' u = Some j' \<and>
    mjSchedules j' = mjSchedules j"
  using assms
  by (simp add: step_calls_def written_job_sorted run_call_def add_step_call_def start_step_call_def demo_calls
      demo_step_accepted update_demo_job_def)

lemma demo_schedule_calls:
  assumes "ddJobs db u = Some j" and "set attached \<subseteq> {''Nightly'', ''Weekly''}"
  shows "\<exists>db' j'. run_calls demo_server (schedule_calls u attached (schedules written_job)) db = (db', Finished ()) \<and>
    ddJobs db' u = Some j'"
proof -
  have "filter (\<lambda>n. n \<notin> set (map schedName (schedules written_job))) (insertion_order attached) = []"
    using assms(2) by (auto simp: filter_empty_conv insertion_order_def written_job_def weekly_example_def)
  then show ?thesis
    using assms(1)
    by (simp add: schedule_calls_def written_job_def run_call_def demo_calls update_demo_job_def)
qed

lemma demo_ensure_job:
  assumes "if uuid = '''' then jobId = ''new'' else jobId = uuid \<and> ddJobs db uuid = Some j"
  shows "\<exists>db' j'. ensure_job demo_server uuid written_job (uuid \<noteq> '''') db = (db', Finished jobId) \<and>
    ddJobs db' jobId = Some j' \<and> mjSchedules j' = (if uuid = '''' then [] else mjSchedules j)"
proof -
  have "to_lower ''NEW'' = ''new''" by code_simp
  then show ?thesis
    using assms
    by (cases "uuid = ''''")
      (simp_all add: ensure_job_def addJob_def run_call_def updateJobProperties_call_def demo_calls update_demo_job_def)
qed

lemma demo_upsert:
  assumes "if uuid = '''' then jobId = ''new''
    else jobId = uuid \<and> (\<exists>j. ddJobs db uuid = Some j \<and> fst ` set (mjSchedules j) \<subseteq> {''Nightly'', ''Weekly''})"
  shows "\<exists>db'. upsertJob_sql demo_server uuid written_job db = (db', Finished jobId)"
proof -
  obtain j where j: "if uuid = '''' then jobId = ''new'' else jobId = uuid \<and> ddJobs (db\<lparr>ddOpen := True\<rparr>) uuid = Some j"
    "uuid \<noteq> '''' \<longrightarrow> fst ` set (mjSchedules j) \<subseteq> {''Nightly'', ''Weekly''}"
    using assms by (auto split: if_splits)
  obtain db1 j1 where 1: "ensure_job demo_server uuid written_job (uuid \<noteq> '''') (db\<lparr>ddOpen := True\<rparr>) = (db1, Finished jobId)"
    "ddJobs db1 jobId = Some j1" "mjSchedules j1 = (if uuid = '''' then [] else mjSchedules j)"
    using demo_ensure_job [OF j(1)] by blast
  obtain db2 j2 where 2: "run_calls demo_server (step_calls jobId written_job) db1 = (db2, Finished ())"
    "ddJobs db2 jobId = Some j2" "mjSchedules j2 = mjSchedules j1"
    using demo_step_calls [OF 1(2)] by blast
  have "set (map fst (mjSchedules j2)) \<subseteq> {''Nightly'', ''Weekly''}" using j(2) 1(3) 2(3) by simp
  from demo_schedule_calls [OF 2(2) this] obtain db3 j3 where
    3: "run_calls demo_server (schedule_calls jobId (map fst (mjSchedules j2)) (schedules written_job)) db2 = (db3, Finished ())"
    "ddJobs db3 jobId = Some j3" by blast
  obtain db4 where 4: "run_calls demo_server (if uuid \<noteq> '''' then [] else [job_server_call jobId]) db3 = (db4, Finished ())"
    using 3(2) by (cases "uuid = ''''") (simp_all add: run_call_def demo_calls update_demo_job_def)
  have ex: "(if uuid = '''' then Finished False else jobPresent demo_server uuid (db\<lparr>ddOpen := True\<rparr>)) =
      Finished (uuid \<noteq> '''')"
    using assms by (auto simp: demo_reads)
  have "upsert_calls demo_server uuid written_job (db\<lparr>ddOpen := True\<rparr>) = (db4, Finished jobId)"
    by (simp only: upsert_calls_def reconcileJobSchedules_def ex await.simps 1(1) 2(1) demo_reads(2) 2(2) option.case 3(1) 4)
  then show ?thesis by (simp add: upsertJob_sql_def upsert_body_def demo_reads)
qed



definition writer_env :: "demo_db agent_env" where
  "writer_env = \<lparr> commandSigningPublicKey = ''k'', capabilities = [Observe, JobRun, JobWrite],
     sha256_hex = (\<lambda>_. ''h''), rsa_verify = (\<lambda>_ _ _. Some True), readJobs = (\<lambda>_. Finished []),
     toggleJob = toggleJob_sql demo_server, startJob = startJob_sql demo_server, stopJob = stopJob_sql demo_server,
     upsertJob = upsertJob_sql demo_server, deleteJob = deleteJob_sql demo_server,
     upsertSchedule = upsertSchedule_sql demo_server, deleteSchedule = deleteSchedule_sql demo_server,
     upsertOperator = upsertOperator_sql demo_server, setJobWriteAllowed = setJobWriteAllowed_sql demo_server,
     parseJobDefinition = (\<lambda>_. Parsed written_job), parseSchedule = NotJson, parseOperator = NotJson \<rparr>"

lemma writer_gates: "gates (with_writer demo_server writer_env) cmd now = gates demo_env cmd now"
proof -
  have "commandSigningPublicKey (with_writer demo_server writer_env) = commandSigningPublicKey demo_env"
    "sha256_hex (with_writer demo_server writer_env) = sha256_hex demo_env"
    "rsa_verify (with_writer demo_server writer_env) = rsa_verify demo_env"
    "capabilities (with_writer demo_server writer_env) = capabilities demo_env"
    by (simp_all add: with_writer_def writer_env_def demo_env_def)
  then show ?thesis by (simp only: gates_def)
qed

text \<open>A new job is reported as saved, and so it is.\<close>

theorem edit_all_or_nothing_witness:
  "\<exists>w' res. handleCommand (with_writer demo_server writer_env) (demo_command (PUpsertJob '''' ''{}'' '''' False))
      5 6 \<lparr>msdb = demo_start, outbox = empty_outbox 10\<rparr> = (w', Some res) \<and>
    success (resultOutcome res) \<and>
    upsert_durable demo_server ddDurable ddJobs '''' written_job demo_start (msdb w')"
proof -
  let ?env = "with_writer demo_server writer_env" and ?p = "PUpsertJob '''' ''{}'' '''' False"
  let ?w = "\<lparr>msdb = demo_start, outbox = empty_outbox 10\<rparr>"
  have g: "gates ?env (demo_command ?p) 5 = Some None"
    using demo_gates [of ?p 5] by (simp add: writer_gates)
  have a: "appliedCommandOutcome (commandId (demo_command ?p)) (outbox ?w) = None"
    by (simp add: appliedCommandOutcome_def empty_outbox_def openOutbox_def)
  have p: "payload (demo_command ?p) = Some ?p" by (simp add: demo_command_def)
  obtain db where u: "upsertJob_sql demo_server '''' written_job demo_start = (db, Finished ''new'')"
    using demo_upsert [of "''''" "''new''" demo_start] by auto
  have parse: "parseJobDefinition writer_env ''{}'' = Parsed written_job" by (simp add: writer_env_def)
  have read: "readJobBlob ?env db ''new'' = Finished None"
    by (simp add: readJobBlob_def with_writer_def writer_env_def)
  have "apply_command ?env (demo_command ?p) demo_start = (db, Finished (ok_outcome None))"
    by (simp add: apply_command_def p parse u unless_conflict_def read)
  then obtain w' res where run: "handleCommand ?env (demo_command ?p) 5 6 ?w = (w', Some res)"
    and s: "success (resultOutcome res)"
    using g a by (simp add: handleCommand_def evaluateAndApply_def ok_outcome_def)
  have "upsert_durable demo_server ddDurable ddJobs '''' written_job demo_start (msdb w')"
    using edit_all_or_nothing [OF demo_transactional p run] s a parse by (auto simp: Let_def)
  with run s show ?thesis by blast
qed

end
