(* ===== verification/Registry.thy ===== *)
theory Registry
  imports Prelude "HOL-Library.AList"
begin

text \<open>
  Who is connected: the in-memory registry of live worker sessions
  (\<open>packages/server/src/hub/registry.ts\<close>) and the minimum-version gate a worker passes before it
  is registered (\<open>hub/version-gate.ts\<close>).

  A session is a JavaScript object compared by identity; \<open>sessionNo\<close> is that identity. The
  registry's \<open>Map\<close> keeps insertion order and is an association list; the calls of a session's
  \<open>disconnect\<close> are recorded in order.
\<close>

section \<open>Live sessions\<close>

record live_worker =
  sessionNo :: nat
  liveWorkerId :: string
  liveHostName :: string
  instanceIds :: "(string \<times> string) list"
  connectedAt :: int

record worker_registry =
  byWorkerId :: "(string \<times> live_worker) list"
  disconnects :: "(nat \<times> string) list"

definition empty_registry :: worker_registry where
  "empty_registry = \<lparr> byWorkerId = [], disconnects = [] \<rparr>"

definition registry_get :: "string \<Rightarrow> worker_registry \<Rightarrow> live_worker option" where
  "registry_get w r = map_of (byWorkerId r) w"

definition register :: "live_worker \<Rightarrow> worker_registry \<Rightarrow> bool \<times> worker_registry" where
  "register s r =
     (let old = registry_get (liveWorkerId s) r;
          superseded = (case old of None \<Rightarrow> False | Some e \<Rightarrow> sessionNo e \<noteq> sessionNo s);
          told = (case old of None \<Rightarrow> []
                  | Some e \<Rightarrow> if sessionNo e \<noteq> sessionNo s
                            then [(sessionNo e, ''superseded by a newer session from the same worker'')]
                            else [])
      in (superseded, r\<lparr>byWorkerId := AList.update (liveWorkerId s) s (byWorkerId r),
                        disconnects := disconnects r @ told\<rparr>))"

definition unregister :: "string \<Rightarrow> live_worker \<Rightarrow> worker_registry \<Rightarrow> worker_registry" where
  "unregister w s r =
     (case registry_get w r of
        None \<Rightarrow> r
      | Some e \<Rightarrow> if sessionNo e = sessionNo s
                then r\<lparr>byWorkerId := AList.delete w (byWorkerId r)\<rparr> else r)"

definition isOnline :: "string \<Rightarrow> worker_registry \<Rightarrow> bool" where
  "isOnline w r \<longleftrightarrow> w \<in> set (map fst (byWorkerId r))"

definition onlineWorkerIds :: "worker_registry \<Rightarrow> string list" where
  "onlineWorkerIds r = map fst (byWorkerId r)"

definition registry_size :: "worker_registry \<Rightarrow> nat" where
  "registry_size r = length (byWorkerId r)"

section \<open>The version gate\<close>

text \<open>
  \<open>parseInt(part, 10)\<close>: leading white space, an optional sign, the longest run of digits;
  \<^term>\<open>None\<close> is \<open>NaN\<close>. Runs long enough to leave the exact integers are outside the model.
\<close>

fun drop_sign :: "string \<Rightarrow> bool \<times> string" where
  "drop_sign [] = (False, [])"
| "drop_sign (c # s) =
     (if c = CHR ''-'' then (True, s) else if c = CHR ''+'' then (False, s) else (False, c # s))"

definition parseInt :: "string \<Rightarrow> int option" where
  "parseInt part =
     (let (neg, body) = drop_sign (dropWhile is_space part); ds = takeWhile is_digit body
      in if ds = [] then None else Some (if neg then - int (read_nat ds) else int (read_nat ds)))"

definition parse_version :: "string \<Rightarrow> int list" where
  "parse_version v =
     map (\<lambda>part. case parseInt part of Some n \<Rightarrow> n | None \<Rightarrow> 0)
       (split_on CHR ''.'' (hd (split_on CHR ''-'' v)))"

text \<open>The loop from index \<open>i\<close>, with \<open>k\<close> indices to go; a missing part is 0.\<close>

definition part_at :: "int list \<Rightarrow> nat \<Rightarrow> int" where
  "part_at xs i = (if i < length xs then xs ! i else 0)"

fun compare_from :: "int list \<Rightarrow> int list \<Rightarrow> nat \<Rightarrow> nat \<Rightarrow> int" where
  "compare_from left right i 0 = 0"
| "compare_from left right i (Suc k) =
     (let l = part_at left i; r = part_at right i
      in if l \<noteq> r then (if l < r then -1 else 1) else compare_from left right (Suc i) k)"

definition compareVersions :: "string \<Rightarrow> string \<Rightarrow> int" where
  "compareVersions a b =
     (let left = parse_version a; right = parse_version b
      in compare_from left right 0 (max (length left) (length right)))"

definition checkWorkerVersion :: "string \<Rightarrow> string option \<Rightarrow> bool \<times> string option" where
  "checkWorkerVersion reported minimum =
     (case minimum of
        None \<Rightarrow> (True, None)
      | Some mv \<Rightarrow>
          if mv = [] then (True, None)
          else if reported = [] then
            (False, Some (''This control plane requires worker version '' @ mv @
               '' or newer, and this worker did not report a version.''))
          else if compareVersions reported mv < 0 then
            (False, Some (''Worker version '' @ reported @
               '' is older than the minimum this control plane accepts '' @ ''('' @ mv @
               ''). Upgrade the worker on this host; it will reconnect on its own.''))
          else (True, None))"

section \<open>Versions are ordered part by part\<close>

text \<open>The reference order: the first part in which they differ decides, absent parts being 0.\<close>

definition version_less :: "int list \<Rightarrow> int list \<Rightarrow> bool" where
  "version_less xs ys \<longleftrightarrow>
     (\<exists>i < max (length xs) (length ys). part_at xs i < part_at ys i \<and>
        (\<forall>j < i. part_at xs j = part_at ys j))"

lemma part_at_beyond [simp]: "length xs \<le> i \<Longrightarrow> part_at xs i = 0"
  by (simp add: part_at_def)

lemma version_less_alt:
  "version_less xs ys \<longleftrightarrow> (\<exists>i. part_at xs i < part_at ys i \<and> (\<forall>j < i. part_at xs j = part_at ys j))"
proof -
  have "i < max (length xs) (length ys)" if "part_at xs i < part_at ys i" for i
    using that by (rule contrapos_pp) simp
  then show ?thesis unfolding version_less_def by blast
qed

lemma compare_from_less:
  "compare_from xs ys i k < 0 \<longleftrightarrow>
     (\<exists>n. i \<le> n \<and> n < i + k \<and> part_at xs n < part_at ys n \<and>
        (\<forall>j. i \<le> j \<longrightarrow> j < n \<longrightarrow> part_at xs j = part_at ys j))"
proof (induction k arbitrary: i)
  case 0
  then show ?case by simp
next
  case (Suc k)
  show ?case
  proof (cases "part_at xs i = part_at ys i")
    case True
    then have "(\<forall>j. i \<le> j \<longrightarrow> j < n \<longrightarrow> part_at xs j = part_at ys j) \<longleftrightarrow>
        (\<forall>j. Suc i \<le> j \<longrightarrow> j < n \<longrightarrow> part_at xs j = part_at ys j)" for n
      by (metis Suc_leD Suc_leI le_neq_implies_less)
    note tail = this
    have "i \<le> n \<and> n < i + Suc k \<and> part_at xs n < part_at ys n \<and>
          (\<forall>j. i \<le> j \<longrightarrow> j < n \<longrightarrow> part_at xs j = part_at ys j) \<longleftrightarrow>
        Suc i \<le> n \<and> n < Suc i + k \<and> part_at xs n < part_at ys n \<and>
          (\<forall>j. Suc i \<le> j \<longrightarrow> j < n \<longrightarrow> part_at xs j = part_at ys j)" for n
    proof (cases "n = i")
      case True
      with \<open>part_at xs i = part_at ys i\<close> show ?thesis by simp
    next
      case False
      then have "(i \<le> n) = (Suc i \<le> n)" by linarith
      then show ?thesis by (simp add: tail)
    qed
    with True Suc.IH show ?thesis by simp
  next
    case False
    then have "i \<le> n \<and> n < i + Suc k \<and> part_at xs n < part_at ys n \<and>
          (\<forall>j. i \<le> j \<longrightarrow> j < n \<longrightarrow> part_at xs j = part_at ys j) \<longleftrightarrow>
        n = i \<and> part_at xs i < part_at ys i" for n
      by (auto simp: le_less)
    with False show ?thesis by simp
  qed
qed

lemma compareVersions_less:
  "compareVersions a b < 0 \<longleftrightarrow> version_less (parse_version a) (parse_version b)"
  by (auto simp: compareVersions_def Let_def compare_from_less version_less_def)

lemma compare_from_flip: "compare_from ys xs i k = - compare_from xs ys i k"
  by (induction k arbitrary: i) (auto simp: Let_def)

lemma compareVersions_flip: "compareVersions b a = - compareVersions a b"
  by (simp add: compareVersions_def Let_def compare_from_flip [of "parse_version b"] max.commute)

lemma version_less_trans:
  assumes "\<not> version_less ys xs" and "\<not> version_less zs ys"
  shows "\<not> version_less zs xs"
proof
  assume "version_less zs xs"
  then obtain i where i: "part_at zs i < part_at xs i" "\<forall>j < i. part_at zs j = part_at xs j"
    unfolding version_less_alt by blast
  define P where "P n \<longleftrightarrow> part_at xs n \<noteq> part_at ys n \<or> part_at ys n \<noteq> part_at zs n" for n
  have "P i" using i(1) by (auto simp: P_def)
  define k where "k = (LEAST n. P n)"
  have k: "P k" "k \<le> i" "\<forall>j < k. \<not> P j"
    using \<open>P i\<close> by (auto simp: k_def intro: LeastI Least_le dest: not_less_Least)
  have "part_at xs k \<le> part_at ys k" "part_at ys k \<le> part_at zs k"
    using assms k(3) unfolding version_less_alt P_def by (metis not_le)+
  with k(1) have "part_at xs k < part_at zs k" by (auto simp: P_def)
  with i k(2) show False by (metis le_neq_implies_less less_asym less_irrefl)
qed

text \<open>
  The version gate is monotone. The comparison is the part-by-part order of the parsed versions
  with missing parts read as 0, reversed when its arguments are; and once the gate admits a version
  it admits every reported version that does not compare below it.
\<close>

theorem version_gate_monotone:
  "(compareVersions a b < 0 \<longleftrightarrow> version_less (parse_version a) (parse_version b)) \<and>
   compareVersions b a = - compareVersions a b \<and>
   (fst (checkWorkerVersion a minimum) \<longrightarrow> b \<noteq> [] \<longrightarrow> compareVersions b a \<ge> 0 \<longrightarrow>
      checkWorkerVersion b minimum = (True, None))"
proof -
  have "checkWorkerVersion b minimum = (True, None)"
    if ok: "fst (checkWorkerVersion a minimum)" and b: "b \<noteq> []" and ge: "compareVersions b a \<ge> 0"
  proof (cases "minimum = None \<or> minimum = Some []")
    case True
    then show ?thesis by (auto simp: checkWorkerVersion_def)
  next
    case False
    then obtain mv where mv: "minimum = Some mv" "mv \<noteq> []" by auto
    with ok have "\<not> compareVersions a mv < 0" by (auto simp: checkWorkerVersion_def split: if_splits)
    moreover have "\<not> compareVersions b a < 0" using ge by simp
    ultimately have "\<not> compareVersions b mv < 0"
      unfolding compareVersions_less by (rule version_less_trans)
    with mv b show ?thesis by (simp add: checkWorkerVersion_def)
  qed
  then show ?thesis using compareVersions_less compareVersions_flip by blast
qed

theorem version_gate_monotone_witness:
  "checkWorkerVersion ''1.10.0'' (Some ''1.2'') = (True, None)"
proof -
  have "fst (checkWorkerVersion ''1.9'' (Some ''1.2''))" by code_simp
  moreover have "compareVersions ''1.10.0'' ''1.9'' \<ge> 0" by code_simp
  ultimately show ?thesis
    using version_gate_monotone [of "''1.9''" "''1.10.0''" "Some ''1.2''"] by simp
qed

section \<open>One live session per worker\<close>

text \<open>What connections and teardowns do to the registry, in any order.\<close>

datatype registry_event = Connect live_worker | Teardown string live_worker

fun registry_step :: "registry_event \<Rightarrow> worker_registry \<Rightarrow> worker_registry" where
  "registry_step (Connect s) r = snd (register s r)"
| "registry_step (Teardown w s) r = unregister w s r"

definition registry_run :: "registry_event list \<Rightarrow> worker_registry" where
  "registry_run es = foldl (\<lambda>r e. registry_step e r) empty_registry es"

definition registry_wf :: "worker_registry \<Rightarrow> bool" where
  "registry_wf r \<longleftrightarrow> distinct (map fst (byWorkerId r)) \<and>
     (\<forall>(w, s) \<in> set (byWorkerId r). liveWorkerId s = w)"

lemma registry_run_snoc: "registry_run (es @ [e]) = registry_step e (registry_run es)"
  by (simp add: registry_run_def)

lemma register_get [simp]:
  "registry_get w (snd (register s r)) = (if w = liveWorkerId s then Some s else registry_get w r)"
  by (simp add: register_def Let_def registry_get_def update_conv')

lemma unregister_get:
  "registry_get w (unregister v s r) =
     (if w = v \<and> (\<exists>e. registry_get v r = Some e \<and> sessionNo e = sessionNo s)
      then None else registry_get w r)"
  by (auto simp: unregister_def registry_get_def delete_conv' split: option.splits)

lemma isOnline_get: "isOnline w r \<longleftrightarrow> registry_get w r \<noteq> None"
  by (simp add: isOnline_def registry_get_def map_of_eq_None_iff)

lemma set_update_subset: "set (AList.update k v ps) \<subseteq> insert (k, v) (set ps)"
  by (induction ps) auto

lemma set_delete_subset: "set (AList.delete k ps) \<subseteq> set ps"
  by (auto simp: AList.delete_eq)

lemma registry_step_wf: "registry_wf r \<Longrightarrow> registry_wf (registry_step e r)"
proof (cases e)
  case (Connect s)
  assume "registry_wf r"
  then have d: "distinct (map fst (byWorkerId r))"
    and own: "\<forall>(w, t) \<in> set (byWorkerId r). liveWorkerId t = w" by (auto simp: registry_wf_def)
  have "set (AList.update (liveWorkerId s) s (byWorkerId r)) \<subseteq>
      insert (liveWorkerId s, s) (set (byWorkerId r))" by (rule set_update_subset)
  with own have "\<forall>(w, t) \<in> set (AList.update (liveWorkerId s) s (byWorkerId r)). liveWorkerId t = w"
    by blast
  with d Connect show ?thesis
    by (simp add: registry_wf_def register_def Let_def distinct_update)
next
  case (Teardown w s)
  assume "registry_wf r"
  with Teardown set_delete_subset [of w "byWorkerId r"] show ?thesis
    by (auto simp: registry_wf_def unregister_def distinct_delete split: option.splits)
qed

lemma registry_run_wf: "registry_wf (registry_run es)"
  by (induction es rule: rev_induct)
    (simp_all add: registry_run_snoc registry_step_wf, simp add: registry_run_def registry_wf_def empty_registry_def)

definition is_connect :: "string \<Rightarrow> registry_event \<Rightarrow> bool" where
  "is_connect w e = (case e of Connect s \<Rightarrow> liveWorkerId s = w | Teardown _ _ \<Rightarrow> False)"

definition is_teardown :: "string \<Rightarrow> nat \<Rightarrow> registry_event \<Rightarrow> bool" where
  "is_teardown w n e = (case e of Connect _ \<Rightarrow> False | Teardown v s \<Rightarrow> v = w \<and> sessionNo s = n)"

text \<open>\<open>s\<close> is the last session that connected as \<open>w\<close>, and it has not been torn down since.\<close>

fun latest :: "string \<Rightarrow> live_worker \<Rightarrow> registry_event list \<Rightarrow> bool" where
  "latest w s [] \<longleftrightarrow> False"
| "latest w s (e # es) \<longleftrightarrow>
     latest w s es \<or>
     e = Connect s \<and> liveWorkerId s = w \<and>
       list_all (\<lambda>e. \<not> is_connect w e \<and> \<not> is_teardown w (sessionNo s) e) es"

lemma latest_snoc:
  "latest w s (es @ [e]) \<longleftrightarrow>
     (case e of Connect t \<Rightarrow> if liveWorkerId t = w then s = t else latest w s es
      | Teardown v t \<Rightarrow> latest w s es \<and> \<not> (v = w \<and> sessionNo t = sessionNo s))"
  by (induction es) (auto simp: is_connect_def is_teardown_def split: registry_event.splits)

lemma registry_get_latest: "registry_get w (registry_run es) = Some s \<longleftrightarrow> latest w s es"
proof (induction es arbitrary: s rule: rev_induct)
  case Nil
  then show ?case by (simp add: registry_run_def empty_registry_def registry_get_def)
next
  case (snoc e es)
  show ?case
  proof (cases e)
    case (Connect t)
    then show ?thesis by (auto simp: registry_run_snoc latest_snoc snoc.IH)
  next
    case (Teardown v t)
    then show ?thesis
      by (cases "registry_get w (registry_run es)")
        (auto simp: registry_run_snoc latest_snoc unregister_get snoc.IH [symmetric])
  qed
qed

lemma disconnects_step: "set (disconnects r) \<subseteq> set (disconnects (registry_step e r))"
  by (cases e) (auto simp: register_def unregister_def Let_def split: option.splits)

lemma register_tells:
  "registry_get (liveWorkerId s) r = Some e \<Longrightarrow> sessionNo e = sessionNo s \<or>
     sessionNo e \<in> fst ` set (disconnects (snd (register s r)))"
  by (cases "sessionNo e = sessionNo s") (simp_all add: register_def Let_def)

lemma no_session_leaks:
  "Connect s \<in> set es \<Longrightarrow>
     (\<exists>t. registry_get (liveWorkerId s) (registry_run es) = Some t \<and> sessionNo t = sessionNo s) \<or>
     sessionNo s \<in> fst ` set (disconnects (registry_run es)) \<or>
     (\<exists>e \<in> set es. is_teardown (liveWorkerId s) (sessionNo s) e)"
proof (induction es rule: rev_induct)
  case Nil
  then show ?case by simp
next
  case (snoc e es)
  let ?w = "liveWorkerId s" and ?r = "registry_run es"
  show ?case
  proof (cases "Connect s \<in> set es")
    case True
    note sub = disconnects_step [of ?r e]
    consider (live) t where "registry_get ?w ?r = Some t" "sessionNo t = sessionNo s"
      | (told) "sessionNo s \<in> fst ` set (disconnects ?r)"
      | (gone) "\<exists>e \<in> set es. is_teardown ?w (sessionNo s) e"
      using snoc.IH [OF True] by blast
    then show ?thesis
    proof cases
      case live
      show ?thesis
      proof (cases e)
        case (Connect u)
        show ?thesis
        proof (cases "liveWorkerId u = ?w")
          case True
          then show ?thesis
            using live register_tells [of u ?r t] Connect by (auto simp: registry_run_snoc)
        next
          case False
          then show ?thesis using live Connect by (simp add: registry_run_snoc)
        qed
      next
        case (Teardown v u)
        then show ?thesis
          using live by (auto simp: registry_run_snoc unregister_get is_teardown_def)
      qed
    next
      case told
      then show ?thesis using sub by (auto simp: registry_run_snoc)
    next
      case gone
      then show ?thesis by auto
    qed
  next
    case False
    then have "e = Connect s" using snoc.prems by simp
    then show ?thesis by (simp add: registry_run_snoc)
  qed
qed

text \<open>
  C34. One live session per worker. Whatever the order of connections and teardowns, the session a
  worker's commands go to is the one that connected last under its id and was not itself torn down
  since, so the late teardown of a superseded session never evicts its replacement; and a session
  that connected is still the live one, was torn down, or was told to disconnect.
\<close>

theorem registry_live_session:
  "(registry_get w (registry_run es) = Some s \<longleftrightarrow> latest w s es) \<and>
   distinct (onlineWorkerIds (registry_run es)) \<and>
   (isOnline w (registry_run es) \<longleftrightarrow> (\<exists>s. latest w s es)) \<and>
   (Connect t \<in> set es \<longrightarrow>
     (\<exists>u. latest (liveWorkerId t) u es \<and> sessionNo u = sessionNo t) \<or>
     sessionNo t \<in> fst ` set (disconnects (registry_run es)) \<or>
     list_ex (is_teardown (liveWorkerId t) (sessionNo t)) es)"
proof -
  have "distinct (onlineWorkerIds (registry_run es))"
    using registry_run_wf [of es] by (simp add: registry_wf_def onlineWorkerIds_def)
  moreover have "isOnline w (registry_run es) \<longleftrightarrow> (\<exists>s. latest w s es)"
    by (simp add: isOnline_get registry_get_latest [symmetric])
  moreover have "Connect t \<in> set es \<longrightarrow>
     (\<exists>u. latest (liveWorkerId t) u es \<and> sessionNo u = sessionNo t) \<or>
     sessionNo t \<in> fst ` set (disconnects (registry_run es)) \<or>
     list_ex (is_teardown (liveWorkerId t) (sessionNo t)) es"
    using no_session_leaks [of t es] by (auto simp: registry_get_latest list_ex_iff)
  ultimately show ?thesis using registry_get_latest by blast
qed

definition example_session :: "nat \<Rightarrow> live_worker" where
  "example_session n = \<lparr> sessionNo = n, liveWorkerId = ''w'', liveHostName = ''H'', instanceIds = [],
     connectedAt = 0 \<rparr>"

theorem registry_live_session_witness:
  "registry_get ''w'' (registry_run [Connect (example_session 1), Connect (example_session 2),
     Teardown ''w'' (example_session 1)]) = Some (example_session 2) \<and>
   1 \<in> fst ` set (disconnects (registry_run [Connect (example_session 1), Connect (example_session 2)]))"
proof -
  have "latest ''w'' (example_session 2) [Connect (example_session 1), Connect (example_session 2),
     Teardown ''w'' (example_session 1)]" by code_simp
  moreover have "\<not> latest ''w'' u [Connect (example_session 1), Connect (example_session 2)] \<or>
      sessionNo u \<noteq> 1" for u
    by (auto simp: is_connect_def example_session_def)
  moreover have "\<not> list_ex (is_teardown ''w'' 1) [Connect (example_session 1), Connect (example_session 2)]"
    by code_simp
  ultimately show ?thesis
    using registry_live_session [of "''w''" "[Connect (example_session 1), Connect (example_session 2),
        Teardown ''w'' (example_session 1)]" "example_session 2" "example_session 1"]
      registry_live_session [of "''w''" "[Connect (example_session 1), Connect (example_session 2)]"
        "example_session 2" "example_session 1"]
    by (auto simp: example_session_def)
qed

end
