(* ===== verification/AuditTrail.thy ===== *)
theory AuditTrail
  imports Canonical
begin

text \<open>
  The append-only audit log (\<open>packages/server/src/domain/audit.ts\<close>) and its queued export to an
  OpenTelemetry collector (\<open>domain/audit-export.ts\<close>). The two tables are lists in the order of
  insertion; ids are drawn by the database and are arguments. The batch log processor of the
  OpenTelemetry SDK is a parameter: \<open>emit\<close> maps its state and a record to the next state and the error
  it threw, if any. A record it took without an error is handed over, not accepted: the processor sends
  its batches to the collector later, and whether that succeeds the drain never learns.

  The locale \<open>append_only_log\<close> is what the rest of the control plane relies on.
\<close>

section \<open>The log\<close>

datatype actor_type = UserActor | WorkerActor | SystemActor

fun actor_type_name :: "actor_type \<Rightarrow> string" where
  "actor_type_name UserActor = ''user''"
| "actor_type_name WorkerActor = ''worker''"
| "actor_type_name SystemActor = ''system''"

record audit_entry =
  actorType :: actor_type
  actor :: string
  action :: string
  auditTarget :: "string option"
  detail :: "json option"
  remoteAddress :: "string option"

record audit_row =
  auditId :: string
  auditAt :: int
  auditEntry :: audit_entry

record export_row =
  queueId :: string
  queueAuditId :: string
  attempts :: nat
  lastError :: "string option"
  nextAttemptAt :: int
  queuedAt :: int

record audit_state =
  auditLog :: "audit_row list"
  auditExportQueue :: "export_row list"

text \<open>One transaction: the row and its place in the export queue.\<close>

definition writeAudit :: "string \<Rightarrow> string \<Rightarrow> int \<Rightarrow> audit_entry \<Rightarrow> audit_state \<Rightarrow> audit_state" where
  "writeAudit newId newQueueId now entry st =
     st\<lparr>auditLog := auditLog st @ [\<lparr> auditId = newId, auditAt = now, auditEntry = entry \<rparr>],
        auditExportQueue := auditExportQueue st @
          [\<lparr> queueId = newQueueId, queueAuditId = newId, attempts = 0, lastError = None,
             nextAttemptAt = now, queuedAt = now \<rparr>]\<rparr>"

record audit_query =
  queryActor :: string
  queryAction :: string
  queryFrom :: "int option"
  queryTo :: "int option"
  queryLimit :: "nat option"
  queryOffset :: "nat option"

text \<open>An empty filter string is falsy and filters nothing; ties in \<open>at\<close> keep the table's order.\<close>

definition audit_match :: "audit_query \<Rightarrow> audit_row \<Rightarrow> bool" where
  "audit_match q r \<longleftrightarrow>
     (queryActor q = [] \<or> actor (auditEntry r) = queryActor q) \<and>
     (queryAction q = [] \<or> action (auditEntry r) = queryAction q) \<and>
     (case queryFrom q of None \<Rightarrow> True | Some t \<Rightarrow> t \<le> auditAt r) \<and>
     (case queryTo q of None \<Rightarrow> True | Some t \<Rightarrow> auditAt r \<le> t)"

definition queryAudit :: "audit_query \<Rightarrow> audit_state \<Rightarrow> audit_row list" where
  "queryAudit q st =
     take (min (case queryLimit q of None \<Rightarrow> 100 | Some n \<Rightarrow> n) 1000)
       (drop (case queryOffset q of None \<Rightarrow> 0 | Some n \<Rightarrow> n)
         (sort_key (\<lambda>r. - auditAt r) (filter (audit_match q) (auditLog st))))"

section \<open>Export\<close>

definition WARNING_ACTIONS :: "string list" where
  "WARNING_ACTIONS = [''auth.login.failed'', ''worker.auth.failed'', ''command.rejected'',
     ''command.result.failed'']"

record otel_record =
  otelTimestamp :: int
  severityText :: string
  otelBody :: string
  attributes :: "(string \<times> string) list"

fun json_truthy :: "json \<Rightarrow> bool" where
  "json_truthy JNull = False"
| "json_truthy (JBool b) = b"
| "json_truthy (JNum n) = (n \<noteq> 0)"
| "json_truthy (JStr s) = (s \<noteq> [])"
| "json_truthy (JArr _) = True"
| "json_truthy (JObj _) = True"

definition or_empty :: "string option \<Rightarrow> string" where
  "or_empty s = (case s of None \<Rightarrow> [] | Some x \<Rightarrow> x)"

definition otel_of :: "audit_row \<Rightarrow> otel_record" where
  "otel_of r =
     (let e = auditEntry r
      in \<lparr> otelTimestamp = auditAt r,
           severityText = (if action e \<in> set WARNING_ACTIONS then ''WARN'' else ''INFO''),
           otelBody = actor e @ '' '' @ action e @
             (if or_empty (auditTarget e) = [] then [] else CHR '' '' # or_empty (auditTarget e)),
           attributes = [(''event.name'', action e), (''event.domain'', ''rsagent.audit''),
             (''rsagent.audit.id'', auditId r), (''rsagent.actor'', actor e),
             (''rsagent.actor_type'', actor_type_name (actorType e)),
             (''rsagent.target'', or_empty (auditTarget e)),
             (''client.address'', or_empty (remoteAddress e)),
             (''rsagent.detail'', case detail e of None \<Rightarrow> []
                | Some d \<Rightarrow> if json_truthy d then stringify d else [])] \<rparr>)"

record export_config =
  otlpEnabled :: bool
  otlpEndpoint :: string
  exportBatchSize :: nat
  maxAttempts :: nat

record exporter =
  otelStarted :: bool
  running :: bool
  droppedIds :: "string list"

definition exporter_enabled :: "export_config \<Rightarrow> bool" where
  "exporter_enabled cfg \<longleftrightarrow> otlpEnabled cfg \<and> otlpEndpoint cfg \<noteq> []"

definition exporter_start :: "export_config \<Rightarrow> exporter \<Rightarrow> exporter" where
  "exporter_start cfg x = (if exporter_enabled cfg then x\<lparr>otelStarted := True\<rparr> else x)"

definition join_audit :: "audit_row list \<Rightarrow> export_row \<Rightarrow> (export_row \<times> audit_row) option" where
  "join_audit rows q = map_option (Pair q) (find (\<lambda>r. auditId r = queueAuditId q) rows)"

definition export_pending ::
  "export_config \<Rightarrow> int \<Rightarrow> audit_state \<Rightarrow> (export_row \<times> audit_row) list" where
  "export_pending cfg now st =
     take (exportBatchSize cfg) (sort_key (queuedAt \<circ> fst)
       (List.map_filter (\<lambda>q. if nextAttemptAt q \<le> now then join_audit (auditLog st) q else None)
         (auditExportQueue st)))"

text \<open>The ids delivered, and the failures with their new attempt counts.\<close>

fun emit_all ::
  "('s \<Rightarrow> otel_record \<Rightarrow> 's \<times> string option) \<Rightarrow> (export_row \<times> audit_row) list \<Rightarrow> 's
     \<Rightarrow> 's \<times> string list \<times> (string \<times> nat \<times> string) list" where
  "emit_all emit [] s = (s, [], [])"
| "emit_all emit ((q, r) # rest) s =
     (let (s1, err) = emit s (otel_of r); (s2, delivered, failed) = emit_all emit rest s1
      in case err of
           None \<Rightarrow> (s2, queueId q # delivered, failed)
         | Some e \<Rightarrow> (s2, delivered, (queueId q, attempts q + 1, e) # failed))"

definition export_backoff_ms :: "nat \<Rightarrow> int" where
  "export_backoff_ms n = min (2 ^ n * 1000) (5 * 60 * 1000)"

definition fail_one ::
  "export_config \<Rightarrow> int \<Rightarrow> export_row list \<times> string list \<Rightarrow> string \<times> nat \<times> string
     \<Rightarrow> export_row list \<times> string list" where
  "fail_one cfg now acc f =
     (let (queue, dropped) = acc; (qid, n, err) = f
      in if n \<ge> maxAttempts cfg
         then (filter (\<lambda>q. queueId q \<noteq> qid) queue, dropped @ [qid])
         else (map (\<lambda>q. if queueId q = qid
                 then q\<lparr>attempts := n, lastError := Some (take 1000 err),
                        nextAttemptAt := now + export_backoff_ms n\<rparr> else q) queue, dropped))"

text \<open>
  \<open>now\<close> is the clock when the drain starts and \<open>later\<close> when the failures are put back. \<open>fault\<close> is
  \<^term>\<open>None\<close> when every statement of the drain goes through; otherwise the database fails and the drain
  ends when that many of its deletions and updates have been carried out. The flag \<open>running\<close> is down
  again when the drain returns. \<open>droppedIds\<close> are the rows reported as dropped and removed.
\<close>

definition audit_drain ::
  "export_config \<Rightarrow> ('s \<Rightarrow> otel_record \<Rightarrow> 's \<times> string option) \<Rightarrow> int \<Rightarrow> int \<Rightarrow> nat option \<Rightarrow> exporter \<Rightarrow> audit_state
     \<Rightarrow> 's \<Rightarrow> nat \<times> exporter \<times> audit_state \<times> 's" where
  "audit_drain cfg emit now later fault x st s =
     (if \<not> exporter_enabled cfg \<or> \<not> otelStarted x \<or> running x then (0, x, st, s)
      else
        (let pending = export_pending cfg now st
         in if pending = [] then (0, x, st, s)
            else
              (let (s', delivered, failed) = emit_all emit pending s;
                   deletion = (if delivered = [] then 0 else 1);
                   carried_out = (case fault of None \<Rightarrow> deletion + length failed | Some k \<Rightarrow> k);
                   kept = (if carried_out < deletion \<or> delivered = [] then auditExportQueue st
                           else filter (\<lambda>q. queueId q \<notin> set delivered) (auditExportQueue st));
                   (queue, dropped) = foldl (fail_one cfg later) (kept, droppedIds x)
                     (take (carried_out - deletion) failed)
               in (if fault = None then length delivered else 0, x\<lparr>droppedIds := dropped\<rparr>,
                   st\<lparr>auditExportQueue := queue\<rparr>, s'))))"

section \<open>The log only grows\<close>

locale append_only_log =
  fixes add :: "'e \<Rightarrow> 's \<Rightarrow> 's" and entries :: "'s \<Rightarrow> 'e list"
  assumes entries_add: "entries (add e s) = entries s @ [e]"
begin

lemma entries_fold: "entries (fold add es s) = entries s @ es"
  by (induction es arbitrary: s) (simp_all add: entries_add)

lemma entry_kept: "e \<in> set (entries s) \<Longrightarrow> e \<in> set (entries (add e' s))"
  by (simp add: entries_add)

lemma entry_written: "e \<in> set (entries (add e s))"
  by (simp add: entries_add)

lemma entry_before: "\<exists>k. entries s = take k (entries (fold add es s))"
  by (intro exI [of _ "length (entries s)"]) (simp add: entries_fold)

end

text \<open>An entry with the ids and the time its insertion used.\<close>

type_synonym audit_write = "string \<times> string \<times> int \<times> audit_entry"

definition write_entry :: "audit_write \<Rightarrow> audit_state \<Rightarrow> audit_state" where
  "write_entry w st = (case w of (i, qi, now, e) \<Rightarrow> writeAudit i qi now e st)"

definition written :: "audit_state \<Rightarrow> audit_entry list" where
  "written st = map auditEntry (auditLog st)"

interpretation audit_trail: append_only_log
  "\<lambda>e st. writeAudit (newId st) (newQueueId st) (now st) e st" written
  for newId newQueueId :: "audit_state \<Rightarrow> string" and now :: "audit_state \<Rightarrow> int"
  by unfold_locales (simp add: written_def writeAudit_def)

definition audit_wf :: "audit_state \<Rightarrow> bool" where
  "audit_wf st \<longleftrightarrow> distinct (map auditId (auditLog st)) \<and> distinct (map queueId (auditExportQueue st)) \<and>
     (\<forall>q \<in> set (auditExportQueue st). queueAuditId q \<in> auditId ` set (auditLog st))"

lemma writeAudit_wf:
  assumes "audit_wf st" and "i \<notin> auditId ` set (auditLog st)"
    and "qi \<notin> queueId ` set (auditExportQueue st)"
  shows "audit_wf (writeAudit i qi now e st)"
  using assms by (auto simp: audit_wf_def writeAudit_def)

section \<open>What a drain does to each queued row\<close>

lemma emit_all_ids:
  "emit_all emit ps s = (s', delivered, failed) \<Longrightarrow>
     mset delivered + mset (map fst failed) = mset (map (queueId \<circ> fst) ps)"
proof (induction ps arbitrary: s s' delivered failed)
  case Nil
  then show ?case by simp
next
  case (Cons p ps)
  obtain q r where p: "p = (q, r)" by fastforce
  obtain s1 err where e: "emit s (otel_of r) = (s1, err)" by fastforce
  obtain s2 d f where rest: "emit_all emit ps s1 = (s2, d, f)" using prod_cases3 by blast
  from Cons.IH [OF rest] Cons.prems show ?case
    by (auto simp: p e rest split: option.splits)
qed

lemma emit_all_failed:
  "emit_all emit ps s = (s', delivered, failed) \<Longrightarrow> (i, n, err) \<in> set failed \<Longrightarrow>
     \<exists>(q, r) \<in> set ps. queueId q = i \<and> n = Suc (attempts q)"
proof (induction ps arbitrary: s s' delivered failed)
  case Nil
  then show ?case by simp
next
  case (Cons p ps)
  obtain q r where p: "p = (q, r)" by fastforce
  obtain s1 er where e: "emit s (otel_of r) = (s1, er)" by fastforce
  obtain s2 d f where rest: "emit_all emit ps s1 = (s2, d, f)" using prod_cases3 by blast
  have "(i, n, err) \<in> set f \<or> (i = queueId q \<and> n = Suc (attempts q))"
    using Cons.prems by (auto simp: p e rest split: option.splits)
  with Cons.IH [OF rest] show ?case by (auto simp: p)
qed

text \<open>A processor that also keeps what was handed to it.\<close>

definition recording ::
  "('s \<Rightarrow> otel_record \<Rightarrow> 's \<times> string option) \<Rightarrow> 's \<times> otel_record list \<Rightarrow> otel_record
     \<Rightarrow> ('s \<times> otel_record list) \<times> string option" where
  "recording emit sl r =
     (let (s', err) = emit (fst sl) r in ((s', if err = None then snd sl @ [r] else snd sl), err))"

lemma emit_all_recorded:
  "emit_all (recording emit) ps sl = (sl', delivered, failed) \<Longrightarrow>
     set (snd sl) \<subseteq> set (snd sl') \<and>
     (\<forall>i \<in> set delivered. \<exists>(q, r) \<in> set ps. queueId q = i \<and> otel_of r \<in> set (snd sl'))"
proof (induction ps arbitrary: sl sl' delivered failed)
  case Nil
  then show ?case by simp
next
  case (Cons p ps)
  obtain q r where p: "p = (q, r)" by fastforce
  obtain s1 err where e: "emit (fst sl) (otel_of r) = (s1, err)" by fastforce
  let ?sl1 = "(s1, if err = None then snd sl @ [otel_of r] else snd sl)"
  obtain s2 d f where rest: "emit_all (recording emit) ps ?sl1 = (s2, d, f)" using prod_cases3 by blast
  note IH = Cons.IH [OF rest]
  have step: "recording emit sl (otel_of r) = (?sl1, err)" by (simp add: recording_def e)
  have "sl' = s2" "delivered = (if err = None then queueId q # d else d)"
    using Cons.prems by (auto simp: p step rest split: option.splits)
  with IH show ?case by (cases err) (auto simp: p)
qed

definition failed_fate ::
  "export_config \<Rightarrow> int \<Rightarrow> (string \<times> nat \<times> string) list \<Rightarrow> export_row \<Rightarrow> export_row option" where
  "failed_fate cfg now failed q =
     (case map_of failed (queueId q) of
        None \<Rightarrow> Some q
      | Some (n, err) \<Rightarrow>
          if n \<ge> maxAttempts cfg then None
          else Some (q\<lparr>attempts := n, lastError := Some (take 1000 err),
                       nextAttemptAt := now + export_backoff_ms n\<rparr>))"

lemma map_filter_cong: "(\<And>x. x \<in> set xs \<Longrightarrow> f x = g x) \<Longrightarrow> List.map_filter f xs = List.map_filter g xs"
  by (induction xs) (auto simp: List.map_filter_simps split: option.splits)

lemma map_filter_filter:
  "List.map_filter f (filter P xs) = List.map_filter (\<lambda>x. if P x then f x else None) xs"
  by (induction xs) (auto simp: List.map_filter_simps split: option.splits)

lemma map_filter_map: "List.map_filter f (map h xs) = List.map_filter (\<lambda>x. f (h x)) xs"
  by (induction xs) (auto simp: List.map_filter_simps split: option.splits)

lemma set_map_filter_eq: "set (List.map_filter f xs) = {y. \<exists>x \<in> set xs. f x = Some y}"
  by (induction xs) (auto simp: List.map_filter_simps split: option.splits)

lemma fail_one_step:
  "fail_one cfg now (queue, dropped) (i, n, err) =
     (if n \<ge> maxAttempts cfg then (filter (\<lambda>q. queueId q \<noteq> i) queue, dropped @ [i])
      else (map (\<lambda>q. if queueId q = i
              then q\<lparr>attempts := n, lastError := Some (take 1000 err),
                     nextAttemptAt := now + export_backoff_ms n\<rparr> else q) queue, dropped))"
  by (simp add: fail_one_def)

lemma fold_failed:
  "distinct (map fst failed) \<Longrightarrow>
     foldl (fail_one cfg now) (queue, dropped) failed =
       (List.map_filter (failed_fate cfg now failed) queue,
        dropped @ map fst (filter (\<lambda>f. maxAttempts cfg \<le> fst (snd f)) failed))"
proof (induction failed arbitrary: queue dropped)
  case Nil
  have "failed_fate cfg now [] = Some" by (rule ext) (simp add: failed_fate_def)
  then show ?case by (simp add: map_filter_def)
next
  case (Cons f failed)
  obtain i n err where f: "f = (i, n, err)" using prod_cases3 by blast
  have fresh: "map_of failed i = None" using Cons.prems f by (auto simp: map_of_eq_None_iff)
  have IH: "foldl (fail_one cfg now) (q', d') failed = (List.map_filter (failed_fate cfg now failed) q',
        d' @ map fst (filter (\<lambda>f. maxAttempts cfg \<le> fst (snd f)) failed))" for q' d'
    using Cons by simp
  show ?case
  proof (cases "maxAttempts cfg \<le> n")
    case True
    then show ?thesis
      using fresh
      by (simp add: f fail_one_step IH map_filter_filter)
        (intro map_filter_cong, auto simp: failed_fate_def)
  next
    case False
    then show ?thesis
      using fresh
      by (simp add: f fail_one_step IH map_filter_map)
        (intro map_filter_cong, auto simp: failed_fate_def)
  qed
qed

lemma export_pending_mem:
  "(q, r) \<in> set (export_pending cfg now st) \<Longrightarrow>
     q \<in> set (auditExportQueue st) \<and> nextAttemptAt q \<le> now \<and> r \<in> set (auditLog st) \<and>
     auditId r = queueAuditId q"
  by (auto simp: export_pending_def join_audit_def set_map_filter_eq dest!: in_set_takeD find_SomeD
      split: if_splits)

lemma export_backoff_bounds: "0 < export_backoff_ms n \<and> export_backoff_ms n \<le> 300000"
  by (simp add: export_backoff_ms_def)

text \<open>
  The outcome for one row, given what was handed over and the table afterwards: still queued as it was,
  handed over, put back for a later attempt, or given up.
\<close>

definition row_outcome ::
  "export_config \<Rightarrow> int \<Rightarrow> otel_record list \<Rightarrow> string list \<Rightarrow> audit_state \<Rightarrow> export_row list
     \<Rightarrow> export_row \<Rightarrow> bool" where
  "row_outcome cfg later sent dropped st queue q \<longleftrightarrow>
     q \<in> set queue \<or>
     list_ex (\<lambda>r. auditId r = queueAuditId q \<and> otel_of r \<in> set sent) (auditLog st) \<or>
     list_ex (\<lambda>q'. queueId q' = queueId q \<and> queueAuditId q' = queueAuditId q \<and>
         attempts q' = Suc (attempts q) \<and> Suc (attempts q) < maxAttempts cfg \<and>
         later < nextAttemptAt q' \<and> nextAttemptAt q' \<le> later + 300000) queue \<or>
     maxAttempts cfg \<le> Suc (attempts q) \<and> queueId q \<in> set dropped"

lemma drain_outcomes:
  assumes wf: "audit_wf st"
    and run: "emit_all (recording emit) (export_pending cfg now st) sl = (sl', delivered, failed)"
    and q: "q \<in> set (auditExportQueue st)" and sub: "gone \<subseteq> set delivered" "set puts \<subseteq> set failed"
  shows "row_outcome cfg later (snd sl')
           (dr @ map fst (filter (\<lambda>f. maxAttempts cfg \<le> fst (snd f)) puts)) st
           (List.map_filter (failed_fate cfg later puts)
             (filter (\<lambda>q. queueId q \<notin> gone) (auditExportQueue st))) q"
proof -
  have inj: "q' = q" if "queueId q' = queueId q" "q' \<in> set (auditExportQueue st)" for q'
    using wf q that by (auto simp: audit_wf_def distinct_map dest: inj_onD)
  show ?thesis
  proof (cases "queueId q \<in> gone")
    case True
    then obtain q' r where mem: "(q', r) \<in> set (export_pending cfg now st)" "queueId q' = queueId q"
      "otel_of r \<in> set (snd sl')" using emit_all_recorded [OF run] sub(1) by blast
    have "q' = q" using inj mem(2) export_pending_mem [OF mem(1)] by blast
    with mem export_pending_mem [OF mem(1)] show ?thesis
      by (auto simp: row_outcome_def list_ex_iff)
  next
    case False
    show ?thesis
    proof (cases "map_of puts (queueId q)")
      case None
      with False q have "q \<in> set (List.map_filter (failed_fate cfg later puts)
          (filter (\<lambda>q. queueId q \<notin> gone) (auditExportQueue st)))"
        by (auto simp: set_map_filter_eq failed_fate_def)
      then show ?thesis by (simp add: row_outcome_def)
    next
      case (Some f)
      obtain n err where f: "f = (n, err)" by fastforce
      from Some have mem: "(queueId q, n, err) \<in> set puts" by (simp add: f map_of_SomeD)
      with sub(2) have "(queueId q, n, err) \<in> set failed" by blast
      from emit_all_failed [OF run this] inj export_pending_mem have n: "n = Suc (attempts q)" by blast
      show ?thesis
      proof (cases "maxAttempts cfg \<le> n")
        case True
        with mem n show ?thesis by (force simp: row_outcome_def)
      next
        case lt: False
        let ?q = "q\<lparr>attempts := n, lastError := Some (take 1000 err),
            nextAttemptAt := later + export_backoff_ms n\<rparr>"
        have "?q \<in> set (List.map_filter (failed_fate cfg later puts)
            (filter (\<lambda>q. queueId q \<notin> gone) (auditExportQueue st)))"
          using False q Some lt by (auto simp: set_map_filter_eq failed_fate_def f)
        then show ?thesis
          using lt n export_backoff_bounds [of n]
          by (auto simp: row_outcome_def list_ex_iff intro!: bexI [of _ ?q])
      qed
    qed
  qed
qed

lemma emit_all_distinct:
  assumes "audit_wf st" and "emit_all emit (export_pending cfg now st) s = (s', delivered, failed)"
  shows "distinct (map fst failed)"
proof -
  have "distinct (map (queueId \<circ> fst) (export_pending cfg now st))"
  proof -
    have "distinct (map (queueId \<circ> fst) (List.map_filter
        (\<lambda>q. if nextAttemptAt q \<le> now then join_audit (auditLog st) q else None) qs))"
      if "distinct (map queueId qs)" for qs
      using that
    proof (induction qs)
      case Nil
      then show ?case by simp
    next
      case (Cons q qs)
      then show ?case
        by (auto simp: List.map_filter_simps join_audit_def set_map_filter_eq image_iff
            split: option.splits if_splits)
    qed
    then have "distinct (map (queueId \<circ> fst) (List.map_filter
        (\<lambda>q. if nextAttemptAt q \<le> now then join_audit (auditLog st) q else None)
        (auditExportQueue st)))"
      using assms(1) by (simp add: audit_wf_def)
    then have "distinct (map (queueId \<circ> fst) (sort_key (queuedAt \<circ> fst) (List.map_filter
        (\<lambda>q. if nextAttemptAt q \<le> now then join_audit (auditLog st) q else None)
        (auditExportQueue st))))"
      by (simp add: distinct_map)
    then show ?thesis unfolding export_pending_def take_map [symmetric] by (rule distinct_take)
  qed
  with emit_all_ids [OF assms(2)] have "distinct (delivered @ map fst failed)"
    by (metis mset_append mset_eq_imp_distinct_iff)
  then show ?thesis by simp
qed

text \<open>
  C33. A drain of the export queue accounts for every row and never touches the log. Whatever the log
  processor does and wherever the database fails, every queued event is afterwards still queued as it
  was, or was handed to the log processor, or is queued again for a later attempt at most five minutes
  away with its attempts counted, or has used its whole retry budget and is reported as dropped.
\<close>

theorem audit_rows_handed_over:
  assumes "audit_wf st"
    and "audit_drain cfg (recording emit) now later fault x st (s, []) = (n, x', st', (s', sent))"
  shows "auditLog st' = auditLog st \<and>
     list_all (row_outcome cfg later sent (droppedIds x') st (auditExportQueue st'))
       (auditExportQueue st)"
proof (cases "\<not> exporter_enabled cfg \<or> \<not> otelStarted x \<or> running x \<or> export_pending cfg now st = []")
  case True
  with assms(2) have "st' = st" by (auto simp: audit_drain_def split: if_splits)
  then show ?thesis by (simp add: list_all_iff row_outcome_def)
next
  case False
  obtain sl' delivered failed where
    run: "emit_all (recording emit) (export_pending cfg now st) (s, []) = (sl', delivered, failed)"
    using prod_cases3 by blast
  define deletion :: nat where "deletion = (if delivered = [] then 0 else 1)"
  define carried_out where "carried_out = (case fault of None \<Rightarrow> deletion + length failed | Some k \<Rightarrow> k)"
  define gone where "gone = (if carried_out < deletion then {} else set delivered)"
  define puts where "puts = take (carried_out - deletion) failed"
  have kept: "(if carried_out < deletion \<or> delivered = [] then auditExportQueue st
      else filter (\<lambda>q. queueId q \<notin> set delivered) (auditExportQueue st)) =
    filter (\<lambda>q. queueId q \<notin> gone) (auditExportQueue st)" by (simp add: gone_def)
  have "distinct (map fst puts)"
    using emit_all_distinct [OF assms(1) run] by (simp add: puts_def take_map [symmetric] distinct_take)
  note fold = fold_failed [OF this]
  have drained: "audit_drain cfg (recording emit) now later fault x st (s, []) =
      (let (queue, dropped) = foldl (fail_one cfg later) (filter (\<lambda>q. queueId q \<notin> gone) (auditExportQueue st), droppedIds x) puts
       in (if fault = None then length delivered else 0, x\<lparr>droppedIds := dropped\<rparr>, st\<lparr>auditExportQueue := queue\<rparr>, sl'))"
    using False unfolding audit_drain_def kept [symmetric] puts_def carried_out_def deletion_def
    by (simp add: run Let_def)
  from assms(2) have "sl' = (s', sent)"
    "x' = x\<lparr>droppedIds := droppedIds x @ map fst (filter (\<lambda>f. maxAttempts cfg \<le> fst (snd f)) puts)\<rparr>"
    "st' = st\<lparr>auditExportQueue := List.map_filter (failed_fate cfg later puts)
        (filter (\<lambda>q. queueId q \<notin> gone) (auditExportQueue st))\<rparr>"
    by (simp_all add: drained fold)
  moreover have "gone \<subseteq> set delivered" "set puts \<subseteq> set failed"
    by (auto simp: gone_def puts_def dest: in_set_takeD)
  ultimately show ?thesis using drain_outcomes [OF assms(1) run] by (simp add: list_all_iff)
qed

definition example_audit :: audit_state where
  "example_audit = writeAudit ''a1'' ''q1'' 5 \<lparr> actorType = UserActor, actor = ''ana'',
     action = ''auth.login'', auditTarget = None, detail = None, remoteAddress = None \<rparr>
     \<lparr> auditLog = [], auditExportQueue = [] \<rparr>"

definition example_export :: export_config where
  "example_export = \<lparr> otlpEnabled = True, otlpEndpoint = ''http://c'', exportBatchSize = 10,
     maxAttempts = 3 \<rparr>"

theorem audit_rows_handed_over_witness:
  "case audit_drain example_export (recording (\<lambda>s r. (s, Some ''down''))) 10 11 None
      \<lparr> otelStarted = True, running = False, droppedIds = [] \<rparr> example_audit ((), []) of
     (n, x', st', (s', sent)) \<Rightarrow> sent = [] \<and> auditLog st' = auditLog example_audit \<and>
        list_all (row_outcome example_export 11 sent (droppedIds x') example_audit (auditExportQueue st'))
          (auditExportQueue example_audit)"
proof -
  let ?d = "audit_drain example_export (recording (\<lambda>s r. (s, Some ''down''))) 10 11 None
      \<lparr> otelStarted = True, running = False, droppedIds = [] \<rparr> example_audit ((), [])"
  obtain n x' st' s' sent where d: "?d = (n, x', st', (s', sent))" using prod_cases4 by (metis surj_pair)
  have "audit_wf example_audit" by (simp add: audit_wf_def example_audit_def writeAudit_def)
  from audit_rows_handed_over [OF this d]
  have "auditLog st' = auditLog example_audit \<and>
      list_all (row_outcome example_export 11 sent (droppedIds x') example_audit (auditExportQueue st'))
          (auditExportQueue example_audit)" .
  moreover have "snd (snd (snd (snd ?d))) = []" by code_simp
  then have "sent = []" by (simp only: d snd_conv)
  ultimately show ?thesis by (simp only: d prod.case simp_thms)
qed

section \<open>The export catches up\<close>

fun drain_times ::
  "export_config \<Rightarrow> ('s \<Rightarrow> otel_record \<Rightarrow> 's \<times> string option) \<Rightarrow> int \<Rightarrow> exporter \<Rightarrow> nat \<Rightarrow> audit_state
     \<Rightarrow> 's \<Rightarrow> audit_state \<times> 's" where
  "drain_times cfg emit now x 0 st s = (st, s)"
| "drain_times cfg emit now x (Suc k) st s =
     (let (n, x', st', s') = audit_drain cfg emit now now None x st s
      in drain_times cfg emit now x' k st' s')"

definition accept_all :: "otel_record list \<Rightarrow> otel_record \<Rightarrow> otel_record list \<times> string option" where
  "accept_all sent r = (sent @ [r], None)"

lemma emit_all_accept:
  "emit_all accept_all ps sent =
     (sent @ map (otel_of \<circ> snd) ps, map (queueId \<circ> fst) ps, [])"
proof (induction ps arbitrary: sent)
  case Nil
  then show ?case by simp
next
  case (Cons p ps)
  obtain q r where "p = (q, r)" by fastforce
  moreover have "accept_all sent x = (sent @ [x], None)" for x by (simp add: accept_all_def)
  ultimately show ?case by (simp add: Cons)
qed

lemma audit_drain_accept:
  assumes "exporter_enabled cfg" and "otelStarted x" and "\<not> running x"
  shows "\<exists>n. audit_drain cfg accept_all now now None x st sent =
     (n, x, st\<lparr>auditExportQueue := filter
          (\<lambda>q. queueId q \<notin> (queueId \<circ> fst) ` set (export_pending cfg now st)) (auditExportQueue st)\<rparr>,
        sent @ map (otel_of \<circ> snd) (export_pending cfg now st))"
  using assms by (auto simp: audit_drain_def emit_all_accept Let_def)

definition all_due :: "int \<Rightarrow> audit_state \<Rightarrow> bool" where
  "all_due now st \<longleftrightarrow> list_all (\<lambda>q. nextAttemptAt q \<le> now) (auditExportQueue st)"

lemma pending_ne:
  assumes wf: "audit_wf st" and due: "all_due now st" and q: "auditExportQueue st = q # qs"
    and n: "0 < exportBatchSize cfg"
  shows "export_pending cfg now st \<noteq> []"
proof -
  have "queueAuditId q \<in> auditId ` set (auditLog st)" using wf q by (auto simp: audit_wf_def)
  then have "find (\<lambda>r. auditId r = queueAuditId q) (auditLog st) \<noteq> None"
    by (auto simp: find_None_iff)
  then obtain r where "find (\<lambda>r. auditId r = queueAuditId q) (auditLog st) = Some r" by blast
  moreover have "nextAttemptAt q \<le> now" using due q by (simp add: all_due_def)
  ultimately have "(q, r) \<in> set (List.map_filter
      (\<lambda>q. if nextAttemptAt q \<le> now then join_audit (auditLog st) q else None) (auditExportQueue st))"
    using q by (auto simp: set_map_filter_eq join_audit_def)
  then have "(q, r) \<in> set (sort_key (queuedAt \<circ> fst) (List.map_filter
      (\<lambda>q. if nextAttemptAt q \<le> now then join_audit (auditLog st) q else None) (auditExportQueue st)))"
    by simp
  then have "sort_key (queuedAt \<circ> fst) (List.map_filter
      (\<lambda>q. if nextAttemptAt q \<le> now then join_audit (auditLog st) q else None) (auditExportQueue st)) \<noteq> []"
    by (rule contrapos_pn) simp
  with n show ?thesis by (simp add: export_pending_def)
qed

text \<open>
  The queue drains. While the log processor takes what it is given, the database answers and every
  queued event is due, as many drains as there are queued events empty the queue, whatever the batch
  size, and every one of those events has been handed over.
\<close>

theorem audit_export_catches_up:
  assumes "audit_wf st" and "all_due now st" and "0 < exportBatchSize cfg"
    and "exporter_enabled cfg" and "otelStarted x" and "\<not> running x"
    and "length (auditExportQueue st) \<le> k"
  shows "\<exists>st' sent'. drain_times cfg accept_all now x k st sent = (st', sent') \<and>
     auditExportQueue st' = [] \<and> auditLog st' = auditLog st \<and>
     (\<forall>q \<in> set (auditExportQueue st). \<forall>r \<in> set (auditLog st).
        auditId r = queueAuditId q \<longrightarrow> otel_of r \<in> set sent')"
  using assms(1,2,7)
proof (induction k arbitrary: st sent)
  case 0
  then show ?case by simp
next
  case (Suc k)
  let ?p = "export_pending cfg now st"
  let ?st = "st\<lparr>auditExportQueue := filter (\<lambda>q. queueId q \<notin> (queueId \<circ> fst) ` set ?p) (auditExportQueue st)\<rparr>"
  obtain n where step: "audit_drain cfg accept_all now now None x st sent =
      (n, x, ?st, sent @ map (otel_of \<circ> snd) ?p)"
    using audit_drain_accept [OF assms(4-6)] by blast
  have "length (auditExportQueue ?st) \<le> k"
  proof (cases "auditExportQueue st")
    case (Cons q qs)
    then obtain q' r where mem: "(q', r) \<in> set ?p"
      using pending_ne [OF Suc.prems(1,2) Cons assms(3)] by (metis list.set_intros(1) neq_Nil_conv surj_pair)
    then have "q' \<in> set (auditExportQueue st)" "queueId q' \<in> (queueId \<circ> fst) ` set ?p"
      using export_pending_mem [OF mem] by force+
    then have "length (auditExportQueue ?st) < length (auditExportQueue st)"
      using length_filter_less [of q' "auditExportQueue st" "\<lambda>q. queueId q \<notin> (queueId \<circ> fst) ` set ?p"]
      by simp
    with Suc.prems(3) show ?thesis by simp
  qed simp
  moreover have "audit_wf ?st" using Suc.prems(1) by (auto simp: audit_wf_def distinct_map_filter)
  moreover have "all_due now ?st" using Suc.prems(2) by (auto simp: all_due_def list_all_iff)
  ultimately obtain st' sent' where
    IH: "drain_times cfg accept_all now x k ?st (sent @ map (otel_of \<circ> snd) ?p) = (st', sent')"
      "auditExportQueue st' = []" "auditLog st' = auditLog st"
    and left: "\<forall>q \<in> set (auditExportQueue ?st). \<forall>r \<in> set (auditLog st).
        auditId r = queueAuditId q \<longrightarrow> otel_of r \<in> set sent'"
    using Suc.IH [of ?st "sent @ map (otel_of \<circ> snd) ?p"] by auto
  have grow: "set sent \<subseteq> set (snd (drain_times cfg accept_all now x k st sent))" for k st sent
  proof (induction k arbitrary: st sent)
    case 0
    then show ?case by simp
  next
    case (Suc k)
    obtain n where "audit_drain cfg accept_all now now None x st sent =
      (n, x, st\<lparr>auditExportQueue := filter (\<lambda>q. queueId q \<notin> (queueId \<circ> fst) `
         set (export_pending cfg now st)) (auditExportQueue st)\<rparr>,
       sent @ map (otel_of \<circ> snd) (export_pending cfg now st))"
      using audit_drain_accept [OF assms(4-6)] by blast
    then show ?case using Suc by force
  qed
  have "otel_of r \<in> set sent'"
    if "q \<in> set (auditExportQueue st)" "r \<in> set (auditLog st)" "auditId r = queueAuditId q" for q r
  proof (cases "queueId q \<in> (queueId \<circ> fst) ` set ?p")
    case True
    then obtain q' r' where p: "(q', r') \<in> set ?p" "queueId q' = queueId q" by auto
    note m = export_pending_mem [OF p(1)]
    have "q' = q" using m p(2) that(1) Suc.prems(1) by (auto simp: audit_wf_def distinct_map dest: inj_onD)
    have "inj_on auditId (set (auditLog st))" using Suc.prems(1) by (simp add: audit_wf_def distinct_map)
    from inj_onD [OF this, of r' r] m that \<open>q' = q\<close> have "r' = r" by simp
    with p(1) have "otel_of r \<in> set (sent @ map (otel_of \<circ> snd) ?p)" by force
    with grow [of "sent @ map (otel_of \<circ> snd) ?p" k ?st] IH(1) show ?thesis by auto
  next
    case False
    with left that show ?thesis by auto
  qed
  with IH step show ?case by simp
qed

theorem audit_export_catches_up_witness:
  "\<exists>st' sent'. drain_times example_export accept_all 10 \<lparr> otelStarted = True, running = False,
     droppedIds = [] \<rparr> 1 example_audit [] = (st', sent') \<and> auditExportQueue st' = []"
proof -
  have "audit_wf example_audit" by (simp add: audit_wf_def example_audit_def writeAudit_def)
  moreover have "all_due 10 example_audit" by (simp add: all_due_def example_audit_def writeAudit_def)
  moreover have "0 < exportBatchSize example_export" "exporter_enabled example_export"
    by (simp_all add: example_export_def exporter_enabled_def)
  moreover have "length (auditExportQueue example_audit) \<le> 1"
    by (simp add: example_audit_def writeAudit_def)
  ultimately show ?thesis
    using audit_export_catches_up [of example_audit 10 example_export
      "\<lparr> otelStarted = True, running = False, droppedIds = [] \<rparr>" 1 "[]"] by auto
qed

end
