(* ===== verification/CommandPipeline.thy ===== *)
theory CommandPipeline
  imports Signing Registry AuditTrail
begin

text \<open>
  The control plane's command pipeline (\<open>packages/server/src/domain/commands.ts\<close>): issuing a
  change, the second-person approval, signing and dispatching it to the live session of its worker,
  the worker's result, and expiry. The tables are lists in the order of insertion, the registry and
  the audit log are those of \<open>Registry\<close> and \<open>AuditTrail\<close>, and every message handed to a session is
  kept in \<open>sentCommands\<close>.

  SHA-256 and the RSA signature are parameters. The row ids the database draws and the clock
  readings are the \<open>call\<close> argument; \<open>callNow\<close> is read by the handler and \<open>dispatchNow\<close> by the
  dispatch it ends with.
\<close>

section \<open>Tables\<close>

datatype command_state =
  PendingApproval | Approved | Dispatched | Succeeded | Failed | Expired | Rejected

fun state_name :: "command_state \<Rightarrow> string" where
  "state_name PendingApproval = ''pending_approval''" | "state_name Approved = ''approved''"
| "state_name Dispatched = ''dispatched''" | "state_name Succeeded = ''succeeded''"
| "state_name Failed = ''failed''" | "state_name Expired = ''expired''"
| "state_name Rejected = ''rejected''"

definition TERMINAL_COMMAND_STATES :: "command_state list" where
  "TERMINAL_COMMAND_STATES = [Succeeded, Failed, Expired, Rejected]"

type_synonym js_fields = "(string \<times> js_value) list"

record command_row =
  cId :: string
  cType :: command_kind
  cInstanceId :: string
  cWorkerId :: string
  cJobUuid :: "string option"
  cPayload :: js_fields
  cBaseHash :: "string option"
  cState :: command_state
  cIssuedBy :: "string option"
  cApprovedBy :: "string option"
  cSignature :: "8 word list option"
  cResultCode :: "string option"
  cResultDetail :: "string option"
  cSqlErrorNumber :: "int option"
  cIssuedAt :: int
  cApprovedAt :: "int option"
  cDispatchedAt :: "int option"
  cCompletedAt :: "int option"
  cExpiresAt :: "int option"

record worker_row =
  wId :: string
  wHostName :: string
  wCapabilities :: "string list"
  wMaxCapabilityReported :: "string option"

record instance_row =
  iId :: string
  iWorkerId :: string
  iName :: string
  iEnvironmentTag :: "string option"

record pipeline =
  workersT :: "worker_row list"
  instancesT :: "instance_row list"
  usersT :: "(string \<times> string) list"
  jobNames :: "((string \<times> string) \<times> string) list"
  commandsT :: "command_row list"
  auditS :: audit_state
  registryS :: worker_registry
  sentCommands :: "(nat \<times> agent_command) list"
  openSpans :: "string list"
  endedSpans :: "(string \<times> string option) list"

record server_config =
  requireApprovalForJobWrite :: bool
  approvalExemptRoles :: "role list"
  commandTtlSeconds :: int

record call_env =
  callNow :: int
  dispatchNow :: int
  newCommandId :: string
  newAuditId :: string
  newAuditQueueId :: string

text \<open>The keys of the control plane: SHA-256, signing, and the private key.\<close>

record signer =
  sha256 :: "string \<Rightarrow> string"
  rsaSign :: "string \<Rightarrow> 8 word list \<Rightarrow> 8 word list"
  signingPrivateKeyPem :: string

text \<open>\<open>CommandError\<close>, and any other throw.\<close>

datatype command_error = CommandError int string string | Thrown

definition find_command :: "string \<Rightarrow> pipeline \<Rightarrow> command_row option" where
  "find_command i st = find (\<lambda>c. cId c = i) (commandsT st)"

text \<open>\<open>update(commands).set(f).where(P)\<close>.\<close>

definition update_commands ::
  "(command_row \<Rightarrow> bool) \<Rightarrow> (command_row \<Rightarrow> command_row) \<Rightarrow> pipeline \<Rightarrow> pipeline" where
  "update_commands P f st = st\<lparr>commandsT := map (\<lambda>c. if P c then f c else c) (commandsT st)\<rparr>"

definition audit_write :: "call_env \<Rightarrow> audit_entry \<Rightarrow> pipeline \<Rightarrow> pipeline" where
  "audit_write env e st =
     st\<lparr>auditS := writeAudit (newAuditId env) (newAuditQueueId env) (callNow env) e (auditS st)\<rparr>"

section \<open>Capabilities and approval\<close>

definition effectiveCapabilitiesFor ::
  "string \<Rightarrow> pipeline \<Rightarrow> command_error + (string \<times> string \<times> capability list)" where
  "effectiveCapabilitiesFor inst st =
     (case List.map_filter (\<lambda>i. if iId i = inst
              then find (\<lambda>w. wId w = iWorkerId i) (workersT st) else None) (instancesT st) of
        [] \<Rightarrow> Inl (CommandError 404 ''NotFound'' ''No such instance.'')
      | w # _ \<Rightarrow>
          (let reported = (case wMaxCapabilityReported w of None \<Rightarrow> [] | Some c \<Rightarrow> c);
               ceiling = (if isMaxCapabilityTier reported then reported else ''readOnly'')
           in case effectiveCapabilities (wCapabilities w) ceiling of
                None \<Rightarrow> Inl Thrown
              | Some caps \<Rightarrow> Inr (wId w, wHostName w, caps)))"

definition requiresApproval :: "server_config \<Rightarrow> command_kind \<Rightarrow> role \<Rightarrow> bool" where
  "requiresApproval cfg k r \<longleftrightarrow>
     requireApprovalForJobWrite cfg \<and> k \<in> set APPROVAL_REQUIRED_BY_DEFAULT \<and>
     r \<notin> set (approvalExemptRoles cfg)"

section \<open>The message\<close>

definition field :: "js_fields \<Rightarrow> string \<Rightarrow> js_value" where
  "field p k = (case map_of p k of None \<Rightarrow> JsUndefined | Some v \<Rightarrow> v)"

definition str_field :: "js_fields \<Rightarrow> string \<Rightarrow> string" where
  "str_field p k = (case field p k of JsStr s \<Rightarrow> s | _ \<Rightarrow> [])"

definition flag_field :: "js_fields \<Rightarrow> string \<Rightarrow> bool" where
  "flag_field p k \<longleftrightarrow> field p k = JsBool True"

text \<open>
  \<open>Number(s)\<close> of a string: blank is 0, a decimal integer is itself; fractions, exponents and
  \<open>0x\<close> forms are not operator ids and stand outside the model. \<open>Number\<close> of an array goes through
  its text.
\<close>

definition number_of_string :: "string \<Rightarrow> js_num" where
  "number_of_string s =
     (let t = trim s; (neg, ds) = drop_sign t
      in if t = [] then Num 0
         else if ds = [] \<or> \<not> list_all is_digit ds then NonFinite
         else if neg \<and> read_nat ds = 0 then NegZero
         else Num (if neg then - int (read_nat ds) else int (read_nat ds)))"

fun js_number :: "js_value \<Rightarrow> js_num" where
  "js_number (JsNum n) = n"
| "js_number (JsStr s) = number_of_string s"
| "js_number (JsBool b) = Num (if b then 1 else 0)"
| "js_number JsNull = Num 0"
| "js_number (JsArr []) = Num 0"
| "js_number (JsArr [JsBool b]) = NonFinite"
| "js_number (JsArr [JsUndefined]) = Num 0"
| "js_number (JsArr [x]) = js_number x"
| "js_number _ = NonFinite"

text \<open>\<open>Number(payload.operatorId ?? 0)\<close>; a value that is not finite makes the signing throw.\<close>

definition operator_id :: "js_fields \<Rightarrow> int option" where
  "operator_id p =
     (let v = field p ''operatorId''
      in case (if v = JsNull \<or> v = JsUndefined then Num 0 else js_number v) of
           Num i \<Rightarrow> Some i | NegZero \<Rightarrow> Some 0 | NonFinite \<Rightarrow> None)"

fun proto_payload :: "command_kind \<Rightarrow> js_fields \<Rightarrow> command_payload option" where
  "proto_payload ToggleJob p = Some (PToggleJob (str_field p ''jobUuid'') (flag_field p ''enabled'')
     (str_field p ''baseDefinitionHash''))"
| "proto_payload RunJob p = Some (PRunJob (str_field p ''jobUuid'') (str_field p ''stepName''))"
| "proto_payload StopJob p = Some (PStopJob (str_field p ''jobUuid''))"
| "proto_payload UpsertJob p = Some (PUpsertJob (str_field p ''jobUuid'') (str_field p ''canonicalJson'')
     (str_field p ''baseDefinitionHash'') (flag_field p ''allowOverwrite''))"
| "proto_payload DeleteJob p = Some (PDeleteJob (str_field p ''jobUuid'')
     (str_field p ''baseDefinitionHash''))"
| "proto_payload UpsertSchedule p = Some (PUpsertSchedule (str_field p ''scheduleName'')
     (str_field p ''canonicalJson'') (str_field p ''baseDefinitionHash''))"
| "proto_payload DeleteSchedule p = Some (PDeleteSchedule (str_field p ''scheduleName'')
     (str_field p ''baseDefinitionHash''))"
| "proto_payload UpsertOperator p = map_option (\<lambda>i. PUpsertOperator i (str_field p ''canonicalJson'')
     (str_field p ''baseDefinitionHash'')) (operator_id p)"
| "proto_payload DeleteOperator p = map_option (\<lambda>i. PDeleteOperator i
     (str_field p ''baseDefinitionHash'')) (operator_id p)"
| "proto_payload SetJobWriteAllowed p = Some (PSetJobWriteAllowed (str_field p ''jobUuid'')
     (str_field p ''jobName'') (flag_field p ''allowed''))"

definition buildProtoCommand ::
  "int \<Rightarrow> string \<Rightarrow> command_kind \<Rightarrow> string \<Rightarrow> js_fields \<Rightarrow> agent_command option" where
  "buildProtoCommand now i k instName p =
     map_option (\<lambda>pl. \<lparr> commandId = i, issuedAt = Some (toTimestamp now), instanceName = instName,
        signature = [], payload = Some pl \<rparr>) (proto_payload k p)"

section \<open>What the audit trail sees\<close>

definition AUDITABLE_PAYLOAD_FIELDS :: "string list" where
  "AUDITABLE_PAYLOAD_FIELDS = [''jobUuid'', ''jobName'', ''enabled'', ''allowed'', ''stepName'',
     ''baseDefinitionHash'', ''allowOverwrite'', ''scheduleName'', ''operatorName'']"

text \<open>A value as it is stored in a \<open>jsonb\<close> column; \<^term>\<open>None\<close> is left out of its object.\<close>

fun to_jsonb :: "js_value \<Rightarrow> json option"
and to_jsonb_items :: "js_value list \<Rightarrow> json list"
and to_jsonb_fields :: "(string \<times> js_value) list \<Rightarrow> (string \<times> json) list" where
  "to_jsonb JsNull = Some JNull"
| "to_jsonb JsUndefined = None"
| "to_jsonb (JsBool b) = Some (JBool b)"
| "to_jsonb (JsNum n) = Some (case n of Num i \<Rightarrow> JNum i | NegZero \<Rightarrow> JNum 0 | NonFinite \<Rightarrow> JNull)"
| "to_jsonb (JsStr s) = Some (JStr s)"
| "to_jsonb (JsArr xs) = Some (JArr (to_jsonb_items xs))"
| "to_jsonb (JsObj kvs) = Some (JObj (to_jsonb_fields kvs))"
| "to_jsonb JsOther = None"
| "to_jsonb_items [] = []"
| "to_jsonb_items (v # vs) =
     (case to_jsonb v of None \<Rightarrow> JNull | Some j \<Rightarrow> j) # to_jsonb_items vs"
| "to_jsonb_fields [] = []"
| "to_jsonb_fields (kv # kvs) =
     (case to_jsonb (snd kv) of
        None \<Rightarrow> to_jsonb_fields kvs | Some j \<Rightarrow> (fst kv, j) # to_jsonb_fields kvs)"

definition auditablePayload :: "(string \<Rightarrow> string) \<Rightarrow> js_fields \<Rightarrow> js_fields" where
  "auditablePayload sha p =
     filter (\<lambda>kv. fst kv \<in> set AUDITABLE_PAYLOAD_FIELDS) p @
     (case field p ''canonicalJson'' of
        JsStr c \<Rightarrow> if c = [] then []
                  else [(''definitionHash'', JsStr (sha c)),
                        (''definitionBytes'', js_int (int (length (utf8 c))))]
      | _ \<Rightarrow> [])"

definition opt_str :: "string option \<Rightarrow> js_value" where
  "opt_str s = (case s of None \<Rightarrow> JsNull | Some x \<Rightarrow> JsStr x)"

text \<open>\<open>x || undefined\<close> on a string and on a number.\<close>

definition str_or_undefined :: "string \<Rightarrow> js_value" where
  "str_or_undefined s = (if s = [] then JsUndefined else JsStr s)"

definition num_or_undefined :: "int \<Rightarrow> js_value" where
  "num_or_undefined n = (if n = 0 then JsUndefined else js_int n)"

section \<open>Dispatch\<close>

definition endSpan :: "string \<Rightarrow> string option \<Rightarrow> pipeline \<Rightarrow> pipeline" where
  "endSpan i msg st =
     (if i \<in> set (openSpans st)
      then st\<lparr>openSpans := filter (\<lambda>j. j \<noteq> i) (openSpans st), endedSpans := endedSpans st @ [(i, msg)]\<rparr>
      else st)"

definition markExpired :: "int \<Rightarrow> string \<Rightarrow> pipeline \<Rightarrow> pipeline" where
  "markExpired now i st = update_commands (\<lambda>c. cId c = i)
     (\<lambda>c. c\<lparr>cState := Expired, cResultCode := Some ''Expired'', cCompletedAt := Some now\<rparr>) st"

definition past :: "int option \<Rightarrow> int \<Rightarrow> bool" where
  "past t now \<longleftrightarrow> (case t of None \<Rightarrow> False | Some x \<Rightarrow> x < now)"

definition open_span :: "string \<Rightarrow> pipeline \<Rightarrow> pipeline" where
  "open_span i st = st\<lparr>openSpans := filter (\<lambda>j. j \<noteq> i) (openSpans st) @ [i]\<rparr>"

text \<open>
  A dispatch reads the row, decides and sends, then marks the row; other handlers may run at the
  two database accesses, so the parts are definitions of their own.
\<close>

datatype send_outcome = NotSent | SendThrew | Sent "8 word list"

definition dispatch_send ::
  "signer \<Rightarrow> int \<Rightarrow> command_row \<Rightarrow> string \<Rightarrow> pipeline \<Rightarrow> send_outcome \<times> pipeline" where
  "dispatch_send sg now c instName st =
     (if cState c \<noteq> Approved then (NotSent, st)
      else if past (cExpiresAt c) now then (NotSent, markExpired now (cId c) st)
      else
        (case registry_get (cWorkerId c) (registryS st) of
           None \<Rightarrow> (NotSent, st)
         | Some live \<Rightarrow>
             (case buildProtoCommand now (cId c) (cType c) instName (cPayload c) of
                None \<Rightarrow> (SendThrew, st)
              | Some cmd \<Rightarrow>
                  (case signCommand (sha256 sg) (rsaSign sg) cmd (signingPrivateKeyPem sg) of
                     None \<Rightarrow> (SendThrew, st)
                   | Some sig \<Rightarrow>
                       (Sent sig, (open_span (cId c) st)\<lparr>sentCommands := sentCommands st @
                          [(sessionNo live, cmd\<lparr>signature := sig\<rparr>)]\<rparr>)))))"

definition dispatch_mark :: "int \<Rightarrow> string \<Rightarrow> 8 word list \<Rightarrow> pipeline \<Rightarrow> pipeline" where
  "dispatch_mark now i sig st = update_commands (\<lambda>c. cId c = i)
     (\<lambda>c. c\<lparr>cState := Dispatched, cDispatchedAt := Some now, cSignature := Some sig\<rparr>) st"

definition dispatch ::
  "signer \<Rightarrow> int \<Rightarrow> string \<Rightarrow> pipeline \<Rightarrow> (command_error + bool) \<times> pipeline" where
  "dispatch sg now i st =
     (case find_command i st of
        None \<Rightarrow> (Inr False, st)
      | Some c \<Rightarrow>
          (case find (\<lambda>n. iId n = cInstanceId c) (instancesT st) of
             None \<Rightarrow> (Inr False, st)
           | Some n \<Rightarrow>
               (case dispatch_send sg now c (iName n) st of
                  (NotSent, st) \<Rightarrow> (Inr False, st)
                | (SendThrew, st) \<Rightarrow> (Inl Thrown, st)
                | (Sent sig, st) \<Rightarrow> (Inr True, dispatch_mark now i sig st))))"

text \<open>The rows to send are read once, oldest first; a throw abandons the rest.\<close>

fun dispatch_each ::
  "signer \<Rightarrow> int \<Rightarrow> string list \<Rightarrow> nat \<Rightarrow> pipeline \<Rightarrow> (command_error + nat) \<times> pipeline" where
  "dispatch_each sg now [] sent st = (Inr sent, st)"
| "dispatch_each sg now (i # rest) sent st =
     (case dispatch sg now i st of
        (Inl e, st') \<Rightarrow> (Inl e, st')
      | (Inr ok, st') \<Rightarrow> dispatch_each sg now rest (if ok then Suc sent else sent) st')"

definition dispatchPendingFor ::
  "signer \<Rightarrow> int \<Rightarrow> string \<Rightarrow> pipeline \<Rightarrow> (command_error + nat) \<times> pipeline" where
  "dispatchPendingFor sg now w st =
     dispatch_each sg now (map cId (sort_key cIssuedAt
       (filter (\<lambda>c. cWorkerId c = w \<and> cState c = Approved) (commandsT st)))) 0 st"

section \<open>Issuing, approving, rejecting\<close>

record create_input =
  inInstanceId :: string
  inKind :: command_kind
  inJobUuid :: "string option"
  inPayload :: js_fields
  inBaseHash :: "string option"
  inIssuedBy :: string
  inIssuedByUsername :: string
  inIssuedByRole :: role
  inRemoteAddress :: "string option"
  inEnvironmentTag :: "string option"

definition denied_message :: "string \<Rightarrow> capability \<Rightarrow> capability list \<Rightarrow> string" where
  "denied_message host required caps =
     ''Worker '' @ host @ '' cannot '' @ cap_name required @ ''. Its effective capabilities are: '' @
     join '', '' (map cap_name caps) @ ''. '' @
     ''Grant the capability in Administration, and check the worker's own maxCapability setting.''"

definition issued_entry :: "signer \<Rightarrow> string \<Rightarrow> bool \<Rightarrow> create_input \<Rightarrow> audit_entry" where
  "issued_entry sg i needs inp =
     \<lparr> actorType = UserActor, actor = inIssuedByUsername inp, action = ''command.issued'',
       auditTarget = Some i,
       detail = to_jsonb (JsObj
         [(''type'', JsStr (kind_name (inKind inp))), (''instanceId'', JsStr (inInstanceId inp)),
          (''environmentTag'', opt_str (inEnvironmentTag inp)), (''jobUuid'', opt_str (inJobUuid inp)),
          (''requiresApproval'', JsBool needs),
          (''payload'', JsObj (auditablePayload (sha256 sg) (inPayload inp)))]),
       remoteAddress = inRemoteAddress inp \<rparr>"

definition new_command :: "server_config \<Rightarrow> call_env \<Rightarrow> string \<Rightarrow> bool \<Rightarrow> create_input \<Rightarrow> command_row" where
  "new_command cfg env w needs inp =
     \<lparr> cId = newCommandId env, cType = inKind inp, cInstanceId = inInstanceId inp, cWorkerId = w,
       cJobUuid = inJobUuid inp, cPayload = inPayload inp, cBaseHash = inBaseHash inp,
       cState = (if needs then PendingApproval else Approved), cIssuedBy = Some (inIssuedBy inp),
       cApprovedBy = None, cSignature = None, cResultCode = None, cResultDetail = None,
       cSqlErrorNumber = None, cIssuedAt = callNow env,
       cApprovedAt = (if needs then None else Some (callNow env)), cDispatchedAt = None,
       cCompletedAt = None, cExpiresAt = Some (callNow env + commandTtlSeconds cfg * 1000) \<rparr>"

text \<open>An insertion whose id is taken violates the primary key and throws.\<close>

definition insert_command :: "command_row \<Rightarrow> pipeline \<Rightarrow> pipeline option" where
  "insert_command c st =
     (if cId c \<in> cId ` set (commandsT st) then None
      else Some (st\<lparr>commandsT := commandsT st @ [c]\<rparr>))"

text \<open>Everything up to the dispatch: the new row and whether it awaits an approval.\<close>

definition create_record ::
  "server_config \<Rightarrow> signer \<Rightarrow> call_env \<Rightarrow> create_input \<Rightarrow> pipeline
     \<Rightarrow> (command_error + (command_row \<times> bool)) \<times> pipeline" where
  "create_record cfg sg env inp st =
     (let required = COMMAND_CAPABILITY (inKind inp)
      in case effectiveCapabilitiesFor (inInstanceId inp) st of
           Inl e \<Rightarrow> (Inl e, st)
         | Inr (w, host, caps) \<Rightarrow>
             if required \<notin> set caps
             then (Inl (CommandError 403 ''CapabilityDenied'' (denied_message host required caps)), st)
             else
               (let needs = requiresApproval cfg (inKind inp) (inIssuedByRole inp);
                    row = new_command cfg env w needs inp
                in case insert_command row st of
                     None \<Rightarrow> (Inl Thrown, st)
                   | Some st \<Rightarrow>
                       (Inr (row, needs), audit_write env (issued_entry sg (cId row) needs inp) st)))"

definition create_command ::
  "server_config \<Rightarrow> signer \<Rightarrow> call_env \<Rightarrow> create_input \<Rightarrow> pipeline
     \<Rightarrow> (command_error + (string \<times> command_state \<times> bool)) \<times> pipeline" where
  "create_command cfg sg env inp st =
     (case create_record cfg sg env inp st of
        (Inl e, st) \<Rightarrow> (Inl e, st)
      | (Inr (row, needs), st) \<Rightarrow>
          if needs then (Inr (cId row, cState row, needs), st)
          else (case dispatch sg (dispatchNow env) (cId row) st of
                  (Inl e, st) \<Rightarrow> (Inl e, st)
                | (Inr _, st) \<Rightarrow> (Inr (cId row, cState row, needs), st)))"

definition decided_entry ::
  "string \<Rightarrow> string \<Rightarrow> string \<Rightarrow> (string \<times> js_value) list \<Rightarrow> string option \<Rightarrow> audit_entry" where
  "decided_entry who what i extra addr =
     \<lparr> actorType = UserActor, actor = who, action = what, auditTarget = Some i,
       detail = to_jsonb (JsObj extra), remoteAddress = addr \<rparr>"

text \<open>
  The handlers read the row first and decide on what they read; \<open>approve_row\<close> and \<open>reject_row\<close> are
  the continuations, up to the dispatch.
\<close>

definition approve_row ::
  "call_env \<Rightarrow> command_row \<Rightarrow> string \<Rightarrow> string \<Rightarrow> string option \<Rightarrow> pipeline
     \<Rightarrow> (command_error + unit) \<times> pipeline" where
  "approve_row env c approver username addr st =
     (if cState c \<noteq> PendingApproval then
        (Inl (CommandError 409 ''NotPending'' (''This command is already '' @ state_name (cState c) @ ''.'')), st)
      else if cIssuedBy c = Some approver then
        (Inl (CommandError 403 ''SelfApproval''
           ''A command must be approved by someone other than the person who issued it.''), st)
      else if past (cExpiresAt c) (callNow env) then
        (Inl (CommandError 409 ''Expired'' ''This command expired before it was approved.''),
         markExpired (callNow env) (cId c) st)
      else
        (Inr (), audit_write env (decided_entry username ''command.approved'' (cId c)
                    [(''type'', JsStr (kind_name (cType c)))] addr)
                  (update_commands (\<lambda>x. cId x = cId c)
                    (\<lambda>x. x\<lparr>cState := Approved, cApprovedBy := Some approver,
                           cApprovedAt := Some (callNow env)\<rparr>) st)))"

definition no_such_command :: command_error where
  "no_such_command = CommandError 404 ''NotFound'' ''No such command.''"

definition approve ::
  "signer \<Rightarrow> call_env \<Rightarrow> string \<Rightarrow> string \<Rightarrow> string \<Rightarrow> string option \<Rightarrow> pipeline
     \<Rightarrow> (command_error + unit) \<times> pipeline" where
  "approve sg env i approver username addr st =
     (case find_command i st of
        None \<Rightarrow> (Inl no_such_command, st)
      | Some c \<Rightarrow>
          (case approve_row env c approver username addr st of
             (Inl e, st) \<Rightarrow> (Inl e, st)
           | (Inr _, st) \<Rightarrow>
               (case dispatch sg (dispatchNow env) i st of
                  (Inl e, st) \<Rightarrow> (Inl e, st)
                | (Inr _, st) \<Rightarrow> (Inr (), st))))"

definition reject_row ::
  "call_env \<Rightarrow> command_row \<Rightarrow> string \<Rightarrow> string \<Rightarrow> string option \<Rightarrow> pipeline
     \<Rightarrow> (command_error + unit) \<times> pipeline" where
  "reject_row env c username reason addr st =
     (if cState c \<noteq> PendingApproval then
        (Inl (CommandError 409 ''NotPending'' (''This command is already '' @ state_name (cState c) @ ''.'')), st)
      else
        (let st = update_commands (\<lambda>x. cId x = cId c)
                    (\<lambda>x. x\<lparr>cState := Rejected, cResultDetail := Some reason,
                           cCompletedAt := Some (callNow env)\<rparr>) st;
             st = audit_write env (decided_entry username ''command.rejected'' (cId c)
                    [(''type'', JsStr (kind_name (cType c))), (''reason'', JsStr reason)] addr) st
         in (Inr (), st)))"

definition reject ::
  "call_env \<Rightarrow> string \<Rightarrow> string \<Rightarrow> string \<Rightarrow> string option \<Rightarrow> pipeline
     \<Rightarrow> (command_error + unit) \<times> pipeline" where
  "reject env i username reason addr st =
     (case find_command i st of
        None \<Rightarrow> (Inl no_such_command, st)
      | Some c \<Rightarrow> reject_row env c username reason addr st)"

section \<open>Results and expiry\<close>

record result_report =
  rCommandId :: string
  rWorkerId :: string
  rSuccess :: bool
  rErrorCode :: string
  rErrorDetail :: string
  rSqlErrorNumber :: int
  rHostName :: string

definition result_entry :: "result_report \<Rightarrow> command_row \<Rightarrow> audit_entry" where
  "result_entry r c =
     \<lparr> actorType = WorkerActor, actor = rHostName r,
       action = (if rSuccess r then ''command.result'' else ''command.result.failed''),
       auditTarget = Some (rCommandId r),
       detail = to_jsonb (JsObj [(''type'', JsStr (kind_name (cType c))),
         (''errorCode'', str_or_undefined (rErrorCode r)),
         (''errorDetail'', str_or_undefined (rErrorDetail r)),
         (''sqlErrorNumber'', num_or_undefined (rSqlErrorNumber r))]),
       remoteAddress = None \<rparr>"

definition recordResult ::
  "call_env \<Rightarrow> result_report \<Rightarrow> pipeline
     \<Rightarrow> (command_kind \<times> string \<times> string option \<times> string option) option \<times> pipeline" where
  "recordResult env r st =
     (case find (\<lambda>c. cId c = rCommandId r \<and> cWorkerId c = rWorkerId r) (commandsT st) of
        None \<Rightarrow> (None, st)
      | Some c \<Rightarrow>
          (let st = update_commands (\<lambda>x. cId x = rCommandId r \<and> cWorkerId x = rWorkerId r)
                 (\<lambda>x. x\<lparr>cState := (if rSuccess r then Succeeded else Failed),
                        cResultCode := Some (if rSuccess r then ''Ok'' else rErrorCode r),
                        cResultDetail := (if rErrorDetail r = [] then None else Some (rErrorDetail r)),
                        cSqlErrorNumber := (if rSqlErrorNumber r = 0 then None else Some (rSqlErrorNumber r)),
                        cCompletedAt := Some (callNow env)\<rparr>) st;
               st = endSpan (rCommandId r)
                      (if rSuccess r then None
                       else Some (if rErrorCode r = [] then ''Command failed'' else rErrorCode r)) st;
               st = audit_write env (result_entry r c) st;
               issuer = (case cIssuedBy c of None \<Rightarrow> None
                         | Some u \<Rightarrow> if u = [] then None else map_of (usersT st) u)
           in (Some (cType c, cInstanceId c, cJobUuid c, issuer), st)))"

definition stale :: "int \<Rightarrow> command_row \<Rightarrow> bool" where
  "stale now c \<longleftrightarrow> cState c \<in> {PendingApproval, Approved, Dispatched} \<and> past (cExpiresAt c) now"

definition expireStale :: "int \<Rightarrow> pipeline \<Rightarrow> nat \<times> pipeline" where
  "expireStale now st =
     (let expired = map cId (filter (stale now) (commandsT st));
          st = update_commands (stale now)
                 (\<lambda>c. c\<lparr>cState := Expired, cResultCode := Some ''Expired'',
                        cResultDetail := Some ''The command expired before it was applied (worker offline or not approved in time).'',
                        cCompletedAt := Some now\<rparr>) st;
          st = foldl (\<lambda>st i. endSpan i (Some ''Expired'') st) st expired
      in (length expired, st))"

section \<open>Reading\<close>

record command_view =
  viewRow :: command_row
  viewInstanceName :: string
  viewHostName :: string
  viewJobName :: "string option"

definition view_command :: "pipeline \<Rightarrow> command_row \<Rightarrow> command_view option" where
  "view_command st c =
     (case (find (\<lambda>n. iId n = cInstanceId c) (instancesT st), find (\<lambda>w. wId w = cWorkerId c) (workersT st)) of
        (Some n, Some w) \<Rightarrow>
          Some \<lparr> viewRow = c, viewInstanceName = iName n, viewHostName = wHostName w,
                 viewJobName = (case cJobUuid c of None \<Rightarrow> None
                                | Some u \<Rightarrow> map_of (jobNames st) (cInstanceId c, u)) \<rparr>
      | _ \<Rightarrow> None)"

definition list_commands ::
  "command_state option \<Rightarrow> nat option \<Rightarrow> string option \<Rightarrow> pipeline \<Rightarrow> command_view list" where
  "list_commands fstate flimit fid st =
     take (min (case flimit of None \<Rightarrow> 100 | Some n \<Rightarrow> n) 500)
       (sort_key (\<lambda>v. - cIssuedAt (viewRow v)) (List.map_filter (view_command st)
         (filter (\<lambda>c. (case fstate of None \<Rightarrow> True | Some s \<Rightarrow> cState c = s) \<and>
                      (case fid of None \<Rightarrow> True | Some i \<Rightarrow> if i = [] then True else cId c = i))
           (commandsT st))))"

definition byId :: "string \<Rightarrow> pipeline \<Rightarrow> command_view option" where
  "byId i st = (case list_commands None (Some 1) (Some i) st of [] \<Rightarrow> None | v # _ \<Rightarrow> Some v)"

definition countPendingApproval :: "pipeline \<Rightarrow> nat" where
  "countPendingApproval st = length (filter (\<lambda>c. cState c = PendingApproval) (commandsT st))"

end
