(* ===== verification/CommandPipelineLaws.thy ===== *)
theory CommandPipelineLaws
  imports CommandPipeline
begin

text \<open>
  What the command pipeline guarantees. First under every interleaving of the handlers at their
  database accesses: the rules of \<open>raced\<close> let each continuation run on any version of the row that
  was ever current. Then for whole handlers run one after the other (\<open>pipeline_run\<close>), where a command
  is sent at most once and never after it was settled.
\<close>

section \<open>Interleaved handlers\<close>

text \<open>
  The first list holds every version of a command row so far, the second the ids of the commands
  that were recorded as needing an approval.
\<close>

inductive raced ::
  "server_config \<Rightarrow> signer \<Rightarrow> command_row list \<Rightarrow> string list \<Rightarrow> pipeline \<Rightarrow> bool" for cfg sg where
  start: "commandsT st = [] \<Longrightarrow> sentCommands st = [] \<Longrightarrow> raced cfg sg [] [] st"
| issue: "raced cfg sg h g st \<Longrightarrow> create_record cfg sg env inp st = (Inr (row, needs), st') \<Longrightarrow>
     raced cfg sg (commandsT st' @ h) (if needs then cId row # g else g) st'"
| approving: "raced cfg sg h g st \<Longrightarrow> c \<in> set h \<Longrightarrow> approve_row env c who username addr st = (r, st') \<Longrightarrow>
     raced cfg sg (commandsT st' @ h) g st'"
| rejecting: "raced cfg sg h g st \<Longrightarrow> c \<in> set h \<Longrightarrow> reject_row env c username reason addr st = (r, st') \<Longrightarrow>
     raced cfg sg (commandsT st' @ h) g st'"
| sending: "raced cfg sg h g st \<Longrightarrow> c \<in> set h \<Longrightarrow> dispatch_send sg now c instName st = (out, st') \<Longrightarrow>
     raced cfg sg (commandsT st' @ h) g st'"
| marking: "raced cfg sg h g st \<Longrightarrow> c \<in> set h \<Longrightarrow> cState c = Approved \<Longrightarrow>
     st' = dispatch_mark now (cId c) sig st \<Longrightarrow> raced cfg sg (commandsT st' @ h) g st'"
| result: "raced cfg sg h g st \<Longrightarrow> recordResult env rep st = (r, st') \<Longrightarrow>
     raced cfg sg (commandsT st' @ h) g st'"
| expiring: "raced cfg sg h g st \<Longrightarrow> expireStale now st = (n, st') \<Longrightarrow>
     raced cfg sg (commandsT st' @ h) g st'"
| elsewhere: "raced cfg sg h g st \<Longrightarrow> commandsT st' = commandsT st \<Longrightarrow>
     sentCommands st' = sentCommands st \<Longrightarrow> raced cfg sg h g st'"

text \<open>What never changes about a row.\<close>

definition order_of :: "command_row \<Rightarrow> command_kind \<times> js_fields \<times> string \<times> string \<times> string option" where
  "order_of c = (cType c, cPayload c, cInstanceId c, cWorkerId c, cIssuedBy c)"

lemmas order_defs = order_of_def

definition approval_ok :: "string list \<Rightarrow> command_row \<Rightarrow> bool" where
  "approval_ok g c \<longleftrightarrow>
     (\<forall>a. cApprovedBy c = Some a \<longrightarrow> cIssuedBy c \<noteq> Some a) \<and>
     (cId c \<in> set g \<longrightarrow> cState c \<in> {Approved, Dispatched} \<longrightarrow> cApprovedBy c \<noteq> None)"

definition later_version :: "command_row \<Rightarrow> command_row \<Rightarrow> bool" where
  "later_version c x \<longleftrightarrow> cId x = cId c \<and> order_of x = order_of c \<and>
     (cApprovedBy c \<noteq> None \<longrightarrow> cApprovedBy x \<noteq> None)"

definition sent_ok :: "string list \<Rightarrow> command_row list \<Rightarrow> agent_command \<Rightarrow> bool" where
  "sent_ok g cs m \<longleftrightarrow> (\<exists>x \<in> set cs. cId x = commandId m \<and>
     payload m = proto_payload (cType x) (cPayload x) \<and>
     (commandId m \<in> set g \<longrightarrow> cApprovedBy x \<noteq> None))"

definition race_inv :: "command_row list \<Rightarrow> string list \<Rightarrow> pipeline \<Rightarrow> bool" where
  "race_inv h g st \<longleftrightarrow>
     set (commandsT st) \<subseteq> set h \<and> distinct (map cId (commandsT st)) \<and> set g \<subseteq> cId ` set h \<and>
     (\<forall>c \<in> set h. approval_ok g c \<and> (\<exists>x \<in> set (commandsT st). later_version c x)) \<and>
     (\<forall>(n, m) \<in> set (sentCommands st). sent_ok g (commandsT st) m)"

lemma later_version_refl [simp]: "later_version c c"
  by (simp add: later_version_def)

lemma later_version_trans: "later_version a b \<Longrightarrow> later_version b c \<Longrightarrow> later_version a c"
  by (auto simp: later_version_def)

lemma sent_ok_later:
  assumes "sent_ok g cs m" and "\<And>x. x \<in> set cs \<Longrightarrow> \<exists>y \<in> set cs'. later_version x y"
  shows "sent_ok g cs' m"
  using assms unfolding sent_ok_def later_version_def order_of_def by (metis (no_types, lifting) prod.inject)

text \<open>A step that only moves rows to later versions.\<close>

lemma race_inv_update:
  assumes inv: "race_inv h g st"
    and cs: "commandsT st' = map f (commandsT st)" and sent: "sentCommands st' = sentCommands st"
    and f: "\<And>x. x \<in> set (commandsT st) \<Longrightarrow> later_version x (f x) \<and> approval_ok g (f x)"
  shows "race_inv (commandsT st' @ h) g st'"
proof -
  have later: "\<exists>y \<in> set (commandsT st'). later_version x y" if "x \<in> set (commandsT st)" for x
    using f [OF that] that cs by auto
  have ids: "map cId (commandsT st') = map cId (commandsT st)"
    using f by (simp add: cs later_version_def)
  have "\<exists>x \<in> set (commandsT st'). later_version c x" if "c \<in> set h" for c
    using inv later that later_version_trans unfolding race_inv_def by meson
  moreover have "\<exists>x \<in> set (commandsT st'). later_version c x" if "c \<in> set (commandsT st')" for c
    using that later_version_refl by blast
  moreover have "approval_ok g c" if "c \<in> set (commandsT st')" for c
    using that f by (auto simp: cs)
  moreover have "sent_ok g (commandsT st') m" if "(n, m) \<in> set (sentCommands st')" for n m
    using sent_ok_later [of g "commandsT st" m "commandsT st'"] later inv that sent
    by (auto simp: race_inv_def)
  ultimately show ?thesis using inv ids by (auto simp: race_inv_def)
qed

lemma race_inv_elsewhere:
  "race_inv h g st \<Longrightarrow> commandsT st' = commandsT st \<Longrightarrow> sentCommands st' = sentCommands st \<Longrightarrow>
     race_inv h g st'"
  by (simp add: race_inv_def)

lemma race_inv_same:
  "race_inv h g st \<Longrightarrow> commandsT st' = commandsT st \<Longrightarrow> sentCommands st' = sentCommands st \<Longrightarrow>
     race_inv (commandsT st' @ h) g st'"
  by (auto simp: race_inv_def)

lemma update_commands_sent [simp]:
  "commandsT (update_commands P f st) = map (\<lambda>c. if P c then f c else c) (commandsT st)"
  "sentCommands (update_commands P f st) = sentCommands st"
  by (simp_all add: update_commands_def)

lemma audit_write_keeps [simp]:
  "commandsT (audit_write env e st) = commandsT st"
  "sentCommands (audit_write env e st) = sentCommands st"
  "registryS (audit_write env e st) = registryS st"
  "instancesT (audit_write env e st) = instancesT st"
  by (simp_all add: audit_write_def)

lemma endSpan_keeps [simp]:
  "commandsT (endSpan i msg st) = commandsT st" "sentCommands (endSpan i msg st) = sentCommands st"
  "auditS (endSpan i msg st) = auditS st"
  by (simp_all add: endSpan_def)

lemma endSpans_keeps [simp]:
  "commandsT (foldl (\<lambda>st i. endSpan i msg st) st is) = commandsT st"
  "sentCommands (foldl (\<lambda>st i. endSpan i msg st) st is) = sentCommands st"
  "auditS (foldl (\<lambda>st i. endSpan i msg st) st is) = auditS st"
  by (induction "is" arbitrary: st) simp_all

lemma raced_version:
  "race_inv h g st \<Longrightarrow> c \<in> set h \<Longrightarrow> x \<in> set (commandsT st) \<Longrightarrow> cId x = cId c \<Longrightarrow> later_version c x"
  unfolding race_inv_def
  by (metis (no_types, lifting) distinct_map inj_onD later_version_def)

lemma approval_ok_version:
  "race_inv h g st \<Longrightarrow> x \<in> set (commandsT st) \<Longrightarrow> approval_ok g x"
  by (auto simp: race_inv_def)

lemma race_inv_expired:
  assumes "race_inv h g st" and "commandsT st' = map (\<lambda>c. if P c then f c else c) (commandsT st)"
    and "sentCommands st' = sentCommands st"
    and "\<And>c. order_of (f c) = order_of c \<and> cId (f c) = cId c \<and> cApprovedBy (f c) = cApprovedBy c \<and>
           cState (f c) \<notin> {Approved, Dispatched}"
  shows "race_inv (commandsT st' @ h) g st'"
proof (rule race_inv_update [OF assms(1,2,3)])
  fix x assume "x \<in> set (commandsT st)"
  with approval_ok_version [OF assms(1) this] assms(4) [of x]
  show "later_version x (if P x then f x else x) \<and> approval_ok g (if P x then f x else x)"
    by (auto simp: later_version_def approval_ok_def order_of_def)
qed

lemma create_record_InrD:
  assumes "create_record cfg sg env inp st = (Inr (row, needs), st')"
  shows "commandsT st' = commandsT st @ [row] \<and> sentCommands st' = sentCommands st \<and>
    cId row \<notin> cId ` set (commandsT st) \<and> needs = requiresApproval cfg (inKind inp) (inIssuedByRole inp) \<and>
    cState row = (if needs then PendingApproval else Approved) \<and> cApprovedBy row = None \<and>
    auditS st' = writeAudit (newAuditId env) (newAuditQueueId env) (callNow env)
       (issued_entry sg (cId row) needs inp) (auditS st) \<and>
    (\<exists>w host caps. effectiveCapabilitiesFor (inInstanceId inp) st = Inr (w, host, caps) \<and>
       COMMAND_CAPABILITY (inKind inp) \<in> set caps \<and> row = new_command cfg env w needs inp)"
  using assms
  by (auto simp: create_record_def Let_def insert_command_def new_command_def audit_write_def
      split: sum.splits if_splits option.splits)

lemma dispatch_send_cases:
  assumes "dispatch_send sg now c instName st = (out, st')"
  obtains (none) "st' = st" | (late) "st' = markExpired now (cId c) st"
    | (sent) n m where "commandsT st' = commandsT st" "sentCommands st' = sentCommands st @ [(n, m)]"
        "commandId m = cId c" "payload m = proto_payload (cType c) (cPayload c)" "cState c = Approved"
proof (cases "cState c = Approved \<and> \<not> past (cExpiresAt c) now")
  case False
  then show ?thesis using assms none late by (auto simp: dispatch_send_def split: if_splits)
next
  case True
  then have cs: "cState c = Approved" and fresh: "\<not> past (cExpiresAt c) now" by simp_all
  show ?thesis
  proof (cases "registry_get (cWorkerId c) (registryS st)")
    case None
    then show ?thesis using assms none by (simp add: dispatch_send_def cs fresh)
  next
    case live: (Some live)
    show ?thesis
    proof (cases "buildProtoCommand now (cId c) (cType c) instName (cPayload c)")
      case None
      then show ?thesis using assms none live by (simp add: dispatch_send_def cs fresh)
    next
      case cmd: (Some cmd)
      then have m: "commandId cmd = cId c" "payload cmd = proto_payload (cType c) (cPayload c)"
        by (auto simp: buildProtoCommand_def)
      show ?thesis
      proof (cases "signCommand (sha256 sg) (rsaSign sg) cmd (signingPrivateKeyPem sg)")
        case None
        then show ?thesis using assms none live cmd by (simp add: dispatch_send_def cs fresh)
      next
        case (Some sig)
        then have "st' = (open_span (cId c) st)\<lparr>sentCommands := sentCommands st @
            [(sessionNo live, cmd\<lparr>signature := sig\<rparr>)]\<rparr>"
          using assms live cmd by (simp add: dispatch_send_def cs fresh)
        then show ?thesis using m by (intro sent [of "sessionNo live" "cmd\<lparr>signature := sig\<rparr>"]) (simp_all add: open_span_def cs)
      qed
    qed
  qed
qed

lemma race_inv_raced: "raced cfg sg h g st \<Longrightarrow> race_inv h g st"
proof (induction rule: raced.induct)
  case (start st)
  then show ?case by (simp add: race_inv_def)
next
  case (issue h g st env inp row needs st')
  note r = create_record_InrD [OF issue.hyps(2)]
  have cs: "commandsT st' = commandsT st @ [row]" and snt: "sentCommands st' = sentCommands st"
    and fresh: "cId row \<notin> cId ` set (commandsT st)"
    and stt: "cState row = (if needs then PendingApproval else Approved)" "cApprovedBy row = None"
    using r by blast+
  have inv: "distinct (map cId (commandsT st))" "set g \<subseteq> cId ` set h"
    "\<And>c. c \<in> set h \<Longrightarrow> \<exists>x \<in> set (commandsT st). later_version c x"
    using issue.IH unfolding race_inv_def by blast+
  have new: "cId row \<notin> cId ` set h"
  proof
    assume "cId row \<in> cId ` set h"
    then obtain c where c: "c \<in> set h" "cId row = cId c" by blast
    from inv(3) [OF c(1)] obtain x where "x \<in> set (commandsT st)" "cId x = cId row"
      using c(2) by (auto simp: later_version_def)
    with fresh show False by (metis image_eqI)
  qed
  have notg: "cId row \<notin> set g" using new issue.IH by (auto simp: race_inv_def)
  let ?g = "if needs then cId row # g else g"
  have ok: "approval_ok ?g c" if "c \<in> set h" for c
  proof -
    have "cId c \<noteq> cId row" using new that by (metis image_eqI)
    then show ?thesis using issue.IH that by (auto simp: race_inv_def approval_ok_def)
  qed
  have okr: "approval_ok ?g row" using stt notg by (auto simp: approval_ok_def)
  have sub: "set (commandsT st) \<subseteq> set h" using issue.IH by (simp add: race_inv_def)
  have sent: "sent_ok ?g (commandsT st') m" if "(n, m) \<in> set (sentCommands st')" for n m
  proof -
    have "sent_ok g (commandsT st) m" using issue.IH snt that by (auto simp: race_inv_def)
    then obtain x where x: "x \<in> set (commandsT st)" "cId x = commandId m"
      "payload m = proto_payload (cType x) (cPayload x)"
      "commandId m \<in> set g \<longrightarrow> cApprovedBy x \<noteq> None" unfolding sent_ok_def by blast
    then have "commandId m \<noteq> cId row" using fresh by (metis image_eqI)
    with x show ?thesis unfolding sent_ok_def cs by auto
  qed
  have "\<exists>x \<in> set (commandsT st'). later_version c x" if "c \<in> set (commandsT st' @ h)" for c
    using that inv(3) unfolding cs set_append by (metis Un_iff later_version_refl)
  moreover have "approval_ok ?g c" if "c \<in> set (commandsT st' @ h)" for c
    using that ok okr sub unfolding cs by auto
  moreover have "set ?g \<subseteq> cId ` set (commandsT st' @ h)" using inv(2) cs by auto
  moreover have "distinct (map cId (commandsT st'))" using inv(1) fresh by (simp add: cs)
  moreover have "\<forall>(n, m) \<in> set (sentCommands st'). sent_ok ?g (commandsT st') m" using sent by blast
  ultimately show ?case unfolding race_inv_def by simp
next
  case (approving h g st c env who username addr r st')
  consider (err) "st' = st" | (late) "st' = markExpired (callNow env) (cId c) st"
    | (ok) "commandsT st' = map (\<lambda>x. if cId x = cId c then x\<lparr>cState := Approved,
          cApprovedBy := Some who, cApprovedAt := Some (callNow env)\<rparr> else x) (commandsT st)"
        "sentCommands st' = sentCommands st" "cIssuedBy c \<noteq> Some who"
    using approving.hyps(3) by (auto simp: approve_row_def split: if_splits)
  then show ?case
  proof cases
    case err
    then show ?thesis using race_inv_same [OF approving.IH] by simp
  next
    case late
    then show ?thesis
      by (intro race_inv_expired [OF approving.IH, where P = "\<lambda>x. cId x = cId c" and
          f = "\<lambda>c. c\<lparr>cState := Expired, cResultCode := Some ''Expired'', cCompletedAt := Some (callNow env)\<rparr>"])
        (auto simp: markExpired_def order_of_def)
  next
    case ok
    show ?thesis
    proof (rule race_inv_update [OF approving.IH ok(1,2)])
      fix x assume x: "x \<in> set (commandsT st)"
      show "later_version x (if cId x = cId c then x\<lparr>cState := Approved,
          cApprovedBy := Some who, cApprovedAt := Some (callNow env)\<rparr> else x) \<and>
        approval_ok g (if cId x = cId c then x\<lparr>cState := Approved,
          cApprovedBy := Some who, cApprovedAt := Some (callNow env)\<rparr> else x)"
      proof (cases "cId x = cId c")
        case True
        with raced_version [OF approving.IH approving.hyps(2) x] ok(3)
        show ?thesis by (auto simp: later_version_def approval_ok_def order_of_def)
      next
        case False
        with approval_ok_version [OF approving.IH x] show ?thesis by simp
      qed
    qed
  qed
next
  case (rejecting h g st c env username reason addr r st')
  show ?case
  proof (cases "cState c = PendingApproval")
    case True
    show ?thesis
      by (rule race_inv_expired [OF rejecting.IH, where P = "\<lambda>x. cId x = cId c" and
          f = "\<lambda>x. x\<lparr>cState := Rejected, cResultDetail := Some reason, cCompletedAt := Some (callNow env)\<rparr>"])
        (use rejecting.hyps(3) True in \<open>auto simp: reject_row_def order_of_def\<close>)
  next
    case False
    then have "st' = st" using rejecting.hyps(3) by (simp add: reject_row_def)
    then show ?thesis using race_inv_same [OF rejecting.IH] by simp
  qed
next
  case (sending h g st c now instName out st')
  from sending.hyps(3) show ?case
  proof (cases rule: dispatch_send_cases)
    case none
    then show ?thesis using race_inv_same [OF sending.IH] by simp
  next
    case late
    then show ?thesis
      by (intro race_inv_expired [OF sending.IH, where P = "\<lambda>x. cId x = cId c" and
          f = "\<lambda>c. c\<lparr>cState := Expired, cResultCode := Some ''Expired'', cCompletedAt := Some now\<rparr>"])
        (auto simp: markExpired_def order_of_def)
  next
    case (sent n m)
    have "approval_ok g c" using sending.IH sending.hyps(2) by (simp add: race_inv_def)
    moreover obtain x where "x \<in> set (commandsT st)" "later_version c x"
      using sending.IH sending.hyps(2) by (auto simp: race_inv_def)
    ultimately have "sent_ok g (commandsT st) m"
      using sent by (auto simp: sent_ok_def later_version_def order_of_def approval_ok_def)
    with sending.IH sent show ?thesis by (auto simp: race_inv_def)
  qed
next
  case (marking h g st c st' now sig)
  have "commandsT st' = map (\<lambda>x. if cId x = cId c then x\<lparr>cState := Dispatched,
      cDispatchedAt := Some now, cSignature := Some sig\<rparr> else x) (commandsT st)"
    "sentCommands st' = sentCommands st" using marking.hyps(4) by (simp_all add: dispatch_mark_def)
  then show ?case
  proof (rule race_inv_update [OF marking.IH])
    fix x assume x: "x \<in> set (commandsT st)"
    have "approval_ok g c" using marking.IH marking.hyps(2) by (simp add: race_inv_def)
    with raced_version [OF marking.IH marking.hyps(2) x] approval_ok_version [OF marking.IH x] marking.hyps(3)
    show "later_version x (if cId x = cId c then x\<lparr>cState := Dispatched,
        cDispatchedAt := Some now, cSignature := Some sig\<rparr> else x) \<and>
      approval_ok g (if cId x = cId c then x\<lparr>cState := Dispatched,
        cDispatchedAt := Some now, cSignature := Some sig\<rparr> else x)"
      by (auto simp: later_version_def approval_ok_def order_of_def)
  qed
next
  case (result h g st env rep r st')
  show ?case
  proof (cases "find (\<lambda>c. cId c = rCommandId rep \<and> cWorkerId c = rWorkerId rep) (commandsT st)")
    case None
    then have "st' = st" using result.hyps(2) by (simp add: recordResult_def)
    then show ?thesis using race_inv_same [OF result.IH] by simp
  next
    case (Some c)
    show ?thesis
      by (rule race_inv_expired [OF result.IH, where P = "\<lambda>x. cId x = rCommandId rep \<and> cWorkerId x = rWorkerId rep"
          and f = "\<lambda>x. x\<lparr>cState := (if rSuccess rep then Succeeded else Failed),
             cResultCode := Some (if rSuccess rep then ''Ok'' else rErrorCode rep),
             cResultDetail := (if rErrorDetail rep = [] then None else Some (rErrorDetail rep)),
             cSqlErrorNumber := (if rSqlErrorNumber rep = 0 then None else Some (rSqlErrorNumber rep)),
             cCompletedAt := Some (callNow env)\<rparr>"])
        (use result.hyps(2) Some in \<open>auto simp: recordResult_def Let_def order_of_def\<close>)
  qed
next
  case (expiring h g st now n st')
  show ?case
    by (rule race_inv_expired [OF expiring.IH, where P = "stale now" and
        f = "\<lambda>c. c\<lparr>cState := Expired, cResultCode := Some ''Expired'',
           cResultDetail := Some ''The command expired before it was applied (worker offline or not approved in time).'',
           cCompletedAt := Some now\<rparr>"])
      (use expiring.hyps(2) in \<open>auto simp: expireStale_def Let_def order_of_def\<close>)
next
  case (elsewhere h g st st')
  then show ?case by (simp add: race_inv_elsewhere)
qed

text \<open>
  C6. Four eyes, under every interleaving of the handlers. A command that was recorded as needing an
  approval never reaches a worker unless its row names an approver who is not its issuer, and what
  is sent is the payload that was recorded, whatever stale row versions the handlers acted on.
\<close>

theorem four_eyes_under_races:
  assumes "raced cfg sg h gated st" and "(n, m) \<in> set (sentCommands st)"
  shows "\<exists>c \<in> set (commandsT st). cId c = commandId m \<and>
     payload m = proto_payload (cType c) (cPayload c) \<and>
     (commandId m \<in> set gated \<longrightarrow> (\<exists>a. cApprovedBy c = Some a \<and> cIssuedBy c \<noteq> Some a))"
proof -
  have inv: "race_inv h gated st" by (rule race_inv_raced [OF assms(1)])
  with assms(2) have "sent_ok gated (commandsT st) m" by (auto simp: race_inv_def)
  then obtain c where c: "c \<in> set (commandsT st)" "cId c = commandId m"
    "payload m = proto_payload (cType c) (cPayload c)"
    "commandId m \<in> set gated \<longrightarrow> cApprovedBy c \<noteq> None" unfolding sent_ok_def by blast
  moreover have "approval_ok gated c" by (rule approval_ok_version [OF inv c(1)])
  ultimately show ?thesis by (auto simp: approval_ok_def)
qed

section \<open>A concrete estate\<close>

definition example_signer :: signer where
  "example_signer = \<lparr> sha256 = (\<lambda>s. []), rsaSign = (\<lambda>k b. []), signingPrivateKeyPem = ''key'' \<rparr>"

definition example_config :: server_config where
  "example_config = \<lparr> requireApprovalForJobWrite = True, approvalExemptRoles = [Admin],
     commandTtlSeconds = 60 \<rparr>"

definition example_call :: "string \<Rightarrow> call_env" where
  "example_call i = \<lparr> callNow = 0, dispatchNow = 0, newCommandId = i, newAuditId = ''a'' @ i,
     newAuditQueueId = ''q'' @ i \<rparr>"

definition example_input :: create_input where
  "example_input = \<lparr> inInstanceId = ''i'', inKind = DeleteJob, inJobUuid = Some ''u'',
     inPayload = [(''jobUuid'', JsStr ''u'')], inBaseHash = None, inIssuedBy = ''ana'',
     inIssuedByUsername = ''Ana'', inIssuedByRole = Editor, inRemoteAddress = None,
     inEnvironmentTag = None \<rparr>"

definition example_estate :: pipeline where
  "example_estate =
     \<lparr> workersT = [\<lparr> wId = ''w'', wHostName = ''H'', wCapabilities = [''job.write''],
         wMaxCapabilityReported = Some ''full'' \<rparr>],
       instancesT = [\<lparr> iId = ''i'', iWorkerId = ''w'', iName = ''SQL1'', iEnvironmentTag = None \<rparr>],
       usersT = [], jobNames = [], commandsT = [], auditS = \<lparr> auditLog = [], auditExportQueue = [] \<rparr>,
       registryS = snd (register (example_session 7) empty_registry), sentCommands = [], openSpans = [],
       endedSpans = [] \<rparr>"

text \<open>Ana's deletion is recorded, Bo approves it, and it is dispatched.\<close>

definition example_recorded :: pipeline where
  "example_recorded = snd (create_record example_config example_signer (example_call ''1'') example_input
     example_estate)"

definition example_row :: command_row where
  "example_row = new_command example_config (example_call ''1'') ''w'' True example_input"

definition example_approved :: pipeline where
  "example_approved = snd (approve_row (example_call ''2'') example_row ''bo'' ''Bo'' None example_recorded)"

definition example_sent :: pipeline where
  "example_sent = snd (dispatch_send example_signer 0 (hd (commandsT example_approved)) ''SQL1'' example_approved)"

lemmas example_defs = example_signer_def example_config_def example_call_def example_input_def
  example_estate_def example_recorded_def example_row_def example_approved_def example_sent_def

lemma sign_short:
  assumes "list_all (\<lambda>s. length s < 1000)
     [commandId c, commandKind c, commandPayloadHash sha c, issued_text c, instanceName c]"
  shows "\<exists>sig. signCommand sha rsa c key = Some sig"
proof -
  have "list_all fits [commandId c, commandKind c, commandPayloadHash sha c, issued_text c, instanceName c]"
    using assms by (simp add: fits_short)
  with signing_bytes_Some show ?thesis by (fastforce simp: signCommand_def)
qed

lemma dispatch_send_sends:
  assumes "cState c = Approved" and "\<not> past (cExpiresAt c) now"
    and "registry_get (cWorkerId c) (registryS st) = Some live"
    and "buildProtoCommand now (cId c) (cType c) instName (cPayload c) = Some cmd"
    and "signCommand (sha256 sg) (rsaSign sg) cmd (signingPrivateKeyPem sg) = Some sig"
  shows "dispatch_send sg now c instName st = (Sent sig, (open_span (cId c) st)\<lparr>sentCommands :=
     sentCommands st @ [(sessionNo live, cmd\<lparr>signature := sig\<rparr>)]\<rparr>)"
  using assms by (simp add: dispatch_send_def)

lemma example_dispatch:
  "\<exists>cmd sig. commandId cmd = ''1'' \<and> sentCommands example_sent = [(7, cmd\<lparr>signature := sig\<rparr>)] \<and>
     commandsT example_sent = [example_row\<lparr>cState := Approved, cApprovedBy := Some ''bo'',
        cApprovedAt := Some 0\<rparr>]"
proof -
  let ?c = "hd (commandsT example_approved)"
  have c: "commandsT example_approved = [example_row\<lparr>cState := Approved, cApprovedBy := Some ''bo'',
      cApprovedAt := Some 0\<rparr>]" by code_simp
  have r: "registry_get ''w'' (registryS example_approved) = Some (example_session 7)"
    and s0: "sentCommands example_approved = []" by code_simp+
  let ?cmd = "\<lparr> commandId = ''1'', issuedAt = Some (toTimestamp 0), instanceName = ''SQL1'',
      signature = [], payload = Some (PDeleteJob ''u'' []) \<rparr>"
  have row: "cId ?c = ''1''" "cType ?c = DeleteJob" "cState ?c = Approved" "cWorkerId ?c = ''w''"
    "cPayload ?c = [(''jobUuid'', JsStr ''u'')]" "\<not> past (cExpiresAt ?c) 0"
    by (simp_all add: c example_row_def new_command_def example_call_def example_input_def
        example_config_def past_def)
  have b: "buildProtoCommand 0 (cId ?c) (cType ?c) ''SQL1'' (cPayload ?c) = Some ?cmd"
    by (simp only: row) (simp add: buildProtoCommand_def str_field_def field_def)
  have "list_all (\<lambda>s. length s < 1000) [commandId ?cmd, commandKind ?cmd,
      commandPayloadHash (sha256 example_signer) ?cmd, issued_text ?cmd, instanceName ?cmd]"
    by (simp add: commandKind_def commandPayloadHash_def issued_text_def toTimestamp_def
        example_signer_def show_int_def show_nat.simps)
  then obtain sig where "signCommand (sha256 example_signer) (rsaSign example_signer) ?cmd
      (signingPrivateKeyPem example_signer) = Some sig" using sign_short by blast
  from dispatch_send_sends [OF row(3,6) _ b this, of example_approved "example_session 7"]
  have es: "example_sent = (open_span ''1'' example_approved)\<lparr>sentCommands := [(7, ?cmd\<lparr>signature := sig\<rparr>)]\<rparr>"
    by (simp add: example_sent_def row r s0 example_session_def)
  have cs: "commandsT (open_span i st) = commandsT st" for i st by (simp add: open_span_def)
  have "sentCommands example_sent = [(7, ?cmd\<lparr>signature := sig\<rparr>)]" by (simp add: es)
  moreover have "commandsT example_sent = commandsT example_approved" by (simp add: es cs)
  ultimately show ?thesis using c by (intro exI [of _ ?cmd] exI [of _ sig]) simp
qed

lemma example_raced:
  "raced example_config example_signer
     (commandsT example_sent @ commandsT example_approved @ commandsT example_recorded @ []) [''1'']
     example_sent"
proof -
  have "raced example_config example_signer [] [] example_estate"
    by (rule raced.start) (simp_all add: example_estate_def)
  moreover have "fst (create_record example_config example_signer (example_call ''1'') example_input
      example_estate) = Inr (example_row, True)" by code_simp
  then have "create_record example_config example_signer (example_call ''1'') example_input
      example_estate = (Inr (example_row, True), example_recorded)"
    by (simp add: prod_eq_iff example_recorded_def)
  ultimately have "raced example_config example_signer (commandsT example_recorded @ [])
      (if True then cId example_row # [] else []) example_recorded" by (rule raced.issue)
  then have 1: "raced example_config example_signer (commandsT example_recorded @ []) [''1''] example_recorded"
    by (simp add: example_row_def new_command_def example_call_def)
  have "example_row \<in> set (commandsT example_recorded @ [])" by code_simp
  with 1 have "raced example_config example_signer (commandsT example_approved @ commandsT example_recorded @ [])
      [''1''] example_approved"
    by (rule raced.approving) (simp add: example_approved_def prod_eq_iff)
  moreover have "hd (commandsT example_approved) \<in> set (commandsT example_approved @ commandsT example_recorded @ [])"
    by code_simp
  ultimately show ?thesis
    by (rule raced.sending) (simp add: example_sent_def prod_eq_iff)
qed

theorem four_eyes_under_races_witness:
  "\<exists>c \<in> set (commandsT example_sent). cId c = ''1'' \<and> cIssuedBy c = Some ''ana'' \<and> cApprovedBy c = Some ''bo''"
proof -
  obtain n m where sent: "sentCommands example_sent = [(n, m)]" and i: "commandId m = ''1''"
    and row: "commandsT example_sent = [example_row\<lparr>cState := Approved, cApprovedBy := Some ''bo'',
        cApprovedAt := Some 0\<rparr>]"
    using example_dispatch by auto
  have "\<exists>c \<in> set (commandsT example_sent). cId c = commandId m \<and>
     payload m = proto_payload (cType c) (cPayload c) \<and>
     (commandId m \<in> set [''1''] \<longrightarrow> (\<exists>a. cApprovedBy c = Some a \<and> cIssuedBy c \<noteq> Some a))"
    by (rule four_eyes_under_races [OF example_raced, of n]) (simp add: sent)
  then obtain c where "c \<in> set (commandsT example_sent)" "cId c = ''1''" using i by auto
  moreover have "\<forall>c \<in> set (commandsT example_sent). cIssuedBy c = Some ''ana'' \<and> cApprovedBy c = Some ''bo''"
    by (simp add: row example_row_def new_command_def example_input_def)
  ultimately show ?thesis by blast
qed

text \<open>
  The update statements do not repeat the check on the state. An approval that read the row before a
  rejection was written turns the rejected command into an approved one.
\<close>

lemma stale_approval_overrides_rejection:
  assumes "cState c = PendingApproval" and "cIssuedBy c \<noteq> Some who"
    and "\<not> past (cExpiresAt c) (callNow env')" and "c \<in> set (commandsT st)"
  shows "\<exists>st1 st2. reject_row env c rejector reason addr st = (Inr (), st1) \<and>
     (\<forall>x \<in> set (commandsT st1). cId x = cId c \<longrightarrow> cState x = Rejected) \<and>
     approve_row env' c who username addr st1 = (Inr (), st2) \<and>
     (\<forall>x \<in> set (commandsT st2). cId x = cId c \<longrightarrow> cState x = Approved)"
  using assms by (auto simp: reject_row_def approve_row_def)

end
