(* ===== verification/PipelineRuns.thy ===== *)
theory PipelineRuns
  imports CommandPipelineLaws
begin

text \<open>
  Whole handlers of the command pipeline run one after the other: each operation on every branch,
  and what holds of every state they can reach from an estate without commands.
\<close>

section \<open>Operations one by one\<close>

text \<open>A dispatch sends one signed message and marks the row, or it sends nothing.\<close>

definition sendable :: "signer \<Rightarrow> int \<Rightarrow> pipeline \<Rightarrow> command_row \<Rightarrow> nat \<times> agent_command \<Rightarrow> bool" where
  "sendable sg now st c msg \<longleftrightarrow>
     (case (find (\<lambda>n. iId n = cInstanceId c) (instancesT st), registry_get (cWorkerId c) (registryS st)) of
        (Some n, Some live) \<Rightarrow>
          cState c = Approved \<and> \<not> past (cExpiresAt c) now \<and>
          (case buildProtoCommand now (cId c) (cType c) (iName n) (cPayload c) of
             None \<Rightarrow> False
           | Some cmd \<Rightarrow>
               (case signCommand (sha256 sg) (rsaSign sg) cmd (signingPrivateKeyPem sg) of
                  None \<Rightarrow> False
                | Some sig \<Rightarrow> msg = (sessionNo live, cmd\<lparr>signature := sig\<rparr>)))
      | _ \<Rightarrow> False)"

lemma sendable_iff:
  "sendable sg now st c msg \<longleftrightarrow>
     (\<exists>n live cmd sig. find (\<lambda>n. iId n = cInstanceId c) (instancesT st) = Some n \<and>
        registry_get (cWorkerId c) (registryS st) = Some live \<and> cState c = Approved \<and>
        \<not> past (cExpiresAt c) now \<and>
        buildProtoCommand now (cId c) (cType c) (iName n) (cPayload c) = Some cmd \<and>
        signCommand (sha256 sg) (rsaSign sg) cmd (signingPrivateKeyPem sg) = Some sig \<and>
        msg = (sessionNo live, cmd\<lparr>signature := sig\<rparr>))"
  by (auto simp: sendable_def split: option.splits)

lemma find_commandD: "find_command i st = Some c \<Longrightarrow> c \<in> set (commandsT st) \<and> cId c = i"
  by (auto simp: find_command_def dest: find_SomeD)

definition mark_dispatched :: "int \<Rightarrow> string \<Rightarrow> 8 word list \<Rightarrow> command_row \<Rightarrow> command_row" where
  "mark_dispatched now i sig x = (if cId x = i
     then x\<lparr>cState := Dispatched, cDispatchedAt := Some now, cSignature := Some sig\<rparr> else x)"

definition mark_expired :: "int \<Rightarrow> string \<Rightarrow> command_row \<Rightarrow> command_row" where
  "mark_expired now i x = (if cId x = i
     then x\<lparr>cState := Expired, cResultCode := Some ''Expired'', cCompletedAt := Some now\<rparr> else x)"

lemma dispatch_cases:
  assumes "dispatch sg now i st = (r, st')"
  obtains (none) "r \<noteq> Inr True" and "st' = st"
  | (late) c where "r = Inr False" and "find_command i st = Some c" and "cState c = Approved"
      and "past (cExpiresAt c) now" and "st' = markExpired now i st"
  | (sent) c msg where "r = Inr True" and "find_command i st = Some c" and "sendable sg now st c msg"
      and "commandsT st' = map (mark_dispatched now i (signature (snd msg))) (commandsT st)"
      and "sentCommands st' = sentCommands st @ [msg]" and "auditS st' = auditS st"
      and "registryS st' = registryS st" and "instancesT st' = instancesT st"
proof (cases "find_command i st")
  case None
  then show ?thesis using assms none by (auto simp: dispatch_def)
next
  case c: (Some c)
  show ?thesis
  proof (cases "find (\<lambda>n. iId n = cInstanceId c) (instancesT st)")
    case None
    then show ?thesis using assms none c by (auto simp: dispatch_def)
  next
    case n: (Some n)
    have i: "cId c = i" using find_commandD [OF c] by simp
    show ?thesis
    proof (cases "cState c = Approved \<and> \<not> past (cExpiresAt c) now")
      case False
      then show ?thesis
        using assms none late [OF _ c] i by (auto simp: dispatch_def c n dispatch_send_def split: if_splits)
    next
      case True
      show ?thesis
      proof (cases "dispatch_send sg now c (iName n) st")
        case (Pair out st1)
        show ?thesis
        proof (cases out)
          case (Sent sig)
          with Pair True obtain live cmd where send: "registry_get (cWorkerId c) (registryS st) = Some live"
            "buildProtoCommand now (cId c) (cType c) (iName n) (cPayload c) = Some cmd"
            "signCommand (sha256 sg) (rsaSign sg) cmd (signingPrivateKeyPem sg) = Some sig"
            "st1 = (open_span (cId c) st)\<lparr>sentCommands :=
               sentCommands st @ [(sessionNo live, cmd\<lparr>signature := sig\<rparr>)]\<rparr>"
            by (auto simp: dispatch_send_def split: option.splits)
          have "sendable sg now st c (sessionNo live, cmd\<lparr>signature := sig\<rparr>)"
            using n send True by (simp add: sendable_def)
          moreover have "st' = dispatch_mark now i sig st1" "r = Inr True"
            using assms by (simp_all add: dispatch_def c n Pair Sent)
          ultimately show ?thesis
            by (intro sent [OF _ c, of "(sessionNo live, cmd\<lparr>signature := sig\<rparr>)"])
              (simp_all add: send(4) dispatch_mark_def update_commands_def open_span_def mark_dispatched_def)
        qed (use assms none Pair True in \<open>auto simp: dispatch_def c n dispatch_send_def split: option.splits\<close>)
      qed
    qed
  qed
qed

lemma dispatch_sendable:
  assumes "find_command i st = Some c" and "sendable sg now st c msg"
  shows "\<exists>st'. dispatch sg now i st = (Inr True, st') \<and> sentCommands st' = sentCommands st @ [msg]"
  using assms find_commandD [OF assms(1)]
  by (auto simp: dispatch_def dispatch_send_def sendable_def dispatch_mark_def
      split: option.splits)

text \<open>Issuing: a denied command leaves no trace; an accepted one is in the table and in the trail.\<close>

lemma create_denied:
  assumes "effectiveCapabilitiesFor (inInstanceId inp) st = Inr (w, host, caps)"
    and "COMMAND_CAPABILITY (inKind inp) \<notin> set caps"
  shows "create_command cfg sg env inp st =
     (Inl (CommandError 403 ''CapabilityDenied'' (denied_message host (COMMAND_CAPABILITY (inKind inp)) caps)), st)"
  using assms by (simp add: create_command_def create_record_def Let_def)

lemma create_fails_clean:
  "create_record cfg sg env inp st = (Inl e, st') \<Longrightarrow> st' = st"
  by (auto simp: create_record_def Let_def split: sum.splits option.splits if_splits)

lemma ceiling_set_tierD:
  "ceiling_set v = Some a \<Longrightarrow> c \<in> set a \<Longrightarrow> \<exists>t. v = tier_name t \<and> a = MAX_CAPABILITY_TIERS t"
  by (auto simp: ceiling_set_def dest!: find_SomeD split: option.splits if_splits)

lemma effective_within:
  assumes "effectiveCapabilitiesFor inst st = Inr (w, host, caps)" and "c \<in> set caps" and "c \<noteq> Observe"
  shows "\<exists>x \<in> set (workersT st). wId x = w \<and> cap_name c \<in> set (wCapabilities x) \<and>
     (\<exists>t. wMaxCapabilityReported x = Some (tier_name t) \<and> c \<in> set (MAX_CAPABILITY_TIERS t))"
proof -
  from assms(1) obtain x xs where xs: "List.map_filter (\<lambda>i. if iId i = inst
        then find (\<lambda>w. wId w = iWorkerId i) (workersT st) else None) (instancesT st) = x # xs"
    by (auto simp: effectiveCapabilitiesFor_def split: list.splits)
  let ?rep = "case wMaxCapabilityReported x of None \<Rightarrow> [] | Some c \<Rightarrow> c"
  let ?ceil = "if isMaxCapabilityTier ?rep then ?rep else ''readOnly''"
  have eff: "effectiveCapabilities (wCapabilities x) ?ceil = Some caps" and w: "w = wId x"
    using assms(1) xs by (auto simp: effectiveCapabilitiesFor_def Let_def split: option.splits)
  have "x \<in> set (List.map_filter (\<lambda>i. if iId i = inst
        then find (\<lambda>w. wId w = iWorkerId i) (workersT st) else None) (instancesT st))" by (simp add: xs)
  then have x: "x \<in> set (workersT st)" by (auto simp: set_map_filter_eq dest: find_SomeD split: if_splits)
  obtain allowed where a: "ceiling_set ?ceil = Some allowed"
    using eff by (cases "ceiling_set ?ceil") (simp_all add: effectiveCapabilities_def)
  from effectiveCapabilities_set [OF eff a] assms(2,3)
  have c: "c \<in> set allowed" "cap_name c \<in> set (wCapabilities x)" by auto
  have "ceiling_set ''readOnly'' = Some [Observe]" using ceiling_set_tier [of ReadOnly] by simp
  with a c(1) assms(3) have rep: "?ceil = ?rep" by (auto split: if_splits)
  obtain t where t: "?rep = tier_name t" "allowed = MAX_CAPABILITY_TIERS t"
    using ceiling_set_tierD [OF a c(1)] unfolding rep by blast
  have "tier_name t \<noteq> []" by (cases t) auto
  with t(1) have "wMaxCapabilityReported x = Some (tier_name t)" by (auto split: option.splits)
  with x w c t(2) show ?thesis by blast
qed

text \<open>A result touches only the reporting worker's own row, and is ignored when there is none.\<close>

lemma result_scoped:
  assumes "recordResult env rep st = (r, st')" and "x \<in> set (commandsT st)"
    and "cWorkerId x \<noteq> rWorkerId rep \<or> cId x \<noteq> rCommandId rep"
  shows "x \<in> set (commandsT st')"
  using assms by (auto simp: recordResult_def Let_def split: option.splits)

lemma result_unknown:
  "recordResult env rep st = (None, st') \<Longrightarrow> st' = st"
  by (auto simp: recordResult_def Let_def split: option.splits)

text \<open>The state of a row is not consulted: a result overwrites an expiry, a rejection or a result.\<close>

lemma result_overwrites:
  assumes "x \<in> set (commandsT st)" and "cId x = rCommandId rep" and "cWorkerId x = rWorkerId rep"
    and "rSuccess rep" and "distinct (map cId (commandsT st))"
  shows "\<exists>out st'. recordResult env rep st = (Some out, st') \<and>
     (\<forall>y \<in> set (commandsT st'). cId y = cId x \<longrightarrow> cState y = Succeeded)"
proof -
  obtain c where c: "find (\<lambda>c. cId c = rCommandId rep \<and> cWorkerId c = rWorkerId rep) (commandsT st) = Some c"
    using assms(1-3) by (cases "find (\<lambda>c. cId c = rCommandId rep \<and> cWorkerId c = rWorkerId rep) (commandsT st)")
      (auto simp: find_None_iff)
  have inj: "y = x" if "y \<in> set (commandsT st)" "cId y = cId x" for y
    using inj_onD [of cId "set (commandsT st)" y x] that assms(1,5) by (simp add: distinct_map)
  let ?f = "\<lambda>y. if cId y = rCommandId rep \<and> cWorkerId y = rWorkerId rep
      then y\<lparr>cState := Succeeded, cResultCode := Some ''Ok'',
        cResultDetail := (if rErrorDetail rep = [] then None else Some (rErrorDetail rep)),
        cSqlErrorNumber := (if rSqlErrorNumber rep = 0 then None else Some (rSqlErrorNumber rep)),
        cCompletedAt := Some (callNow env)\<rparr> else y"
  obtain out st' where r: "recordResult env rep st = (Some out, st')" "commandsT st' = map ?f (commandsT st)"
    using assms(4) by (simp add: recordResult_def c Let_def)
  have "cState (?f y) = Succeeded" if "y \<in> set (commandsT st)" "cId (?f y) = cId x" for y
  proof -
    have "cId y = cId x" using that(2) by (simp split: if_splits)
    with inj that(1) have "y = x" by blast
    with assms(2,3) show ?thesis by simp
  qed
  then have "\<forall>y \<in> set (commandsT st'). cId y = cId x \<longrightarrow> cState y = Succeeded"
    unfolding r(2) set_map by blast
  with r(1) show ?thesis by blast
qed

text \<open>After an expiry run no row is stale, settled rows are as they were, and the count is right.\<close>

lemma expireStale_spec:
  assumes "expireStale now st = (n, st')"
  shows "filter (stale now) (commandsT st') = [] \<and> n = length (filter (stale now) (commandsT st)) \<and>
     (\<forall>x \<in> set (commandsT st). \<not> stale now x \<longrightarrow> x \<in> set (commandsT st')) \<and>
     sentCommands st' = sentCommands st"
  using assms by (auto simp: expireStale_def Let_def filter_empty_conv stale_def)

section \<open>Runs\<close>

datatype pipeline_op =
    Create call_env create_input
  | Approve call_env string string string "string option"
  | Reject call_env string string string "string option"
  | DispatchPending int string
  | Report call_env result_report
  | ExpireStale int
  | Registry registry_event
  | Estate "worker_row list" "instance_row list"

fun run_op :: "server_config \<Rightarrow> signer \<Rightarrow> pipeline_op \<Rightarrow> pipeline \<Rightarrow> pipeline" where
  "run_op cfg sg (Create env inp) st = snd (create_command cfg sg env inp st)"
| "run_op cfg sg (Approve env i who username addr) st = snd (approve sg env i who username addr st)"
| "run_op cfg sg (Reject env i username reason addr) st = snd (reject env i username reason addr st)"
| "run_op cfg sg (DispatchPending now w) st = snd (dispatchPendingFor sg now w st)"
| "run_op cfg sg (Report env rep) st = snd (recordResult env rep st)"
| "run_op cfg sg (ExpireStale now) st = snd (expireStale now st)"
| "run_op cfg sg (Registry e) st = st\<lparr>registryS := registry_step e (registryS st)\<rparr>"
| "run_op cfg sg (Estate ws is) st = st\<lparr>workersT := ws, instancesT := is\<rparr>"

definition pipeline_run :: "server_config \<Rightarrow> signer \<Rightarrow> pipeline_op list \<Rightarrow> pipeline \<Rightarrow> pipeline" where
  "pipeline_run cfg sg ops st = foldl (\<lambda>st op. run_op cfg sg op st) st ops"

definition settled :: "command_row \<Rightarrow> bool" where
  "settled c \<longleftrightarrow> cState c \<notin> {PendingApproval, Approved}"

definition issued_in_trail :: "pipeline \<Rightarrow> command_row \<Rightarrow> bool" where
  "issued_in_trail st c \<longleftrightarrow>
     (\<exists>e \<in> set (written (auditS st)). action e = ''command.issued'' \<and> auditTarget e = Some (cId c))"

definition well_signed :: "signer \<Rightarrow> agent_command \<Rightarrow> bool" where
  "well_signed sg m \<longleftrightarrow>
     signCommand (sha256 sg) (rsaSign sg) (m\<lparr>signature := []\<rparr>) (signingPrivateKeyPem sg) = Some (signature m)"

definition messages_of :: "string \<Rightarrow> pipeline \<Rightarrow> (nat \<times> agent_command) list" where
  "messages_of i st = filter (\<lambda>msg. commandId (snd msg) = i) (sentCommands st)"

definition run_inv :: "signer \<Rightarrow> pipeline \<Rightarrow> bool" where
  "run_inv sg st \<longleftrightarrow>
     distinct (map cId (commandsT st)) \<and> distinct (map (commandId \<circ> snd) (sentCommands st)) \<and>
     (\<forall>msg \<in> set (sentCommands st). well_signed sg (snd msg) \<and>
        (\<exists>c \<in> set (commandsT st). cId c = commandId (snd msg) \<and> settled c)) \<and>
     (\<forall>c \<in> set (commandsT st). issued_in_trail st c)"

definition step_ok :: "signer \<Rightarrow> pipeline \<Rightarrow> pipeline \<Rightarrow> bool" where
  "step_ok sg st st' \<longleftrightarrow> run_inv sg st' \<and>
     (\<forall>c \<in> set (commandsT st). settled c \<longrightarrow>
        (\<exists>x \<in> set (commandsT st'). cId x = cId c \<and> settled x) \<and>
        messages_of (cId c) st' = messages_of (cId c) st)"

lemma step_ok_refl: "run_inv sg st \<Longrightarrow> step_ok sg st st"
  by (auto simp: step_ok_def)

lemma step_ok_trans: "step_ok sg a b \<Longrightarrow> step_ok sg b c \<Longrightarrow> step_ok sg a c"
  unfolding step_ok_def by metis

lemma step_ok_map:
  assumes inv: "run_inv sg st" and cs: "commandsT st' = map f (commandsT st)"
    and sent: "sentCommands st' = sentCommands st"
    and aud: "set (written (auditS st)) \<subseteq> set (written (auditS st'))"
    and f: "\<And>x. x \<in> set (commandsT st) \<Longrightarrow> cId (f x) = cId x \<and> (settled x \<longrightarrow> settled (f x))"
  shows "step_ok sg st st'"
proof -
  have ids: "map cId (commandsT st') = map cId (commandsT st)" using f by (simp add: cs)
  have keep: "\<exists>x \<in> set (commandsT st'). cId x = cId c \<and> settled x"
    if "c \<in> set (commandsT st)" "settled c" for c
    using f [OF that(1)] that by (auto simp: cs)
  have "issued_in_trail st' c" if "c \<in> set (commandsT st')" for c
    using that inv aud f unfolding run_inv_def issued_in_trail_def by (force simp: cs)
  moreover have "\<exists>c \<in> set (commandsT st'). cId c = commandId (snd msg) \<and> settled c"
    if "msg \<in> set (sentCommands st')" for msg
    using that keep inv unfolding run_inv_def sent by metis
  ultimately have "run_inv sg st'" using inv ids by (simp add: run_inv_def sent)
  with keep show ?thesis by (simp add: step_ok_def messages_of_def sent)
qed

lemma written_writeAudit [simp]: "written (writeAudit i qi now e a) = written a @ [e]"
  using audit_trail.entries_add [where newId = "\<lambda>_. i" and newQueueId = "\<lambda>_. qi" and now = "\<lambda>_. now"
      and e = e and s = a] .

lemma written_audit_write [simp]: "written (auditS (audit_write env e st)) = written (auditS st) @ [e]"
  by (simp add: audit_write_def)

lemma update_commands_audit [simp]: "auditS (update_commands P f st) = auditS st"
  by (simp add: update_commands_def)

lemma run_inv_row:
  "run_inv sg st \<Longrightarrow> x \<in> set (commandsT st) \<Longrightarrow> c \<in> set (commandsT st) \<Longrightarrow> cId x = cId c \<Longrightarrow> x = c"
  by (auto simp: run_inv_def distinct_map dest: inj_onD)

lemma step_ok_expired:
  assumes "run_inv sg st" shows "step_ok sg st (markExpired now i st)"
  by (rule step_ok_map [OF assms, of _ "mark_expired now i"])
    (auto simp: markExpired_def mark_expired_def settled_def fun_eq_iff)

lemma sendable_message:
  assumes "sendable sg now st c msg"
  shows "cState c = Approved \<and> commandId (snd msg) = cId c \<and> well_signed sg (snd msg)"
  using assms unfolding sendable_iff by (auto simp: buildProtoCommand_def well_signed_def)

lemma step_ok_dispatch:
  assumes inv: "run_inv sg st" and run: "dispatch sg now i st = (r, st')"
  shows "step_ok sg st st'"
  using run
proof (cases rule: dispatch_cases)
  case none
  then show ?thesis using step_ok_refl [OF inv] by simp
next
  case (late c)
  then show ?thesis using step_ok_expired [OF inv] by simp
next
  case (sent c msg)
  note c = find_commandD [OF sent(2)] and m = sendable_message [OF sent(3)]
  have uns: "\<not> settled c" using m by (simp add: settled_def)
  have fresh: "commandId (snd msg') \<noteq> i" if "msg' \<in> set (sentCommands st)" for msg'
  proof
    assume "commandId (snd msg') = i"
    with inv that obtain x where "x \<in> set (commandsT st)" "cId x = i" "settled x"
      unfolding run_inv_def by metis
    with run_inv_row [OF inv, of x c] c uns show False by simp
  qed
  let ?f = "mark_dispatched now i (signature (snd msg))"
  have f: "cId (?f x) = cId x \<and> (settled x \<longrightarrow> settled (?f x))" for x
    by (simp add: mark_dispatched_def settled_def)
  have ids: "map cId (commandsT st') = map cId (commandsT st)" using f by (simp add: sent(4))
  have keep: "\<exists>x \<in> set (commandsT st'). cId x = cId y \<and> settled x"
    if "y \<in> set (commandsT st)" "settled y" for y
    using that f by (auto simp: sent(4))
  have "?f c \<in> set (commandsT st')" "settled (?f c)" "cId (?f c) = i"
    using c by (auto simp: sent(4) mark_dispatched_def settled_def)
  then have row: "\<exists>x \<in> set (commandsT st'). cId x = commandId (snd msg) \<and> settled x"
    using m c by auto
  have "\<exists>x \<in> set (commandsT st'). cId x = commandId (snd msg') \<and> settled x"
    if "msg' \<in> set (sentCommands st')" for msg'
    using that row keep inv unfolding run_inv_def sent(5) by (auto; metis)
  moreover have "well_signed sg (snd msg')" if "msg' \<in> set (sentCommands st')" for msg'
    using that m inv unfolding run_inv_def sent(5) by auto
  moreover have "distinct (map (commandId \<circ> snd) (sentCommands st'))"
    using inv fresh m c by (force simp: run_inv_def sent(5))
  moreover have "issued_in_trail st' x" if "x \<in> set (commandsT st')" for x
    using that inv f unfolding run_inv_def issued_in_trail_def sent(6) by (force simp: sent(4))
  ultimately have "run_inv sg st'" using inv ids by (simp add: run_inv_def)
  moreover have "messages_of (cId y) st' = messages_of (cId y) st"
    if "y \<in> set (commandsT st)" "settled y" for y
  proof -
    have "cId y \<noteq> i" using run_inv_row [OF inv that(1), of c] c uns that(2) by auto
    then show ?thesis using m c by (simp add: messages_of_def sent(5))
  qed
  ultimately show ?thesis using keep by (simp add: step_ok_def)
qed

lemma step_ok_record:
  assumes inv: "run_inv sg st" and run: "create_record cfg sg env inp st = (Inr (row, needs), st')"
  shows "step_ok sg st st'"
proof -
  note r = create_record_InrD [OF run]
  have cs: "commandsT st' = commandsT st @ [row]" and sent: "sentCommands st' = sentCommands st"
    and fresh: "cId row \<notin> cId ` set (commandsT st)"
    and aud: "auditS st' = writeAudit (newAuditId env) (newAuditQueueId env) (callNow env)
       (issued_entry sg (cId row) needs inp) (auditS st)" using r by blast+
  have "written (auditS st') = written (auditS st) @ [issued_entry sg (cId row) needs inp]"
    by (simp add: aud)
  then have trail: "issued_in_trail st' c" if "c \<in> set (commandsT st')" for c
    using that inv unfolding run_inv_def issued_in_trail_def cs by (auto simp: issued_entry_def)
  have "run_inv sg st'" using inv fresh trail unfolding run_inv_def by (auto simp: cs sent)
  then show ?thesis by (auto simp: step_ok_def cs messages_of_def sent)
qed

lemma step_ok_each:
  "run_inv sg st \<Longrightarrow> dispatch_each sg now is k st = (r, st') \<Longrightarrow> step_ok sg st st'"
proof (induction "is" arbitrary: k st)
  case Nil
  then show ?case using step_ok_refl by simp
next
  case (Cons i rest)
  obtain out st1 where d: "dispatch sg now i st = (out, st1)" by fastforce
  from step_ok_dispatch [OF Cons.prems(1) d] have ok: "step_ok sg st st1" .
  then have inv1: "run_inv sg st1" by (simp add: step_ok_def)
  show ?case
  proof (cases out)
    case (Inl e)
    with Cons.prems d ok show ?thesis by simp
  next
    case (Inr b)
    with Cons.prems(2) d have "dispatch_each sg now rest (if b then Suc k else k) st1 = (r, st')" by simp
    from step_ok_trans [OF ok Cons.IH [OF inv1 this]] show ?thesis .
  qed
qed

lemma step_ok_run_op:
  assumes inv: "run_inv sg st" shows "step_ok sg st (run_op cfg sg op st)"
proof (cases op)
  case (Create env inp)
  obtain out st1 where rec: "create_record cfg sg env inp st = (out, st1)" by fastforce
  show ?thesis
  proof (cases out)
    case (Inl e)
    with create_fails_clean rec have "st1 = st" by blast
    with Create rec Inl step_ok_refl [OF inv] show ?thesis by (simp add: create_command_def)
  next
    case (Inr rn)
    obtain row needs where rn: "rn = (row, needs)" by fastforce
    obtain d st2 where disp: "dispatch sg (dispatchNow env) (cId row) st1 = (d, st2)" by fastforce
    have ok: "step_ok sg st st1" using step_ok_record [OF inv] rec Inr rn by blast
    then have "step_ok sg st1 st2" using step_ok_dispatch [OF _ disp] by (simp add: step_ok_def)
    with ok have "step_ok sg st st2" by (rule step_ok_trans)
    moreover have "run_op cfg sg op st = (if needs then st1 else st2)"
      using Create rec Inr rn disp by (auto simp: create_command_def split: sum.splits)
    ultimately show ?thesis using ok by simp
  qed
next
  case (Approve env i who username addr)
  show ?thesis
  proof (cases "find_command i st")
    case None
    with Approve step_ok_refl [OF inv] show ?thesis by (simp add: approve_def)
  next
    case (Some c)
    note c = find_commandD [OF Some]
    obtain out st1 where ap: "approve_row env c who username addr st = (out, st1)" by fastforce
    have ok: "step_ok sg st st1"
    proof (cases "out = Inr ()")
      case True
      let ?f = "\<lambda>x. if cId x = cId c then x\<lparr>cState := Approved, cApprovedBy := Some who,
          cApprovedAt := Some (callNow env)\<rparr> else x"
      from ap True have st1: "commandsT st1 = map ?f (commandsT st)" "sentCommands st1 = sentCommands st"
        "set (written (auditS st)) \<subseteq> set (written (auditS st1))" and p: "cState c = PendingApproval"
        by (auto simp: approve_row_def split: if_splits)
      show ?thesis
      proof (rule step_ok_map [OF inv st1])
        fix x assume "x \<in> set (commandsT st)"
        with run_inv_row [OF inv this, of c] c p
        show "cId (?f x) = cId x \<and> (settled x \<longrightarrow> settled (?f x))" by (auto simp: settled_def)
      qed
    next
      case False
      then have "st1 = st \<or> st1 = markExpired (callNow env) (cId c) st"
        using ap by (auto simp: approve_row_def split: if_splits)
      then show ?thesis using step_ok_refl [OF inv] step_ok_expired [OF inv] by auto
    qed
    obtain d st2 where disp: "dispatch sg (dispatchNow env) i st1 = (d, st2)" by fastforce
    have "step_ok sg st1 st2" using step_ok_dispatch [OF _ disp] ok by (simp add: step_ok_def)
    with ok have "step_ok sg st st2" by (rule step_ok_trans)
    moreover have "run_op cfg sg op st = (case out of Inl _ \<Rightarrow> st1 | Inr _ \<Rightarrow> st2)"
      using Approve Some ap disp by (auto simp: approve_def split: sum.splits)
    ultimately show ?thesis using ok by (cases out) auto
  qed
next
  case (Reject env i username reason addr)
  show ?thesis
  proof (cases "find_command i st")
    case None
    with Reject step_ok_refl [OF inv] show ?thesis by (simp add: reject_def)
  next
    case (Some c)
    let ?f = "\<lambda>x. if cId x = cId c then x\<lparr>cState := Rejected, cResultDetail := Some reason,
        cCompletedAt := Some (callNow env)\<rparr> else x"
    show ?thesis
    proof (cases "cState c = PendingApproval")
      case True
      show ?thesis
        by (rule step_ok_map [OF inv, of _ ?f])
          (use Reject Some True in \<open>auto simp: reject_def reject_row_def settled_def\<close>)
    next
      case False
      with Reject Some step_ok_refl [OF inv] show ?thesis by (simp add: reject_def reject_row_def)
    qed
  qed
next
  case (DispatchPending now w)
  then show ?thesis
    using step_ok_each [OF inv] by (simp add: dispatchPendingFor_def prod_eq_iff)
next
  case (Report env rep)
  show ?thesis
  proof (cases "find (\<lambda>c. cId c = rCommandId rep \<and> cWorkerId c = rWorkerId rep) (commandsT st)")
    case None
    with Report step_ok_refl [OF inv] show ?thesis by (simp add: recordResult_def)
  next
    case (Some c)
    let ?f = "\<lambda>x. if cId x = rCommandId rep \<and> cWorkerId x = rWorkerId rep
      then x\<lparr>cState := (if rSuccess rep then Succeeded else Failed),
             cResultCode := Some (if rSuccess rep then ''Ok'' else rErrorCode rep),
             cResultDetail := (if rErrorDetail rep = [] then None else Some (rErrorDetail rep)),
             cSqlErrorNumber := (if rSqlErrorNumber rep = 0 then None else Some (rSqlErrorNumber rep)),
             cCompletedAt := Some (callNow env)\<rparr> else x"
    show ?thesis
    proof (rule step_ok_map [OF inv, of _ ?f])
      show "set (written (auditS st)) \<subseteq> set (written (auditS (run_op cfg sg op st)))"
        using Report Some by (auto simp: recordResult_def Let_def)
    qed (use Report Some in \<open>auto simp: recordResult_def Let_def settled_def\<close>)
  qed
next
  case (ExpireStale now)
  show ?thesis
    by (rule step_ok_map [OF inv, of _ "\<lambda>c. if stale now c then c\<lparr>cState := Expired,
          cResultCode := Some ''Expired'', cResultDetail := Some ''The command expired before it was applied (worker offline or not approved in time).'',
          cCompletedAt := Some now\<rparr> else c"])
      (use ExpireStale in \<open>auto simp: expireStale_def Let_def settled_def\<close>)
next
  case (Registry e)
  show ?thesis by (rule step_ok_map [OF inv, of _ "\<lambda>c. c"]) (use Registry in auto)
next
  case (Estate ws "is")
  show ?thesis by (rule step_ok_map [OF inv, of _ "\<lambda>c. c"]) (use Estate in auto)
qed

lemma step_ok_pipeline_run: "run_inv sg st \<Longrightarrow> step_ok sg st (pipeline_run cfg sg ops st)"
proof (induction ops arbitrary: st)
  case Nil
  then show ?case by (simp add: pipeline_run_def step_ok_refl)
next
  case (Cons op ops)
  from step_ok_run_op [OF Cons.prems] have ok: "step_ok sg st (run_op cfg sg op st)" .
  then have "step_ok sg (run_op cfg sg op st) (pipeline_run cfg sg ops (run_op cfg sg op st))"
    by (intro Cons.IH) (simp add: step_ok_def)
  with ok show ?case by (auto simp: pipeline_run_def dest: step_ok_trans)
qed

definition no_commands :: "pipeline \<Rightarrow> bool" where
  "no_commands st \<longleftrightarrow> commandsT st = [] \<and> sentCommands st = []"

lemma no_commands_inv: "no_commands st \<Longrightarrow> run_inv sg st"
  by (simp add: no_commands_def run_inv_def)

text \<open>
  C12. A command is sent at most once, and only for the record. After any sequence of handlers that run
  one at a time, no two messages carry the same command id; each message bears the control plane's
  signature over itself and belongs to a recorded command that is no longer waiting; and every recorded
  command, sent or not, has its \<open>command.issued\<close> row in the audit trail.
\<close>

theorem commands_sent_once:
  assumes "no_commands st0" and "st = pipeline_run cfg sg ops st0"
  shows "distinct (map (commandId \<circ> snd) (sentCommands st)) \<and>
     (\<forall>msg \<in> set (sentCommands st). well_signed sg (snd msg) \<and>
        (\<exists>c \<in> set (commandsT st). cId c = commandId (snd msg) \<and> settled c)) \<and>
     (\<forall>c \<in> set (commandsT st). issued_in_trail st c)"
proof -
  have "run_inv sg st"
    using step_ok_pipeline_run [OF no_commands_inv [OF assms(1)], of sg cfg ops] assms(2)
    by (simp add: step_ok_def)
  then show ?thesis unfolding run_inv_def by blast
qed

text \<open>
  Handlers that interleave can send a command twice: a dispatch that read the row as approved still
  sends it when another dispatch has sent it and is about to mark it. The worker then finds the id
  among the commands it has applied.
\<close>

lemma racing_dispatches_send_twice:
  assumes "raced cfg sg h g st" and "c \<in> set h" and "dispatch_send sg now c instName st = (Sent sig, st1)"
  shows "\<exists>h' st2 msg. raced cfg sg h' g st2 \<and> commandId (snd msg) = cId c \<and>
    sentCommands st2 = sentCommands st @ [msg, msg]"
proof -
  obtain live cmd where
    send: "cState c = Approved" "\<not> past (cExpiresAt c) now" "registry_get (cWorkerId c) (registryS st) = Some live"
      "buildProtoCommand now (cId c) (cType c) instName (cPayload c) = Some cmd"
      "signCommand (sha256 sg) (rsaSign sg) cmd (signingPrivateKeyPem sg) = Some sig"
    using assms(3) by (auto simp: dispatch_send_def split: if_splits option.splits)
  let ?msg = "(sessionNo live, cmd\<lparr>signature := sig\<rparr>)"
  note again = dispatch_send_sends [OF send(1,2) _ send(4,5)]
  have st1: "sentCommands st1 = sentCommands st @ [?msg]" "registryS st1 = registryS st"
    using again [OF send(3)] assms(3) by (auto simp: open_span_def)
  obtain st2 where 2: "dispatch_send sg now c instName st1 = (Sent sig, st2)" "sentCommands st2 = sentCommands st @ [?msg, ?msg]"
    using again [of st1 live] send(3) st1 by (simp add: open_span_def)
  have "raced cfg sg (commandsT st2 @ commandsT st1 @ h) g st2"
    using raced.sending [OF raced.sending [OF assms] _ 2(1)] assms(2) by simp
  moreover have "commandId cmd = cId c"
    using send(4) by (auto simp: buildProtoCommand_def split: option.splits)
  ultimately show ?thesis using 2(2) by (intro exI [of _ "commandsT st2 @ commandsT st1 @ h"] exI [of _ st2] exI [of _ ?msg]) simp
qed

text \<open>Ana's deletion is recorded, approved by Bo and sent to the worker, which is connected.\<close>

lemma example_sendable:
  "\<exists>msg. sendable example_signer 0 example_approved
     (example_row\<lparr>cState := Approved, cApprovedBy := Some ''bo'', cApprovedAt := Some 0\<rparr>) msg"
proof -
  let ?c = "example_row\<lparr>cState := Approved, cApprovedBy := Some ''bo'', cApprovedAt := Some 0\<rparr>"
  have n: "find (\<lambda>n. iId n = cInstanceId ?c) (instancesT example_approved) =
      Some \<lparr> iId = ''i'', iWorkerId = ''w'', iName = ''SQL1'', iEnvironmentTag = None \<rparr>"
    and r: "registry_get (cWorkerId ?c) (registryS example_approved) = Some (example_session 7)" by code_simp+
  let ?cmd = "\<lparr> commandId = ''1'', issuedAt = Some (toTimestamp 0), instanceName = ''SQL1'',
      signature = [], payload = Some (PDeleteJob ''u'' []) \<rparr>"
  have b: "buildProtoCommand 0 (cId ?c) (cType ?c) ''SQL1'' (cPayload ?c) = Some ?cmd"
    by (simp add: buildProtoCommand_def example_row_def new_command_def example_call_def
        example_input_def str_field_def field_def)
  have "list_all (\<lambda>s. length s < 1000) [commandId ?cmd, commandKind ?cmd,
      commandPayloadHash (sha256 example_signer) ?cmd, issued_text ?cmd, instanceName ?cmd]"
    by (simp add: commandKind_def commandPayloadHash_def issued_text_def toTimestamp_def
        example_signer_def show_int_def show_nat.simps)
  then obtain sig where s: "signCommand (sha256 example_signer) (rsaSign example_signer) ?cmd
      (signingPrivateKeyPem example_signer) = Some sig" using sign_short by blast
  have "\<not> past (cExpiresAt ?c) 0" "cState ?c = Approved"
    by (simp_all add: past_def example_row_def new_command_def example_call_def example_config_def)
  with n r b s have "sendable example_signer 0 example_approved ?c (7, ?cmd\<lparr>signature := sig\<rparr>)"
    by (simp add: sendable_def example_session_def)
  then show ?thesis ..
qed

definition example_ops :: "pipeline_op list" where
  "example_ops = [Create (example_call ''1'') example_input, Approve (example_call ''2'') ''1'' ''bo'' ''Bo'' None]"

lemma example_ops_send:
  "\<exists>m. sentCommands (pipeline_run example_config example_signer example_ops example_estate) = [m]"
proof -
  have "fst (create_record example_config example_signer (example_call ''1'') example_input
      example_estate) = Inr (example_row, True)" by code_simp
  then have "create_record example_config example_signer (example_call ''1'') example_input
      example_estate = (Inr (example_row, True), example_recorded)"
    by (simp add: prod_eq_iff example_recorded_def)
  then have rec: "snd (create_command example_config example_signer (example_call ''1'') example_input example_estate) =
      example_recorded" by (simp add: create_command_def)
  have row: "find_command ''1'' example_recorded = Some example_row" by code_simp
  have "fst (approve_row (example_call ''2'') example_row ''bo'' ''Bo'' None example_recorded) = Inr ()" by code_simp
  then have ap: "approve_row (example_call ''2'') example_row ''bo'' ''Bo'' None example_recorded = (Inr (), example_approved)"
    by (simp add: prod_eq_iff example_approved_def)
  have "find_command ''1'' example_approved =
      Some (example_row\<lparr>cState := Approved, cApprovedBy := Some ''bo'', cApprovedAt := Some 0\<rparr>)"
    and none: "sentCommands example_approved = []" by code_simp+
  with example_sendable dispatch_sendable obtain st' msg where
    "dispatch example_signer 0 ''1'' example_approved = (Inr True, st')" "sentCommands st' = [msg]"
    by (metis append_Nil)
  moreover have "dispatchNow (example_call ''2'') = 0" by (simp add: example_call_def)
  ultimately show ?thesis by (simp add: pipeline_run_def example_ops_def rec approve_def row ap)
qed

theorem commands_sent_once_witness:
  "\<exists>m c. sentCommands (pipeline_run example_config example_signer example_ops example_estate) = [m] \<and>
     c \<in> set (commandsT (pipeline_run example_config example_signer example_ops example_estate)) \<and>
     cId c = commandId (snd m) \<and> settled c \<and> well_signed example_signer (snd m) \<and>
     issued_in_trail (pipeline_run example_config example_signer example_ops example_estate) c"
proof -
  have "no_commands example_estate" by (simp add: no_commands_def example_estate_def)
  note all = commands_sent_once [OF this refl, of example_config example_signer example_ops]
  obtain m where m: "sentCommands (pipeline_run example_config example_signer example_ops example_estate) = [m]"
    using example_ops_send by blast
  with all show ?thesis by auto
qed

text \<open>
  Settled is settled. Once a command has been dispatched, has a result, was rejected or has
  expired, no later sequence of handlers sends it again or makes it wait again: the messages sent
  for it stay exactly what they were.
\<close>

theorem settled_never_sent:
  assumes "no_commands st0" and "st = pipeline_run cfg sg ops st0"
    and "c \<in> set (commandsT st)" and "settled c" and "st' = pipeline_run cfg sg later_ops st"
  shows "messages_of (cId c) st' = messages_of (cId c) st \<and>
     (\<exists>x \<in> set (commandsT st'). cId x = cId c \<and> settled x)"
proof -
  have "run_inv sg st"
    using step_ok_pipeline_run [OF no_commands_inv [OF assms(1)], of sg cfg ops] assms(2)
    by (simp add: step_ok_def)
  from step_ok_pipeline_run [OF this, of cfg later_ops] assms(3-5) show ?thesis
    by (simp add: step_ok_def)
qed

theorem settled_never_sent_witness:
  "messages_of ''1'' (pipeline_run example_config example_signer
       [Approve (example_call ''2'') ''1'' ''bo'' ''Bo'' None]
       (pipeline_run example_config example_signer
          [Create (example_call ''1'') example_input, Reject (example_call ''3'') ''1'' ''Bo'' ''no'' None]
          example_estate)) = []"
proof -
  let ?st = "pipeline_run example_config example_signer
      [Create (example_call ''1'') example_input, Reject (example_call ''3'') ''1'' ''Bo'' ''no'' None]
      example_estate"
  have n: "no_commands example_estate" by (simp add: no_commands_def example_estate_def)
  have "map (\<lambda>c. (cId c, cState c)) (commandsT ?st) = [(''1'', Rejected)]" by code_simp
  then obtain c where "commandsT ?st = [c]" "cId c = ''1''" "cState c = Rejected"
    by (cases "commandsT ?st") auto
  then have c: "c \<in> set (commandsT ?st)" "cId c = ''1''" "settled c" by (simp_all add: settled_def)
  have "messages_of ''1'' ?st = []" by code_simp
  with settled_never_sent [OF n refl c(1,3) refl] c(2) show ?thesis by simp
qed

section \<open>A worker that connects gets what is queued for it\<close>

lemma find_mark:
  assumes "j \<noteq> i"
  shows "find (\<lambda>c. cId c = j) (map (mark_dispatched now i sig) cs) = find (\<lambda>c. cId c = j) cs"
  using assms by (induction cs) (auto simp: mark_dispatched_def)

lemma dispatch_each_all:
  assumes "distinct is"
    and "\<And>i. i \<in> set is \<Longrightarrow> \<exists>c msg. find_command i st = Some c \<and> sendable sg now st c msg"
  shows "\<exists>st' msgs. dispatch_each sg now is k st = (Inr (k + length is), st') \<and>
     sentCommands st' = sentCommands st @ msgs \<and> map (commandId \<circ> snd) msgs = is"
  using assms
proof (induction "is" arbitrary: st k)
  case Nil
  then show ?case by simp
next
  case (Cons i rest)
  obtain c msg where c: "find_command i st = Some c" "sendable sg now st c msg"
    using Cons.prems(2) by force
  obtain st1 where d: "dispatch sg now i st = (Inr True, st1)"
    using dispatch_sendable [OF c] by blast
  from d obtain c' msg' where c': "find_command i st = Some c'" "sendable sg now st c' msg'"
    and st1: "commandsT st1 = map (mark_dispatched now i (signature (snd msg'))) (commandsT st)"
      "sentCommands st1 = sentCommands st @ [msg']" "registryS st1 = registryS st"
      "instancesT st1 = instancesT st"
    by (cases rule: dispatch_cases) auto
  have "\<exists>c msg. find_command j st1 = Some c \<and> sendable sg now st1 c msg" if "j \<in> set rest" for j
  proof -
    have "j \<noteq> i" using that Cons.prems(1) by auto
    then have "find_command j st1 = find_command j st"
      by (simp add: find_command_def st1(1) find_mark)
    moreover have "sendable sg now st1 x m = sendable sg now st x m" for x m
      by (simp add: sendable_def st1)
    ultimately show ?thesis using Cons.prems(2) [of j] that by simp
  qed
  with Cons.IH [of st1 "Suc k"] Cons.prems(1) obtain st' msgs where
    "dispatch_each sg now rest (Suc k) st1 = (Inr (Suc k + length rest), st')"
    "sentCommands st' = sentCommands st1 @ msgs" "map (commandId \<circ> snd) msgs = rest" by auto
  moreover have "commandId (snd msg') = i"
    using sendable_message [OF c'(2)] find_commandD [OF c'(1)] by simp
  ultimately show ?case using d st1(2) by (intro exI [of _ st'] exI [of _ "msg' # msgs"]) (simp add: comp_def)
qed

text \<open>
  Queued commands reach a worker that connects. When the worker is live and each of its approved
  commands can be sent (not expired, its instance known, its message signable), the dispatch at
  connection sends all of them, each once, in the order they were issued.
\<close>

theorem queued_commands_delivered:
  assumes "distinct (map cId (commandsT st))"
    and "\<forall>c \<in> set (commandsT st). cWorkerId c = w \<and> cState c = Approved \<longrightarrow> (\<exists>msg. sendable sg now st c msg)"
  shows "\<exists>st' msgs. dispatchPendingFor sg now w st = (Inr (length msgs), st') \<and>
     sentCommands st' = sentCommands st @ msgs \<and>
     map (commandId \<circ> snd) msgs =
       map cId (sort_key cIssuedAt (filter (\<lambda>c. cWorkerId c = w \<and> cState c = Approved) (commandsT st)))"
proof -
  let ?q = "sort_key cIssuedAt (filter (\<lambda>c. cWorkerId c = w \<and> cState c = Approved) (commandsT st))"
  have "distinct (map cId (filter (\<lambda>c. cWorkerId c = w \<and> cState c = Approved) (commandsT st)))"
    using assms(1) by (rule distinct_map_filter)
  then have d: "distinct (map cId ?q)" by (simp add: distinct_map)
  have "\<exists>c msg. find_command i st = Some c \<and> sendable sg now st c msg" if i: "i \<in> set (map cId ?q)" for i
  proof -
    from i obtain c where c: "c \<in> set (commandsT st)" "cWorkerId c = w" "cState c = Approved" "cId c = i"
      by auto
    have "find_command i st = Some c"
      using find_distinct [OF assms(1) c(1)] c(4) by (simp add: find_command_def)
    with c assms(2) show ?thesis by blast
  qed
  from dispatch_each_all [OF d this, of 0] obtain st' msgs where
    "dispatch_each sg now (map cId ?q) 0 st = (Inr (length (map cId ?q)), st')"
    "sentCommands st' = sentCommands st @ msgs" and m: "map (commandId \<circ> snd) msgs = map cId ?q" by auto
  moreover have "length (map cId ?q) = length msgs" using arg_cong [OF m, of length] by simp
  ultimately show ?thesis by (auto simp: dispatchPendingFor_def)
qed

theorem queued_commands_delivered_witness:
  "\<exists>st' msgs. dispatchPendingFor example_signer 0 ''w'' example_approved = (Inr (length msgs), st') \<and>
     sentCommands st' = sentCommands example_approved @ msgs \<and> map (commandId \<circ> snd) msgs = [''1'']"
proof -
  have cs: "commandsT example_approved = [example_row\<lparr>cState := Approved, cApprovedBy := Some ''bo'', cApprovedAt := Some 0\<rparr>]"
    by code_simp
  with example_sendable have a: "\<forall>c \<in> set (commandsT example_approved). cWorkerId c = ''w'' \<and> cState c = Approved \<longrightarrow>
      (\<exists>msg. sendable example_signer 0 example_approved c msg)"
    by auto
  have d: "distinct (map cId (commandsT example_approved))" by (simp add: cs)
  obtain st' msgs where
    "dispatchPendingFor example_signer 0 ''w'' example_approved = (Inr (length msgs), st')"
    "sentCommands st' = sentCommands example_approved @ msgs"
    "map (commandId \<circ> snd) msgs = map cId (sort_key cIssuedAt
       (filter (\<lambda>c. cWorkerId c = ''w'' \<and> cState c = Approved) (commandsT example_approved)))"
    using queued_commands_delivered [OF d a] by blast
  moreover have "map cId (sort_key cIssuedAt
       (filter (\<lambda>c. cWorkerId c = ''w'' \<and> cState c = Approved) (commandsT example_approved))) = [''1'']"
    by code_simp
  ultimately show ?thesis by auto
qed

section \<open>The trail does not show definitions\<close>

definition definition_key :: string where "definition_key = ''canonicalJson''"

lemma auditable_keys:
  "fst ` set (auditablePayload sha p) \<subseteq> set AUDITABLE_PAYLOAD_FIELDS \<union> {''definitionHash'', ''definitionBytes''}"
  by (auto simp: auditablePayload_def split: js_value.splits if_splits)

lemma filter_auditable:
  "filter (\<lambda>kv. fst kv \<in> set AUDITABLE_PAYLOAD_FIELDS) p =
     filter (\<lambda>kv. fst kv \<in> set AUDITABLE_PAYLOAD_FIELDS) (filter (\<lambda>kv. fst kv \<noteq> definition_key) p)"
  by (auto simp: AUDITABLE_PAYLOAD_FIELDS_def definition_key_def intro!: filter_cong)

text \<open>
  Definitions stay out of the audit trail. Two requests that agree on everything but the job
  definition, and whose definitions have the same digest and the same length in bytes, leave the
  same audit row; and the payload recorded there has no field outside the allowlist but the digest
  and the length.
\<close>

theorem audit_hides_definition:
  assumes "filter (\<lambda>kv. fst kv \<noteq> definition_key) p = filter (\<lambda>kv. fst kv \<noteq> definition_key) p'"
    and "field p definition_key = JsStr d" and "field p' definition_key = JsStr d'"
    and "sha256 sg d = sha256 sg d'" and "length (utf8 d) = length (utf8 d')" and "d = [] \<longleftrightarrow> d' = []"
  shows "issued_entry sg i needs (inp\<lparr>inPayload := p\<rparr>) = issued_entry sg i needs (inp\<lparr>inPayload := p'\<rparr>) \<and>
     fst ` set (auditablePayload (sha256 sg) p) \<subseteq>
       set AUDITABLE_PAYLOAD_FIELDS \<union> {''definitionHash'', ''definitionBytes''}"
proof -
  have "filter (\<lambda>kv. fst kv \<in> set AUDITABLE_PAYLOAD_FIELDS) p =
      filter (\<lambda>kv. fst kv \<in> set AUDITABLE_PAYLOAD_FIELDS) p'"
    by (simp only: filter_auditable [of p] filter_auditable [of p'] assms(1))
  then have "auditablePayload (sha256 sg) p = auditablePayload (sha256 sg) p'"
    using assms(2-6) by (simp add: auditablePayload_def definition_key_def)
  then show ?thesis using auditable_keys by (simp add: issued_entry_def)
qed

theorem audit_hides_definition_witness:
  "issued_entry example_signer ''1'' True (example_input\<lparr>inPayload := [(''canonicalJson'', JsStr ''password=a'')]\<rparr>) =
   issued_entry example_signer ''1'' True (example_input\<lparr>inPayload := [(''canonicalJson'', JsStr ''password=b'')]\<rparr>)"
proof -
  have "length (utf8 ''password=a'') = length (utf8 ''password=b'')"
    by (simp add: utf8_def utf8_char_def Let_def)
  then show ?thesis
    using audit_hides_definition [of "[(''canonicalJson'', JsStr ''password=a'')]"
        "[(''canonicalJson'', JsStr ''password=b'')]" "''password=a''" "''password=b''" example_signer]
    by (simp add: definition_key_def field_def example_signer_def)
qed

end
