(* ===== verification/Access.thy ===== *)
theory Access
  imports Capabilities "HOL-Library.List_Lexorder" "HOL-Library.Char_ord"
begin

text \<open>
  Who may do what to which instance: environment grants (\<open>packages/server/src/auth/environments.ts\<close>)
  and their table (\<open>auth/grants-store.ts\<close>), sessions (\<open>auth/sessions.ts\<close>), and the two route guards
  (\<open>auth/rbac.ts\<close>). Token hashing is a parameter, as is the database's refusal of an instance id
  that is not a UUID; a guard's answer is a reply, or nothing when the request proceeds.
\<close>

section \<open>Grants\<close>

datatype subject_kind = EntraGroup | AppRole | UserSubject

fun subject_kind_name :: "subject_kind \<Rightarrow> string" where
  "subject_kind_name EntraGroup = ''entra_group''"
| "subject_kind_name AppRole = ''app_role''"
| "subject_kind_name UserSubject = ''user''"

definition ALL_ENVIRONMENTS :: string where "ALL_ENVIRONMENTS = ''*''"

record environment_grant =
  gSubjectKind :: subject_kind
  gSubjectKey :: string
  gEnvironmentTag :: string
  gRole :: role

record principal =
  pUserId :: string
  pRole :: role
  pIdentityGroups :: "string list"

definition membershipKey :: "subject_kind \<Rightarrow> string \<Rightarrow> string" where
  "membershipKey k key = subject_kind_name k @ CHR '':'' # key"

definition normaliseTag :: "string option \<Rightarrow> string option" where
  "normaliseTag tag =
     (case tag of None \<Rightarrow> None
      | Some t \<Rightarrow> (let trimmed = to_lower (trim t) in if trimmed = [] then None else Some trimmed))"

definition appliesToSubject :: "environment_grant \<Rightarrow> principal \<Rightarrow> bool" where
  "appliesToSubject g p \<longleftrightarrow>
     (if gSubjectKind g = UserSubject then gSubjectKey g = pUserId p
      else membershipKey (gSubjectKind g) (gSubjectKey g) \<in> set (pIdentityGroups p))"

definition appliesToEnvironment :: "environment_grant \<Rightarrow> string option \<Rightarrow> bool" where
  "appliesToEnvironment g tag \<longleftrightarrow>
     (if gEnvironmentTag g = ALL_ENVIRONMENTS then True
      else (let target = normaliseTag tag
            in target \<noteq> None \<and> normaliseTag (Some (gEnvironmentTag g)) = target))"

definition higher :: "role \<Rightarrow> role \<Rightarrow> role" where
  "higher a b = (if role_rank a \<ge> role_rank b then a else b)"

definition ESTATE_ONLY_PERMISSIONS :: "permission list" where
  "ESTATE_ONLY_PERMISSIONS = [WorkerAdmin, UserAdmin, AuditRead]"

definition effectiveRole :: "principal \<Rightarrow> environment_grant list \<Rightarrow> string option \<Rightarrow> role" where
  "effectiveRole p grants tag =
     foldl (\<lambda>r g. if \<not> appliesToSubject g p then r
                  else if \<not> appliesToEnvironment g tag then r else higher r (gRole g)) (pRole p) grants"

definition canInEnvironment ::
  "principal \<Rightarrow> environment_grant list \<Rightarrow> permission \<Rightarrow> string option \<Rightarrow> bool" where
  "canInEnvironment p grants perm tag \<longleftrightarrow>
     (if roleHasPermission (pRole p) perm then True
      else if perm \<in> set ESTATE_ONLY_PERMISSIONS then False
      else roleHasPermission (effectiveRole p grants tag) perm)"

text \<open>\<open>[...new Set(xs)]\<close>: the first of equal elements stays.\<close>

definition js_unique :: "'a list \<Rightarrow> 'a list" where
  "js_unique xs = rev (remdups (rev xs))"

definition permissionsInEnvironment ::
  "principal \<Rightarrow> environment_grant list \<Rightarrow> string option \<Rightarrow> permission list" where
  "permissionsInEnvironment p grants tag =
     js_unique (ROLE_PERMISSIONS (pRole p) @
       filter (\<lambda>x. x \<notin> set ESTATE_ONLY_PERMISSIONS) (ROLE_PERMISSIONS (effectiveRole p grants tag)))"

definition grantedEnvironments ::
  "principal \<Rightarrow> environment_grant list \<Rightarrow> permission \<Rightarrow> string list" where
  "grantedEnvironments p grants perm =
     sort (js_unique (map gEnvironmentTag
       (filter (\<lambda>g. appliesToSubject g p \<and> roleHasPermission (gRole g) perm) grants)))"

section \<open>The table of grants\<close>

record grant_row =
  grantId :: string
  grantOf :: environment_grant
  subjectLabel :: "string option"
  createdBy :: "string option"

record grant_input =
  gInput :: environment_grant
  gLabel :: "string option"

datatype grant_error = GrantError int string string

text \<open>\<open>grantInputSchema\<close>.\<close>

definition grantInputSchema :: "grant_input \<Rightarrow> bool" where
  "grantInputSchema i \<longleftrightarrow>
     1 \<le> length (gSubjectKey (gInput i)) \<and> length (gSubjectKey (gInput i)) \<le> 200 \<and>
     (case gLabel i of None \<Rightarrow> True | Some l \<Rightarrow> length l \<le> 200) \<and>
     1 \<le> length (gEnvironmentTag (gInput i)) \<and> length (gEnvironmentTag (gInput i)) \<le> 64"

definition loadGrants :: "grant_row list \<Rightarrow> environment_grant list" where
  "loadGrants rows = map grantOf rows"

definition same_key :: "environment_grant \<Rightarrow> environment_grant \<Rightarrow> bool" where
  "same_key a b \<longleftrightarrow> gSubjectKind a = gSubjectKind b \<and> gSubjectKey a = gSubjectKey b \<and>
     gEnvironmentTag a = gEnvironmentTag b"

text \<open>Insert, or on a conflict of the unique key update role and label of the row that is there.\<close>

definition upsert_grant :: "grant_row \<Rightarrow> grant_row list \<Rightarrow> string \<times> grant_row list" where
  "upsert_grant new rows =
     (case find (\<lambda>r. same_key (grantOf r) (grantOf new)) rows of
        None \<Rightarrow> (grantId new, rows @ [new])
      | Some old \<Rightarrow>
          (grantId old, map (\<lambda>r. if same_key (grantOf r) (grantOf new)
             then r\<lparr>grantOf := (grantOf r)\<lparr>gRole := gRole (grantOf new)\<rparr>, subjectLabel := subjectLabel new\<rparr>
             else r) rows))"

definition saveGrant ::
  "string list \<Rightarrow> string \<Rightarrow> grant_input \<Rightarrow> string option \<Rightarrow> grant_row list
     \<Rightarrow> (grant_error + string) \<times> grant_row list" where
  "saveGrant userIds newId inp by rows =
     (let g = gInput inp
      in if gSubjectKind g = UserSubject \<and> gSubjectKey g \<notin> set userIds
         then (Inl (GrantError 400 ''UnknownUser'' ''No user with that id.''), rows)
         else
           (case normaliseTag (Some (gEnvironmentTag g)) of
              None \<Rightarrow> (Inl (GrantError 400 ''EmptyEnvironmentTag'' ''An environment tag cannot be blank.''), rows)
            | Some tag \<Rightarrow>
                (let (i, rows') = upsert_grant \<lparr> grantId = newId, grantOf = g\<lparr>gEnvironmentTag := tag\<rparr>,
                       subjectLabel = gLabel inp, createdBy = by \<rparr> rows
                 in (Inr i, rows'))))"

definition deleteGrant :: "string \<Rightarrow> grant_row list \<Rightarrow> bool \<times> grant_row list" where
  "deleteGrant i rows =
     (list_ex (\<lambda>r. grantId r = i) rows, filter (\<lambda>r. grantId r \<noteq> i) rows)"

section \<open>Sessions\<close>

record authenticated_user =
  userId :: string
  username :: string
  userRole :: role
  identityGroups :: "string list"

record user_row =
  userData :: authenticated_user
  disabledAt :: "int option"

record session_row =
  sessionId :: string
  sessionUser :: string
  tokenHash :: string
  csrfTokenHash :: string
  sessionExpiresAt :: int
  lastUsedAt :: "int option"
  sessionAddress :: "string option"

record auth_state =
  users :: "user_row list"
  sessions :: "session_row list"

definition createSession ::
  "(string \<Rightarrow> string) \<Rightarrow> string \<Rightarrow> string \<Rightarrow> string \<Rightarrow> int \<Rightarrow> string \<Rightarrow> int \<Rightarrow> string option \<Rightarrow> auth_state
     \<Rightarrow> int \<times> auth_state" where
  "createSession hash newId token csrf now uid ttlHours addr st =
     (let expires = now + ttlHours * 60 * 60 * 1000
      in (expires, st\<lparr>sessions := sessions st @ [\<lparr> sessionId = newId, sessionUser = uid,
           tokenHash = hash token, csrfTokenHash = hash csrf, sessionExpiresAt = expires,
           lastUsedAt = None, sessionAddress = addr \<rparr>]\<rparr>))"

definition session_of ::
  "(string \<Rightarrow> string) \<Rightarrow> int \<Rightarrow> string \<Rightarrow> auth_state \<Rightarrow> (session_row \<times> user_row) option" where
  "session_of hash now token st =
     (case List.map_filter (\<lambda>s. if tokenHash s = hash token \<and> sessionExpiresAt s > now
              then map_option (Pair s) (find (\<lambda>u. userId (userData u) = sessionUser s) (users st)) else None)
            (sessions st) of
        [] \<Rightarrow> None | p # _ \<Rightarrow> Some p)"

definition resolveSession ::
  "(string \<Rightarrow> string) \<Rightarrow> int \<Rightarrow> string option \<Rightarrow> auth_state
     \<Rightarrow> (session_row \<times> authenticated_user) option \<times> auth_state" where
  "resolveSession hash now token st =
     (if token = None \<or> token = Some [] then (None, st)
      else
        (case session_of hash now (the token) st of
           None \<Rightarrow> (None, st)
         | Some (s, u) \<Rightarrow>
             if disabledAt u \<noteq> None then (None, st)
             else (Some (s, userData u),
                   st\<lparr>sessions := map (\<lambda>x. if sessionId x = sessionId s then x\<lparr>lastUsedAt := Some now\<rparr> else x)
                        (sessions st)\<rparr>)))"

definition revokeSession :: "(string \<Rightarrow> string) \<Rightarrow> string option \<Rightarrow> auth_state \<Rightarrow> auth_state" where
  "revokeSession hash token st =
     (if token = None \<or> token = Some [] then st
      else st\<lparr>sessions := filter (\<lambda>s. tokenHash s \<noteq> hash (the token)) (sessions st)\<rparr>)"

definition revokeAllSessionsForUser :: "string \<Rightarrow> auth_state \<Rightarrow> auth_state" where
  "revokeAllSessionsForUser uid st = st\<lparr>sessions := filter (\<lambda>s. sessionUser s \<noteq> uid) (sessions st)\<rparr>"

definition pruneExpiredSessions :: "int \<Rightarrow> auth_state \<Rightarrow> nat \<times> auth_state" where
  "pruneExpiredSessions now st =
     (length (filter (\<lambda>s. sessionExpiresAt s < now) (sessions st)),
      st\<lparr>sessions := filter (\<lambda>s. \<not> sessionExpiresAt s < now) (sessions st)\<rparr>)"

section \<open>Guards\<close>

record instance_cfg =
  cfgWorkerId :: string
  cfgInstanceName :: string
  cfgEnvironmentTag :: "string option"

record estate =
  instanceRows :: "(string \<times> string \<times> string) list"
  configRows :: "instance_cfg list"
  grantRows :: "grant_row list"

text \<open>The outer option: no such instance. The inner one: untagged.\<close>

definition environmentOfInstance :: "estate \<Rightarrow> string \<Rightarrow> string option option" where
  "environmentOfInstance e i =
     (case find (\<lambda>(j, w, n). j = i) (instanceRows e) of
        None \<Rightarrow> None
      | Some (_, w, n) \<Rightarrow>
          Some (case find (\<lambda>c. cfgWorkerId c = w \<and> cfgInstanceName c = n) (configRows e) of
                  None \<Rightarrow> None | Some c \<Rightarrow> cfgEnvironmentTag c))"

definition principalOf :: "authenticated_user \<Rightarrow> principal" where
  "principalOf u = \<lparr> pUserId = userId u, pRole = userRole u, pIdentityGroups = identityGroups u \<rparr>"

record http_request =
  httpMethod :: string
  sessionCookie :: "string option"
  csrfHeader :: "string list"
  instanceParam :: "string option"
  reqUser :: "authenticated_user option"
  reqSessionId :: "string option"
  reqEnvironmentTag :: "string option option"

record http_reply =
  replyStatus :: int
  replyError :: string
  replyDetail :: string

definition MUTATING_METHODS :: "string list" where
  "MUTATING_METHODS = [''POST'', ''PUT'', ''PATCH'', ''DELETE'']"

fun perm_name :: "permission \<Rightarrow> string" where
  "perm_name InstanceRead = ''instance.read''" | "perm_name JobRead = ''job.read''"
| "perm_name HistoryRead = ''history.read''" | "perm_name VersionRead = ''version.read''"
| "perm_name MayToggle = ''job.toggle''" | "perm_name MayRun = ''job.run''"
| "perm_name MayWriteSchedule = ''schedule.write''" | "perm_name MayWriteJob = ''job.write''"
| "perm_name MayWriteOperator = ''operator.write''" | "perm_name CommandApprove = ''command.approve''"
| "perm_name WorkerAdmin = ''worker.admin''" | "perm_name UserAdmin = ''user.admin''"
| "perm_name AuditRead = ''audit.read''"

text \<open>\<open>Buffer.from(s, 'hex')\<close> stops at the first pair that is not hexadecimal.\<close>

definition hex_value :: "char \<Rightarrow> nat option" where
  "hex_value c =
     (let n = of_char c :: nat
      in if 48 \<le> n \<and> n \<le> 57 then Some (n - 48)
         else if 65 \<le> n \<and> n \<le> 70 then Some (n - 55)
         else if 97 \<le> n \<and> n \<le> 102 then Some (n - 87) else None)"

fun hex_bytes :: "string \<Rightarrow> nat list" where
  "hex_bytes (a # b # s) =
     (case (hex_value a, hex_value b) of
        (Some x, Some y) \<Rightarrow> (16 * x + y) # hex_bytes s | _ \<Rightarrow> [])"
| "hex_bytes _ = []"

definition safeEqualHex :: "string \<Rightarrow> string \<Rightarrow> bool" where
  "safeEqualHex a b \<longleftrightarrow>
     (let bufA = hex_bytes a; bufB = hex_bytes b
      in if length bufA \<noteq> length bufB \<or> length bufA = 0 then False else bufA = bufB)"

text \<open>
  Session, then CSRF: the user, or the reply. The header may be repeated; the first value counts.
\<close>

definition authenticate ::
  "(string \<Rightarrow> string) \<Rightarrow> int \<Rightarrow> auth_state \<Rightarrow> http_request
     \<Rightarrow> (http_reply + authenticated_user) \<times> auth_state \<times> http_request" where
  "authenticate hash now st req =
     (case resolveSession hash now (sessionCookie req) st of
        (None, st) \<Rightarrow> (Inl \<lparr> replyStatus = 401, replyError = ''Unauthenticated'',
                          replyDetail = ''Sign in to continue.'' \<rparr>, st, req)
      | (Some (s, u), st) \<Rightarrow>
          (let req = req\<lparr>reqUser := Some u, reqSessionId := Some (sessionId s)\<rparr>
           in if httpMethod req \<in> set MUTATING_METHODS \<and>
                 (case csrfHeader req of [] \<Rightarrow> True
                  | v # _ \<Rightarrow> v = [] \<or> \<not> safeEqualHex (hash v) (csrfTokenHash s))
              then (Inl \<lparr> replyStatus = 403, replyError = ''CsrfFailed'',
                      replyDetail = ''Missing or invalid CSRF token. Reload and retry.'' \<rparr>, st, req)
              else (Inr u, st, req)))"

definition forbidden :: "string \<Rightarrow> http_reply option" where
  "forbidden detail = Some \<lparr> replyStatus = 403, replyError = ''Forbidden'', replyDetail = detail \<rparr>"

definition requirePermission ::
  "(string \<Rightarrow> string) \<Rightarrow> int \<Rightarrow> permission \<Rightarrow> auth_state \<Rightarrow> http_request
     \<Rightarrow> http_reply option \<times> auth_state \<times> http_request" where
  "requirePermission hash now perm st req =
     (case authenticate hash now st req of
        (Inl reply, st, req) \<Rightarrow> (Some reply, st, req)
      | (Inr u, st, req) \<Rightarrow>
          (if \<not> roleHasPermission (userRole u) perm
           then forbidden (''Your role ('' @ role_name (userRole u) @ '') cannot '' @ perm_name perm @ ''.'')
           else None, st, req))"

definition instanceFromParams :: "http_request \<Rightarrow> string option" where
  "instanceFromParams req = instanceParam req"

definition refusal_detail ::
  "authenticated_user \<Rightarrow> environment_grant list \<Rightarrow> permission \<Rightarrow> string option \<Rightarrow> string" where
  "refusal_detail u grants perm tag =
     (let elsewhere = grantedEnvironments (principalOf u) grants perm
      in if elsewhere \<noteq> []
         then ''You can '' @ perm_name perm @ '' in '' @ join '', '' elsewhere @ '', but not in '' @
              (case tag of None \<Rightarrow> ''this untagged environment'' | Some t \<Rightarrow> t) @ ''.''
         else ''Your role ('' @ role_name (userRole u) @ '') cannot '' @ perm_name perm @
              '', and you hold no grant that allows it in '' @
              (case tag of None \<Rightarrow> ''an untagged environment'' | Some t \<Rightarrow> t) @ ''.'')"

text \<open>
  \<open>resolve\<close> finds the instance the request is about; \<open>lookup_fails\<close> holds for an id the database
  refuses. An empty id is falsy and names no instance.
\<close>

definition requireInstancePermission ::
  "(string \<Rightarrow> string) \<Rightarrow> (string \<Rightarrow> bool) \<Rightarrow> (http_request \<Rightarrow> string option) \<Rightarrow> estate \<Rightarrow> int \<Rightarrow> permission
     \<Rightarrow> auth_state \<Rightarrow> http_request \<Rightarrow> http_reply option \<times> auth_state \<times> http_request" where
  "requireInstancePermission hash lookup_fails resolve est now perm st req =
     (case authenticate hash now st req of
        (Inl reply, st, req) \<Rightarrow> (Some reply, st, req)
      | (Inr u, st, req) \<Rightarrow>
          (let inst = (case resolve req of Some i \<Rightarrow> if i = [] then None else Some i | None \<Rightarrow> None);
               tag = (case inst of None \<Rightarrow> None
                      | Some i \<Rightarrow> if lookup_fails i then None else environmentOfInstance est i);
               req = (case tag of None \<Rightarrow> req | Some t \<Rightarrow> req\<lparr>reqEnvironmentTag := Some t\<rparr>);
               grants = loadGrants (grantRows est)
           in (if roleHasPermission (userRole u) perm then None
               else case inst of
                 None \<Rightarrow> forbidden (''Your role ('' @ role_name (userRole u) @ '') cannot '' @ perm_name perm @
                    '', and this request does not name an instance to check a grant against.'')
               | Some _ \<Rightarrow>
                   (case tag of
                      None \<Rightarrow> forbidden (''Your role ('' @ role_name (userRole u) @ '') cannot '' @
                         perm_name perm @ '' here.'')
                    | Some t \<Rightarrow>
                        if canInEnvironment (principalOf u) grants perm t then None
                        else forbidden (refusal_detail u grants perm t)), st, req)))"

definition requireSession ::
  "(string \<Rightarrow> string) \<Rightarrow> int \<Rightarrow> auth_state \<Rightarrow> http_request \<Rightarrow> http_reply option \<times> auth_state \<times> http_request"
  where
  "requireSession hash now st req =
     (case resolveSession hash now (sessionCookie req) st of
        (None, st) \<Rightarrow> (Some \<lparr> replyStatus = 401, replyError = ''Unauthenticated'',
                          replyDetail = ''Sign in to continue.'' \<rparr>, st, req)
      | (Some (s, u), st) \<Rightarrow> (None, st, req\<lparr>reqUser := Some u, reqSessionId := Some (sessionId s)\<rparr>))"

definition actorOf :: "http_request \<Rightarrow> string" where
  "actorOf req = (case reqUser req of None \<Rightarrow> ''anonymous'' | Some u \<Rightarrow> username u)"

section \<open>Grants add and never subtract\<close>

lemma higher_max: "higher a b = max a b"
  by (cases a; cases b) (simp_all add: higher_def max_def less_eq_role_def)

definition reaching :: "principal \<Rightarrow> environment_grant list \<Rightarrow> string option \<Rightarrow> environment_grant list" where
  "reaching p grants tag = filter (\<lambda>g. appliesToSubject g p \<and> appliesToEnvironment g tag) grants"

lemma effectiveRole_fold:
  "foldl (\<lambda>r g. if \<not> appliesToSubject g p then r
     else if \<not> appliesToEnvironment g tag then r else higher r (gRole g)) r grants =
   foldl (\<lambda>r g. max r (gRole g)) r (reaching p grants tag)"
  by (induction grants arbitrary: r) (auto simp: reaching_def higher_max)

lemma fold_max_cases:
  "foldl (\<lambda>r g. max r (f g)) (r :: role) gs = r \<or> (\<exists>g \<in> set gs. foldl (\<lambda>r g. max r (f g)) r gs = f g)"
proof (induction gs arbitrary: r)
  case Nil
  then show ?case by simp
next
  case (Cons g gs)
  from Cons.IH [of "max r (f g)"] show ?case by (auto simp: max_def)
qed

lemma fold_max_ge:
  "(r :: role) \<le> foldl (\<lambda>r g. max r (f g)) r gs \<and>
   (\<forall>g \<in> set gs. f g \<le> foldl (\<lambda>r g. max r (f g)) r gs)"
proof (induction gs arbitrary: r)
  case Nil
  then show ?case by simp
next
  case (Cons g gs)
  from Cons.IH [of "max r (f g)"] show ?case by auto
qed

lemma effective_permission:
  "roleHasPermission (effectiveRole p grants tag) perm \<longleftrightarrow>
     roleHasPermission (pRole p) perm \<or>
     (\<exists>g \<in> set grants. appliesToSubject g p \<and> appliesToEnvironment g tag \<and> roleHasPermission (gRole g) perm)"
proof -
  let ?r = "foldl (\<lambda>r g. max r (gRole g)) (pRole p) (reaching p grants tag)"
  have r: "effectiveRole p grants tag = ?r" by (simp add: effectiveRole_def effectiveRole_fold)
  have base: "roleHasPermission ?r perm" if "roleHasPermission (pRole p) perm"
    using fold_max_ge [of "pRole p" gRole "reaching p grants tag"] role_mono that by blast
  have each: "roleHasPermission ?r perm"
    if "g \<in> set (reaching p grants tag)" "roleHasPermission (gRole g) perm" for g
    using fold_max_ge [of "pRole p" gRole "reaching p grants tag"] role_mono that by blast
  have "?r = pRole p \<or> (\<exists>g \<in> set (reaching p grants tag). ?r = gRole g)"
    by (rule fold_max_cases)
  then have "roleHasPermission ?r perm \<longleftrightarrow> roleHasPermission (pRole p) perm \<or>
      (\<exists>g \<in> set (reaching p grants tag). roleHasPermission (gRole g) perm)"
    using base each by metis
  then show ?thesis unfolding r by (auto simp: reaching_def)
qed

lemma set_js_unique [simp]: "set (js_unique xs) = set xs"
  by (simp add: js_unique_def)

lemma distinct_js_unique [simp]: "distinct (js_unique xs)"
  by (simp add: js_unique_def)

text \<open>
  Grants add and never subtract. A principal may do something in an environment exactly if the
  base role allows it or the permission is not an estate-wide one and some grant that names the
  principal and reaches the environment carries it, so the order of the grants does not matter and
  more of them never allow less; an untagged environment is reached by \<open>*\<close> grants only; and what the
  dashboard is told the principal may do is exactly what the guard will let through.
\<close>

theorem grants_add:
  "(canInEnvironment p grants perm tag \<longleftrightarrow>
      roleHasPermission (pRole p) perm \<or>
      perm \<notin> set ESTATE_ONLY_PERMISSIONS \<and>
      list_ex (\<lambda>g. appliesToSubject g p \<and> appliesToEnvironment g tag \<and> roleHasPermission (gRole g) perm) grants) \<and>
   (perm \<in> set (permissionsInEnvironment p grants tag) \<longleftrightarrow> canInEnvironment p grants perm tag) \<and>
   distinct (permissionsInEnvironment p grants tag) \<and>
   (appliesToEnvironment g None \<longleftrightarrow> gEnvironmentTag g = ALL_ENVIRONMENTS)"
proof -
  have "perm \<in> set (permissionsInEnvironment p grants tag) \<longleftrightarrow> canInEnvironment p grants perm tag"
    using effective_permission [of p grants tag perm]
    by (auto simp: permissionsInEnvironment_def canInEnvironment_def roleHasPermission_def)
  moreover have "distinct (permissionsInEnvironment p grants tag)"
    by (simp add: permissionsInEnvironment_def)
  moreover have "appliesToEnvironment g None \<longleftrightarrow> gEnvironmentTag g = ALL_ENVIRONMENTS"
    by (simp add: appliesToEnvironment_def normaliseTag_def)
  ultimately show ?thesis
    using effective_permission [of p grants tag perm] by (auto simp: canInEnvironment_def list_ex_iff)
qed

section \<open>One grant per subject and environment\<close>

lemma is_space_lower [simp]: "is_space (lower_char c) = is_space c"
proof (cases "65 \<le> (of_char c :: nat) \<and> (of_char c :: nat) \<le> 90")
  case True
  then have n: "(of_char (char_of ((of_char c :: nat) + 32) :: char) :: nat) = of_char c + 32"
    by (simp add: of_char_of)
  have "(of_char (CHR '' '') :: nat) = 32" by simp
  with True have "c \<noteq> CHR '' ''" "char_of ((of_char c :: nat) + 32) \<noteq> CHR '' ''"
    using n by (auto dest: arg_cong [of _ _ "of_char :: char \<Rightarrow> nat"])
  with True n show ?thesis by (simp add: lower_char_def is_space_def Let_def)
next
  case False
  then show ?thesis by (auto simp: lower_char_def Let_def)
qed

lemma dropWhile_lower: "dropWhile is_space (to_lower s) = to_lower (dropWhile is_space s)"
  by (induction s) (simp_all add: to_lower_def)

lemma trim_lower: "trim (to_lower s) = to_lower (trim s)"
proof -
  have "rev (to_lower t) = to_lower (rev t)" for t by (simp add: to_lower_def rev_map)
  then show ?thesis by (simp add: trim_def dropWhile_lower)
qed

lemma trim_trim: "trim (trim s) = trim s"
proof -
  have drop: "dropWhile P (rev (dropWhile P (rev (dropWhile P t)))) = rev (dropWhile P (rev (dropWhile P t)))"
    for P :: "char \<Rightarrow> bool" and t
  proof (cases "dropWhile P t")
    case Nil
    then show ?thesis by (simp only: rev.simps dropWhile.simps)
  next
    case (Cons a as)
    then have a: "\<not> P a" by (metis dropWhile_eq_Cons_conv)
    then have "rev (dropWhile P (rev (a # as))) = a # rev (dropWhile P (rev as))"
      by (simp add: dropWhile_append)
    with Cons a show ?thesis by simp
  qed
  have "dropWhile P (rev (rev (dropWhile P t))) = dropWhile P t" for P :: "char \<Rightarrow> bool" and t by simp
  then show ?thesis by (simp add: trim_def drop)
qed

lemma normaliseTag_idem: "normaliseTag tag = Some t \<Longrightarrow> normaliseTag (Some t) = Some t"
  by (auto simp: normaliseTag_def Let_def trim_lower trim_trim split: option.splits if_splits)

definition grants_wf :: "grant_row list \<Rightarrow> bool" where
  "grants_wf rows \<longleftrightarrow>
     distinct (map (\<lambda>r. (gSubjectKind (grantOf r), gSubjectKey (grantOf r), gEnvironmentTag (grantOf r))) rows) \<and>
     list_all (\<lambda>r. normaliseTag (Some (gEnvironmentTag (grantOf r))) = Some (gEnvironmentTag (grantOf r))) rows"

text \<open>
  One answer per subject and environment, and a correction takes effect. Saving keeps every
  stored tag normalised and every subject with at most one grant per environment; afterwards each
  grant the resolver loads for that subject and that environment, however its tag was typed, carries
  the role just saved. A refused save changes nothing.
\<close>

theorem saveGrant_unique:
  assumes wf: "grants_wf rows" and run: "saveGrant uids newId inp by rows = (r, rows')"
  shows "grants_wf rows' \<and>
    (case r of
       Inl e \<Rightarrow> rows' = rows
     | Inr i \<Rightarrow> \<exists>g \<in> set (loadGrants rows'). gSubjectKind g = gSubjectKind (gInput inp) \<and>
         gSubjectKey g = gSubjectKey (gInput inp) \<and> gRole g = gRole (gInput inp)) \<and>
    (r \<noteq> Inl (GrantError 400 ''UnknownUser'' ''No user with that id.'') \<longrightarrow>
     (\<forall>g \<in> set (loadGrants rows'). gSubjectKind g = gSubjectKind (gInput inp) \<longrightarrow>
         gSubjectKey g = gSubjectKey (gInput inp) \<longrightarrow>
         normaliseTag (Some (gEnvironmentTag g)) = normaliseTag (Some (gEnvironmentTag (gInput inp))) \<longrightarrow>
         gRole g = gRole (gInput inp)))"
proof (cases "(gSubjectKind (gInput inp) = UserSubject \<and> gSubjectKey (gInput inp) \<notin> set uids)")
  case True
  with run wf show ?thesis by (auto simp: saveGrant_def Let_def)
next
  case ok: False
  let ?g = "gInput inp"
  show ?thesis
  proof (cases "normaliseTag (Some (gEnvironmentTag ?g))")
    case None
    with run ok have e: "r = Inl (GrantError 400 ''EmptyEnvironmentTag'' ''An environment tag cannot be blank.'')"
      "rows' = rows" by (auto simp: saveGrant_def Let_def)
    have "normaliseTag (Some (gEnvironmentTag g)) \<noteq> None" if "g \<in> set (loadGrants rows)" for g
      using wf that by (auto simp: grants_wf_def loadGrants_def list_all_iff)
    then have "\<forall>g \<in> set (loadGrants rows). normaliseTag (Some (gEnvironmentTag g)) \<noteq>
        normaliseTag (Some (gEnvironmentTag ?g))" unfolding None by blast
    with e wf show ?thesis by simp
  next
    case (Some tag)
    let ?new = "\<lparr> grantId = newId, grantOf = ?g\<lparr>gEnvironmentTag := tag\<rparr>, subjectLabel = gLabel inp, createdBy = by \<rparr>"
    obtain i where up: "upsert_grant ?new rows = (i, rows')" and r: "r = Inr i"
      using run ok Some by (auto simp: saveGrant_def Let_def split: prod.splits)
    let ?key = "\<lambda>r. (gSubjectKind (grantOf r), gSubjectKey (grantOf r), gEnvironmentTag (grantOf r))"
    note idem = normaliseTag_idem [OF Some]
    have key: "same_key (grantOf x) (grantOf ?new) \<longleftrightarrow> ?key x = ?key ?new" for x
      by (auto simp: same_key_def)
    have d: "distinct (map ?key rows)"
      and n: "\<And>x. x \<in> set rows \<Longrightarrow> normaliseTag (Some (gEnvironmentTag (grantOf x))) = Some (gEnvironmentTag (grantOf x))"
      using wf by (auto simp: grants_wf_def list_all_iff)
    have "grants_wf rows' \<and> (\<exists>x \<in> set rows'. ?key x = ?key ?new \<and> gRole (grantOf x) = gRole ?g) \<and>
       (\<forall>x \<in> set rows'. ?key x = ?key ?new \<longrightarrow> gRole (grantOf x) = gRole ?g)"
    proof (cases "find (\<lambda>x. same_key (grantOf x) (grantOf ?new)) rows")
      case None
      then have "\<not> (\<exists>x. x \<in> set rows \<and> ?key x = ?key ?new)" unfolding find_None_iff key .
      then have other: "?key x \<noteq> ?key ?new" if "x \<in> set rows" for x using that by blast
      have fresh: "?key ?new \<notin> ?key ` set rows"
      proof
        assume "?key ?new \<in> ?key ` set rows"
        then obtain x where x: "?key ?new = ?key x" "x \<in> set rows" by (rule imageE)
        from other [OF x(2)] x(1) [symmetric] show False by (rule notE)
      qed
      have rows': "rows' = rows @ [?new]" using up None by (auto simp: upsert_grant_def)
      have "grants_wf rows'" using d n idem fresh by (auto simp: rows' grants_wf_def list_all_iff)
      moreover have "\<exists>x \<in> set rows'. ?key x = ?key ?new \<and> gRole (grantOf x) = gRole ?g"
        by (auto simp: rows')
      moreover have "\<forall>x \<in> set rows'. ?key x = ?key ?new \<longrightarrow> gRole (grantOf x) = gRole ?g"
      proof (intro ballI impI)
        fix x assume x: "x \<in> set rows'" "?key x = ?key ?new"
        with other have "x = ?new" unfolding rows' by (metis Un_iff empty_iff empty_set set_ConsD set_append)
        then show "gRole (grantOf x) = gRole ?g" by simp
      qed
      ultimately show ?thesis by blast
    next
      case (Some old)
      then have old: "old \<in> set rows" "?key old = ?key ?new"
        using find_SomeD [OF Some] unfolding key by blast+
      let ?f = "\<lambda>x. if same_key (grantOf x) (grantOf ?new)
         then x\<lparr>grantOf := (grantOf x)\<lparr>gRole := gRole ?g\<rparr>, subjectLabel := gLabel inp\<rparr> else x"
      have rows': "rows' = map ?f rows" using up Some by (auto simp: upsert_grant_def cong: if_cong)
      have kf: "?key (?f x) = ?key x" for x by simp
      have "map ?key rows' = map ?key rows" by (simp add: rows' kf)
      moreover have "normaliseTag (Some (gEnvironmentTag (grantOf (?f x)))) = Some (gEnvironmentTag (grantOf (?f x)))"
        if "x \<in> set rows" for x using n [OF that] by simp
      then have "list_all (\<lambda>x. normaliseTag (Some (gEnvironmentTag (grantOf x))) = Some (gEnvironmentTag (grantOf x))) rows'"
        unfolding rows' list_all_iff set_map by blast
      ultimately have "grants_wf rows'" using d by (simp add: grants_wf_def)
      moreover have role: "gRole (grantOf (?f x)) = gRole ?g" if "?key x = ?key ?new" for x
        using that by (simp add: same_key_def)
      have "?f old \<in> set rows'" unfolding rows' using old(1) by simp
      then have "\<exists>x \<in> set rows'. ?key x = ?key ?new \<and> gRole (grantOf x) = gRole ?g"
        using role [OF old(2)] trans [OF kf old(2)] by (intro bexI [of _ "?f old"] conjI)
      moreover have "\<forall>y \<in> set rows'. ?key y = ?key ?new \<longrightarrow> gRole (grantOf y) = gRole ?g"
      proof (intro ballI impI)
        fix y assume y: "y \<in> set rows'" "?key y = ?key ?new"
        from y(1) obtain x where x: "y = ?f x" unfolding rows' set_map by (rule imageE)
        from y(2) have "?key (?f x) = ?key ?new" by (simp only: x)
        then have "?key x = ?key ?new" by (rule trans [OF kf [symmetric]])
        from role [OF this] show "gRole (grantOf y) = gRole ?g" by (simp only: x)
      qed
      ultimately show ?thesis by blast
    qed
    moreover have "normaliseTag (Some (gEnvironmentTag (grantOf x))) = Some (gEnvironmentTag (grantOf x))"
      if "x \<in> set rows'" "grants_wf rows'" for x using that by (auto simp: grants_wf_def list_all_iff)
    ultimately show ?thesis
      using Some unfolding r loadGrants_def set_map by (auto 4 3)
  qed
qed

definition example_grant :: "role \<Rightarrow> string \<Rightarrow> grant_input" where
  "example_grant r tag = \<lparr> gInput = \<lparr> gSubjectKind = EntraGroup, gSubjectKey = ''dba'', gEnvironmentTag = tag,
     gRole = r \<rparr>, gLabel = None \<rparr>"

theorem saveGrant_unique_witness:
  "map gRole (loadGrants (snd (saveGrant [] ''2'' (example_grant Operator '' PRODUCTION'') None
     (snd (saveGrant [] ''1'' (example_grant Admin ''Production'') None []))))) = [Operator]"
proof -
  let ?rows = "snd (saveGrant [] ''1'' (example_grant Admin ''Production'') None [])"
  let ?rows' = "snd (saveGrant [] ''2'' (example_grant Operator '' PRODUCTION'') None ?rows)"
  have "grants_wf []" by (simp add: grants_wf_def)
  then have wf: "grants_wf ?rows"
    using saveGrant_unique [of "[]" "[]" "''1''" "example_grant Admin ''Production''" None
      "fst (saveGrant [] ''1'' (example_grant Admin ''Production'') None [])" ?rows] by simp
  have "length (loadGrants ?rows') = 1" by code_simp
  then obtain g where g: "loadGrants ?rows' = [g]" by (cases "loadGrants ?rows'") auto
  have "fst (saveGrant [] ''2'' (example_grant Operator '' PRODUCTION'') None ?rows) = Inr ''1''" by code_simp
  with saveGrant_unique [OF wf, of "[]" "''2''" "example_grant Operator '' PRODUCTION''" None
      "fst (saveGrant [] ''2'' (example_grant Operator '' PRODUCTION'') None ?rows)" ?rows'] g
  show ?thesis by (simp add: example_grant_def)
qed

section \<open>What a guard lets through\<close>

lemma session_ofD:
  assumes "session_of hash now token st = Some (s, u)"
  shows "s \<in> set (sessions st) \<and> tokenHash s = hash token \<and> sessionExpiresAt s > now \<and>
     u \<in> set (users st) \<and> userId (userData u) = sessionUser s"
proof -
  let ?xs = "List.map_filter (\<lambda>s. if tokenHash s = hash token \<and> sessionExpiresAt s > now
        then map_option (Pair s) (find (\<lambda>u. userId (userData u) = sessionUser s) (users st)) else None)
      (sessions st)"
  have "(s, u) \<in> set ?xs" using assms by (cases ?xs) (auto simp: session_of_def)
  then show ?thesis
    by (auto simp: map_filter_def dest: find_SomeD split: if_splits)
qed

text \<open>An admitted session: known, unexpired, its user enabled, and for writes the CSRF token matched.\<close>

definition admitted ::
  "(string \<Rightarrow> string) \<Rightarrow> int \<Rightarrow> auth_state \<Rightarrow> http_request \<Rightarrow> session_row \<Rightarrow> user_row \<Rightarrow> bool" where
  "admitted hash now st req s u \<longleftrightarrow>
     s \<in> set (sessions st) \<and> u \<in> set (users st) \<and> userId (userData u) = sessionUser s \<and>
     sessionCookie req \<noteq> None \<and> sessionCookie req \<noteq> Some [] \<and>
     tokenHash s = hash (the (sessionCookie req)) \<and> now < sessionExpiresAt s \<and> disabledAt u = None \<and>
     (httpMethod req \<in> set MUTATING_METHODS \<longrightarrow>
        csrfHeader req \<noteq> [] \<and> safeEqualHex (hash (hd (csrfHeader req))) (csrfTokenHash s))"

lemma authenticate_InrD:
  assumes "authenticate hash now st req = (Inr v, st', req')"
  shows "\<exists>s u. admitted hash now st req s u \<and> v = userData u \<and>
     req' = req\<lparr>reqUser := Some v, reqSessionId := Some (sessionId s)\<rparr>"
proof -
  obtain s st1 where r: "resolveSession hash now (sessionCookie req) st = (Some (s, v), st1)"
    using assms by (auto simp: authenticate_def Let_def split: prod.splits option.splits if_splits)
  then have c: "sessionCookie req \<noteq> None" "sessionCookie req \<noteq> Some []"
    by (auto simp: resolveSession_def split: if_splits)
  with r obtain u where u: "session_of hash now (the (sessionCookie req)) st = Some (s, u)"
    "disabledAt u = None" "v = userData u"
    by (auto simp: resolveSession_def split: option.splits if_splits)
  have "httpMethod req \<in> set MUTATING_METHODS \<longrightarrow>
      csrfHeader req \<noteq> [] \<and> safeEqualHex (hash (hd (csrfHeader req))) (csrfTokenHash s)"
    and "req' = req\<lparr>reqUser := Some v, reqSessionId := Some (sessionId s)\<rparr>"
    using assms r by (auto simp: authenticate_def Let_def split: if_splits list.splits)
  with c u session_ofD [OF u(1)] show ?thesis by (auto simp: admitted_def)
qed

text \<open>
  C14. What the instance guard lets through. A request passes only with a known, unexpired session of
  an enabled user, with the matching CSRF token if it writes, and only if the user's base role has
  the permission or the request names an existing instance whose environment a grant to this user
  reaches, with a role that has it, and the permission is not estate-wide; and whatever the plain
  guard admits the instance guard admits too.
\<close>

theorem instance_guard_sound:
  assumes "fst (requireInstancePermission hash lookup_fails resolve est now perm st req) = None"
  shows "\<exists>s u. admitted hash now st req s u \<and>
    (roleHasPermission (userRole (userData u)) perm \<or>
     perm \<notin> set ESTATE_ONLY_PERMISSIONS \<and>
     (\<exists>i tag. resolve (req\<lparr>reqUser := Some (userData u), reqSessionId := Some (sessionId s)\<rparr>) = Some i \<and>
        environmentOfInstance est i = Some tag \<and>
        list_ex (\<lambda>g. appliesToSubject g (principalOf (userData u)) \<and> appliesToEnvironment g tag \<and>
          roleHasPermission (gRole g) perm) (loadGrants (grantRows est))))"
proof -
  obtain r st1 req1 where a: "authenticate hash now st req = (r, st1, req1)" using prod_cases3 by blast
  with assms obtain v where v: "r = Inr v"
    by (cases r) (auto simp: requireInstancePermission_def)
  from authenticate_InrD [OF a [unfolded v]] obtain s u where su: "admitted hash now st req s u"
    "v = userData u" "req1 = req\<lparr>reqUser := Some v, reqSessionId := Some (sessionId s)\<rparr>" by blast
  show ?thesis
  proof (cases "roleHasPermission (userRole v) perm")
    case True
    with su show ?thesis by blast
  next
    case False
    with assms a v obtain i tag where i: "resolve req1 = Some i" "environmentOfInstance est i = Some tag"
      "canInEnvironment (principalOf v) (loadGrants (grantRows est)) perm tag"
      by (auto simp: requireInstancePermission_def Let_def forbidden_def split: option.splits if_splits)
    have "pRole (principalOf v) = userRole v" by (simp add: principalOf_def)
    with i(3) False have "perm \<notin> set ESTATE_ONLY_PERMISSIONS \<and>
        list_ex (\<lambda>g. appliesToSubject g (principalOf v) \<and> appliesToEnvironment g tag \<and>
          roleHasPermission (gRole g) perm) (loadGrants (grantRows est))"
      using effective_permission [of "principalOf v" "loadGrants (grantRows est)" tag perm]
      by (auto simp: canInEnvironment_def list_ex_iff split: if_splits)
    with i su show ?thesis by blast
  qed
qed

lemma plain_guard_stronger:
  "fst (requirePermission hash now perm st req) = None \<Longrightarrow>
     fst (requireInstancePermission hash lookup_fails resolve est now perm st req) = None"
  by (auto simp: requirePermission_def requireInstancePermission_def forbidden_def Let_def
      split: prod.splits sum.splits if_splits)

definition example_user :: "int option \<Rightarrow> user_row" where
  "example_user d = \<lparr> userData = \<lparr> userId = ''u'', username = ''ana'', userRole = Viewer,
     identityGroups = [''entra_group:dba''] \<rparr>, disabledAt = d \<rparr>"

definition example_auth :: "int option \<Rightarrow> auth_state" where
  "example_auth d = snd (createSession (\<lambda>x. x) ''s'' ''aa'' ''bb'' 0 ''u'' 1 None
     \<lparr> users = [example_user d], sessions = [] \<rparr>)"

definition example_request :: http_request where
  "example_request = \<lparr> httpMethod = ''POST'', sessionCookie = Some ''aa'', csrfHeader = [''bb''],
     instanceParam = Some ''i'', reqUser = None, reqSessionId = None, reqEnvironmentTag = None \<rparr>"

definition example_env :: estate where
  "example_env = \<lparr> instanceRows = [(''i'', ''w'', ''SQL1'')],
     configRows = [\<lparr> cfgWorkerId = ''w'', cfgInstanceName = ''SQL1'', cfgEnvironmentTag = Some ''production'' \<rparr>],
     grantRows = snd (saveGrant [] ''1'' (example_grant Editor ''Production'') None []) \<rparr>"

theorem instance_guard_sound_witness:
  "\<exists>s u. admitted (\<lambda>x. x) 5 (example_auth None) example_request s u \<and> userRole (userData u) = Viewer"
proof -
  have "fst (requireInstancePermission (\<lambda>x. x) (\<lambda>_. False) instanceFromParams example_env 5 MayWriteJob
      (example_auth None) example_request) = None" by code_simp
  from instance_guard_sound [OF this] obtain s u where
    "admitted (\<lambda>x. x) 5 (example_auth None) example_request s u" by blast
  moreover from this have "userRole (userData u) = Viewer"
    by (auto simp: admitted_def example_auth_def createSession_def example_user_def Let_def)
  ultimately show ?thesis by blast
qed

text \<open>Disabling a user, revoking or expiring a session takes effect at the next request.\<close>

lemma revoked_session:
  "token \<noteq> [] \<Longrightarrow> fst (resolveSession hash now (Some token) (revokeSession hash (Some token) st)) = None"
proof -
  assume t: "token \<noteq> []"
  let ?st = "revokeSession hash (Some token) st"
  have "session_of hash now token ?st = None"
  proof (rule ccontr)
    assume "session_of hash now token ?st \<noteq> None"
    then obtain s u where "session_of hash now token ?st = Some (s, u)" by force
    from session_ofD [OF this] t show False by (auto simp: revokeSession_def)
  qed
  with t show ?thesis by (simp add: resolveSession_def)
qed

lemma revoked_user:
  "fst (resolveSession hash now token (revokeAllSessionsForUser uid st)) = Some (s, u) \<Longrightarrow> userId u \<noteq> uid"
  by (auto simp: resolveSession_def revokeAllSessionsForUser_def dest!: session_ofD
      split: if_splits option.splits)

lemma pruned_sessions:
  "pruneExpiredSessions now st = (n, st') \<Longrightarrow>
     n + length (sessions st') = length (sessions st) \<and> list_all (\<lambda>s. now \<le> sessionExpiresAt s) (sessions st')"
  using sum_length_filter_compl [of "\<lambda>s. sessionExpiresAt s < now" "sessions st"]
  by (auto simp: pruneExpiredSessions_def list_all_iff)

end
