(* ===== verification/Diff.thy ===== *)
theory Diff
  imports JobDefinition
begin

text \<open>
  The structured difference between two job definitions that the Versions tab shows
  (\<open>packages/server/src/domain/diff.ts\<close>): scalar fields, notification settings, steps matched by id
  and schedules matched by name.
\<close>

section \<open>Changes\<close>

datatype field_value = VInt int | VBool bool | VStr string | VOpt "string option"

record field_change =
  changePath :: string
  changeBefore :: field_value
  changeAfter :: field_value

datatype change_kind = Added | Removed | Modified

datatype change =
    FieldChange field_change
  | StepChange change_kind int string "field_change list option" "string option" "string option"
  | ScheduleChange change_kind string "field_change list option"

definition JOB_SCALAR_FIELDS :: "(string \<times> (job_definition \<Rightarrow> field_value)) list" where
  "JOB_SCALAR_FIELDS =
     [(''name'', VStr \<circ> jobName), (''description'', VOpt \<circ> description), (''enabled'', VBool \<circ> enabled),
      (''categoryName'', VOpt \<circ> categoryName), (''ownerLoginName'', VOpt \<circ> ownerLoginName),
      (''startStepId'', VInt \<circ> startStepId)]"

definition NOTIFICATION_KEYS :: "(string \<times> (job_notifications \<Rightarrow> field_value)) list" where
  "NOTIFICATION_KEYS =
     [(''emailOperatorName'', VOpt \<circ> emailOperatorName), (''emailLevel'', VInt \<circ> emailLevel),
      (''netsendOperatorName'', VOpt \<circ> netsendOperatorName), (''netsendLevel'', VInt \<circ> netsendLevel),
      (''pageOperatorName'', VOpt \<circ> pageOperatorName), (''pageLevel'', VInt \<circ> pageLevel),
      (''eventlogLevel'', VInt \<circ> eventlogLevel), (''deleteLevel'', VInt \<circ> deleteLevel)]"

definition STEP_FIELDS :: "(string \<times> (job_step \<Rightarrow> field_value)) list" where
  "STEP_FIELDS =
     [(''name'', VStr \<circ> stepName), (''subsystem'', VStr \<circ> subsystem_name \<circ> subsystem),
      (''databaseName'', VOpt \<circ> databaseName), (''databaseUserName'', VOpt \<circ> databaseUserName),
      (''onSuccessAction'', VInt \<circ> onSuccessAction), (''onSuccessStepId'', VInt \<circ> onSuccessStepId),
      (''onFailAction'', VInt \<circ> onFailAction), (''onFailStepId'', VInt \<circ> onFailStepId),
      (''retryAttempts'', VInt \<circ> retryAttempts), (''retryIntervalMinutes'', VInt \<circ> retryIntervalMinutes),
      (''outputFileName'', VOpt \<circ> outputFileName), (''flags'', VInt \<circ> flags),
      (''proxyName'', VOpt \<circ> proxyName)]"

definition SCHEDULE_FIELDS :: "(string \<times> (schedule_definition \<Rightarrow> field_value)) list" where
  "SCHEDULE_FIELDS =
     [(''enabled'', VBool \<circ> schedEnabled), (''freqType'', VInt \<circ> freqType),
      (''freqInterval'', VInt \<circ> freqInterval), (''freqSubdayType'', VInt \<circ> freqSubdayType),
      (''freqSubdayInterval'', VInt \<circ> freqSubdayInterval),
      (''freqRelativeInterval'', VInt \<circ> freqRelativeInterval),
      (''freqRecurrenceFactor'', VInt \<circ> freqRecurrenceFactor),
      (''activeStartDate'', VInt \<circ> activeStartDate), (''activeEndDate'', VInt \<circ> activeEndDate),
      (''activeStartTime'', VInt \<circ> activeStartTime), (''activeEndTime'', VInt \<circ> activeEndTime)]"

text \<open>The loop over a list of field names: the fields whose values differ.\<close>

definition diff_fields ::
  "string \<Rightarrow> (string \<times> ('r \<Rightarrow> field_value)) list \<Rightarrow> 'r \<Rightarrow> 'r \<Rightarrow> field_change list" where
  "diff_fields prefix fs before after =
     map (\<lambda>(name, get). \<lparr> changePath = prefix @ name, changeBefore = get before, changeAfter = get after \<rparr>)
       (filter (\<lambda>(name, get). get before \<noteq> get after) fs)"

definition diff_step :: "job_step list \<Rightarrow> job_step \<Rightarrow> change list" where
  "diff_step before s =
     (case last_by stepId before (stepId s) of
        None \<Rightarrow> [StepChange Added (stepId s) (stepName s) None None (Some (command s))]
      | Some prev \<Rightarrow>
          (let fs = diff_fields (''steps['' @ show_int (stepId s) @ ''].'') STEP_FIELDS prev s;
               commandChanged = (command prev \<noteq> command s)
           in if fs \<noteq> [] \<or> commandChanged
              then [StepChange Modified (stepId s) (stepName s) (Some fs)
                      (if commandChanged then Some (command prev) else None)
                      (if commandChanged then Some (command s) else None)]
              else []))"

fun change_step_id :: "change \<Rightarrow> int" where
  "change_step_id (StepChange _ i _ _ _ _) = i"
| "change_step_id _ = 0"

definition diffSteps :: "job_step list \<Rightarrow> job_step list \<Rightarrow> change list" where
  "diffSteps before after =
     sort_key change_step_id
       (concat (map (diff_step before) after) @
        map (\<lambda>s. StepChange Removed (stepId s) (stepName s) None (Some (command s)) None)
          (filter (\<lambda>s. last_by stepId after (stepId s) = None) before))"

definition diff_schedule :: "schedule_definition list \<Rightarrow> schedule_definition \<Rightarrow> change list" where
  "diff_schedule before s =
     (case last_by schedName before (schedName s) of
        None \<Rightarrow> [ScheduleChange Added (schedName s) None]
      | Some prev \<Rightarrow>
          (let fs = diff_fields (''schedules['' @ schedName s @ ''].'') SCHEDULE_FIELDS prev s
           in if fs \<noteq> [] then [ScheduleChange Modified (schedName s) (Some fs)] else []))"

definition diffSchedules :: "schedule_definition list \<Rightarrow> schedule_definition list \<Rightarrow> change list" where
  "diffSchedules before after =
     concat (map (diff_schedule before) after) @
     map (\<lambda>s. ScheduleChange Removed (schedName s) None)
       (filter (\<lambda>s. last_by schedName after (schedName s) = None) before)"

definition diffJobDefinitions :: "job_definition \<Rightarrow> job_definition \<Rightarrow> change list" where
  "diffJobDefinitions before after =
     map FieldChange (diff_fields [] JOB_SCALAR_FIELDS before after) @
     map FieldChange (diff_fields ''notifications.'' NOTIFICATION_KEYS (notifications before) (notifications after)) @
     diffSteps (steps before) (steps after) @ diffSchedules (schedules before) (schedules after)"

section \<open>What an empty diff means\<close>

lemma diff_fields_empty:
  "diff_fields prefix fs a b = [] \<longleftrightarrow> list_all (\<lambda>(name, get). get a = get b) fs"
  by (auto simp: diff_fields_def filter_empty_conv list_all_iff)

lemma same_step:
  "diff_fields p STEP_FIELDS a b = [] \<and> command a = command b \<and> stepId a = stepId b \<longleftrightarrow> a = b"
  by (cases a; cases b) (auto simp: diff_fields_empty STEP_FIELDS_def)

lemma same_schedule:
  "diff_fields p SCHEDULE_FIELDS a b = [] \<and> schedName a = schedName b \<longleftrightarrow> a = b"
  by (cases a; cases b) (auto simp: diff_fields_empty SCHEDULE_FIELDS_def)

lemma same_notifications: "diff_fields p NOTIFICATION_KEYS a b = [] \<longleftrightarrow> a = b"
  by (cases a; cases b) (auto simp: diff_fields_empty NOTIFICATION_KEYS_def)

lemma same_scalars:
  "diff_fields p JOB_SCALAR_FIELDS a b = [] \<longleftrightarrow> jobName a = jobName b \<and> description a = description b \<and>
     enabled a = enabled b \<and> categoryName a = categoryName b \<and> ownerLoginName a = ownerLoginName b \<and>
     startStepId a = startStepId b"
  by (auto simp: diff_fields_empty JOB_SCALAR_FIELDS_def)

text \<open>Both matchings have the same shape: nothing to report exactly if the two sets are equal.\<close>

lemma keyed_same:
  assumes "distinct (map key xs)" and "distinct (map key ys)"
    and "\<And>y. y \<in> set ys \<Longrightarrow> d y = [] \<longleftrightarrow> (\<exists>x. last_by key xs (key y) = Some x \<and> x = y)"
  shows "(\<forall>y \<in> set ys. d y = []) \<and> (\<forall>x \<in> set xs. last_by key ys (key x) \<noteq> None) \<longleftrightarrow> set xs = set ys"
proof
  assume l: "(\<forall>y \<in> set ys. d y = []) \<and> (\<forall>x \<in> set xs. last_by key ys (key x) \<noteq> None)"
  have sub: "set ys \<subseteq> set xs"
    using l assms(3) by (auto dest: last_by_SomeD)
  moreover have "x \<in> set ys" if x: "x \<in> set xs" for x
  proof -
    obtain y where y: "y \<in> set ys" "key y = key x" using l x last_by_SomeD by fastforce
    then have "y \<in> set xs" using sub by auto
    with y x assms(1) have "x = y" by (auto simp: distinct_map dest: inj_onD)
    with y show ?thesis by simp
  qed
  ultimately show "set xs = set ys" by blast
next
  assume eq: "set xs = set ys"
  have "last_by key xs (key y) = Some y" if "y \<in> set ys" for y
    using last_by_distinct [OF assms(1)] that eq by simp
  moreover have "last_by key ys (key x) = Some x" if "x \<in> set xs" for x
    using last_by_distinct [OF assms(2)] that eq by simp
  ultimately show "(\<forall>y \<in> set ys. d y = []) \<and> (\<forall>x \<in> set xs. last_by key ys (key x) \<noteq> None)"
    using assms(3) by simp
qed

lemma diff_step_empty:
  "diff_step before s = [] \<longleftrightarrow> (\<exists>x. last_by stepId before (stepId s) = Some x \<and> x = s)"
proof (cases "last_by stepId before (stepId s)")
  case None
  then show ?thesis by (simp add: diff_step_def)
next
  case (Some prev)
  then have "stepId prev = stepId s" by (auto dest: last_by_SomeD)
  with Some same_step [of _ prev s] show ?thesis by (auto simp: diff_step_def Let_def)
qed

lemma diff_schedule_empty:
  "diff_schedule before s = [] \<longleftrightarrow> (\<exists>x. last_by schedName before (schedName s) = Some x \<and> x = s)"
proof (cases "last_by schedName before (schedName s)")
  case None
  then show ?thesis by (simp add: diff_schedule_def)
next
  case (Some prev)
  then have "schedName prev = schedName s" by (auto dest: last_by_SomeD)
  with Some same_schedule [of _ prev s] show ?thesis by (auto simp: diff_schedule_def Let_def)
qed

lemma sort_key_empty: "sort_key f xs = [] \<longleftrightarrow> xs = []"
  by (metis length_0_conv length_sort)

lemma diffSteps_empty:
  assumes "distinct (map stepId a)" and "distinct (map stepId b)"
  shows "diffSteps a b = [] \<longleftrightarrow> set a = set b"
  using keyed_same [OF assms, of "diff_step a"] diff_step_empty
  by (auto simp: diffSteps_def sort_key_empty filter_empty_conv)

lemma diffSchedules_empty:
  assumes "distinct (map schedName a)" and "distinct (map schedName b)"
  shows "diffSchedules a b = [] \<longleftrightarrow> set a = set b"
  using keyed_same [OF assms, of "diff_schedule a"] diff_schedule_empty
  by (auto simp: diffSchedules_def filter_empty_conv)

definition diffable :: "job_definition \<Rightarrow> bool" where
  "diffable d \<longleftrightarrow> distinct (map stepId (steps d)) \<and> distinct (map schedName (schedules d))"

text \<open>
  The diff misses nothing but the target servers. For definitions whose steps have different ids
  and whose schedules have different names, the list of changes is empty exactly if the two agree in
  every scalar field, in the notification settings, and in their steps and schedules up to order.
\<close>

theorem diff_empty_iff:
  assumes "diffable a" and "diffable b"
  shows "diffJobDefinitions a b = [] \<longleftrightarrow>
     jobName a = jobName b \<and> description a = description b \<and> enabled a = enabled b \<and>
     categoryName a = categoryName b \<and> ownerLoginName a = ownerLoginName b \<and>
     startStepId a = startStepId b \<and> notifications a = notifications b \<and>
     mset (steps a) = mset (steps b) \<and> mset (schedules a) = mset (schedules b)"
proof -
  have m: "mset xs = mset ys \<longleftrightarrow> set xs = set ys" if "distinct (map f xs)" "distinct (map f ys)"
    for f :: "'x \<Rightarrow> 'k" and xs ys
    using that set_eq_iff_mset_eq_distinct [of xs ys] by (simp add: distinct_map)
  show ?thesis
    using assms diffSteps_empty [of "steps a" "steps b"] diffSchedules_empty [of "schedules a" "schedules b"]
      m [of stepId "steps a" "steps b"] m [of schedName "schedules a" "schedules b"]
    by (auto simp: diffJobDefinitions_def diffable_def same_scalars same_notifications)
qed

definition plain_job :: "string list \<Rightarrow> job_definition" where
  "plain_job servers = \<lparr> schemaVersion = SCHEMA_VERSION, jobName = ''j'', description = None, enabled = True,
     categoryName = None, ownerLoginName = None, startStepId = 1,
     notifications = \<lparr> emailOperatorName = None, emailLevel = 0, netsendOperatorName = None,
       netsendLevel = 0, pageOperatorName = None, pageLevel = 0, eventlogLevel = 0, deleteLevel = 0 \<rparr>,
     steps = [], schedules = [], targetServers = servers \<rparr>"

theorem diff_empty_iff_witness:
  "diffJobDefinitions (plain_job []) (plain_job [''MSX'']) = []"
proof -
  have "diffable (plain_job s)" for s by (simp add: diffable_def plain_job_def)
  from diff_empty_iff [OF this this, of "[]" "[''MSX'']"] show ?thesis by (simp add: plain_job_def)
qed

end
