(* ===== verification/Versioning.thy ===== *)
theory Versioning
  imports JobDefinition
begin

text \<open>
  Version history and drift (\<open>packages/server/src/domain/versioning.ts\<close>): the \<open>jobs\<close> and
  \<open>job_versions\<close> tables, the transaction that records an observed definition, soft deletion,
  reconciliation with a full snapshot, and the acknowledgement of drift.

  Parsing the canonical JSON into a definition is a parameter; \<^term>\<open>None\<close> is its throw.
\<close>

section \<open>Tables\<close>

datatype version_origin = Initial | Local | Remote

record job_row =
  jInstanceId :: string
  jJobUuid :: string
  jName :: string
  jEnabled :: bool
  jCategoryName :: "string option"
  jOwnerLoginName :: "string option"
  jDescription :: "string option"
  currentVersionNo :: nat
  currentDefinitionHash :: "string option"
  isDrifted :: bool
  driftDetectedAt :: "int option"
  lastRunStatus :: "int option"
  lastRunAt :: "int option"
  lastRunDurationSeconds :: "int option"
  nextRunAt :: "int option"
  deletedAt :: "int option"
  updatedAt :: int

record version_row =
  vInstanceId :: string
  vJobUuid :: string
  versionNo :: nat
  vDefinition :: job_definition
  vDefinitionHash :: string
  vOrigin :: version_origin
  vCommandId :: "string option"
  vCreatedBy :: "string option"
  vDetectedAt :: int

record version_store =
  jobRows :: "job_row list"
  versionRows :: "version_row list"

record version_input =
  viInstanceId :: string
  viJobUuid :: string
  viCanonicalJson :: string
  viDefinitionHash :: string
  viOrigin :: version_origin
  viCommandId :: "string option"
  viCreatedBy :: "string option"
  viDetectedAt :: int

record version_result =
  changed :: bool
  resultVersionNo :: nat
  resultIsDrift :: bool

definition is_job :: "string \<Rightarrow> string \<Rightarrow> job_row \<Rightarrow> bool" where
  "is_job i u j \<longleftrightarrow> jInstanceId j = i \<and> jJobUuid j = u"

definition find_job :: "string \<Rightarrow> string \<Rightarrow> version_store \<Rightarrow> job_row option" where
  "find_job i u st = find (is_job i u) (jobRows st)"

definition update_jobs :: "(job_row \<Rightarrow> bool) \<Rightarrow> (job_row \<Rightarrow> job_row) \<Rightarrow> version_store \<Rightarrow> version_store" where
  "update_jobs P f st = st\<lparr>jobRows := map (\<lambda>j. if P j then f j else j) (jobRows st)\<rparr>"

section \<open>Recording an observation\<close>

definition new_job :: "version_input \<Rightarrow> job_row" where
  "new_job inp = \<lparr> jInstanceId = viInstanceId inp, jJobUuid = viJobUuid inp, jName = [], jEnabled = True,
     jCategoryName = None, jOwnerLoginName = None, jDescription = None, currentVersionNo = 0,
     currentDefinitionHash = None, isDrifted = False, driftDetectedAt = None, lastRunStatus = None,
     lastRunAt = None, lastRunDurationSeconds = None, nextRunAt = None, deletedAt = None,
     updatedAt = viDetectedAt inp \<rparr>"

text \<open>\<open>jobColumns\<close> written over a row.\<close>

definition job_columns ::
  "job_definition \<Rightarrow> version_input \<Rightarrow> nat \<Rightarrow> bool \<Rightarrow> job_row \<Rightarrow> job_row" where
  "job_columns d inp n drift j =
     j\<lparr>jName := jobName d, jEnabled := enabled d, jCategoryName := categoryName d,
       jOwnerLoginName := ownerLoginName d, jDescription := description d, currentVersionNo := n,
       currentDefinitionHash := Some (viDefinitionHash inp), isDrifted := drift,
       driftDetectedAt := (if drift then Some (viDetectedAt inp) else driftDetectedAt j),
       deletedAt := None, updatedAt := viDetectedAt inp\<rparr>"

definition recordJobVersion ::
  "(string \<Rightarrow> job_definition option) \<Rightarrow> version_input \<Rightarrow> version_store
     \<Rightarrow> version_result option \<times> version_store" where
  "recordJobVersion parse inp st =
     (case parse (viCanonicalJson inp) of
        None \<Rightarrow> (None, st)
      | Some d \<Rightarrow>
          (let i = viInstanceId inp; u = viJobUuid inp; existing = find_job i u st
           in case existing of
                Some j \<Rightarrow>
                  if currentDefinitionHash j = Some (viDefinitionHash inp)
                  then (Some \<lparr> changed = False, resultVersionNo = currentVersionNo j,
                          resultIsDrift = isDrifted j \<rparr>,
                        if deletedAt j \<noteq> None
                        then update_jobs (is_job i u) (\<lambda>j. j\<lparr>deletedAt := None, updatedAt := viDetectedAt inp\<rparr>) st
                        else st)
                  else
                    (let n = currentVersionNo j + 1; origin = viOrigin inp; drift = (origin = Local);
                         v = \<lparr> vInstanceId = i, vJobUuid = u, versionNo = n, vDefinition = d,
                               vDefinitionHash = viDefinitionHash inp, vOrigin = origin,
                               vCommandId = viCommandId inp, vCreatedBy = viCreatedBy inp,
                               vDetectedAt = viDetectedAt inp \<rparr>
                     in (Some \<lparr> changed = True, resultVersionNo = n, resultIsDrift = drift \<rparr>,
                         update_jobs (is_job i u) (job_columns d inp n drift)
                           (st\<lparr>versionRows := versionRows st @ [v]\<rparr>)))
              | None \<Rightarrow>
                  (let v = \<lparr> vInstanceId = i, vJobUuid = u, versionNo = 1, vDefinition = d,
                             vDefinitionHash = viDefinitionHash inp, vOrigin = Initial,
                             vCommandId = viCommandId inp, vCreatedBy = viCreatedBy inp,
                             vDetectedAt = viDetectedAt inp \<rparr>
                   in (Some \<lparr> changed = True, resultVersionNo = 1, resultIsDrift = False \<rparr>,
                       st\<lparr>versionRows := versionRows st @ [v],
                          jobRows := jobRows st @ [job_columns d inp 1 False (new_job inp)]\<rparr>))))"

definition markJobDeleted :: "string \<Rightarrow> string \<Rightarrow> int \<Rightarrow> version_store \<Rightarrow> version_store" where
  "markJobDeleted i u at st = update_jobs (is_job i u) (\<lambda>j. j\<lparr>deletedAt := Some at, updatedAt := at\<rparr>) st"

definition missing_job :: "string \<Rightarrow> string list \<Rightarrow> job_row \<Rightarrow> bool" where
  "missing_job i seen j \<longleftrightarrow> jInstanceId j = i \<and> deletedAt j = None \<and>
     (seen = [] \<or> jJobUuid j \<notin> set seen)"

definition markJobsMissingFromSnapshot ::
  "string \<Rightarrow> string list \<Rightarrow> int \<Rightarrow> version_store \<Rightarrow> nat \<times> version_store" where
  "markJobsMissingFromSnapshot i seen at st =
     (length (filter (missing_job i seen) (jobRows st)),
      update_jobs (missing_job i seen) (\<lambda>j. j\<lparr>deletedAt := Some at, updatedAt := at\<rparr>) st)"

definition versions_of :: "string \<Rightarrow> string \<Rightarrow> version_store \<Rightarrow> version_row list" where
  "versions_of i u st = filter (\<lambda>v. vInstanceId v = i \<and> vJobUuid v = u) (versionRows st)"

definition getJobVersions :: "string \<Rightarrow> string \<Rightarrow> version_store \<Rightarrow> version_row list" where
  "getJobVersions i u st = rev (sort_key versionNo (versions_of i u st))"

definition getJobVersion :: "string \<Rightarrow> string \<Rightarrow> nat \<Rightarrow> version_store \<Rightarrow> version_row option" where
  "getJobVersion i u n st = find (\<lambda>v. versionNo v = n) (versions_of i u st)"

definition acknowledgeDrift :: "string \<Rightarrow> string \<Rightarrow> int \<Rightarrow> version_store \<Rightarrow> version_store" where
  "acknowledgeDrift i u now st = update_jobs (is_job i u) (\<lambda>j. j\<lparr>isDrifted := False, updatedAt := now\<rparr>) st"

section \<open>Runs and the timeline invariant\<close>

datatype version_op =
    Observe "string \<Rightarrow> job_definition option" version_input
  | Deleted string string int
  | Snapshot string "string list" int
  | Acknowledge string string int

fun version_step :: "version_op \<Rightarrow> version_store \<Rightarrow> version_store" where
  "version_step (Observe parse inp) st = snd (recordJobVersion parse inp st)"
| "version_step (Deleted i u at) st = markJobDeleted i u at st"
| "version_step (Snapshot i seen at) st = snd (markJobsMissingFromSnapshot i seen at st)"
| "version_step (Acknowledge i u now) st = acknowledgeDrift i u now st"

definition version_run :: "version_op list \<Rightarrow> version_store" where
  "version_run ops = foldl (\<lambda>st op. version_step op st) \<lparr> jobRows = [], versionRows = [] \<rparr> ops"

fun hashes_differ :: "string list \<Rightarrow> bool" where
  "hashes_differ (a # b # s) \<longleftrightarrow> a \<noteq> b \<and> hashes_differ (b # s)"
| "hashes_differ _ \<longleftrightarrow> True"

text \<open>
  The timeline of a job: versions 1, 2, \<dots> up to the current number, the newest with the current
  hash, no two neighbours with the same hash, only the first possibly \<open>initial\<close> by force, and a drift
  flag only after a local edit.
\<close>

definition timeline_ok :: "job_row \<Rightarrow> version_row list \<Rightarrow> bool" where
  "timeline_ok j vs \<longleftrightarrow>
     vs \<noteq> [] \<and> map versionNo vs = [1..<currentVersionNo j + 1] \<and>
     currentDefinitionHash j = Some (vDefinitionHash (last vs)) \<and>
     hashes_differ (map vDefinitionHash vs) \<and> vOrigin (hd vs) = Initial \<and>
     (isDrifted j \<longrightarrow> vOrigin (last vs) = Local)"

definition store_ok :: "version_store \<Rightarrow> bool" where
  "store_ok st \<longleftrightarrow>
     distinct (map (\<lambda>j. (jInstanceId j, jJobUuid j)) (jobRows st)) \<and>
     (\<forall>j \<in> set (jobRows st). timeline_ok j (versions_of (jInstanceId j) (jJobUuid j) st)) \<and>
     (\<forall>v \<in> set (versionRows st). find_job (vInstanceId v) (vJobUuid v) st \<noteq> None)"

lemma hashes_differ_snoc:
  "hashes_differ (hs @ [h]) \<longleftrightarrow> hashes_differ hs \<and> (hs \<noteq> [] \<longrightarrow> last hs \<noteq> h)"
  by (induction hs rule: hashes_differ.induct) auto

lemma find_job_None: "find_job i u st = None \<longleftrightarrow> (i, u) \<notin> (\<lambda>j. (jInstanceId j, jJobUuid j)) ` set (jobRows st)"
  by (auto simp: find_job_def find_None_iff is_job_def)

lemma find_job_SomeD: "find_job i u st = Some j \<Longrightarrow> j \<in> set (jobRows st) \<and> jInstanceId j = i \<and> jJobUuid j = u"
  by (auto simp: find_job_def is_job_def dest: find_SomeD)

lemma job_unique:
  assumes "store_ok st" and "j \<in> set (jobRows st)" and "k \<in> set (jobRows st)"
    and "jInstanceId j = jInstanceId k" and "jJobUuid j = jJobUuid k"
  shows "j = k"
  using inj_onD [of "\<lambda>j. (jInstanceId j, jJobUuid j)" "set (jobRows st)" j k] assms
  by (simp add: store_ok_def distinct_map)

text \<open>Updates that keep identity and the version columns.\<close>

definition same_columns :: "job_row \<Rightarrow> job_row \<Rightarrow> bool" where
  "same_columns j k \<longleftrightarrow> jInstanceId k = jInstanceId j \<and> jJobUuid k = jJobUuid j \<and>
     currentVersionNo k = currentVersionNo j \<and> currentDefinitionHash k = currentDefinitionHash j \<and>
     (isDrifted k \<longrightarrow> isDrifted j)"

lemma keys_update:
  assumes "\<And>j. j \<in> set (jobRows st) \<Longrightarrow> P j \<Longrightarrow> jInstanceId (f j) = jInstanceId j \<and> jJobUuid (f j) = jJobUuid j"
  shows "map (\<lambda>j. (jInstanceId j, jJobUuid j)) (jobRows (update_jobs P f st)) =
     map (\<lambda>j. (jInstanceId j, jJobUuid j)) (jobRows st)"
  using assms by (simp add: update_jobs_def)

lemma find_job_keys:
  assumes "map (\<lambda>j. (jInstanceId j, jJobUuid j)) (jobRows st') = map (\<lambda>j. (jInstanceId j, jJobUuid j)) (jobRows st)"
  shows "find_job i u st' = None \<longleftrightarrow> find_job i u st = None"
  using arg_cong [OF assms, of set] by (simp add: find_job_None)

lemma store_ok_update:
  assumes ok: "store_ok st" and f: "\<And>j. j \<in> set (jobRows st) \<Longrightarrow> P j \<Longrightarrow> same_columns j (f j)"
  shows "store_ok (update_jobs P f st)"
proof -
  let ?st = "update_jobs P f st"
  have keys: "map (\<lambda>j. (jInstanceId j, jJobUuid j)) (jobRows ?st) =
      map (\<lambda>j. (jInstanceId j, jJobUuid j)) (jobRows st)"
    by (rule keys_update) (use f in \<open>auto simp: same_columns_def\<close>)
  have vs: "versionRows ?st = versionRows st" "\<And>i u. versions_of i u ?st = versions_of i u st"
    by (simp_all add: update_jobs_def versions_of_def)
  have "timeline_ok j (versions_of (jInstanceId j) (jJobUuid j) ?st)" if "j \<in> set (jobRows ?st)" for j
  proof -
    from that obtain k where k: "k \<in> set (jobRows st)" "j = (if P k then f k else k)"
      by (auto simp: update_jobs_def)
    then have "same_columns k j" using f by (auto simp: same_columns_def)
    moreover have "timeline_ok k (versions_of (jInstanceId k) (jJobUuid k) st)"
      using ok k(1) by (simp add: store_ok_def)
    ultimately show ?thesis by (simp add: vs timeline_ok_def same_columns_def)
  qed
  with ok keys show ?thesis by (simp add: store_ok_def vs find_job_keys [OF keys])
qed

lemma versions_of_snoc:
  "versions_of i u (st\<lparr>versionRows := versionRows st @ [v]\<rparr>) =
     versions_of i u st @ (if vInstanceId v = i \<and> vJobUuid v = u then [v] else [])"
  by (simp add: versions_of_def)

lemma versions_of_jobs [simp]:
  "versions_of i u (update_jobs P f st) = versions_of i u st"
  "versions_of i u (st\<lparr>jobRows := js\<rparr>) = versions_of i u st"
  by (simp_all add: versions_of_def update_jobs_def)

lemma store_ok_record:
  assumes ok: "store_ok st" and run: "recordJobVersion parse inp st = (r, st')"
  shows "store_ok st'"
proof (cases "parse (viCanonicalJson inp)")
  case None
  with run ok show ?thesis by (simp add: recordJobVersion_def)
next
  case d: (Some d)
  let ?i = "viInstanceId inp" and ?u = "viJobUuid inp"
  show ?thesis
  proof (cases "find_job ?i ?u st")
    case none: None
    define v where "v = \<lparr> vInstanceId = ?i, vJobUuid = ?u, versionNo = 1, vDefinition = d,
        vDefinitionHash = viDefinitionHash inp, vOrigin = Initial, vCommandId = viCommandId inp,
        vCreatedBy = viCreatedBy inp, vDetectedAt = viDetectedAt inp \<rparr>"
    define k where "k = job_columns d inp 1 False (new_job inp)"
    have st': "st' = st\<lparr>versionRows := versionRows st @ [v], jobRows := jobRows st @ [k]\<rparr>"
      using run d none by (simp add: recordJobVersion_def v_def k_def)
    have kk: "jInstanceId k = ?i" "jJobUuid k = ?u" "currentVersionNo k = 1" "\<not> isDrifted k"
      "currentDefinitionHash k = Some (viDefinitionHash inp)"
      by (simp_all add: k_def job_columns_def new_job_def)
    have vv: "vInstanceId v = ?i" "vJobUuid v = ?u" "versionNo v = 1" "vOrigin v = Initial"
      "vDefinitionHash v = viDefinitionHash inp" by (simp_all add: v_def)
    have fresh: "(?i, ?u) \<notin> (\<lambda>j. (jInstanceId j, jJobUuid j)) ` set (jobRows st)"
      using none by (simp add: find_job_None)
    have empty: "versions_of ?i ?u st = []"
      using ok none by (auto simp: store_ok_def versions_of_def filter_empty_conv)
    have vo: "versions_of i u st' = versions_of i u st @ (if ?i = i \<and> ?u = u then [v] else [])" for i u
      by (simp add: st' versions_of_def vv)
    have "timeline_ok j (versions_of (jInstanceId j) (jJobUuid j) st')" if "j \<in> set (jobRows st')" for j
    proof (cases "j = k")
      case True
      then show ?thesis by (simp add: vo kk empty timeline_ok_def vv)
    next
      case False
      with that have j: "j \<in> set (jobRows st)" by (simp add: st')
      with fresh have "\<not> (?i = jInstanceId j \<and> ?u = jJobUuid j)" by force
      then have "versions_of (jInstanceId j) (jJobUuid j) st' = versions_of (jInstanceId j) (jJobUuid j) st"
        by (auto simp: vo)
      with ok j show ?thesis by (simp add: store_ok_def)
    qed
    moreover have "find_job (vInstanceId w) (vJobUuid w) st' \<noteq> None" if "w \<in> set (versionRows st')" for w
      using that ok by (auto simp: st' find_job_None kk vv store_ok_def)
    moreover have "distinct (map (\<lambda>j. (jInstanceId j, jJobUuid j)) (jobRows st'))"
      using ok fresh by (simp add: st' store_ok_def kk)
    ultimately show ?thesis by (simp add: store_ok_def)
  next
    case some: (Some j0)
    note j0 = find_job_SomeD [OF some]
    show ?thesis
    proof (cases "currentDefinitionHash j0 = Some (viDefinitionHash inp)")
      case True
      with run d some have "st' = st \<or> st' = update_jobs (is_job ?i ?u)
          (\<lambda>j. j\<lparr>deletedAt := None, updatedAt := viDetectedAt inp\<rparr>) st"
        by (auto simp: recordJobVersion_def Let_def split: if_splits)
      with ok show ?thesis by (auto intro!: store_ok_update simp: same_columns_def)
    next
      case new: False
      define n where "n = currentVersionNo j0 + 1"
      define v where "v = \<lparr> vInstanceId = ?i, vJobUuid = ?u, versionNo = n, vDefinition = d,
          vDefinitionHash = viDefinitionHash inp, vOrigin = viOrigin inp, vCommandId = viCommandId inp,
          vCreatedBy = viCreatedBy inp, vDetectedAt = viDetectedAt inp \<rparr>"
      define f where "f = job_columns d inp n (viOrigin inp = Local)"
      have st': "st' = update_jobs (is_job ?i ?u) f (st\<lparr>versionRows := versionRows st @ [v]\<rparr>)"
        using run d some new by (simp add: recordJobVersion_def Let_def v_def f_def n_def)
      have vv: "vInstanceId v = ?i" "vJobUuid v = ?u" "versionNo v = n" "vOrigin v = viOrigin inp"
        "vDefinitionHash v = viDefinitionHash inp" by (simp_all add: v_def)
      have ff: "jInstanceId (f j) = jInstanceId j" "jJobUuid (f j) = jJobUuid j"
        "currentVersionNo (f j) = n" "isDrifted (f j) = (viOrigin inp = Local)"
        "currentDefinitionHash (f j) = Some (viDefinitionHash inp)" for j
        by (simp_all add: f_def job_columns_def)
      have keys: "map (\<lambda>j. (jInstanceId j, jJobUuid j)) (jobRows st') =
          map (\<lambda>j. (jInstanceId j, jJobUuid j)) (jobRows st)"
        by (simp add: st' update_jobs_def ff)
      have vo: "versions_of i u st' = versions_of i u st @ (if ?i = i \<and> ?u = u then [v] else [])" for i u
        by (simp add: st' versions_of_snoc vv)
      have t0: "timeline_ok j0 (versions_of ?i ?u st)" using ok j0 by (auto simp: store_ok_def)
      have "timeline_ok j (versions_of (jInstanceId j) (jJobUuid j) st')" if "j \<in> set (jobRows st')" for j
      proof -
        from that obtain k where k: "k \<in> set (jobRows st)" "j = (if is_job ?i ?u k then f k else k)"
          by (auto simp: st' update_jobs_def)
        show ?thesis
        proof (cases "is_job ?i ?u k")
          case True
          then have "k = j0" using job_unique [OF ok k(1), of j0] j0 by (simp add: is_job_def)
          have last: "currentDefinitionHash j0 = Some (vDefinitionHash (last (versions_of ?i ?u st)))"
            using t0 by (simp add: timeline_ok_def)
          from True k(2) have j: "j = f k" "jInstanceId j = ?i" "jJobUuid j = ?u"
            by (simp_all add: ff is_job_def)
          define vs where "vs = versions_of ?i ?u st"
          have t: "vs \<noteq> []" "map versionNo vs = [1..<currentVersionNo j0 + 1]"
            "hashes_differ (map vDefinitionHash vs)" "vOrigin (hd vs) = Initial"
            "vDefinitionHash (last vs) \<noteq> viDefinitionHash inp"
            using t0 new last by (auto simp: timeline_ok_def vs_def)
          have "map versionNo (vs @ [v]) = [1..<currentVersionNo j + 1]"
            using t(2) by (simp add: vv j(1) ff n_def)
          moreover have "hashes_differ (map vDefinitionHash (vs @ [v]))"
            using t by (simp add: hashes_differ_snoc vv last_map)
          moreover have "vOrigin (hd (vs @ [v])) = Initial" using t by simp
          moreover have "currentDefinitionHash j = Some (vDefinitionHash (last (vs @ [v])))"
            by (simp add: j(1) ff vv)
          moreover have "isDrifted j \<longrightarrow> vOrigin (last (vs @ [v])) = Local" by (simp add: j(1) ff vv)
          moreover have "versions_of (jInstanceId j) (jJobUuid j) st' = vs @ [v]"
            by (simp add: vo j(2,3) vs_def)
          ultimately show ?thesis by (simp only: timeline_ok_def) simp
        next
          case False
          with k have "j = k" "\<not> (?i = jInstanceId k \<and> ?u = jJobUuid k)" by (auto simp: is_job_def)
          then have "versions_of (jInstanceId j) (jJobUuid j) st' = versions_of (jInstanceId k) (jJobUuid k) st"
            by (auto simp: vo)
          with ok k(1) \<open>j = k\<close> show ?thesis by (simp add: store_ok_def)
        qed
      qed
      moreover have "find_job (vInstanceId w) (vJobUuid w) st' \<noteq> None" if "w \<in> set (versionRows st')" for w
        using that ok some unfolding find_job_keys [OF keys]
        by (auto simp: st' update_jobs_def store_ok_def vv)
      ultimately show ?thesis using ok keys by (simp add: store_ok_def)
    qed
  qed
qed

lemma store_ok_step: "store_ok st \<Longrightarrow> store_ok (version_step op st)"
  by (cases op)
    (auto simp: markJobDeleted_def markJobsMissingFromSnapshot_def acknowledgeDrift_def same_columns_def
      intro!: store_ok_update intro: store_ok_record [OF _ prod.collapse [symmetric]])

lemma versions_step:
  "\<exists>vs. versionRows (version_step op st) = versionRows st @ vs"
  by (cases op) (auto simp: recordJobVersion_def Let_def update_jobs_def markJobDeleted_def
      markJobsMissingFromSnapshot_def acknowledgeDrift_def split: option.splits if_splits)

lemma version_run_snoc: "version_run (ops @ [op]) = version_step op (version_run ops)"
  by (simp add: version_run_def)

lemma version_run_ok: "store_ok (version_run ops)"
  by (induction ops rule: rev_induct)
    (simp_all add: version_run_snoc store_ok_step, simp add: version_run_def store_ok_def)

text \<open>
  C20. The version timeline. After any sequence of observations, deletions, snapshot reconciliations
  and acknowledgements, every known job has the versions 1, 2, and so on up to its current number
  without gap, the newest carrying the current hash, no neighbours with equal hashes, the first one
  \<open>initial\<close>, and a drift flag only if the newest is a local edit; no later operation rewrites or
  drops a version.
\<close>

theorem version_timeline:
  "(\<forall>j \<in> set (jobRows (version_run ops)).
      timeline_ok j (versions_of (jInstanceId j) (jJobUuid j) (version_run ops))) \<and>
   distinct (map (\<lambda>j. (jInstanceId j, jJobUuid j)) (jobRows (version_run ops))) \<and>
   (\<exists>vs. versionRows (version_run (ops @ later)) = versionRows (version_run ops) @ vs)"
proof -
  have "\<exists>vs. versionRows (version_run (ops @ later)) = versionRows (version_run ops) @ vs"
  proof (induction later rule: rev_induct)
    case Nil
    then show ?case by simp
  next
    case (snoc op later)
    from versions_step [of op "version_run (ops @ later)"] snoc show ?case
      by (simp only: append_assoc [symmetric] version_run_snoc) (metis append_assoc)
  qed
  with version_run_ok [of ops] show ?thesis by (simp add: store_ok_def)
qed

definition example_job :: job_definition where
  "example_job = \<lparr> schemaVersion = SCHEMA_VERSION, jobName = ''j'', description = None, enabled = True,
     categoryName = None, ownerLoginName = None, startStepId = 1,
     notifications = \<lparr> emailOperatorName = None, emailLevel = 0, netsendOperatorName = None,
       netsendLevel = 0, pageOperatorName = None, pageLevel = 0, eventlogLevel = 0, deleteLevel = 0 \<rparr>,
     steps = [], schedules = [], targetServers = [] \<rparr>"

definition example_observation :: "string \<Rightarrow> version_origin \<Rightarrow> version_input" where
  "example_observation h og = \<lparr> viInstanceId = ''i'', viJobUuid = ''u'', viCanonicalJson = [],
     viDefinitionHash = h, viOrigin = og, viCommandId = None, viCreatedBy = None, viDetectedAt = 0 \<rparr>"

theorem version_timeline_witness:
  "map versionNo (versionRows (version_run [Observe (\<lambda>_. Some example_job) (example_observation ''a'' Remote),
     Observe (\<lambda>_. Some example_job) (example_observation ''a'' Local),
     Observe (\<lambda>_. Some example_job) (example_observation ''b'' Local)])) = [1, 2]"
proof -
  let ?ops = "[Observe (\<lambda>_. Some example_job) (example_observation ''a'' Remote),
     Observe (\<lambda>_. Some example_job) (example_observation ''a'' Local),
     Observe (\<lambda>_. Some example_job) (example_observation ''b'' Local)]"
  have run: "map currentVersionNo (jobRows (version_run ?ops)) = [2]"
    "map (\<lambda>v. (vInstanceId v, vJobUuid v)) (versionRows (version_run ?ops)) = [(''i'', ''u''), (''i'', ''u'')]"
    "map (\<lambda>j. (jInstanceId j, jJobUuid j)) (jobRows (version_run ?ops)) = [(''i'', ''u'')]"
    by code_simp+
  then obtain j where j: "jobRows (version_run ?ops) = [j]" "currentVersionNo j = 2"
    "jInstanceId j = ''i''" "jJobUuid j = ''u''" by (cases "jobRows (version_run ?ops)") auto
  have "list_all (\<lambda>p. p = (''i'', ''u'')) (map (\<lambda>v. (vInstanceId v, vJobUuid v)) (versionRows (version_run ?ops)))"
    by (simp only: run(2)) simp
  then have "versions_of ''i'' ''u'' (version_run ?ops) = versionRows (version_run ?ops)"
    unfolding versions_of_def by (intro filter_True) (simp add: list_all_iff)
  moreover have "timeline_ok j (versions_of ''i'' ''u'' (version_run ?ops))"
    using version_timeline [of ?ops "[]"] j by simp
  ultimately show ?thesis using j by (simp add: timeline_ok_def upt_rec)
qed

text \<open>Recording what is already current changes nothing but the deletion mark.\<close>

lemma record_unchanged:
  assumes "find_job (viInstanceId inp) (viJobUuid inp) st = Some j"
    and "currentDefinitionHash j = Some (viDefinitionHash inp)" and "parse (viCanonicalJson inp) = Some d"
  shows "\<exists>r st'. recordJobVersion parse inp st = (Some r, st') \<and> \<not> changed r \<and>
     versionRows st' = versionRows st"
  using assms by (simp add: recordJobVersion_def Let_def update_jobs_def)

lemma update_jobs_cleared:
  "(\<And>j. \<not> P (f j)) \<Longrightarrow> filter P (jobRows (update_jobs P f st)) = []"
  by (auto simp: update_jobs_def filter_empty_conv)

lemma snapshot_spec:
  assumes "markJobsMissingFromSnapshot i seen at st = (n, st')"
  shows "n = length (filter (missing_job i seen) (jobRows st)) \<and>
     filter (missing_job i seen) (jobRows st') = []"
proof -
  have "filter (missing_job i seen) (jobRows (update_jobs (missing_job i seen)
      (\<lambda>j. j\<lparr>deletedAt := Some at, updatedAt := at\<rparr>) st)) = []"
    by (rule update_jobs_cleared) (simp add: missing_job_def)
  with assms show ?thesis by (auto simp only: markJobsMissingFromSnapshot_def prod.inject)
qed

end
