(* ===== verification/Ingest.thy ===== *)
theory Ingest
  imports Versioning CommandPipeline Outbox "HOL-Library.Product_Lexorder"
begin

text \<open>
  Ingestion of what a worker streams up (\<open>packages/server/src/domain/ingest.ts\<close>): its hello, its
  instances, run history with its high-water mark, activity, the Agent error log, and the retention
  pruning. Replays are the normal case: inserting history twice is shown to be inserting it once.
  The server's bookmarks are instances of the interface the worker's outbox already provides.
\<close>

section \<open>State\<close>

record history_row =
  hInstanceId :: string
  hJobUuid :: string
  hSqlInstanceId :: int
  hStepId :: int
  hStepName :: "string option"
  hRunStatus :: int
  hRunDatetime :: int
  hRunDurationSeconds :: int
  hMessage :: "string option"
  hRetriesAttempted :: int
  hServer :: "string option"
  hSqlSeverity :: int
  hSqlMessageId :: int

record activity_row =
  actState :: string
  actCurrentStepId :: "int option"
  actCurrentStepName :: "string option"
  actStartedAt :: "int option"
  actLastExecutedStepAt :: "int option"
  actNextScheduledRunAt :: "int option"
  actLastRunOutcome :: int
  actUpdatedAt :: int

record agent_log_entry =
  alInstanceId :: string
  alLoggedAt :: int
  alSeverity :: "string option"
  alMessage :: string
  alProcessInfo :: "string option"
  alDedupeKey :: string

record server_sync =
  srvHistoryMark :: int
  srvAgentLogMark :: "int option"

record worker_status =
  wsId :: string
  wsHostName :: string
  wsCapabilities :: "string list"
  wsVersion :: "string option"
  wsMaxCapability :: "string option"
  wsConnectedAt :: "int option"
  wsLastSeenAt :: "int option"
  wsLastRemoteAddress :: "string option"

record 'm instance_status =
  isId :: string
  isWorkerId :: string
  isName :: string
  isServerName :: "string option"
  isSqlVersion :: "string option"
  isSqlEdition :: "string option"
  isAgentStatus :: string
  isJobWriteMode :: "'m option"
  isLastSeenAt :: int

record ingest_state =
  historyT :: "history_row list"
  jobsT :: version_store
  syncT :: "string \<Rightarrow> server_sync option"
  activityT :: "string \<times> string \<Rightarrow> activity_row option"
  agentLogT :: "agent_log_entry list"
  workerT :: "worker_status list"
  instanceT :: "job_write_mode instance_status list"

text \<open>\<open>x || null\<close> on a string and on a number.\<close>

definition str_or_null :: "string \<Rightarrow> string option" where
  "str_or_null s = (if s = [] then None else Some s)"

definition num_or_null :: "int \<Rightarrow> int option" where
  "num_or_null n = (if n = 0 then None else Some n)"

section \<open>Hello\<close>

definition recordWorkerHello ::
  "string \<Rightarrow> string \<Rightarrow> string \<Rightarrow> string option \<Rightarrow> int \<Rightarrow> ingest_state
     \<Rightarrow> (string \<times> string \<times> string list) option \<times> ingest_state" where
  "recordWorkerHello w version ceiling addr now st =
     (case find (\<lambda>x. wsId x = w) (workerT st) of
        None \<Rightarrow> (None, st)
      | Some x \<Rightarrow>
          (Some (wsId x, wsHostName x, wsCapabilities x),
           st\<lparr>workerT := map (\<lambda>x. if wsId x = w
              then x\<lparr>wsVersion := Some version, wsMaxCapability := Some ceiling, wsConnectedAt := Some now,
                     wsLastSeenAt := Some now, wsLastRemoteAddress := addr\<rparr> else x) (workerT st)\<rparr>))"

definition touchWorker :: "string \<Rightarrow> int \<Rightarrow> ingest_state \<Rightarrow> ingest_state" where
  "touchWorker w now st =
     st\<lparr>workerT := map (\<lambda>x. if wsId x = w then x\<lparr>wsLastSeenAt := Some now\<rparr> else x) (workerT st)\<rparr>"

definition markWorkerDisconnected :: "string \<Rightarrow> ingest_state \<Rightarrow> ingest_state" where
  "markWorkerDisconnected w st =
     st\<lparr>workerT := map (\<lambda>x. if wsId x = w then x\<lparr>wsConnectedAt := None\<rparr> else x) (workerT st)\<rparr>"

record instance_info =
  infoName :: string
  infoServerName :: string
  infoSqlVersion :: string
  infoSqlEdition :: string
  infoAgentStatus :: string
  infoWriteMode :: "job_write_mode option"

definition info_columns ::
  "instance_info \<Rightarrow> int \<Rightarrow> job_write_mode instance_status \<Rightarrow> job_write_mode instance_status" where
  "info_columns i now x =
     x\<lparr>isServerName := str_or_null (infoServerName i), isSqlVersion := str_or_null (infoSqlVersion i),
       isSqlEdition := str_or_null (infoSqlEdition i),
       isAgentStatus := (if infoAgentStatus i = [] then ''unknown'' else infoAgentStatus i),
       isJobWriteMode := infoWriteMode i, isLastSeenAt := now\<rparr>"

definition fresh_server_sync :: server_sync where
  "fresh_server_sync = \<lparr> srvHistoryMark = 0, srvAgentLogMark = None \<rparr>"

text \<open>\<open>newId\<close> is the id the database would draw; a conflict on worker and name keeps the old row's.\<close>

definition upsert_instance ::
  "string \<Rightarrow> int \<Rightarrow> instance_info \<times> string \<Rightarrow> (string \<times> string) list \<times> ingest_state
     \<Rightarrow> (string \<times> string) list \<times> ingest_state" where
  "upsert_instance w now ix acc =
     (let (info, newId) = ix; (byName, st) = acc;
          same = (\<lambda>x. isWorkerId x = w \<and> isName x = infoName info);
          (i, rows) = (case find same (instanceT st) of
             None \<Rightarrow> (newId, instanceT st @ [info_columns info now
                \<lparr> isId = newId, isWorkerId = w, isName = infoName info, isServerName = None,
                  isSqlVersion = None, isSqlEdition = None, isAgentStatus = ''unknown'',
                  isJobWriteMode = None, isLastSeenAt = now \<rparr>])
           | Some x \<Rightarrow> (isId x, map (\<lambda>x. if same x then info_columns info now x else x) (instanceT st)));
          sync = (case syncT st i of None \<Rightarrow> (syncT st)(i \<mapsto> fresh_server_sync) | Some _ \<Rightarrow> syncT st)
      in (AList.update (infoName info) i byName, st\<lparr>instanceT := rows, syncT := sync\<rparr>))"

definition upsertInstances ::
  "string \<Rightarrow> int \<Rightarrow> (instance_info \<times> string) list \<Rightarrow> ingest_state
     \<Rightarrow> (string \<times> string) list \<times> ingest_state" where
  "upsertInstances w now infos st = foldl (\<lambda>acc ix. upsert_instance w now ix acc) ([], st) infos"

section \<open>History\<close>

record history_wire =
  hwJobUuid :: string
  hwInstanceId :: int
  hwStepId :: int
  hwStepName :: string
  hwRunStatus :: int
  hwRunDatetime :: "(int \<times> int) option"
  hwRunDurationSeconds :: int
  hwMessage :: string
  hwRetriesAttempted :: int
  hwServer :: string
  hwSqlSeverity :: int
  hwSqlMessageId :: int

definition history_value :: "string \<Rightarrow> history_wire \<Rightarrow> history_row option" where
  "history_value inst r =
     (case fromTimestamp (hwRunDatetime r) of
        None \<Rightarrow> None
      | Some t \<Rightarrow> Some \<lparr> hInstanceId = inst, hJobUuid = hwJobUuid r, hSqlInstanceId = hwInstanceId r,
          hStepId = hwStepId r, hStepName = str_or_null (hwStepName r), hRunStatus = hwRunStatus r,
          hRunDatetime = t, hRunDurationSeconds = hwRunDurationSeconds r,
          hMessage = str_or_null (hwMessage r), hRetriesAttempted = hwRetriesAttempted r,
          hServer = str_or_null (hwServer r), hSqlSeverity = hwSqlSeverity r,
          hSqlMessageId = hwSqlMessageId r \<rparr>)"

definition same_run :: "history_row \<Rightarrow> history_row \<Rightarrow> bool" where
  "same_run a b \<longleftrightarrow> hInstanceId a = hInstanceId b \<and> hSqlInstanceId a = hSqlInstanceId b"

text \<open>\<open>insert \<dots> on conflict do nothing returning\<close>: the table and the rows that were new.\<close>

fun insert_new :: "history_row list \<Rightarrow> history_row list \<Rightarrow> history_row list \<times> history_row list" where
  "insert_new [] held = (held, [])"
| "insert_new (v # vs) held =
     (if list_ex (same_run v) held then insert_new vs held
      else (let (held', fresh) = insert_new vs (held @ [v]) in (held', v # fresh)))"

definition history_mark_of :: "string \<Rightarrow> ingest_state \<Rightarrow> int" where
  "history_mark_of inst st = (case syncT st inst of None \<Rightarrow> 0 | Some r \<Rightarrow> srvHistoryMark r)"

definition set_history_mark :: "string \<Rightarrow> int \<Rightarrow> ingest_state \<Rightarrow> ingest_state" where
  "set_history_mark inst v st =
     st\<lparr>syncT := (syncT st)(inst \<mapsto> (case syncT st inst of
          None \<Rightarrow> fresh_server_sync\<lparr>srvHistoryMark := v\<rparr>
        | Some r \<Rightarrow> r\<lparr>srvHistoryMark := max (srvHistoryMark r) v\<rparr>))\<rparr>"

definition latest_run :: "string \<Rightarrow> string \<Rightarrow> history_row list \<Rightarrow> history_row option" where
  "latest_run inst u hs =
     (case sort_key (\<lambda>r. (- hRunDatetime r, - hSqlInstanceId r))
             (filter (\<lambda>r. hInstanceId r = inst \<and> hJobUuid r = u \<and> hStepId r = 0) hs) of
        [] \<Rightarrow> None | r # _ \<Rightarrow> Some r)"

definition summarise :: "history_row option \<Rightarrow> job_row \<Rightarrow> job_row" where
  "summarise newest j =
     (case newest of None \<Rightarrow> j
      | Some r \<Rightarrow> j\<lparr>lastRunStatus := Some (hRunStatus r), lastRunAt := Some (hRunDatetime r),
                   lastRunDurationSeconds := Some (hRunDurationSeconds r)\<rparr>)"

definition refresh_one :: "string \<Rightarrow> ingest_state \<Rightarrow> string \<Rightarrow> ingest_state" where
  "refresh_one inst st u =
     (case latest_run inst u (historyT st) of
        None \<Rightarrow> st
      | Some r \<Rightarrow> st\<lparr>jobsT := update_jobs (is_job inst u) (summarise (Some r)) (jobsT st)\<rparr>)"

definition refreshLastRunSummary :: "string \<Rightarrow> string list \<Rightarrow> ingest_state \<Rightarrow> ingest_state" where
  "refreshLastRunSummary inst us st = foldl (refresh_one inst) st us"

record ingest_result =
  irInserted :: nat
  irHighWaterMark :: int
  irNewRuns :: "history_row list"

text \<open>The new runs are the job-level rows; the columns the source drops are kept in the row.\<close>

definition ingestHistory ::
  "string \<Rightarrow> history_wire list \<Rightarrow> ingest_state \<Rightarrow> ingest_result \<times> ingest_state" where
  "ingestHistory inst rows st =
     (let vals = List.map_filter (history_value inst) rows
      in if rows = [] \<or> vals = []
         then (\<lparr> irInserted = 0, irHighWaterMark = history_mark_of inst st, irNewRuns = [] \<rparr>, st)
         else
           (let (held, fresh) = insert_new vals (historyT st);
                batchMax = Max (set (map hSqlInstanceId vals));
                st = set_history_mark inst batchMax (st\<lparr>historyT := held\<rparr>);
                st = refreshLastRunSummary inst (rev (remdups (rev (map hJobUuid vals)))) st
            in (\<lparr> irInserted = length fresh, irHighWaterMark = batchMax,
                  irNewRuns = filter (\<lambda>r. hStepId r = 0) fresh \<rparr>, st)))"

section \<open>Activity\<close>

record activity_wire =
  awJobUuid :: string
  awState :: string
  awCurrentStepId :: int
  awCurrentStepName :: string
  awStartExecutionDate :: "(int \<times> int) option"
  awLastExecutedStepDate :: "(int \<times> int) option"
  awNextScheduledRunDate :: "(int \<times> int) option"
  awLastRunOutcome :: int

definition upsert_activity_row :: "string \<Rightarrow> int \<Rightarrow> ingest_state \<Rightarrow> activity_wire \<Rightarrow> ingest_state" where
  "upsert_activity_row inst now st r =
     (let st = st\<lparr>activityT := (activityT st)((inst, awJobUuid r) \<mapsto>
            \<lparr> actState = awState r, actCurrentStepId = num_or_null (awCurrentStepId r),
              actCurrentStepName = str_or_null (awCurrentStepName r),
              actStartedAt = fromTimestamp (awStartExecutionDate r),
              actLastExecutedStepAt = fromTimestamp (awLastExecutedStepDate r),
              actNextScheduledRunAt = fromTimestamp (awNextScheduledRunDate r),
              actLastRunOutcome = awLastRunOutcome r, actUpdatedAt = now \<rparr>)\<rparr>
      in case fromTimestamp (awNextScheduledRunDate r) of
           None \<Rightarrow> st
         | Some t \<Rightarrow> st\<lparr>jobsT := update_jobs (is_job inst (awJobUuid r)) (\<lambda>j. j\<lparr>nextRunAt := Some t\<rparr>) (jobsT st)\<rparr>)"

definition upsertActivity :: "string \<Rightarrow> activity_wire list \<Rightarrow> int \<Rightarrow> ingest_state \<Rightarrow> ingest_state" where
  "upsertActivity inst rows now st = foldl (upsert_activity_row inst now) st rows"

section \<open>The Agent error log\<close>

text \<open>\<open>Date.toISOString\<close>: the civil date of a day number, then padded fields.\<close>

definition civil_date :: "int \<Rightarrow> int \<times> int \<times> int" where
  "civil_date days =
     (let z = days + 719468; era = z div 146097; doe = z mod 146097;
          yoe = (doe - doe div 1460 + doe div 36524 - doe div 146096) div 365;
          doy = doe - (365 * yoe + yoe div 4 - yoe div 100);
          mp = (5 * doy + 2) div 153;
          d = doy - (153 * mp + 2) div 5 + 1;
          m = (if mp < 10 then mp + 3 else mp - 9)
      in (yoe + era * 400 + (if m \<le> 2 then 1 else 0), m, d))"

definition padded :: "nat \<Rightarrow> int \<Rightarrow> string" where
  "padded k n = pad_start k CHR ''0'' (show_nat (nat n))"

definition toISOString :: "int \<Rightarrow> string" where
  "toISOString ms =
     (let (y, mo, d) = civil_date (ms div 86400000); t = ms mod 86400000
      in (if 0 \<le> y \<and> y \<le> 9999 then padded 4 y
          else (if y < 0 then CHR ''-'' else CHR ''+'') # padded 6 (abs y)) @
         ''-'' @ padded 2 mo @ ''-'' @ padded 2 d @ ''T'' @ padded 2 (t div 3600000) @ '':'' @
         padded 2 (t div 60000 mod 60) @ '':'' @ padded 2 (t div 1000 mod 60) @ ''.'' @
         padded 3 (t mod 1000) @ ''Z'')"

definition agentLogDedupeKey :: "(string \<Rightarrow> string) \<Rightarrow> int \<Rightarrow> string \<Rightarrow> string \<Rightarrow> string" where
  "agentLogDedupeKey sha loggedAt message info =
     sha (toISOString loggedAt @ ''|'' @ info @ ''|'' @ message)"

record agent_log_wire =
  lwLoggedAt :: "(int \<times> int) option"
  lwSeverity :: string
  lwMessage :: string
  lwProcessInfo :: string

definition agent_log_value :: "(string \<Rightarrow> string) \<Rightarrow> string \<Rightarrow> agent_log_wire \<Rightarrow> agent_log_entry option" where
  "agent_log_value sha inst r =
     (case fromTimestamp (lwLoggedAt r) of
        None \<Rightarrow> None
      | Some t \<Rightarrow> Some \<lparr> alInstanceId = inst, alLoggedAt = t, alSeverity = str_or_null (lwSeverity r),
          alMessage = lwMessage r, alProcessInfo = str_or_null (lwProcessInfo r),
          alDedupeKey = agentLogDedupeKey sha t (lwMessage r) (lwProcessInfo r) \<rparr>)"

fun insert_entries :: "agent_log_entry list \<Rightarrow> agent_log_entry list \<Rightarrow> agent_log_entry list \<times> nat" where
  "insert_entries [] held = (held, 0)"
| "insert_entries (v # vs) held =
     (if list_ex (\<lambda>e. alInstanceId e = alInstanceId v \<and> alDedupeKey e = alDedupeKey v) held
      then insert_entries vs held
      else (let (held', n) = insert_entries vs (held @ [v]) in (held', Suc n)))"

definition agent_log_mark_of :: "string \<Rightarrow> ingest_state \<Rightarrow> int" where
  "agent_log_mark_of inst st =
     (case syncT st inst of None \<Rightarrow> 0
      | Some r \<Rightarrow> (case srvAgentLogMark r of None \<Rightarrow> 0 | Some t \<Rightarrow> t))"

definition set_agent_log_mark :: "string \<Rightarrow> int \<Rightarrow> ingest_state \<Rightarrow> ingest_state" where
  "set_agent_log_mark inst t st =
     st\<lparr>syncT := (syncT st)(inst \<mapsto> (case syncT st inst of
          None \<Rightarrow> fresh_server_sync\<lparr>srvAgentLogMark := Some t\<rparr>
        | Some r \<Rightarrow> r\<lparr>srvAgentLogMark :=
             Some (max (case srvAgentLogMark r of None \<Rightarrow> t | Some x \<Rightarrow> x) t)\<rparr>))\<rparr>"

definition ingestAgentLog ::
  "(string \<Rightarrow> string) \<Rightarrow> string \<Rightarrow> agent_log_wire list \<Rightarrow> ingest_state \<Rightarrow> nat \<times> ingest_state" where
  "ingestAgentLog sha inst rows st =
     (let vals = List.map_filter (agent_log_value sha inst) rows
      in case vals of
           [] \<Rightarrow> (0, st)
         | v # vs \<Rightarrow>
             (let (held, n) = insert_entries vals (agentLogT st);
                  newest = foldl (\<lambda>a b. if alLoggedAt a > alLoggedAt b then a else b) v vs
              in (n, set_agent_log_mark inst (alLoggedAt newest) (st\<lparr>agentLogT := held\<rparr>))))"

section \<open>Retention\<close>

definition retention_cutoff :: "int \<Rightarrow> int \<Rightarrow> int" where
  "retention_cutoff days now = now - days * 24 * 60 * 60 * 1000"

text \<open>\<open>events\<close> are the notification events with their times.\<close>

definition pruneRetention ::
  "int \<Rightarrow> int \<Rightarrow> ingest_state \<times> ('e \<times> int) list \<times> pipeline \<Rightarrow> ingest_state \<times> ('e \<times> int) list \<times> pipeline"
  where
  "pruneRetention days now s =
     (let (st, events, pl) = s; cutoff = retention_cutoff days now
      in (st\<lparr>historyT := filter (\<lambda>r. \<not> hRunDatetime r < cutoff) (historyT st),
             agentLogT := filter (\<lambda>e. \<not> alLoggedAt e < cutoff) (agentLogT st)\<rparr>,
          filter (\<lambda>(_, t). \<not> t < cutoff) events,
          pl\<lparr>commandsT := filter (\<lambda>c. \<not> (cState c \<in> set TERMINAL_COMMAND_STATES \<and>
                past (cCompletedAt c) cutoff)) (commandsT pl),
             auditS := (auditS pl)\<lparr>auditExportQueue :=
                filter (\<lambda>q. \<not> queuedAt q < cutoff) (auditExportQueue (auditS pl))\<rparr>\<rparr>))"

section \<open>Bookmarks only move forward\<close>

interpretation server_history: forward_mark history_mark_of set_history_mark
  by unfold_locales
     (auto simp: history_mark_of_def set_history_mark_def fresh_server_sync_def split: option.splits)

interpretation server_agent_log: forward_mark agent_log_mark_of set_agent_log_mark
  by unfold_locales
     (auto simp: agent_log_mark_of_def set_agent_log_mark_def fresh_server_sync_def max_def
       split: option.splits)

section \<open>Replays\<close>

lemma insert_new_append: "insert_new vs held = (held', fresh) \<Longrightarrow> held' = held @ fresh"
  by (induction vs held arbitrary: held' fresh rule: insert_new.induct)
    (auto split: if_splits prod.splits)

lemma same_run_refl [simp]: "same_run v v"
  by (simp add: same_run_def)

lemma insert_new_holds:
  "insert_new vs held = (held', fresh) \<Longrightarrow> v \<in> set vs \<Longrightarrow> list_ex (same_run v) held'"
proof (induction vs held arbitrary: held' fresh rule: insert_new.induct)
  case (1 held)
  then show ?case by simp
next
  case (2 x vs held)
  show ?case
  proof (cases "list_ex (same_run x) held")
    case True
    with 2 obtain fresh' where r: "insert_new vs held = (held', fresh')" by (auto split: if_splits)
    with True insert_new_append [OF r] 2 show ?thesis by auto
  next
    case False
    with 2 obtain fresh' where r: "insert_new vs (held @ [x]) = (held', fresh')"
      by (auto split: prod.splits)
    with False insert_new_append [OF r] 2 show ?thesis by auto
  qed
qed

lemma insert_new_none:
  "(\<forall>v \<in> set vs. list_ex (same_run v) held) \<Longrightarrow> insert_new vs held = (held, [])"
  by (induction vs held rule: insert_new.induct) auto

lemma summarise_idem: "summarise l (summarise l j) = summarise l j"
  by (simp add: summarise_def split: option.split)

lemma summarise_keys [simp]:
  "jInstanceId (summarise l j) = jInstanceId j" "jJobUuid (summarise l j) = jJobUuid j"
  by (simp_all add: summarise_def split: option.splits)

definition summary_of :: "string \<Rightarrow> string set \<Rightarrow> history_row list \<Rightarrow> job_row \<Rightarrow> job_row" where
  "summary_of inst us hs j =
     (if jInstanceId j = inst \<and> jJobUuid j \<in> us then summarise (latest_run inst (jJobUuid j) hs) j else j)"

lemma refresh_one_rows:
  "refresh_one inst st u = st\<lparr>jobsT := (jobsT st)\<lparr>jobRows :=
     map (summary_of inst {u} (historyT st)) (jobRows (jobsT st))\<rparr>\<rparr>"
proof (cases "latest_run inst u (historyT st)")
  case None
  then have "summary_of inst {u} (historyT st) j = j" for j
    by (simp add: summary_of_def summarise_def)
  with None show ?thesis by (simp add: refresh_one_def map_idI)
next
  case (Some r)
  have "(if is_job inst u j then summarise (Some r) j else j) = summary_of inst {u} (historyT st) j" for j
    using Some by (auto simp: summary_of_def is_job_def)
  with Some show ?thesis by (simp add: refresh_one_def update_jobs_def)
qed

lemma summary_of_merge:
  "summary_of inst vs hs (summary_of inst us hs j) = summary_of inst (us \<union> vs) hs j"
  by (cases "jInstanceId j = inst"; cases "jJobUuid j \<in> us"; cases "jJobUuid j \<in> vs")
    (simp_all add: summary_of_def summarise_idem)

lemma refresh_rows:
  "refreshLastRunSummary inst us st = st\<lparr>jobsT := (jobsT st)\<lparr>jobRows :=
     map (summary_of inst (set us) (historyT st)) (jobRows (jobsT st))\<rparr>\<rparr>"
proof (induction us arbitrary: st)
  case Nil
  have "summary_of inst {} (historyT st) j = j" for j by (simp add: summary_of_def)
  then show ?case by (simp add: refreshLastRunSummary_def map_idI)
next
  case (Cons u us)
  have "refreshLastRunSummary inst (u # us) st = refreshLastRunSummary inst us (refresh_one inst st u)"
    by (simp add: refreshLastRunSummary_def)
  also have "\<dots> = st\<lparr>jobsT := (jobsT st)\<lparr>jobRows :=
      map (summary_of inst (set us) (historyT st) \<circ> summary_of inst {u} (historyT st)) (jobRows (jobsT st))\<rparr>\<rparr>"
    by (simp add: Cons.IH refresh_one_rows)
  finally show ?case by (simp add: comp_def summary_of_merge)
qed

lemma set_mark_again:
  "w \<le> v \<Longrightarrow> set_history_mark inst w (set_history_mark inst v st) = set_history_mark inst v st"
  by (auto simp: set_history_mark_def max_def split: option.splits)

text \<open>The parts of a batch that matter: its values, the new rows, the jobs it names.\<close>

lemma ingest_cases:
  assumes "ingestHistory inst rows st = (res, st')"
  obtains (void) "List.map_filter (history_value inst) rows = []" and "st' = st"
      and "irInserted res = 0" and "irNewRuns res = []"
  | (batch) vals fresh where "vals = List.map_filter (history_value inst) rows" and "vals \<noteq> []"
      and "insert_new vals (historyT st) = (historyT st', fresh)"
      and "irInserted res = length fresh" and "irNewRuns res = filter (\<lambda>r. hStepId r = 0) fresh"
      and "irHighWaterMark res = Max (set (map hSqlInstanceId vals))"
      and "st' = refreshLastRunSummary inst (rev (remdups (rev (map hJobUuid vals))))
             (set_history_mark inst (Max (set (map hSqlInstanceId vals))) (st\<lparr>historyT := historyT st'\<rparr>))"
proof (cases "rows = [] \<or> List.map_filter (history_value inst) rows = []")
  case True
  then have none: "List.map_filter (history_value inst) rows = []"
    by (auto simp: map_filter_simps)
  with True assms have r: "res = \<lparr> irInserted = 0, irHighWaterMark = history_mark_of inst st, irNewRuns = [] \<rparr>"
    "st' = st" by (auto simp: ingestHistory_def Let_def)
  show ?thesis by (rule void) (simp_all add: none r)
next
  case False
  let ?vals = "List.map_filter (history_value inst) rows"
  obtain held fresh where i: "insert_new ?vals (historyT st) = (held, fresh)" by fastforce
  have "historyT (refreshLastRunSummary inst us s) = historyT s" for us s by (simp add: refresh_rows)
  moreover have "historyT (set_history_mark inst v s) = historyT s" for v s
    by (simp add: set_history_mark_def)
  ultimately have "historyT st' = held" using assms False i by (auto simp: ingestHistory_def Let_def)
  with assms False i show ?thesis using batch [of ?vals fresh] by (auto simp: ingestHistory_def Let_def)
qed

lemma map_filter_subset: "set xs \<subseteq> set ys \<Longrightarrow> set (List.map_filter f xs) \<subseteq> set (List.map_filter f ys)"
  by (auto simp: set_map_filter_eq)

text \<open>The state after a batch: its bookmark, and job rows whose summaries are up to date.\<close>

lemma ingested_batch:
  assumes "st' = refreshLastRunSummary inst (rev (remdups (rev (map hJobUuid vals))))
      (set_history_mark inst m (st\<lparr>historyT := historyT st'\<rparr>))"
  shows "syncT st' = syncT (set_history_mark inst m st)"
    and "\<exists>js. jobRows (jobsT st') = map (summary_of inst (hJobUuid ` set vals) (historyT st')) js"
    and "m \<le> history_mark_of inst st'"
proof -
  let ?mid = "set_history_mark inst m (st\<lparr>historyT := historyT st'\<rparr>)"
  have "historyT ?mid = historyT st'" by (simp add: set_history_mark_def)
  with assms have st': "st' = ?mid\<lparr>jobsT := (jobsT ?mid)\<lparr>jobRows :=
      map (summary_of inst (hJobUuid ` set vals) (historyT st')) (jobRows (jobsT ?mid))\<rparr>\<rparr>"
    by (simp add: refresh_rows)
  show sync: "syncT st' = syncT (set_history_mark inst m st)"
    by (subst st') (simp add: set_history_mark_def)
  show "\<exists>js. jobRows (jobsT st') = map (summary_of inst (hJobUuid ` set vals) (historyT st')) js"
    by (intro exI) (subst st', simp)
  show "m \<le> history_mark_of inst st'"
    unfolding history_mark_of_def sync
    by (auto simp: set_history_mark_def fresh_server_sync_def split: option.splits)
qed

text \<open>Bringing the same or fewer rows up to date again changes nothing.\<close>

lemma summaries_again:
  assumes "syncT st' = syncT (set_history_mark inst m st)"
    and "jobRows (jobsT st') = map (summary_of inst (hJobUuid ` set vals) (historyT st')) js"
    and "set vals2 \<subseteq> set vals" and "m2 \<le> m"
  shows "refreshLastRunSummary inst (rev (remdups (rev (map hJobUuid vals2)))) (set_history_mark inst m2 st') = st'"
proof -
  have "syncT (set_history_mark inst m2 st') = syncT (set_history_mark inst m2 (set_history_mark inst m st))"
    by (simp add: set_history_mark_def assms(1))
  then have "syncT (set_history_mark inst m2 st') = syncT st'" by (simp only: set_mark_again [OF assms(4)] assms(1))
  moreover have "set_history_mark inst m2 st' = st'\<lparr>syncT := syncT (set_history_mark inst m2 st')\<rparr>"
    by (simp add: set_history_mark_def)
  ultimately have m: "set_history_mark inst m2 st' = st'" by simp
  have "hJobUuid ` set vals \<union> hJobUuid ` set vals2 = hJobUuid ` set vals" using assms(3) by blast
  then have "map (summary_of inst (hJobUuid ` set vals2) (historyT st')) (jobRows (jobsT st')) = jobRows (jobsT st')"
    by (simp add: assms(2) comp_def summary_of_merge)
  then show ?thesis by (simp add: m refresh_rows)
qed

text \<open>
  C21. History is ingested once. When a batch has been ingested, replaying the batch or any part of it
  in any order leaves the control plane's state exactly as it is, inserts nothing and reports no new
  run to alert on; the first ingestion only appends to the history, and the bookmark ends up at or
  above every row of the batch.
\<close>

theorem ingest_replay:
  assumes "ingestHistory inst rows st = (res, st')" and "set again \<subseteq> set rows"
    and "ingestHistory inst again st' = (res', st'')"
  shows "st'' = st' \<and> irInserted res' = 0 \<and> irNewRuns res' = [] \<and>
     (\<exists>fresh. historyT st' = historyT st @ fresh \<and> irInserted res = length fresh) \<and>
     list_all (\<lambda>r. hSqlInstanceId r \<le> history_mark_of inst st') (List.map_filter (history_value inst) rows)"
  using assms(1)
proof (cases rule: ingest_cases)
  case void
  then have "List.map_filter (history_value inst) again = []"
    using map_filter_subset [OF assms(2), of "history_value inst"] by simp
  with assms(3) have "st'' = st' \<and> irInserted res' = 0 \<and> irNewRuns res' = []"
    by (cases rule: ingest_cases) simp_all
  with void show ?thesis by simp
next
  case (batch vals fresh)
  let ?max = "Max (set (map hSqlInstanceId vals))"
  note b = ingested_batch [OF batch(7)]
  have first: "\<exists>fresh. historyT st' = historyT st @ fresh \<and> irInserted res = length fresh"
    using insert_new_append [OF batch(3)] batch(4) by blast
  have "hSqlInstanceId r \<le> ?max" if "r \<in> set vals" for r using that by simp
  then have bound: "list_all (\<lambda>r. hSqlInstanceId r \<le> history_mark_of inst st')
      (List.map_filter (history_value inst) rows)"
    unfolding batch(1) [symmetric] list_all_iff using b(3) by (meson order_trans)
  from assms(3) have "st'' = st' \<and> irInserted res' = 0 \<and> irNewRuns res' = []"
  proof (cases rule: ingest_cases)
    case b2: (batch vals2 fresh2)
    have sub: "set vals2 \<subseteq> set vals"
      unfolding b2(1) batch(1) by (rule map_filter_subset [OF assms(2)])
    then have "\<forall>v \<in> set vals2. list_ex (same_run v) (historyT st')"
      using insert_new_holds [OF batch(3)] by blast
    from insert_new_none [OF this] b2(3) have h: "st'\<lparr>historyT := historyT st''\<rparr> = st'" "fresh2 = []" by auto
    have "Max (set (map hSqlInstanceId vals2)) \<le> ?max" using sub b2(2) by (intro Max_mono) auto
    with b(1,2) sub have "st'' = st'" using b2(7) summaries_again unfolding h(1) by metis
    with b2(4,5) h(2) show ?thesis by simp
  qed simp
  with first bound show ?thesis by blast
qed

definition example_ingest :: ingest_state where
  "example_ingest = \<lparr> historyT = [], jobsT = \<lparr> jobRows = [], versionRows = [] \<rparr>, syncT = (\<lambda>_. None),
     activityT = (\<lambda>_. None), agentLogT = [], workerT = [], instanceT = [] \<rparr>"

definition example_run :: "int \<Rightarrow> history_wire" where
  "example_run n = \<lparr> hwJobUuid = ''u'', hwInstanceId = n, hwStepId = 0, hwStepName = [], hwRunStatus = 0,
     hwRunDatetime = Some (n, 0), hwRunDurationSeconds = 1, hwMessage = ''failed'', hwRetriesAttempted = 0,
     hwServer = [], hwSqlSeverity = 0, hwSqlMessageId = 0 \<rparr>"

theorem ingest_replay_witness:
  "length (historyT (snd (ingestHistory ''i'' [example_run 1]
     (snd (ingestHistory ''i'' [example_run 1, example_run 2] example_ingest))))) = 2 \<and>
   history_mark_of ''i'' (snd (ingestHistory ''i'' [example_run 1]
     (snd (ingestHistory ''i'' [example_run 1, example_run 2] example_ingest)))) = 2"
proof -
  let ?r = "ingestHistory ''i'' [example_run 1, example_run 2] example_ingest"
  let ?a = "ingestHistory ''i'' [example_run 1] (snd ?r)"
  have "snd ?a = snd ?r"
    using ingest_replay [of "''i''" "[example_run 1, example_run 2]" example_ingest "fst ?r" "snd ?r"
      "[example_run 1]" "fst ?a" "snd ?a"] by simp
  moreover have "length (historyT (snd ?r)) = 2 \<and> history_mark_of ''i'' (snd ?r) = 2" by code_simp
  ultimately show ?thesis by simp
qed

text \<open>
  The mark handed back to the worker is the batch's own maximum, so a late batch of old rows reports
  a lower mark than the one that is stored.
\<close>

lemma reported_mark_goes_back:
  "irHighWaterMark (fst (ingestHistory ''i'' [example_run 1]
     (snd (ingestHistory ''i'' [example_run 1, example_run 2] example_ingest)))) = 1"
  by code_simp

text \<open>Fields of a dedupe key are joined without escaping, so different entries can share one.\<close>

lemma dedupe_key_ambiguous:
  "agentLogDedupeKey sha t ''b|c'' ''a'' = agentLogDedupeKey sha t ''c'' ''a|b''"
  by (simp add: agentLogDedupeKey_def)

text \<open>Retention leaves the audit log and every command that is still under way alone.\<close>

lemma retention_keeps:
  assumes "pruneRetention days now (st, events, pl) = (st', events', pl')"
  shows "auditLog (auditS pl') = auditLog (auditS pl) \<and>
     (\<forall>c \<in> set (commandsT pl). cState c \<in> {PendingApproval, Approved, Dispatched} \<longrightarrow> c \<in> set (commandsT pl'))"
  using assms by (auto simp: pruneRetention_def Let_def TERMINAL_COMMAND_STATES_def)

end
