(* ===== verification/Scrubbing.thy ===== *)
theory Scrubbing
  imports Ingest "HOL-Library.Sublist"
begin

text \<open>
  What an administrator lets through of a worker's Agent error log and job history: the rules of
  \<open>packages/protocol/src/log-scrub.ts\<close> and \<open>history-scrub.ts\<close>, and their storage and application in
  \<open>packages/server/src/domain/log-scrubbing.ts\<close> and \<open>history-scrubbing.ts\<close>.

  \<open>new RegExp(pattern, 'giu')\<close> is a parameter: it fails on a pattern that is not one, and
  otherwise gives the successive matches in a text as pairs of start and end.
\<close>

section \<open>Patterns\<close>

type_synonym matcher = "string \<Rightarrow> (nat \<times> nat) list"
type_synonym regexp = "string \<Rightarrow> matcher option"

text \<open>\<open>text.replace(regex, by)\<close> from position \<open>at\<close> on.\<close>

fun replace_from :: "nat \<Rightarrow> (nat \<times> nat) list \<Rightarrow> string \<Rightarrow> string \<Rightarrow> string" where
  "replace_from at [] by s = drop at s"
| "replace_from at ((a, b) # ms) by s = take (a - at) (drop at s) @ by @ replace_from b ms by s"

definition REDACTED :: string where
  "REDACTED = ''[redacted]''"

definition redact_with :: "matcher \<Rightarrow> string \<Rightarrow> string" where
  "redact_with m s = replace_from 0 (m s) REDACTED s"

section \<open>The Agent error log\<close>

datatype log_severity = SevError | SevWarning | SevInfo

fun severity_name :: "log_severity \<Rightarrow> string" where
  "severity_name SevError = ''error''" | "severity_name SevWarning = ''warning''"
| "severity_name SevInfo = ''info''"

datatype scrub_action = Redact | Drop

record scrub_rule =
  ruleId :: string
  ruleDescription :: string
  rulePattern :: string
  ruleAction :: scrub_action

record log_scrub_config =
  allowedSeverities :: "log_severity list"
  logRules :: "scrub_rule list"

definition MAX_SCRUB_RULES :: nat where "MAX_SCRUB_RULES = 20"
definition MAX_SCRUB_PATTERN_LENGTH :: nat where "MAX_SCRUB_PATTERN_LENGTH = 200"
definition MAX_SCRUB_DESCRIPTION_LENGTH :: nat where "MAX_SCRUB_DESCRIPTION_LENGTH = 200"

definition scrubRuleSchema :: "scrub_rule \<Rightarrow> bool" where
  "scrubRuleSchema r \<longleftrightarrow> 1 \<le> length (ruleId r) \<and> length (ruleId r) \<le> 64 \<and>
     length (ruleDescription r) \<le> MAX_SCRUB_DESCRIPTION_LENGTH \<and>
     1 \<le> length (rulePattern r) \<and> length (rulePattern r) \<le> MAX_SCRUB_PATTERN_LENGTH"

definition agentLogScrubConfigSchema :: "log_scrub_config \<Rightarrow> bool" where
  "agentLogScrubConfigSchema c \<longleftrightarrow>
     list_all scrubRuleSchema (logRules c) \<and> length (logRules c) \<le> MAX_SCRUB_RULES"

definition DEFAULT_AGENT_LOG_SCRUB_CONFIG :: log_scrub_config where
  "DEFAULT_AGENT_LOG_SCRUB_CONFIG = \<lparr> allowedSeverities = [SevError, SevWarning, SevInfo], logRules = [] \<rparr>"

text \<open>The message of the throw, or nothing when every pattern compiles.\<close>

definition invalid_pattern_text :: "string \<Rightarrow> string \<Rightarrow> string \<Rightarrow> string" where
  "invalid_pattern_text descr i p =
     ''Rule '' @ CHR 0x22 # (if descr = [] then i else descr) @ CHR 0x22 #
     '' has an invalid pattern: '' @ p"

fun assertScrubRulesCompile :: "regexp \<Rightarrow> scrub_rule list \<Rightarrow> string option" where
  "assertScrubRulesCompile re [] = None"
| "assertScrubRulesCompile re (r # rs) =
     (if re (rulePattern r) = None
      then Some (invalid_pattern_text (ruleDescription r) (ruleId r) (rulePattern r))
      else assertScrubRulesCompile re rs)"

datatype config_refusal = SchemaRefused | BadPattern string

record 'c stored_config =
  storedConfig :: 'c
  storedAt :: int
  storedBy :: "string option"

definition getScrubConfig :: "string \<Rightarrow> (string \<Rightarrow> log_scrub_config stored_config option) \<Rightarrow> log_scrub_config" where
  "getScrubConfig w t =
     (case t w of None \<Rightarrow> DEFAULT_AGENT_LOG_SCRUB_CONFIG | Some r \<Rightarrow> storedConfig r)"

definition setScrubConfig ::
  "regexp \<Rightarrow> string \<Rightarrow> log_scrub_config \<Rightarrow> string option \<Rightarrow> int \<Rightarrow> (string \<Rightarrow> log_scrub_config stored_config option)
     \<Rightarrow> (config_refusal + log_scrub_config) \<times> (string \<Rightarrow> log_scrub_config stored_config option)" where
  "setScrubConfig re w c who now t =
     (if \<not> agentLogScrubConfigSchema c then (Inl SchemaRefused, t)
      else case assertScrubRulesCompile re (logRules c) of
             Some e \<Rightarrow> (Inl (BadPattern e), t)
           | None \<Rightarrow> (Inr c, t(w \<mapsto> \<lparr> storedConfig = c, storedAt = now, storedBy = who \<rparr>)))"

text \<open>The rules over one row: nothing when it is dropped, else its texts and whether any rule redacted.\<close>

fun scrub_texts :: "(scrub_rule \<times> matcher) list \<Rightarrow> string \<Rightarrow> string \<Rightarrow> bool \<Rightarrow> (string \<times> string \<times> bool) option" where
  "scrub_texts [] msg info red = Some (msg, info, red)"
| "scrub_texts ((r, m) # rs) msg info red =
     (if m msg = [] \<and> m info = [] then scrub_texts rs msg info red
      else if ruleAction r = Drop then None
      else scrub_texts rs (redact_with m msg) (redact_with m info) True)"

record 'r scrub_result =
  keptRows :: "'r list"
  droppedCount :: nat
  redactedCount :: nat

definition scrub_log_row ::
  "string set \<Rightarrow> (scrub_rule \<times> matcher) list \<Rightarrow> agent_log_wire scrub_result \<Rightarrow> agent_log_wire
     \<Rightarrow> agent_log_wire scrub_result" where
  "scrub_log_row allowed rules acc row =
     (if lwSeverity row \<notin> allowed then acc\<lparr>droppedCount := droppedCount acc + 1\<rparr>
      else case scrub_texts rules (lwMessage row) (lwProcessInfo row) False of
             None \<Rightarrow> acc\<lparr>droppedCount := droppedCount acc + 1\<rparr>
           | Some (msg, info, red) \<Rightarrow>
               acc\<lparr>keptRows := keptRows acc @ [row\<lparr>lwMessage := msg, lwProcessInfo := info\<rparr>],
                   redactedCount := redactedCount acc + (if red then 1 else 0)\<rparr>)"

text \<open>\<^term>\<open>None\<close> is the \<open>SyntaxError\<close> of a pattern that does not compile.\<close>

definition applyScrubRules ::
  "regexp \<Rightarrow> log_scrub_config \<Rightarrow> agent_log_wire list \<Rightarrow> agent_log_wire scrub_result option" where
  "applyScrubRules re c rows =
     map_option
       (\<lambda>rules. foldl (scrub_log_row (set (map severity_name (allowedSeverities c))) rules)
          \<lparr> keptRows = [], droppedCount = 0, redactedCount = 0 \<rparr> rows)
       (those (map (\<lambda>r. map_option (Pair r) (re (rulePattern r))) (logRules c)))"

section \<open>Job history\<close>

record history_scrub_rule =
  hruleId :: string
  hruleDescription :: string
  hrulePattern :: string

definition MAX_HISTORY_SCRUB_RULES :: nat where "MAX_HISTORY_SCRUB_RULES = 20"
definition MAX_HISTORY_SCRUB_PATTERN_LENGTH :: nat where "MAX_HISTORY_SCRUB_PATTERN_LENGTH = 200"
definition MAX_HISTORY_SCRUB_DESCRIPTION_LENGTH :: nat where "MAX_HISTORY_SCRUB_DESCRIPTION_LENGTH = 200"

definition historyScrubRuleSchema :: "history_scrub_rule \<Rightarrow> bool" where
  "historyScrubRuleSchema r \<longleftrightarrow> 1 \<le> length (hruleId r) \<and> length (hruleId r) \<le> 64 \<and>
     length (hruleDescription r) \<le> MAX_HISTORY_SCRUB_DESCRIPTION_LENGTH \<and>
     1 \<le> length (hrulePattern r) \<and> length (hrulePattern r) \<le> MAX_HISTORY_SCRUB_PATTERN_LENGTH"

definition historyScrubConfigSchema :: "history_scrub_rule list \<Rightarrow> bool" where
  "historyScrubConfigSchema rs \<longleftrightarrow> list_all historyScrubRuleSchema rs \<and> length rs \<le> MAX_HISTORY_SCRUB_RULES"

definition DEFAULT_HISTORY_SCRUB_CONFIG :: "history_scrub_rule list" where
  "DEFAULT_HISTORY_SCRUB_CONFIG = []"

fun assertHistoryScrubRulesCompile :: "regexp \<Rightarrow> history_scrub_rule list \<Rightarrow> string option" where
  "assertHistoryScrubRulesCompile re [] = None"
| "assertHistoryScrubRulesCompile re (r # rs) =
     (if re (hrulePattern r) = None
      then Some (invalid_pattern_text (hruleDescription r) (hruleId r) (hrulePattern r))
      else assertHistoryScrubRulesCompile re rs)"

definition getHistoryScrubConfig ::
  "string \<Rightarrow> (string \<Rightarrow> history_scrub_rule list stored_config option) \<Rightarrow> history_scrub_rule list" where
  "getHistoryScrubConfig w t =
     (case t w of None \<Rightarrow> DEFAULT_HISTORY_SCRUB_CONFIG | Some r \<Rightarrow> storedConfig r)"

definition setHistoryScrubConfig ::
  "regexp \<Rightarrow> string \<Rightarrow> history_scrub_rule list \<Rightarrow> string option \<Rightarrow> int
     \<Rightarrow> (string \<Rightarrow> history_scrub_rule list stored_config option)
     \<Rightarrow> (config_refusal + history_scrub_rule list) \<times> (string \<Rightarrow> history_scrub_rule list stored_config option)" where
  "setHistoryScrubConfig re w c who now t =
     (if \<not> historyScrubConfigSchema c then (Inl SchemaRefused, t)
      else case assertHistoryScrubRulesCompile re c of
             Some e \<Rightarrow> (Inl (BadPattern e), t)
           | None \<Rightarrow> (Inr c, t(w \<mapsto> \<lparr> storedConfig = c, storedAt = now, storedBy = who \<rparr>)))"

fun redact_text :: "matcher list \<Rightarrow> string \<Rightarrow> bool \<Rightarrow> string \<times> bool" where
  "redact_text [] msg red = (msg, red)"
| "redact_text (m # ms) msg red =
     (if m msg = [] then redact_text ms msg red else redact_text ms (redact_with m msg) True)"

definition scrub_history_row ::
  "matcher list \<Rightarrow> history_wire list \<times> nat \<Rightarrow> history_wire \<Rightarrow> history_wire list \<times> nat" where
  "scrub_history_row ms acc row =
     (let (msg, red) = redact_text ms (hwMessage row) False
      in (fst acc @ [if red then row\<lparr>hwMessage := msg\<rparr> else row], snd acc + (if red then 1 else 0)))"

definition applyHistoryScrubRules ::
  "regexp \<Rightarrow> history_scrub_rule list \<Rightarrow> history_wire list \<Rightarrow> (history_wire list \<times> nat) option" where
  "applyHistoryScrubRules re rules rows =
     (if rules = [] then Some (rows, 0)
      else map_option (\<lambda>ms. foldl (scrub_history_row ms) ([], 0) rows)
             (those (map (\<lambda>r. re (hrulePattern r)) rules)))"

section \<open>Stored configurations compile\<close>

text \<open>
  A table of checked configurations: \<open>lookup\<close> has a default, \<open>save\<close> refuses a configuration that is not
  \<open>fit\<close> and leaves the table alone. Whatever is saved, every configuration read is fit.
\<close>

locale checked_config =
  fixes lookup :: "string \<Rightarrow> 't \<Rightarrow> 'c"
    and save :: "string \<Rightarrow> 'c \<Rightarrow> string option \<Rightarrow> int \<Rightarrow> 't \<Rightarrow> (config_refusal + 'c) \<times> 't"
    and fit :: "'c \<Rightarrow> bool"
  assumes saved: "save w c who now t = (Inr c', t') \<Longrightarrow> fit c \<and> lookup w t' = c"
    and elsewhere: "save w c who now t = (r, t') \<Longrightarrow> w' \<noteq> w \<Longrightarrow> lookup w' t' = lookup w' t"
    and refused: "save w c who now t = (Inl e, t') \<Longrightarrow> t' = t"
begin

definition saves :: "(string \<times> 'c \<times> string option \<times> int) list \<Rightarrow> 't \<Rightarrow> 't" where
  "saves ops t = foldl (\<lambda>t (w, c, who, now). snd (save w c who now t)) t ops"

lemma save_fit:
  assumes "\<forall>w. fit (lookup w t)"
  shows "fit (lookup w' (snd (save w c who now t)))"
proof (cases "save w c who now t")
  case (Pair r t')
  show ?thesis
  proof (cases r)
    case (Inl e)
    with Pair refused [of w c who now t e t'] assms show ?thesis by simp
  next
    case (Inr c')
    with Pair saved [of w c who now t c' t'] elsewhere [of w c who now t r t' w'] assms
    show ?thesis by (cases "w' = w") auto
  qed
qed

lemma saves_fit: "\<forall>w. fit (lookup w t) \<Longrightarrow> fit (lookup w (saves ops t))"
proof (induction ops arbitrary: t)
  case Nil
  then show ?case by (simp add: saves_def)
next
  case (Cons op ops)
  obtain w c who now where op: "op = (w, c, who, now)" by (cases op)
  show ?case
    using Cons.IH [of "snd (save w c who now t)"] save_fit [OF Cons.prems] by (simp add: saves_def op)
qed

end

lemma assert_compiles: "assertScrubRulesCompile re rs = None \<longleftrightarrow> (\<forall>r \<in> set rs. re (rulePattern r) \<noteq> None)"
  by (induction rs) auto

lemma assert_history_compiles:
  "assertHistoryScrubRulesCompile re rs = None \<longleftrightarrow> (\<forall>r \<in> set rs. re (hrulePattern r) \<noteq> None)"
  by (induction rs) auto

interpretation log_scrub: checked_config getScrubConfig "setScrubConfig re"
    "\<lambda>c. \<forall>r \<in> set (logRules c). re (rulePattern r) \<noteq> None" for re
  by unfold_locales
    (auto simp: setScrubConfig_def getScrubConfig_def assert_compiles
      simp flip: not_None_eq split: if_splits option.splits)

interpretation history_scrub: checked_config getHistoryScrubConfig "setHistoryScrubConfig re"
    "\<lambda>c. \<forall>r \<in> set c. re (hrulePattern r) \<noteq> None" for re
  by unfold_locales
    (auto simp: setHistoryScrubConfig_def getHistoryScrubConfig_def assert_history_compiles
      simp flip: not_None_eq split: if_splits option.splits)

text \<open>The tables after any sequence of saves, those refused included.\<close>

definition log_configs ::
  "regexp \<Rightarrow> (string \<times> log_scrub_config \<times> string option \<times> int) list \<Rightarrow> string \<Rightarrow> log_scrub_config stored_config option"
  where
  "log_configs re ops = foldl (\<lambda>t (w, c, who, now). snd (setScrubConfig re w c who now t)) (\<lambda>_. None) ops"

definition history_configs ::
  "regexp \<Rightarrow> (string \<times> history_scrub_rule list \<times> string option \<times> int) list
     \<Rightarrow> string \<Rightarrow> history_scrub_rule list stored_config option"
  where
  "history_configs re ops =
     foldl (\<lambda>t (w, c, who, now). snd (setHistoryScrubConfig re w c who now t)) (\<lambda>_. None) ops"

lemma those_None_iff: "those xs = None \<longleftrightarrow> None \<in> set xs"
  by (induction xs) (auto split: option.splits)

lemma those_SomeD: "those xs = Some ys \<Longrightarrow> xs = map Some ys"
  by (induction xs arbitrary: ys) (auto split: option.splits)

text \<open>A save of a row: it is stored under its key, or refused with the table as it was.\<close>

definition stores_or_refuses ::
  "bool \<Rightarrow> string \<Rightarrow> 'c stored_config \<Rightarrow> (string \<Rightarrow> 'c stored_config option)
     \<Rightarrow> (config_refusal + 'c) \<times> (string \<Rightarrow> 'c stored_config option) \<Rightarrow> bool" where
  "stores_or_refuses good v row t result \<longleftrightarrow>
     (if good then result = (Inr (storedConfig row), t(v \<mapsto> row)) else isl (fst result) \<and> snd result = t)"

lemma log_save:
  "stores_or_refuses (agentLogScrubConfigSchema c \<and> list_all (\<lambda>r. re (rulePattern r) \<noteq> None) (logRules c)) v
     \<lparr> storedConfig = c, storedAt = now, storedBy = who \<rparr> t (setScrubConfig re v c who now t)"
  using assert_compiles [of re "logRules c"]
  by (auto simp: stores_or_refuses_def setScrubConfig_def list_all_iff split: option.splits)

lemma history_save:
  "stores_or_refuses (historyScrubConfigSchema h \<and> list_all (\<lambda>r. re (hrulePattern r) \<noteq> None) h) v
     \<lparr> storedConfig = h, storedAt = now, storedBy = who \<rparr> u (setHistoryScrubConfig re v h who now u)"
  using assert_history_compiles [of re h]
  by (auto simp: stores_or_refuses_def setHistoryScrubConfig_def list_all_iff split: option.splits)

text \<open>
  C39. Whatever is saved, by whom and in which order, no batch of a worker can make the scrubbing
  throw: the configuration read for it always compiles. A history batch comes out with every row. A save
  is refused exactly when the configuration violates the schema or has a pattern that does not compile,
  and then the table stays as it was; one that is accepted is stored for that worker as it is, and
  nothing else in the table changes.
\<close>

theorem scrubbing_total:
  "\<exists>res out n. applyScrubRules re (getScrubConfig w (log_configs re ops)) log_rows = Some res \<and>
     applyHistoryScrubRules re (getHistoryScrubConfig w (history_configs re hops)) rows = Some (out, n) \<and>
     map (\<lambda>r. r\<lparr>hwMessage := []\<rparr>) out = map (\<lambda>r. r\<lparr>hwMessage := []\<rparr>) rows \<and> n \<le> length rows \<and>
     stores_or_refuses (agentLogScrubConfigSchema c \<and> list_all (\<lambda>r. re (rulePattern r) \<noteq> None) (logRules c)) v
       \<lparr> storedConfig = c, storedAt = now, storedBy = who \<rparr> t (setScrubConfig re v c who now t) \<and>
     stores_or_refuses (historyScrubConfigSchema h \<and> list_all (\<lambda>r. re (hrulePattern r) \<noteq> None) h) v
       \<lparr> storedConfig = h, storedAt = now, storedBy = who \<rparr> u (setHistoryScrubConfig re v h who now u)"
proof -
  let ?c = "getScrubConfig w (log_configs re ops)"
  let ?h = "getHistoryScrubConfig w (history_configs re hops)"
  have "\<forall>r \<in> set (logRules ?c). re (rulePattern r) \<noteq> None"
    using log_scrub.saves_fit [of "\<lambda>_. None" re w ops]
    by (simp add: log_scrub.saves_def log_configs_def getScrubConfig_def DEFAULT_AGENT_LOG_SCRUB_CONFIG_def)
  then have "those (map (\<lambda>r. map_option (Pair r) (re (rulePattern r))) (logRules ?c)) \<noteq> None"
    by (simp add: those_None_iff image_iff)
  then have log: "\<exists>res. applyScrubRules re ?c log_rows = Some res"
    by (auto simp: applyScrubRules_def)
  have "\<forall>r \<in> set ?h. re (hrulePattern r) \<noteq> None"
    using history_scrub.saves_fit [of "\<lambda>_. None" re w hops]
    by (simp add: history_scrub.saves_def history_configs_def getHistoryScrubConfig_def
        DEFAULT_HISTORY_SCRUB_CONFIG_def)
  then have "those (map (\<lambda>r. re (hrulePattern r)) ?h) \<noteq> None"
    unfolding those_None_iff by (auto simp del: not_None_eq)
  moreover have "map (\<lambda>r. r\<lparr>hwMessage := []\<rparr>) (fst (foldl (scrub_history_row ms) (out, n) rows)) =
      map (\<lambda>r. r\<lparr>hwMessage := []\<rparr>) (out @ rows) \<and>
      snd (foldl (scrub_history_row ms) (out, n) rows) \<le> n + length rows" for ms out n
  proof (induction rows arbitrary: out n)
    case Nil
    then show ?case by simp
  next
    case (Cons r rows)
    obtain m red where e: "redact_text ms (hwMessage r) False = (m, red)" by fastforce
    show ?case
      using Cons.IH [of "out @ [if red then r\<lparr>hwMessage := m\<rparr> else r]" "n + (if red then 1 else 0)"]
      by (simp add: scrub_history_row_def e split: if_splits)
  qed
  note this [of _ "[]" 0]
  ultimately have "\<exists>out n. applyHistoryScrubRules re ?h rows = Some (out, n) \<and>
      map (\<lambda>r. r\<lparr>hwMessage := []\<rparr>) out = map (\<lambda>r. r\<lparr>hwMessage := []\<rparr>) rows \<and> n \<le> length rows"
    by (force simp: applyHistoryScrubRules_def intro: exI [of _ "fst _"])
  with log show ?thesis using log_save history_save by blast
qed

section \<open>What gets through\<close>

definition redacted :: "matcher list \<Rightarrow> string \<Rightarrow> string" where
  "redacted ms s = foldl (\<lambda>s m. redact_with m s) s ms"

text \<open>
  A row is admitted when its severity is allowed and no rule that drops matches either text, each as
  the rules before it have left it.
\<close>

definition row_admitted :: "log_scrub_config \<Rightarrow> matcher list \<Rightarrow> agent_log_wire \<Rightarrow> bool" where
  "row_admitted c ms row \<longleftrightarrow>
     lwSeverity row \<in> severity_name ` set (allowedSeverities c) \<and>
     (\<forall>i < length ms. ruleAction (logRules c ! i) = Drop \<longrightarrow>
        (ms ! i) (redacted (take i ms) (lwMessage row)) = [] \<and>
        (ms ! i) (redacted (take i ms) (lwProcessInfo row)) = [])"

definition touched :: "matcher list \<Rightarrow> agent_log_wire \<Rightarrow> bool" where
  "touched ms row \<longleftrightarrow> (\<exists>i < length ms. (ms ! i) (redacted (take i ms) (lwMessage row)) \<noteq> [] \<or>
     (ms ! i) (redacted (take i ms) (lwProcessInfo row)) \<noteq> [])"

lemma redact_unmatched: "m s = [] \<Longrightarrow> redact_with m s = s"
  by (simp add: redact_with_def)

lemma redacted_simps: "redacted [] s = s" "redacted (m # ms) s = redacted ms (redact_with m s)"
  by (simp_all add: redacted_def)

lemma scrub_texts_spec:
  "length rs = length ms \<Longrightarrow> scrub_texts (zip rs ms) msg info red =
     (if \<exists>i < length ms. ruleAction (rs ! i) = Drop \<and>
           \<not> ((ms ! i) (redacted (take i ms) msg) = [] \<and> (ms ! i) (redacted (take i ms) info) = [])
      then None
      else Some (redacted ms msg, redacted ms info, red \<or>
        (\<exists>i < length ms. \<not> ((ms ! i) (redacted (take i ms) msg) = [] \<and> (ms ! i) (redacted (take i ms) info) = []))))"
proof (induction rs ms arbitrary: msg info red rule: list_induct2)
  case Nil
  then show ?case by (simp add: redacted_simps)
next
  case (Cons r rs m ms)
  show ?case
  proof (cases "m msg = [] \<and> m info = []")
    case True
    then show ?thesis
      by (simp add: Cons.IH redacted_simps redact_unmatched Ex_less_Suc2 cong: conj_cong)
  next
    case False
    then show ?thesis
      by (simp add: Cons.IH redacted_simps Ex_less_Suc2) blast
  qed
qed

lemma scrub_log_fold:
  assumes "length (logRules c) = length ms"
  shows "foldl (scrub_log_row (set (map severity_name (allowedSeverities c))) (zip (logRules c) ms))
      \<lparr> keptRows = k, droppedCount = d, redactedCount = n \<rparr> rows =
    \<lparr> keptRows = k @ map (\<lambda>r. r\<lparr>lwMessage := redacted ms (lwMessage r),
          lwProcessInfo := redacted ms (lwProcessInfo r)\<rparr>) (filter (row_admitted c ms) rows),
      droppedCount = d + length (filter (\<lambda>r. \<not> row_admitted c ms r) rows),
      redactedCount = n + length (filter (\<lambda>r. row_admitted c ms r \<and> touched ms r) rows) \<rparr>"
proof (induction rows arbitrary: k d n)
  case Nil
  then show ?case by simp
next
  case (Cons r rows)
  have "scrub_log_row (set (map severity_name (allowedSeverities c))) (zip (logRules c) ms)
      \<lparr> keptRows = k, droppedCount = d, redactedCount = n \<rparr> r =
    \<lparr> keptRows = k @ (if row_admitted c ms r then [r\<lparr>lwMessage := redacted ms (lwMessage r),
          lwProcessInfo := redacted ms (lwProcessInfo r)\<rparr>] else []),
      droppedCount = d + (if row_admitted c ms r then 0 else 1),
      redactedCount = n + (if row_admitted c ms r \<and> touched ms r then 1 else 0) \<rparr>"
    unfolding scrub_log_row_def scrub_texts_spec [OF assms]
    by (auto simp: row_admitted_def touched_def)
  then show ?case by (simp add: Cons.IH del: set_map)
qed

text \<open>
  What is stored of a batch of the Agent error log is exactly the admitted rows, in order, with
  every rule's matches replaced in both texts and nothing else changed, and the counts reported
  are those of the rows dropped and of the stored rows that were redacted.
\<close>

theorem scrub_admits:
  assumes "applyScrubRules re c rows = Some res"
  shows "\<exists>ms. map (\<lambda>r. re (rulePattern r)) (logRules c) = map Some ms \<and>
     keptRows res = map (\<lambda>r. r\<lparr>lwMessage := redacted ms (lwMessage r),
        lwProcessInfo := redacted ms (lwProcessInfo r)\<rparr>) (filter (row_admitted c ms) rows) \<and>
     droppedCount res = length rows - length (keptRows res) \<and>
     redactedCount res = length (filter (\<lambda>r. row_admitted c ms r \<and> touched ms r) rows)"
proof -
  obtain rules where r: "map (\<lambda>r. map_option (Pair r) (re (rulePattern r))) (logRules c) = map Some rules"
    and res: "res = foldl (scrub_log_row (set (map severity_name (allowedSeverities c))) rules)
      \<lparr> keptRows = [], droppedCount = 0, redactedCount = 0 \<rparr> rows"
    using assms by (auto simp: applyScrubRules_def dest: those_SomeD)
  define ms where "ms = map snd rules"
  have len: "length (logRules c) = length ms" using arg_cong [OF r, of length] by (simp add: ms_def)
  have nth: "map_option (Pair (logRules c ! i)) (re (rulePattern (logRules c ! i))) = Some (rules ! i)"
    if "i < length ms" for i
    using arg_cong [OF r, of "\<lambda>xs. xs ! i"] that len by (simp add: ms_def)
  have "fst (rules ! i) = logRules c ! i \<and> re (rulePattern (logRules c ! i)) = Some (ms ! i)"
    if "i < length ms" for i
    using nth [OF that] that by (auto simp: ms_def) (metis fst_conv, metis snd_conv)
  then have "rules = zip (logRules c) ms" and m: "map (\<lambda>r. re (rulePattern r)) (logRules c) = map Some ms"
    using len by (auto intro!: nth_equalityI simp: ms_def prod_eq_iff)
  with res have res: "res = \<lparr> keptRows = map (\<lambda>r. r\<lparr>lwMessage := redacted ms (lwMessage r),
        lwProcessInfo := redacted ms (lwProcessInfo r)\<rparr>) (filter (row_admitted c ms) rows),
      droppedCount = length (filter (\<lambda>r. \<not> row_admitted c ms r) rows),
      redactedCount = length (filter (\<lambda>r. row_admitted c ms r \<and> touched ms r) rows) \<rparr>"
    by (simp only: scrub_log_fold [OF len]) simp
  moreover have "length (filter (\<lambda>r. \<not> row_admitted c ms r) rows) = length rows - length (filter (row_admitted c ms) rows)"
    using sum_length_filter_compl [of "row_admitted c ms" rows] by simp
  ultimately show ?thesis using m by (intro exI [of _ ms]) simp
qed

text \<open>A literal matcher, and a rule of each kind.\<close>

fun occurrences :: "string \<Rightarrow> nat \<Rightarrow> string \<Rightarrow> (nat \<times> nat) list" where
  "occurrences p i [] = []"
| "occurrences p i (c # s) =
     (if p \<noteq> [] \<and> take (length p) (c # s) = p then (i, i + length p) # occurrences p (i + length p) (drop (length p - 1) s)
      else occurrences p (i + 1) s)"

definition literal :: regexp where
  "literal p = (if p = [CHR ''('' ] then None else Some (occurrences p 0))"

definition example_config :: log_scrub_config where
  "example_config = \<lparr> allowedSeverities = [SevError],
     logRules = [\<lparr> ruleId = ''1'', ruleDescription = [], rulePattern = ''pw=x'', ruleAction = Redact \<rparr>,
                 \<lparr> ruleId = ''2'', ruleDescription = [], rulePattern = ''noise'', ruleAction = Drop \<rparr>] \<rparr>"

definition example_log :: "agent_log_wire list" where
  "example_log = [\<lparr> lwLoggedAt = None, lwSeverity = ''error'', lwMessage = ''a pw=x b'', lwProcessInfo = ''s'' \<rparr>,
     \<lparr> lwLoggedAt = None, lwSeverity = ''error'', lwMessage = ''noise'', lwProcessInfo = [] \<rparr>,
     \<lparr> lwLoggedAt = None, lwSeverity = ''info'', lwMessage = ''c'', lwProcessInfo = [] \<rparr>]"

lemma example_scrub:
  "applyScrubRules literal example_config example_log = Some \<lparr> keptRows =
     [\<lparr> lwLoggedAt = None, lwSeverity = ''error'', lwMessage = ''a [redacted] b'', lwProcessInfo = ''s'' \<rparr>],
     droppedCount = 2, redactedCount = 1 \<rparr>"
  by code_simp

lemma scrub_admits_witness:
  "\<exists>ms. map (\<lambda>r. literal (rulePattern r)) (logRules example_config) = map Some ms \<and>
     length (filter (row_admitted example_config ms) example_log) = 1"
proof (rule exE [OF scrub_admits [OF example_scrub]], elim conjE, intro exI conjI)
  fix ms
  assume "keptRows \<lparr> keptRows =
      [\<lparr> lwLoggedAt = None, lwSeverity = ''error'', lwMessage = ''a [redacted] b'', lwProcessInfo = ''s'' \<rparr>],
      droppedCount = 2, redactedCount = 1 \<rparr> =
    map (\<lambda>r. r\<lparr>lwMessage := redacted ms (lwMessage r), lwProcessInfo := redacted ms (lwProcessInfo r)\<rparr>)
      (filter (row_admitted example_config ms) example_log)"
  from arg_cong [OF this, of length] show "length (filter (row_admitted example_config ms) example_log) = 1"
    by simp
qed

end
