(* ===== verification/WorkerIdentity.thy ===== *)
theory WorkerIdentity
  imports Prelude
begin

text \<open>
  How a worker comes to be trusted (\<open>packages/server/src/worker-auth/\<close>): enrolment tokens and their
  redemption (\<open>enrolment.ts\<close>), authentication of a session by client certificate, managed identity
  or key (\<open>authenticate.ts\<close>), certificate renewal (\<open>renewal.ts\<close>) and the review of the credentials in
  use (\<open>posture.ts\<close>). Tables are lists in the order of insertion; ids, secrets and clock readings are
  arguments.

  Parameters are SHA-256, argon2, the certificate authority built on node-forge (\<open>ca.ts\<close>), the
  validation of an Entra token, and the parsing of a URL.
\<close>

section \<open>Tables\<close>

datatype credential_mode = TokenMode | MtlsMode | EntraMode

fun mode_name :: "credential_mode \<Rightarrow> string" where
  "mode_name TokenMode = ''token''" | "mode_name MtlsMode = ''mtls''" | "mode_name EntraMode = ''entra''"

record enrol_token =
  etId :: string
  etTokenHash :: string
  etHostName :: string
  etMode :: credential_mode
  etCapabilities :: "string list"
  etCreatedBy :: "string option"
  etExpiresAt :: int
  etUsedAt :: "int option"
  etUsedByWorkerId :: "string option"

record worker_credential =
  wcId :: string
  wcWorkerId :: string
  wcMode :: credential_mode
  wcSecretHash :: "string option"
  wcSecretPrefix :: "string option"
  wcCertSerial :: "string option"
  wcCertFingerprint :: "string option"
  wcCertPem :: "string option"
  wcEntraObjectId :: "string option"
  wcEntraTenantId :: "string option"
  wcLabel :: string
  wcCreatedBy :: "string option"
  wcExpiresAt :: "int option"
  wcRevokedAt :: "int option"
  wcRevokedReason :: "string option"
  wcLastUsedAt :: "int option"

record enrolled_worker =
  ewId :: string
  ewHostName :: string
  ewVersion :: "string option"
  ewCapabilities :: "string list"
  ewCertSerial :: "string option"
  ewCertExpiresAt :: "int option"

record identity_state =
  enrolTokens :: "enrol_token list"
  credentials :: "worker_credential list"
  enrolledWorkers :: "enrolled_worker list"

record issued_certificate =
  icPem :: string
  icSerial :: string
  icFingerprint :: string
  icNotAfter :: int

record identity_env =
  hashToken :: "string \<Rightarrow> string"
  hashWorkerKey :: "string \<Rightarrow> string"
  verifyWorkerKey :: "string \<Rightarrow> string \<Rightarrow> bool"
  fingerprintOf :: "string \<Rightarrow> string option"
  issueClientCertificate :: "string \<Rightarrow> string \<Rightarrow> string \<Rightarrow> int \<Rightarrow> issued_certificate option"
  caCertificatePem :: string
  validateEntra :: "string \<Rightarrow> (string \<times> string) option"

record identity_config =
  enabledModes :: "credential_mode list"
  tokenTtlDays :: "int option"
  certValidityDays :: int
  entraTenantId :: "string option"
  entraAudience :: "string option"

text \<open>A row with only the columns every insert sets.\<close>

definition new_credential :: "string \<Rightarrow> string \<Rightarrow> credential_mode \<Rightarrow> string \<Rightarrow> int option \<Rightarrow> worker_credential" where
  "new_credential i w mode label expires = \<lparr> wcId = i, wcWorkerId = w, wcMode = mode, wcSecretHash = None,
     wcSecretPrefix = None, wcCertSerial = None, wcCertFingerprint = None, wcCertPem = None,
     wcEntraObjectId = None, wcEntraTenantId = None, wcLabel = label, wcCreatedBy = None,
     wcExpiresAt = expires, wcRevokedAt = None, wcRevokedReason = None, wcLastUsedAt = None \<rparr>"

text \<open>An insert that meets the two unique indexes of the table; \<^term>\<open>None\<close> is the database's refusal.\<close>

definition insert_credential :: "worker_credential \<Rightarrow> identity_state \<Rightarrow> identity_state option" where
  "insert_credential c st =
     (if (\<exists>d \<in> set (credentials st). (wcCertSerial c \<noteq> None \<and> wcCertSerial d = wcCertSerial c) \<or>
            (wcEntraObjectId c \<noteq> None \<and> wcEntraObjectId d = wcEntraObjectId c))
      then None else Some (st\<lparr>credentials := credentials st @ [c]\<rparr>))"

section \<open>Enrolment\<close>

definition createEnrolmentToken ::
  "identity_env \<Rightarrow> string \<Rightarrow> string \<Rightarrow> string \<Rightarrow> credential_mode \<Rightarrow> string list \<Rightarrow> string option \<Rightarrow> int \<Rightarrow> int
     \<Rightarrow> identity_state \<Rightarrow> (string \<times> int) option \<times> identity_state" where
  "createEnrolmentToken env newId secret host mode caps who ttlMinutes now st =
     (let token = ''rsen_'' @ secret; expires = now + ttlMinutes * 60 * 1000 in
      if (\<exists>t \<in> set (enrolTokens st). etTokenHash t = hashToken env token) then (None, st)
      else (Some (token, expires),
            st\<lparr>enrolTokens := enrolTokens st @ [\<lparr> etId = newId, etTokenHash = hashToken env token,
               etHostName = host, etMode = mode, etCapabilities = caps, etCreatedBy = who,
               etExpiresAt = expires, etUsedAt = None, etUsedByWorkerId = None \<rparr>]\<rparr>))"

datatype enrol_failure = EnrolmentError string string | DatabaseRefused | CsrRefused

record enrol_request =
  erToken :: string
  erHostName :: string
  erWorkerVersion :: string
  erCsrPem :: "string option"
  erEntraObjectId :: "string option"
  erEntraTenantId :: "string option"

record enrol_result =
  resWorkerId :: string
  resMode :: credential_mode
  resWorkerKey :: "string option"
  resCertificatePem :: "string option"
  resCaCertificatePem :: "string option"
  resNotAfter :: "int option"

record enrol_draws =
  newWorkerId :: string
  newCredentialId :: string
  newSecret :: string
  redeemedAt :: int
  issuedCredentialAt :: int

definition upsert_worker :: "string \<Rightarrow> string \<Rightarrow> string \<Rightarrow> string list \<Rightarrow> enrolled_worker list \<Rightarrow> string \<times> enrolled_worker list" where
  "upsert_worker newId host version caps ws =
     (case find (\<lambda>w. ewHostName w = host) ws of
        None \<Rightarrow> (newId, ws @ [\<lparr> ewId = newId, ewHostName = host, ewVersion = Some version,
                  ewCapabilities = caps, ewCertSerial = None, ewCertExpiresAt = None \<rparr>])
      | Some w \<Rightarrow> (ewId w, map (\<lambda>w. if ewHostName w = host
                  then w\<lparr>ewVersion := Some version, ewCapabilities := caps\<rparr> else w) ws))"

text \<open>The transaction: check the token, register the worker, mark the token used.\<close>

definition consume_token ::
  "identity_env \<Rightarrow> identity_config \<Rightarrow> enrol_request \<Rightarrow> enrol_draws \<Rightarrow> identity_state
     \<Rightarrow> (enrol_failure + string \<times> credential_mode) \<times> identity_state" where
  "consume_token env cfg req d st =
     (case find (\<lambda>t. etTokenHash t = hashToken env (erToken req) \<and> etUsedAt t = None) (enrolTokens st) of
        None \<Rightarrow> (Inl (EnrolmentError ''InvalidToken'' ''That enrolment token is unknown or already used.''), st)
      | Some t \<Rightarrow>
          if etExpiresAt t < redeemedAt d
          then (Inl (EnrolmentError ''TokenExpired'' ''That enrolment token has expired. Generate a new one.''), st)
          else if to_lower (etHostName t) \<noteq> to_lower (erHostName req)
          then (Inl (EnrolmentError ''HostMismatch'' (''This token was issued for '' @ etHostName t @
                  '', but enrolment came from '' @ erHostName req @ ''.'')), st)
          else if etMode t \<notin> set (enabledModes cfg)
          then (Inl (EnrolmentError ''ModeDisabled'' (''Worker auth mode '' @ CHR 0x22 # mode_name (etMode t) @
                  CHR 0x22 # '' is not enabled on this control plane.'')), st)
          else (let (w, ws) = upsert_worker (newWorkerId d) (erHostName req) (erWorkerVersion req)
                      (etCapabilities t) (enrolledWorkers st)
                in (Inr (w, etMode t), st\<lparr>enrolledWorkers := ws,
                      enrolTokens := map (\<lambda>x. if etId x = etId t then x\<lparr>etUsedAt := Some (redeemedAt d),
                         etUsedByWorkerId := Some w\<rparr> else x) (enrolTokens st)\<rparr>)))"

definition key_expiry :: "identity_config \<Rightarrow> int \<Rightarrow> int option" where
  "key_expiry cfg now = (case tokenTtlDays cfg of None \<Rightarrow> None
     | Some days \<Rightarrow> if days = 0 then None else Some (now + days * 24 * 60 * 60 * 1000))"

text \<open>\<open>generateWorkerKey\<close> on the random secret, and \<open>workerKeyPrefix\<close>.\<close>

definition generateWorkerKey :: "string \<Rightarrow> string \<times> string" where
  "generateWorkerKey secret = (''rsak_'' @ secret, take 8 secret)"

definition workerKeyPrefix :: "string \<Rightarrow> string" where
  "workerKeyPrefix key = take 8 (if take 5 key = ''rsak_'' then drop 5 key else key)"

definition store_certificate ::
  "string \<Rightarrow> string \<Rightarrow> string \<Rightarrow> issued_certificate \<Rightarrow> identity_state \<Rightarrow> identity_state option" where
  "store_certificate newId w label ic st =
     insert_credential ((new_credential newId w MtlsMode label (Some (icNotAfter ic)))
        \<lparr>wcCertSerial := Some (icSerial ic), wcCertFingerprint := Some (icFingerprint ic),
         wcCertPem := Some (icPem ic)\<rparr>) st"

definition current_certificate :: "string \<Rightarrow> issued_certificate \<Rightarrow> identity_state \<Rightarrow> identity_state" where
  "current_certificate w ic st =
     st\<lparr>enrolledWorkers := map (\<lambda>x. if ewId x = w
        then x\<lparr>ewCertSerial := Some (icSerial ic), ewCertExpiresAt := Some (icNotAfter ic)\<rparr> else x)
        (enrolledWorkers st)\<rparr>"

text \<open>After the transaction: the credential itself.\<close>

definition issue_credential ::
  "identity_env \<Rightarrow> identity_config \<Rightarrow> enrol_request \<Rightarrow> enrol_draws \<Rightarrow> string \<Rightarrow> credential_mode \<Rightarrow> identity_state
     \<Rightarrow> (enrol_failure + enrol_result) \<times> identity_state" where
  "issue_credential env cfg req d w mode st =
     (case mode of
        TokenMode \<Rightarrow>
          (let (key, prefix) = generateWorkerKey (newSecret d); expires = key_expiry cfg (issuedCredentialAt d) in
           case insert_credential ((new_credential (newCredentialId d) w TokenMode ''Issued at enrolment'' expires)
                  \<lparr>wcSecretHash := Some (hashWorkerKey env key), wcSecretPrefix := Some prefix\<rparr>) st of
             None \<Rightarrow> (Inl DatabaseRefused, st)
           | Some st \<Rightarrow> (Inr \<lparr> resWorkerId = w, resMode = TokenMode, resWorkerKey = Some key,
                 resCertificatePem = None, resCaCertificatePem = None, resNotAfter = expires \<rparr>, st))
      | MtlsMode \<Rightarrow>
          (if \<not> presented (erCsrPem req)
           then (Inl (EnrolmentError ''CsrRequired'' ''mTLS enrolment requires a certificate signing request.''), st)
           else
               (let csr = the (erCsrPem req); host = (case find (\<lambda>x. ewId x = w) (enrolledWorkers st) of
                      None \<Rightarrow> erHostName req | Some x \<Rightarrow> ewHostName x) in
                case issueClientCertificate env csr w host (certValidityDays cfg) of
                  None \<Rightarrow> (Inl CsrRefused, st)
                | Some ic \<Rightarrow>
                    (case store_certificate (newCredentialId d) w ''Issued at enrolment'' ic st of
                       None \<Rightarrow> (Inl DatabaseRefused, st)
                     | Some st \<Rightarrow> (Inr \<lparr> resWorkerId = w, resMode = MtlsMode, resWorkerKey = None,
                           resCertificatePem = Some (icPem ic), resCaCertificatePem = Some (caCertificatePem env),
                           resNotAfter = Some (icNotAfter ic) \<rparr>, current_certificate w ic st))))
      | EntraMode \<Rightarrow>
          (if \<not> presented (erEntraObjectId req)
           then (Inl (EnrolmentError ''IdentityRequired''
                 ''Entra enrolment requires a validated workload identity token.''), st)
           else
               (case insert_credential ((new_credential (newCredentialId d) w EntraMode
                      ''Managed identity pinned at enrolment'' None)
                      \<lparr>wcEntraObjectId := erEntraObjectId req, wcEntraTenantId := erEntraTenantId req\<rparr>) st of
                  None \<Rightarrow> (Inl DatabaseRefused, st)
                | Some st \<Rightarrow> (Inr \<lparr> resWorkerId = w, resMode = EntraMode, resWorkerKey = None,
                      resCertificatePem = None, resCaCertificatePem = None, resNotAfter = None \<rparr>, st))))"

definition redeemEnrolmentToken ::
  "identity_env \<Rightarrow> identity_config \<Rightarrow> enrol_request \<Rightarrow> enrol_draws \<Rightarrow> identity_state
     \<Rightarrow> (enrol_failure + enrol_result) \<times> identity_state" where
  "redeemEnrolmentToken env cfg req d st =
     (case consume_token env cfg req d st of
        (Inl e, st) \<Rightarrow> (Inl e, st)
      | (Inr (w, mode), st) \<Rightarrow> issue_credential env cfg req d w mode st)"

definition rotateWorkerKey ::
  "identity_env \<Rightarrow> identity_config \<Rightarrow> string \<Rightarrow> string \<Rightarrow> string \<Rightarrow> string option \<Rightarrow> int \<Rightarrow> identity_state
     \<Rightarrow> string option \<times> identity_state" where
  "rotateWorkerKey env cfg newId secret w who now st =
     (let (key, prefix) = generateWorkerKey secret in
      case insert_credential ((new_credential newId w TokenMode ''Rotated'' (key_expiry cfg now))
             \<lparr>wcSecretHash := Some (hashWorkerKey env key), wcSecretPrefix := Some prefix, wcCreatedBy := who\<rparr>) st of
        None \<Rightarrow> (None, st)
      | Some st \<Rightarrow> (Some key, st))"

definition revokeCredential :: "string \<Rightarrow> string \<Rightarrow> int \<Rightarrow> identity_state \<Rightarrow> identity_state" where
  "revokeCredential i reason now st =
     st\<lparr>credentials := map (\<lambda>c. if wcId c = i
        then c\<lparr>wcRevokedAt := Some now, wcRevokedReason := Some reason\<rparr> else c) (credentials st)\<rparr>"

definition listCredentials :: "string \<Rightarrow> identity_state \<Rightarrow> worker_credential list" where
  "listCredentials w st = map (\<lambda>c. c\<lparr>wcSecretHash := None, wcCertFingerprint := None, wcCertPem := None\<rparr>)
     (filter (\<lambda>c. wcWorkerId c = w) (credentials st))"

section \<open>Authentication of a session\<close>

datatype worker_auth_error = WorkerAuthError string

record authenticated_worker =
  awWorkerId :: string
  awHostName :: string
  awCredentialId :: string
  awMode :: credential_mode

text \<open>What the call carries: the peer certificate, the \<open>authorization\<close> header and the key header.\<close>

record worker_call =
  peerCertificate :: "string option"
  authorizationHeader :: "string option"
  workerKeyHeader :: "string option"

definition expired :: "int option \<Rightarrow> int \<Rightarrow> bool" where
  "expired e now \<longleftrightarrow> (case e of None \<Rightarrow> False | Some t \<Rightarrow> t < now)"

text \<open>\<open>bearer.replace(/^Bearer\s+/iu, '')\<close>.\<close>

definition strip_bearer :: "string \<Rightarrow> string" where
  "strip_bearer s =
     (if to_lower (take 6 s) = ''bearer'' \<and> takeWhile is_space (drop 6 s) \<noteq> []
      then dropWhile is_space (drop 6 s) else s)"

definition touch_credential :: "string \<Rightarrow> int \<Rightarrow> identity_state \<Rightarrow> identity_state" where
  "touch_credential i now st =
     st\<lparr>credentials := map (\<lambda>c. if wcId c = i then c\<lparr>wcLastUsedAt := Some now\<rparr> else c) (credentials st)\<rparr>"

text \<open>The inner join with \<open>workers\<close>.\<close>

definition with_worker :: "identity_state \<Rightarrow> worker_credential list \<Rightarrow> (worker_credential \<times> enrolled_worker) list" where
  "with_worker st cs =
     List.map_filter (\<lambda>c. map_option (Pair c) (find (\<lambda>w. ewId w = wcWorkerId c) (enrolledWorkers st))) cs"

definition accept_credential ::
  "credential_mode \<Rightarrow> int \<Rightarrow> worker_credential \<times> enrolled_worker \<Rightarrow> identity_state
     \<Rightarrow> (worker_auth_error + authenticated_worker) \<times> identity_state" where
  "accept_credential mode now cw st =
     (Inr \<lparr> awWorkerId = wcWorkerId (fst cw), awHostName = ewHostName (snd cw), awCredentialId = wcId (fst cw),
        awMode = mode \<rparr>, touch_credential (wcId (fst cw)) now st)"

definition authenticateToken ::
  "identity_env \<Rightarrow> string \<Rightarrow> int \<Rightarrow> identity_state \<Rightarrow> (worker_auth_error + authenticated_worker) \<times> identity_state" where
  "authenticateToken env key now st =
     (case find (\<lambda>(c, w). (case wcSecretHash c of None \<Rightarrow> False | Some h \<Rightarrow> h \<noteq> [] \<and> verifyWorkerKey env h key))
             (with_worker st (filter (\<lambda>c. wcMode c = TokenMode \<and> wcSecretPrefix c = Some (workerKeyPrefix key) \<and>
                wcRevokedAt c = None) (credentials st))) of
        None \<Rightarrow> (Inl (WorkerAuthError ''InvalidCredential''), st)
      | Some cw \<Rightarrow> if expired (wcExpiresAt (fst cw)) now then (Inl (WorkerAuthError ''CredentialExpired''), st)
                  else accept_credential TokenMode now cw st)"

definition authenticateMtls ::
  "identity_env \<Rightarrow> string \<Rightarrow> int \<Rightarrow> identity_state \<Rightarrow> (worker_auth_error + authenticated_worker) \<times> identity_state" where
  "authenticateMtls env pem now st =
     (case fingerprintOf env pem of
        None \<Rightarrow> (Inl (WorkerAuthError ''AuthFailed''), st)
      | Some fp \<Rightarrow>
          (case with_worker st (filter (\<lambda>c. wcMode c = MtlsMode \<and> wcCertFingerprint c = Some fp) (credentials st)) of
             [] \<Rightarrow> (Inl (WorkerAuthError ''InvalidCredential''), st)
           | cw # _ \<Rightarrow>
               if wcRevokedAt (fst cw) \<noteq> None then (Inl (WorkerAuthError ''CredentialRevoked''), st)
               else if expired (wcExpiresAt (fst cw)) now then (Inl (WorkerAuthError ''CredentialExpired''), st)
               else accept_credential MtlsMode now cw st))"

definition authenticateEntra ::
  "identity_env \<Rightarrow> string \<Rightarrow> int \<Rightarrow> identity_state \<Rightarrow> (worker_auth_error + authenticated_worker) \<times> identity_state" where
  "authenticateEntra env token now st =
     (case validateEntra env token of
        None \<Rightarrow> (Inl (WorkerAuthError ''InvalidCredential''), st)
      | Some (oid, tenant) \<Rightarrow>
          (case with_worker st (filter (\<lambda>c. wcMode c = EntraMode \<and> wcEntraObjectId c = Some oid) (credentials st)) of
             [] \<Rightarrow> (Inl (WorkerAuthError ''InvalidCredential''), st)
           | cw # _ \<Rightarrow>
               if wcRevokedAt (fst cw) \<noteq> None then (Inl (WorkerAuthError ''CredentialRevoked''), st)
               else accept_credential EntraMode now cw st))"

definition authenticate_worker ::
  "identity_env \<Rightarrow> identity_config \<Rightarrow> worker_call \<Rightarrow> int \<Rightarrow> identity_state
     \<Rightarrow> (worker_auth_error + authenticated_worker) \<times> identity_state" where
  "authenticate_worker env cfg call now st =
     (if MtlsMode \<in> set (enabledModes cfg) \<and> presented (peerCertificate call)
      then authenticateMtls env (the (peerCertificate call)) now st
      else if EntraMode \<in> set (enabledModes cfg) \<and> presented (authorizationHeader call)
      then authenticateEntra env (strip_bearer (the (authorizationHeader call))) now st
      else if TokenMode \<in> set (enabledModes cfg) \<and> presented (workerKeyHeader call)
      then authenticateToken env (the (workerKeyHeader call)) now st
      else (Inl (WorkerAuthError ''NoCredential''), st))"

section \<open>Certificate renewal\<close>

datatype renewal_error = RenewalError string | RenewalRefused

definition renewWorkerCertificate ::
  "identity_env \<Rightarrow> identity_config \<Rightarrow> string \<Rightarrow> string \<Rightarrow> string \<Rightarrow> string \<Rightarrow> string \<Rightarrow> int \<Rightarrow> identity_state
     \<Rightarrow> (renewal_error + issued_certificate \<times> nat) \<times> identity_state" where
  "renewWorkerCertificate env cfg newId w host current csr now st =
     (if MtlsMode \<notin> set (enabledModes cfg) then (Inl (RenewalError ''ModeDisabled''), st)
      else if csr = [] then (Inl (RenewalError ''CsrRequired''), st)
      else case issueClientCertificate env csr w host (certValidityDays cfg) of
             None \<Rightarrow> (Inl (RenewalError ''InvalidCsr''), st)
           | Some ic \<Rightarrow>
               (case store_certificate newId w ''Renewed'' ic st of
                  None \<Rightarrow> (Inl RenewalRefused, st)
                | Some st' \<Rightarrow>
                    (let old = (\<lambda>c. wcWorkerId c = w \<and> wcMode c = MtlsMode \<and> wcRevokedAt c = None \<and>
                           wcId c \<noteq> newId \<and> wcId c \<noteq> current)
                     in (Inr (ic, length (filter old (credentials st'))),
                         current_certificate w ic (st'\<lparr>credentials := map (\<lambda>c. if old c
                           then c\<lparr>wcRevokedAt := Some now, wcRevokedReason := Some ''Superseded by certificate renewal''\<rparr>
                           else c) (credentials st')\<rparr>)))))"

section \<open>Posture\<close>

definition countLiveCredentials :: "int \<Rightarrow> identity_state \<Rightarrow> credential_mode \<Rightarrow> nat" where
  "countLiveCredentials now st mode = length (filter (\<lambda>c. wcMode c = mode \<and> wcRevokedAt c = None \<and>
     (case wcExpiresAt c of None \<Rightarrow> True | Some t \<Rightarrow> t > now)) (credentials st))"

text \<open>\<open>hostname\<close> is the host of the public URL, \<^term>\<open>None\<close> when it does not parse.\<close>

definition looksLikeRealDeployment :: "bool \<Rightarrow> string option \<Rightarrow> bool" where
  "looksLikeRealDeployment requireTls hostname \<longleftrightarrow>
     requireTls \<and> (case hostname of None \<Rightarrow> True
       | Some h \<Rightarrow> to_lower h \<notin> {''localhost'', ''127.0.0.1'', ''::1'', ''[::1]''})"

datatype posture_finding = TokenWorkers nat | TokenModeUnused

definition reviewAuthPosture ::
  "bool \<Rightarrow> string option \<Rightarrow> credential_mode list \<Rightarrow> (credential_mode \<Rightarrow> nat) \<Rightarrow> posture_finding list" where
  "reviewAuthPosture requireTls hostname modes live =
     (if \<not> looksLikeRealDeployment requireTls hostname then []
      else (if live TokenMode > 0 then [TokenWorkers (live TokenMode)] else []) @
           (if live TokenMode = 0 \<and> TokenMode \<in> set modes then [TokenModeUnused] else []))"

section \<open>A token enrols once\<close>

datatype identity_op =
    CreateToken string string string credential_mode "string list" "string option" int int
  | Redeem enrol_request enrol_draws
  | Rotate string string string "string option" int
  | Revoke string string int
  | Renew string string string string string int
  | Authenticate worker_call int

fun identity_step :: "identity_env \<Rightarrow> identity_config \<Rightarrow> identity_op \<Rightarrow> identity_state \<Rightarrow> identity_state" where
  "identity_step env cfg (CreateToken i secret host mode caps who ttl now) st =
     snd (createEnrolmentToken env i secret host mode caps who ttl now st)"
| "identity_step env cfg (Redeem req d) st = snd (redeemEnrolmentToken env cfg req d st)"
| "identity_step env cfg (Rotate i secret w who now) st = snd (rotateWorkerKey env cfg i secret w who now st)"
| "identity_step env cfg (Revoke i reason now) st = revokeCredential i reason now st"
| "identity_step env cfg (Renew i w host current csr now) st =
     snd (renewWorkerCertificate env cfg i w host current csr now st)"
| "identity_step env cfg (Authenticate call now) st = snd (authenticate_worker env cfg call now st)"

text \<open>How often the token with a given hash lets its bearer past the transaction.\<close>

definition consumes :: "identity_env \<Rightarrow> identity_config \<Rightarrow> string \<Rightarrow> identity_op \<Rightarrow> identity_state \<Rightarrow> bool" where
  "consumes env cfg h op st \<longleftrightarrow> (case op of
     Redeem req d \<Rightarrow> hashToken env (erToken req) = h \<and> (\<exists>r. fst (consume_token env cfg req d st) = Inr r)
   | _ \<Rightarrow> False)"

fun consumptions :: "identity_env \<Rightarrow> identity_config \<Rightarrow> string \<Rightarrow> identity_op list \<Rightarrow> identity_state \<Rightarrow> nat" where
  "consumptions env cfg h [] st = 0"
| "consumptions env cfg h (op # ops) st =
     (if consumes env cfg h op st then 1 else 0) + consumptions env cfg h ops (identity_step env cfg op st)"

definition no_identities :: identity_state where
  "no_identities = \<lparr> enrolTokens = [], credentials = [], enrolledWorkers = [] \<rparr>"

definition mark_used :: "enrol_token \<Rightarrow> int \<Rightarrow> string \<Rightarrow> enrol_token \<Rightarrow> enrol_token" where
  "mark_used t at w x =
     (if etId x = etId t then x\<lparr>etUsedAt := Some at, etUsedByWorkerId := Some w\<rparr> else x)"

lemma mark_used_simps [simp]:
  "etTokenHash (mark_used t at w x) = etTokenHash x" "etId (mark_used t at w x) = etId x"
  "etUsedAt (mark_used t at w x) = (if etId x = etId t then Some at else etUsedAt x)"
  by (simp_all add: mark_used_def)

text \<open>Only creation and redemption touch the tokens.\<close>

lemma insert_credential_keeps: "insert_credential c st = Some st' \<Longrightarrow> enrolTokens st' = enrolTokens st \<and>
    enrolledWorkers st' = enrolledWorkers st \<and> credentials st' = credentials st @ [c]"
  by (auto simp: insert_credential_def split: if_splits)

lemma issue_credential_tokens [simp]:
  "enrolTokens (snd (issue_credential env cfg req d w mode st)) = enrolTokens st"
  by (auto simp: issue_credential_def store_certificate_def current_certificate_def generateWorkerKey_def
      Let_def dest: insert_credential_keeps split: credential_mode.splits option.splits)

lemma rotate_tokens [simp]: "enrolTokens (snd (rotateWorkerKey env cfg i secret w who now st)) = enrolTokens st"
  by (auto simp: rotateWorkerKey_def generateWorkerKey_def dest: insert_credential_keeps split: option.splits)

lemma renew_tokens [simp]:
  "enrolTokens (snd (renewWorkerCertificate env cfg i w host current csr now st)) = enrolTokens st"
  by (auto simp: renewWorkerCertificate_def store_certificate_def current_certificate_def Let_def
      dest: insert_credential_keeps split: option.splits)

lemma authenticate_result:
  assumes "authenticate_worker env cfg call now st = (r, st')"
  shows "st' = st \<or> (\<exists>i. st' = touch_credential i now st)"
  using assms
  by (auto simp: authenticate_worker_def authenticateToken_def authenticateMtls_def authenticateEntra_def
      accept_credential_def split: if_splits option.splits list.splits)

lemma authenticate_tokens [simp]: "enrolTokens (snd (authenticate_worker env cfg call now st)) = enrolTokens st"
  using authenticate_result [of env cfg call now st "fst (authenticate_worker env cfg call now st)"
      "snd (authenticate_worker env cfg call now st)"]
  by (auto simp: touch_credential_def)

lemma consume_cases:
  assumes "consume_token env cfg req d st = (r, st')"
  obtains (refused) e where "r = Inl e" and "st' = st"
  | (used) t w ws where "r = Inr (w, etMode t)"
      and "find (\<lambda>t. etTokenHash t = hashToken env (erToken req) \<and> etUsedAt t = None) (enrolTokens st) = Some t"
      and "\<not> etExpiresAt t < redeemedAt d" and "to_lower (etHostName t) = to_lower (erHostName req)"
      and "etMode t \<in> set (enabledModes cfg)"
      and "upsert_worker (newWorkerId d) (erHostName req) (erWorkerVersion req) (etCapabilities t)
             (enrolledWorkers st) = (w, ws)"
      and "st' = st\<lparr>enrolledWorkers := ws, enrolTokens := map (mark_used t (redeemedAt d) w) (enrolTokens st)\<rparr>"
proof (cases "find (\<lambda>t. etTokenHash t = hashToken env (erToken req) \<and> etUsedAt t = None) (enrolTokens st)")
  case None
  then show ?thesis using assms by (intro refused) (auto simp: consume_token_def)
next
  case t: (Some t)
  show ?thesis
  proof (cases "\<not> etExpiresAt t < redeemedAt d \<and> to_lower (etHostName t) = to_lower (erHostName req) \<and>
      etMode t \<in> set (enabledModes cfg)")
    case False
    then show ?thesis using assms t by (intro refused [of "projl r"]) (auto simp: consume_token_def split: if_splits)
  next
    case True
    obtain w ws where u: "upsert_worker (newWorkerId d) (erHostName req) (erWorkerVersion req)
        (etCapabilities t) (enrolledWorkers st) = (w, ws)" by fastforce
    show ?thesis
      using assms True by (intro used [OF _ t _ _ _ u]) (simp_all add: consume_token_def t u mark_used_def [abs_def])
  qed
qed

lemma upsert_worker_row:
  assumes "upsert_worker newId host version caps ws = (w, ws')"
  shows "\<exists>x \<in> set ws'. ewId x = w \<and> ewHostName x = host \<and> ewCapabilities x = caps"
proof (cases "find (\<lambda>w. ewHostName w = host) ws")
  case None
  with assms show ?thesis by (auto simp: upsert_worker_def)
next
  case (Some x)
  from find_SomeD [OF Some] have "x\<lparr>ewVersion := Some version, ewCapabilities := caps\<rparr> \<in> set ws'"
    using assms Some by (auto simp: upsert_worker_def image_iff intro!: bexI [of _ x])
  with find_SomeD [OF Some] assms Some show ?thesis
    by (intro bexI [of _ "x\<lparr>ewVersion := Some version, ewCapabilities := caps\<rparr>"]) (auto simp: upsert_worker_def)
qed

definition spent :: "string \<Rightarrow> identity_state \<Rightarrow> bool" where
  "spent h st \<longleftrightarrow> h \<in> etTokenHash ` set (enrolTokens st) \<and>
     (\<forall>t \<in> set (enrolTokens st). etTokenHash t = h \<longrightarrow> etUsedAt t \<noteq> None)"

definition tokens_distinct :: "identity_state \<Rightarrow> bool" where
  "tokens_distinct st \<longleftrightarrow> distinct (map etTokenHash (enrolTokens st))"

lemma redeem_tokens:
  "enrolTokens (snd (redeemEnrolmentToken env cfg req d st)) = enrolTokens (snd (consume_token env cfg req d st))"
  by (auto simp: redeemEnrolmentToken_def split: prod.splits sum.splits)

lemma create_tokens:
  "enrolTokens (snd (createEnrolmentToken env i secret host mode caps who ttl now st)) = enrolTokens st \<or>
   (\<exists>t. enrolTokens (snd (createEnrolmentToken env i secret host mode caps who ttl now st)) = enrolTokens st @ [t] \<and>
      etTokenHash t \<notin> etTokenHash ` set (enrolTokens st))"
  by (auto simp: createEnrolmentToken_def Let_def)

lemma identity_step_distinct:
  assumes "tokens_distinct st"
  shows "tokens_distinct (identity_step env cfg op st)"
proof (cases op)
  case (CreateToken i secret host mode caps who ttl now)
  with assms create_tokens [of env i secret host mode caps who ttl now st] show ?thesis
    by (auto simp: tokens_distinct_def)
next
  case (Redeem req d)
  obtain r st' where c: "consume_token env cfg req d st = (r, st')" by fastforce
  then show ?thesis
    by (cases rule: consume_cases)
      (use assms in \<open>simp_all add: Redeem redeem_tokens tokens_distinct_def c comp_def\<close>)
qed (use assms in \<open>simp_all add: tokens_distinct_def revokeCredential_def\<close>)

lemma spent_step:
  assumes "spent h st"
  shows "spent h (identity_step env cfg op st) \<and> \<not> consumes env cfg h op st"
proof (cases op)
  case (CreateToken i secret host mode caps who ttl now)
  with assms create_tokens [of env i secret host mode caps who ttl now st] show ?thesis
    by (auto simp: spent_def consumes_def)
next
  case (Redeem req d)
  obtain r st' where c: "consume_token env cfg req d st = (r, st')" by fastforce
  then show ?thesis
  proof (cases rule: consume_cases)
    case (refused e)
    with assms show ?thesis by (simp add: Redeem redeem_tokens c spent_def consumes_def)
  next
    case (used t w ws)
    from find_SomeD [OF used(2)] assms have "hashToken env (erToken req) \<noteq> h" by (auto simp: spent_def)
    moreover have "spent h st'"
      using assms by (auto simp: used(7) spent_def image_image)
    ultimately show ?thesis by (simp add: Redeem redeem_tokens c spent_def consumes_def)
  qed
qed (use assms in \<open>simp_all add: spent_def consumes_def revokeCredential_def\<close>)

lemma consumes_spends:
  assumes "tokens_distinct st" and "consumes env cfg h op st"
  shows "spent h (identity_step env cfg op st)"
proof -
  obtain req d where op: "op = Redeem req d" and h: "hashToken env (erToken req) = h"
    and "\<exists>r. fst (consume_token env cfg req d st) = Inr r"
    using assms(2) by (auto simp: consumes_def split: identity_op.splits)
  then obtain r st' where c: "consume_token env cfg req d st = (Inr r, st')" by (metis prod.collapse)
  then show ?thesis
  proof (cases rule: consume_cases)
    case (used t w ws)
    note t = find_SomeD [OF used(2), unfolded h]
    have "u = t" if "u \<in> set (enrolTokens st)" "etTokenHash u = h" for u
      using assms(1) t that by (auto simp: tokens_distinct_def distinct_map dest: inj_onD)
    then have "spent h st'" using t by (auto simp: used(7) spent_def image_image)
    then show ?thesis by (simp add: op redeem_tokens c spent_def)
  qed simp
qed

lemma spent_consumptions: "spent h st \<Longrightarrow> consumptions env cfg h ops st = 0"
  by (induction ops arbitrary: st) (simp_all add: spent_step)

lemma consumptions_once: "tokens_distinct st \<Longrightarrow> consumptions env cfg h ops st \<le> 1"
proof (induction ops arbitrary: st)
  case Nil
  then show ?case by simp
next
  case (Cons op ops)
  show ?case
  proof (cases "consumes env cfg h op st")
    case True
    with consumes_spends [OF Cons.prems True] show ?thesis by (simp add: spent_consumptions)
  next
    case False
    with Cons show ?thesis by (simp add: identity_step_distinct)
  qed
qed

text \<open>
  C16. Over any run of the operations an enrolment token registers a worker at most once, and only
  for the host it was issued for (up to case), before it expires and in an enabled mode; a
  redemption that is refused before that point changes nothing.
\<close>

theorem enrolment_single_use:
  "consumptions env cfg h ops no_identities \<le> 1 \<and>
   (case consume_token env cfg req d st of
      (Inl e, st') \<Rightarrow> st' = st
    | (Inr (w, mode), st') \<Rightarrow> mode \<in> set (enabledModes cfg) \<and>
        (\<exists>t \<in> set (enrolTokens st). etTokenHash t = hashToken env (erToken req) \<and> etUsedAt t = None \<and>
           redeemedAt d \<le> etExpiresAt t \<and> to_lower (etHostName t) = to_lower (erHostName req) \<and> mode = etMode t \<and>
           (\<exists>x \<in> set (enrolledWorkers st'). ewId x = w \<and> ewHostName x = erHostName req \<and>
              ewCapabilities x = etCapabilities t)))"
proof -
  have once: "consumptions env cfg h ops no_identities \<le> 1"
    by (rule consumptions_once) (simp add: tokens_distinct_def no_identities_def)
  obtain r st' where c: "consume_token env cfg req d st = (r, st')" by fastforce
  then show ?thesis
  proof (cases rule: consume_cases)
    case (refused e)
    with once c show ?thesis by simp
  next
    case (used t w ws)
    note t = find_SomeD [OF used(2)]
    have "\<exists>x \<in> set ws. ewId x = w \<and> ewHostName x = erHostName req \<and> ewCapabilities x = etCapabilities t"
      using used(6) by (rule upsert_worker_row)
    with once c used t show ?thesis by (auto intro!: bexI [of _ t])
  qed
qed

text \<open>
  The transaction commits before the credential exists: a request without a signing request, or for
  a managed identity, consumes the token and leaves the worker with nothing. The hub never passes an
  object id, so that is the outcome of every Entra enrolment.
\<close>

lemma entra_enrolment_burns_token:
  assumes "erEntraObjectId req = None" and "consume_token env cfg req d st = (Inr (w, EntraMode), st')"
  shows "fst (redeemEnrolmentToken env cfg req d st) =
      Inl (EnrolmentError ''IdentityRequired'' ''Entra enrolment requires a validated workload identity token.'')
    \<and> snd (redeemEnrolmentToken env cfg req d st) = st' \<and> st' \<noteq> st"
proof -
  have "st' \<noteq> st"
    using assms(2)
  proof (cases rule: consume_cases)
    case (used t w' ws)
    from find_SomeD [OF used(2)] have t: "t \<in> set (enrolTokens st)" and "etUsedAt t = None" by auto
    then have "mark_used t (redeemedAt d) w' t \<noteq> t" by (metis mark_used_simps(3) option.distinct(1))
    with t have "map (mark_used t (redeemedAt d) w') (enrolTokens st) \<noteq> enrolTokens st"
      using map_eq_conv [of "mark_used t (redeemedAt d) w'" "enrolTokens st" "\<lambda>x. x"] by auto
    then have "enrolTokens st' \<noteq> enrolTokens st" by (simp add: used(7))
    then show ?thesis by auto
  qed simp
  with assms show ?thesis by (simp add: redeemEnrolmentToken_def issue_credential_def presented_def)
qed

section \<open>Only a live credential opens a session\<close>

definition proves :: "identity_env \<Rightarrow> worker_call \<Rightarrow> worker_credential \<Rightarrow> bool" where
  "proves env call c \<longleftrightarrow> (case wcMode c of
     TokenMode \<Rightarrow> (\<exists>h key. wcSecretHash c = Some h \<and> workerKeyHeader call = Some key \<and> verifyWorkerKey env h key)
   | MtlsMode \<Rightarrow> (\<exists>pem. peerCertificate call = Some pem \<and> wcCertFingerprint c \<noteq> None \<and>
       fingerprintOf env pem = wcCertFingerprint c)
   | EntraMode \<Rightarrow> (\<exists>hd oid tenant. authorizationHeader call = Some hd \<and>
       validateEntra env (strip_bearer hd) = Some (oid, tenant) \<and> wcEntraObjectId c = Some oid))"

lemma with_workerD:
  "(c, w) \<in> set (with_worker st cs) \<Longrightarrow> c \<in> set cs \<and> w \<in> set (enrolledWorkers st) \<and> ewId w = wcWorkerId c"
  by (auto simp: with_worker_def map_filter_def dest: find_SomeD split: option.splits)

lemma with_worker_head:
  assumes "with_worker st (filter P (credentials st)) = cw # rest"
  shows "fst cw \<in> set (credentials st) \<and> P (fst cw) \<and> snd cw \<in> set (enrolledWorkers st) \<and>
     ewId (snd cw) = wcWorkerId (fst cw)"
  using with_workerD [of "fst cw" "snd cw" st "filter P (credentials st)"] assms by simp

text \<open>
  C17. Whoever is let in holds a credential of the table, in a mode this control plane has enabled,
  not revoked, not expired where its mode has an expiry, and has proved it: the key verifies, the
  certificate's fingerprint is the stored one, or the validated token names the pinned identity. The
  identity of the session is the credential's, not the caller's; and a caller who presents a
  certificate is judged by it alone.
\<close>

theorem authenticate_sound:
  assumes "authenticate_worker env cfg call now st = (Inr a, st')"
  shows "\<exists>c \<in> set (credentials st). \<exists>w \<in> set (enrolledWorkers st).
      a = \<lparr> awWorkerId = wcWorkerId c, awHostName = ewHostName w, awCredentialId = wcId c, awMode = wcMode c \<rparr> \<and>
      ewId w = wcWorkerId c \<and> wcMode c \<in> set (enabledModes cfg) \<and> wcRevokedAt c = None \<and>
      (wcMode c \<noteq> EntraMode \<longrightarrow> \<not> expired (wcExpiresAt c) now) \<and> proves env call c \<and>
      (MtlsMode \<in> set (enabledModes cfg) \<and> presented (peerCertificate call) \<longrightarrow> wcMode c = MtlsMode) \<and>
      st' = touch_credential (wcId c) now st"
proof -
  consider (mtls) "MtlsMode \<in> set (enabledModes cfg)" "presented (peerCertificate call)"
      "authenticateMtls env (the (peerCertificate call)) now st = (Inr a, st')"
    | (entra) "\<not> (MtlsMode \<in> set (enabledModes cfg) \<and> presented (peerCertificate call))"
      "EntraMode \<in> set (enabledModes cfg)" "presented (authorizationHeader call)"
      "authenticateEntra env (strip_bearer (the (authorizationHeader call))) now st = (Inr a, st')"
    | (key) "\<not> (MtlsMode \<in> set (enabledModes cfg) \<and> presented (peerCertificate call))"
      "TokenMode \<in> set (enabledModes cfg)" "presented (workerKeyHeader call)"
      "authenticateToken env (the (workerKeyHeader call)) now st = (Inr a, st')"
    using assms by (auto simp: authenticate_worker_def split: if_splits)
  then show ?thesis
  proof cases
    case mtls
    then obtain fp cw rest where fp: "fingerprintOf env (the (peerCertificate call)) = Some fp"
      and cw: "with_worker st (filter (\<lambda>c. wcMode c = MtlsMode \<and> wcCertFingerprint c = Some fp) (credentials st)) = cw # rest"
      and live: "wcRevokedAt (fst cw) = None" "\<not> expired (wcExpiresAt (fst cw)) now"
      and acc: "accept_credential MtlsMode now cw st = (Inr a, st')"
      by (auto simp: authenticateMtls_def split: option.splits list.splits if_splits)
    from with_worker_head [OF cw] mtls(1,2) fp live acc show ?thesis
      by (intro bexI [of _ "fst cw"] bexI [of _ "snd cw"])
        (auto simp: accept_credential_def proves_def presented_def split: option.splits)
  next
    case entra
    then obtain oid tenant cw rest where v: "validateEntra env (strip_bearer (the (authorizationHeader call))) = Some (oid, tenant)"
      and cw: "with_worker st (filter (\<lambda>c. wcMode c = EntraMode \<and> wcEntraObjectId c = Some oid) (credentials st)) = cw # rest"
      and live: "wcRevokedAt (fst cw) = None" and acc: "accept_credential EntraMode now cw st = (Inr a, st')"
      by (auto simp: authenticateEntra_def split: option.splits list.splits if_splits prod.splits)
    from with_worker_head [OF cw] entra(1-3) v live acc show ?thesis
      by (intro bexI [of _ "fst cw"] bexI [of _ "snd cw"])
        (auto simp: accept_credential_def proves_def presented_def split: option.splits)
  next
    case key
    then obtain c w where cw: "(c, w) \<in> set (with_worker st (filter (\<lambda>c. wcMode c = TokenMode \<and>
          wcSecretPrefix c = Some (workerKeyPrefix (the (workerKeyHeader call))) \<and> wcRevokedAt c = None) (credentials st)))"
      and v: "case wcSecretHash c of None \<Rightarrow> False | Some h \<Rightarrow> h \<noteq> [] \<and> verifyWorkerKey env h (the (workerKeyHeader call))"
      and live: "\<not> expired (wcExpiresAt c) now" and acc: "accept_credential TokenMode now (c, w) st = (Inr a, st')"
      by (auto simp: authenticateToken_def split: option.splits if_splits dest!: find_SomeD)
    from with_workerD [OF cw] key(1-3) v live acc show ?thesis
      by (intro bexI [of _ c] bexI [of _ w])
        (auto simp: accept_credential_def proves_def presented_def split: option.splits)
  qed
qed

section \<open>Renewal leaves two certificates\<close>

definition renewed_credential :: "string \<Rightarrow> string \<Rightarrow> issued_certificate \<Rightarrow> worker_credential" where
  "renewed_credential i w ic = (new_credential i w MtlsMode ''Renewed'' (Some (icNotAfter ic)))
     \<lparr>wcCertSerial := Some (icSerial ic), wcCertFingerprint := Some (icFingerprint ic), wcCertPem := Some (icPem ic)\<rparr>"

definition certificate_of :: "string \<Rightarrow> worker_credential \<Rightarrow> bool" where
  "certificate_of w c \<longleftrightarrow> wcWorkerId c = w \<and> wcMode c = MtlsMode"

definition superseded :: "string \<Rightarrow> string \<Rightarrow> string \<Rightarrow> worker_credential \<Rightarrow> bool" where
  "superseded w i current c \<longleftrightarrow>
     certificate_of w c \<and> wcRevokedAt c = None \<and> wcId c \<noteq> i \<and> wcId c \<noteq> current"

definition retire :: "string \<Rightarrow> string \<Rightarrow> string \<Rightarrow> int \<Rightarrow> worker_credential \<Rightarrow> worker_credential" where
  "retire w i current now c = (if superseded w i current c then c\<lparr>wcRevokedAt := Some now,
      wcRevokedReason := Some ''Superseded by certificate renewal''\<rparr> else c)"

lemma renewed_credential_simps [simp]:
  "wcId (renewed_credential i w ic) = i" "certificate_of w (renewed_credential i w ic)"
  "wcRevokedAt (renewed_credential i w ic) = None" "\<not> superseded w i current (renewed_credential i w ic)"
  by (simp_all add: renewed_credential_def new_credential_def certificate_of_def superseded_def)

lemma retire_simps [simp]:
  "certificate_of v (retire w i current now c) = certificate_of v c"
  "wcRevokedAt (retire w i current now c) = None \<longleftrightarrow> wcRevokedAt c = None \<and> \<not> superseded w i current c"
  "\<not> superseded w i current c \<Longrightarrow> retire w i current now c = c"
  by (simp_all add: retire_def certificate_of_def)

lemma renewal_result:
  assumes "renewWorkerCertificate env cfg i w host current csr now st = (Inr (ic, n), st')"
  shows "issueClientCertificate env csr w host (certValidityDays cfg) = Some ic \<and>
     n = length (filter (superseded w i current) (credentials st)) \<and>
     credentials st' = map (retire w i current now) (credentials st @ [renewed_credential i w ic])"
proof -
  have on: "MtlsMode \<in> set (enabledModes cfg)" "csr \<noteq> []"
    using assms by (auto simp: renewWorkerCertificate_def split: if_splits)
  have ic: "issueClientCertificate env csr w host (certValidityDays cfg) = Some ic"
    using assms on by (auto simp: renewWorkerCertificate_def Let_def split: option.splits)
  obtain st1 where st1: "insert_credential (renewed_credential i w ic) st = Some st1"
    using assms on ic
    by (auto simp: renewWorkerCertificate_def store_certificate_def renewed_credential_def split: option.splits)
  have "n = length (filter (superseded w i current) (credentials st1)) \<and>
      credentials st' = map (retire w i current now) (credentials st1)"
    using assms on ic st1
    by (auto simp: renewWorkerCertificate_def store_certificate_def current_certificate_def Let_def
        renewed_credential_def [symmetric] superseded_def [abs_def] certificate_of_def retire_def [abs_def])
  with ic insert_credential_keeps [OF st1] show ?thesis by simp
qed

text \<open>
  A renewal that succeeds certifies the worker the session authenticated as, and afterwards the
  only certificates of that worker that are not revoked are the new one and the one in use, which is
  left as it was; no credential of another worker or in another mode changes.
\<close>

theorem renewal_leaves_two:
  assumes "renewWorkerCertificate env cfg newId w host current csr now st = (Inr (ic, n), st')"
    and "newId \<notin> wcId ` set (credentials st)"
  shows "issueClientCertificate env csr w host (certValidityDays cfg) = Some ic \<and>
     {c \<in> set (credentials st'). certificate_of w c \<and> wcRevokedAt c = None} =
       insert (renewed_credential newId w ic)
         {c \<in> set (credentials st). certificate_of w c \<and> wcRevokedAt c = None \<and> wcId c = current} \<and>
     n = length (filter (\<lambda>c. certificate_of w c \<and> wcRevokedAt c = None \<and> wcId c \<noteq> current) (credentials st)) \<and>
     filter (\<lambda>c. \<not> certificate_of w c) (credentials st') = filter (\<lambda>c. \<not> certificate_of w c) (credentials st)"
    (is "_ \<and> ?L = insert ?new ?R \<and> _ \<and> _")
proof (intro conjI)
  note r = renewal_result [OF assms(1)]
  show "issueClientCertificate env csr w host (certValidityDays cfg) = Some ic" using r by simp
  show "?L = insert ?new ?R"
  proof (intro equalityI subsetI)
    fix c assume c: "c \<in> ?L"
    then have "c \<in> retire w newId current now ` set (credentials st @ [?new])" using r by (simp only: set_map) simp
    then obtain b where b: "b \<in> set (credentials st) \<or> b = ?new" "c = retire w newId current now b"
      by (force simp only: set_append list.set image_iff)
    with c have "certificate_of w b" "wcRevokedAt b = None" "\<not> superseded w newId current b" by simp_all
    with b assms(2) show "c \<in> insert ?new ?R" by (auto simp: superseded_def)
  next
    fix c assume "c \<in> insert ?new ?R"
    then have "c = ?new \<or> c \<in> set (credentials st) \<and> \<not> superseded w newId current c \<and> certificate_of w c \<and>
        wcRevokedAt c = None"
      by (auto simp: superseded_def)
    then show "c \<in> ?L" using r retire_simps(3) [of w newId current c now] by force
  qed
  show "n = length (filter (\<lambda>c. certificate_of w c \<and> wcRevokedAt c = None \<and> wcId c \<noteq> current) (credentials st))"
    using r assms(2) by (auto simp: superseded_def intro!: arg_cong [of _ _ length] filter_cong)
  have "retire w newId current now c = c" if "\<not> certificate_of w c" for c
    using that by (simp add: superseded_def)
  then have "filter (\<lambda>c. \<not> certificate_of w c) (map (retire w newId current now) cs) =
      filter (\<lambda>c. \<not> certificate_of w c) cs" for cs
    by (induction cs) simp_all
  from this [of "credentials st @ [?new]"]
  show "filter (\<lambda>c. \<not> certificate_of w c) (credentials st') = filter (\<lambda>c. \<not> certificate_of w c) (credentials st)"
    using r by simp
qed

text \<open>A worker with two older certificates renews, connects with the new one, and the old spare is refused.\<close>

definition demo_env :: identity_env where
  "demo_env = \<lparr> hashToken = (\<lambda>t. t), hashWorkerKey = (\<lambda>k. k), verifyWorkerKey = (\<lambda>h k. h = k),
     fingerprintOf = Some, issueClientCertificate = (\<lambda>csr w host days. Some \<lparr> icPem = csr, icSerial = csr,
       icFingerprint = csr, icNotAfter = days \<rparr>), caCertificatePem = ''ca'', validateEntra = (\<lambda>_. None) \<rparr>"

definition demo_config :: identity_config where
  "demo_config = \<lparr> enabledModes = [MtlsMode], tokenTtlDays = None, certValidityDays = 90,
     entraTenantId = None, entraAudience = None \<rparr>"

definition demo_credential :: "string \<Rightarrow> worker_credential" where
  "demo_credential i = (new_credential i ''w'' MtlsMode ''Renewed'' (Some 50))
     \<lparr>wcCertSerial := Some i, wcCertFingerprint := Some i, wcCertPem := Some i\<rparr>"

definition demo_identities :: identity_state where
  "demo_identities = \<lparr> enrolTokens = [], credentials = [demo_credential ''a'', demo_credential ''b''],
     enrolledWorkers = [\<lparr> ewId = ''w'', ewHostName = ''sql01'', ewVersion = None, ewCapabilities = [],
       ewCertSerial = None, ewCertExpiresAt = None \<rparr>] \<rparr>"

lemma demo_renewal:
  "\<exists>ic st'. renewWorkerCertificate demo_env demo_config ''c'' ''w'' ''sql01'' ''b'' ''c'' 7 demo_identities =
     (Inr (ic, 1), st') \<and> icSerial ic = ''c''"
  by (simp add: renewWorkerCertificate_def store_certificate_def insert_credential_def demo_env_def
      demo_config_def demo_identities_def demo_credential_def new_credential_def Let_def)

lemma renewal_leaves_two_witness:
  "\<exists>ic n st'. renewWorkerCertificate demo_env demo_config ''c'' ''w'' ''sql01'' ''b'' ''c'' 7 demo_identities =
       (Inr (ic, n), st') \<and>
     n = length (filter (\<lambda>c. certificate_of ''w'' c \<and> wcRevokedAt c = None \<and> wcId c \<noteq> ''b'')
           (credentials demo_identities))"
proof -
  obtain ic st' where r: "renewWorkerCertificate demo_env demo_config ''c'' ''w'' ''sql01'' ''b'' ''c'' 7 demo_identities =
      (Inr (ic, 1), st')" using demo_renewal by blast
  have "''c'' \<notin> wcId ` set (credentials demo_identities)"
    by (simp add: demo_identities_def demo_credential_def new_credential_def)
  from renewal_leaves_two [OF r this] r show ?thesis by blast
qed

lemma demo_session:
  "\<exists>st'. authenticate_worker demo_env demo_config
     \<lparr> peerCertificate = Some ''a'', authorizationHeader = None, workerKeyHeader = None \<rparr> 10 demo_identities =
     (Inr \<lparr> awWorkerId = ''w'', awHostName = ''sql01'', awCredentialId = ''a'', awMode = MtlsMode \<rparr>, st')"
  by (simp add: authenticate_worker_def authenticateMtls_def accept_credential_def with_worker_def presented_def
      expired_def demo_env_def demo_config_def demo_identities_def demo_credential_def new_credential_def
      map_filter_def)

lemma authenticate_sound_witness:
  "\<exists>c \<in> set (credentials demo_identities). wcId c = ''a'' \<and> proves demo_env
     \<lparr> peerCertificate = Some ''a'', authorizationHeader = None, workerKeyHeader = None \<rparr> c"
proof -
  obtain st' where "authenticate_worker demo_env demo_config
     \<lparr> peerCertificate = Some ''a'', authorizationHeader = None, workerKeyHeader = None \<rparr> 10 demo_identities =
     (Inr \<lparr> awWorkerId = ''w'', awHostName = ''sql01'', awCredentialId = ''a'', awMode = MtlsMode \<rparr>, st')"
    using demo_session by blast
  from authenticate_sound [OF this] show ?thesis by auto
qed

end
