(* ===== verification/Monitoring.thy ===== *)
theory Monitoring
  imports CommandHandler Ingest
begin

text \<open>
  One monitored instance on the worker: its incremental reads of msdb and what it streams up
  (\<open>packages/worker/src/instance-monitor.ts\<close>, with \<open>readHistorySince\<close> of \<open>sql/agent-repo.ts\<close>), and the
  attribution of observed changes to the commands that caused them
  (\<open>packages/worker/src/pending-attribution.ts\<close>). A message goes to the live stream, or to the outbox
  when there is none (\<open>emit\<close> of \<open>packages/worker/src/index.ts\<close>).

  What a query of msdb returns is an argument of the operation that runs it, \<^term>\<open>None\<close> when it
  throws; SHA-256 and the JSON of a queued message are parameters. Timers, and the exclusion between
  polling and the application of a command, are not modelled: an operation is one step.
\<close>

section \<open>Messages from a worker\<close>

record snapshot_chunk =
  scSnapshotId :: string
  scInstanceName :: string
  scMoreChunks :: bool
  scJobs :: "job_blob list"

record definition_delta =
  ddInstanceName :: string
  ddJob :: "job_blob option"
  ddDeleted :: bool
  ddAppliedCommandId :: string

record hello_message =
  heWorkerVersion :: string
  heHostName :: string
  heMaxCapability :: string
  heInstances :: "instance_info list"
  heCredentialPublicKey :: string

datatype worker_message =
    MsgHello hello_message
  | MsgSnapshot snapshot_chunk
  | MsgDefinition definition_delta
  | MsgHistory string "history_wire list"
  | MsgActivity string "activity_wire list"
  | MsgAgentLog string "agent_log_wire list"
  | MsgHeartbeat "instance_info list"
  | MsgInstanceConfigStatus "(string \<times> string \<times> string) list"
  | MsgCertificateRenewal string
  | MsgCommandResult command_result

record link =
  linkUp :: bool
  linkSent :: "worker_message list"
  linkOutbox :: outbox

definition queued_kind :: "worker_message \<Rightarrow> (outbox_kind \<times> string) option" where
  "queued_kind m = (case m of
     MsgHistory inst rows \<Rightarrow> Some (HistoryRow, inst)
   | MsgActivity inst rows \<Rightarrow> Some (ActivityRow, inst)
   | MsgAgentLog inst rows \<Rightarrow> Some (AgentLogRow, inst)
   | _ \<Rightarrow> None)"

definition emit_message :: "(worker_message \<Rightarrow> string) \<Rightarrow> int \<Rightarrow> worker_message \<Rightarrow> link \<Rightarrow> link \<times> bool" where
  "emit_message enc now m lk =
     (if linkUp lk then (lk\<lparr>linkSent := linkSent lk @ [m]\<rparr>, True)
      else (case queued_kind m of
              None \<Rightarrow> lk
            | Some (kind, inst) \<Rightarrow> lk\<lparr>linkOutbox := enqueue kind inst (enc m) now (linkOutbox lk)\<rparr>, False))"

section \<open>Pending attribution\<close>

type_synonym attribution = "(string \<times> (string \<times> int)) list"

definition PENDING_ATTRIBUTION_TTL_MS :: int where
  "PENDING_ATTRIBUTION_TTL_MS = 10 * 60 * 1000"

definition attribution_sweep :: "int \<Rightarrow> int \<Rightarrow> attribution \<Rightarrow> attribution" where
  "attribution_sweep ttl now es = filter (\<lambda>(u, c, at). at > now - ttl) es"

definition attribution_set :: "int \<Rightarrow> string \<Rightarrow> string \<Rightarrow> int \<Rightarrow> attribution \<Rightarrow> attribution" where
  "attribution_set ttl u c now es = AList.update u (c, now) (attribution_sweep ttl now es)"

definition attribution_get :: "string \<Rightarrow> attribution \<Rightarrow> string option" where
  "attribution_get u es = map_option fst (map_of es u)"

definition attribution_delete :: "string \<Rightarrow> attribution \<Rightarrow> attribution" where
  "attribution_delete u es = AList.delete u es"

section \<open>The monitor\<close>

type_synonym fingerprint = "nat \<times> int option"

record monitor =
  monConnected :: bool
  monInstance :: string
  monHashes :: "(string \<times> string) list"
  monLastFingerprint :: "fingerprint option"
  monAgentLogSupported :: bool
  monAnyExecuting :: bool
  monFastUntil :: int
  monAttribution :: attribution

definition SNAPSHOT_CHUNK_SIZE :: nat where "SNAPSHOT_CHUNK_SIZE = 25"
definition ACTIVE_POLL_MS :: int where "ACTIVE_POLL_MS = 750"
definition START_BURST_MS :: int where "START_BURST_MS = 15000"

text \<open>The history bookmark starts near the end on first contact, and is kept ever after.\<close>

definition connect_monitor :: "int \<Rightarrow> monitor \<Rightarrow> link \<Rightarrow> monitor \<times> link" where
  "connect_monitor maxHistoryId mon lk =
     (let q = linkOutbox lk; inst = monInstance mon
      in (mon\<lparr>monConnected := True, monHashes := getDefinitionHashes inst q\<rparr>,
          if getHistoryHighWaterMark inst q = 0
          then lk\<lparr>linkOutbox := setHistoryHighWaterMark inst (max 0 (maxHistoryId - 100)) q\<rparr> else lk))"

definition close_monitor :: "monitor \<Rightarrow> monitor" where
  "close_monitor mon = mon\<lparr>monConnected := False\<rparr>"

definition noteAppliedCommand :: "string \<Rightarrow> string \<Rightarrow> int \<Rightarrow> monitor \<Rightarrow> monitor" where
  "noteAppliedCommand u c now mon =
     mon\<lparr>monAttribution := attribution_set PENDING_ATTRIBUTION_TTL_MS (to_lower u) c now (monAttribution mon)\<rparr>"

definition nextLiveDelayMs :: "int \<Rightarrow> int \<Rightarrow> monitor \<Rightarrow> int" where
  "nextLiveDelayMs activitySeconds now mon =
     (if monAnyExecuting mon \<or> now < monFastUntil mon then ACTIVE_POLL_MS else activitySeconds * 1000)"

definition nudgeActivity :: "int \<Rightarrow> monitor \<Rightarrow> monitor" where
  "nudgeActivity now mon = mon\<lparr>monFastUntil := now + START_BURST_MS\<rparr>"

definition toBlob :: "(string \<Rightarrow> string) \<Rightarrow> live_job \<Rightarrow> job_blob option" where
  "toBlob sha l =
     map_option (\<lambda>r. \<lparr> blobUuid = liveUuid l, blobJson = canonicalJson r, blobHash = hash r,
        blobModified = toTimestamp (liveModified l) \<rparr>) (canonicaliseJobWithHash sha (liveDefinition l))"

section \<open>Snapshot\<close>

function slices :: "nat \<Rightarrow> 'a list \<Rightarrow> 'a list list" where
  "slices n xs = (if xs = [] \<or> n = 0 then [] else take n xs # slices n (drop n xs))"
  by auto
termination by (relation "measure (\<lambda>(n, xs). length xs)") auto

declare slices.simps [simp del]

definition snapshot_chunks :: "string \<Rightarrow> string \<Rightarrow> job_blob list \<Rightarrow> snapshot_chunk list" where
  "snapshot_chunks snapshotId inst blobs =
     (let chunks = slices SNAPSHOT_CHUNK_SIZE blobs; chunks = (if chunks = [] then [[]] else chunks)
      in map (\<lambda>(i, chunk). \<lparr> scSnapshotId = snapshotId, scInstanceName = inst,
                scMoreChunks = (i < length chunks - 1), scJobs = chunk \<rparr>) (zip [0..<length chunks] chunks))"

fun emit_all_messages :: "(worker_message \<Rightarrow> string) \<Rightarrow> int \<Rightarrow> worker_message list \<Rightarrow> link \<Rightarrow> link" where
  "emit_all_messages enc now [] lk = lk"
| "emit_all_messages enc now (m # ms) lk = emit_all_messages enc now ms (fst (emit_message enc now m lk))"

text \<open>
  \<open>jobs\<close> is what \<open>readJobs\<close> returns and \<open>fp\<close> the fingerprint read after it. The last component tells
  whether the operation threw.
\<close>

definition sendSnapshot ::
  "(string \<Rightarrow> string) \<Rightarrow> (worker_message \<Rightarrow> string) \<Rightarrow> int \<Rightarrow> string \<Rightarrow> live_job list option \<Rightarrow> fingerprint option
     \<Rightarrow> monitor \<Rightarrow> link \<Rightarrow> monitor \<times> link \<times> bool" where
  "sendSnapshot sha enc now snapshotId jobs fp mon lk =
     (if \<not> monConnected mon then (mon, lk, False)
      else case jobs of
        None \<Rightarrow> (mon, lk, True)
      | Some jobs \<Rightarrow>
          (case those (map (toBlob sha) jobs) of
             None \<Rightarrow> (mon, lk, True)
           | Some blobs \<Rightarrow>
               (let hs = foldl (\<lambda>m b. AList.update (blobUuid b) (blobHash b) m) [] blobs;
                    mon = mon\<lparr>monHashes := hs\<rparr>;
                    lk = lk\<lparr>linkOutbox := setDefinitionHashes (monInstance mon) hs (linkOutbox lk)\<rparr>
                in case fp of
                     None \<Rightarrow> (mon, lk, True)
                   | Some f \<Rightarrow>
                       (mon\<lparr>monLastFingerprint := Some f\<rparr>,
                        emit_all_messages enc now
                          (map MsgSnapshot (snapshot_chunks snapshotId (monInstance mon) blobs)) lk, False))))"

section \<open>Definition polling\<close>

text \<open>The loop over the jobs read: the uuids seen, and whether a blob could not be made.\<close>

fun poll_jobs ::
  "(string \<Rightarrow> string) \<Rightarrow> (worker_message \<Rightarrow> string) \<Rightarrow> int \<Rightarrow> live_job list \<Rightarrow> monitor \<Rightarrow> link \<Rightarrow> monitor \<times> link \<times> bool"
  where
  "poll_jobs sha enc now [] mon lk = (mon, lk, False)"
| "poll_jobs sha enc now (l # ls) mon lk =
     (case toBlob sha l of
        None \<Rightarrow> (mon, lk, True)
      | Some b \<Rightarrow>
          if map_of (monHashes mon) (liveUuid l) = Some (blobHash b) then poll_jobs sha enc now ls mon lk
          else
            (let cmd = (case attribution_get (liveUuid l) (monAttribution mon) of None \<Rightarrow> [] | Some c \<Rightarrow> c);
                 (lk, accepted) = emit_message enc now (MsgDefinition \<lparr> ddInstanceName = monInstance mon,
                    ddJob = Some b, ddDeleted = False, ddAppliedCommandId = cmd \<rparr>) lk
             in if \<not> accepted then poll_jobs sha enc now ls mon lk
                else poll_jobs sha enc now ls
                       (mon\<lparr>monAttribution := attribution_delete (liveUuid l) (monAttribution mon),
                            monHashes := AList.update (liveUuid l) (blobHash b) (monHashes mon)\<rparr>) lk))"

text \<open>
  What a poll reads: the fingerprint, the jobs, and, when jobs have vanished, the jobs and the
  fingerprint of the snapshot that follows.
\<close>

record poll_reads =
  prFingerprint :: "fingerprint option"
  prJobs :: "live_job list option"
  prSnapshotId :: string
  prSnapshotJobs :: "live_job list option"
  prSnapshotFingerprint :: "fingerprint option"

definition pollDefinitions ::
  "(string \<Rightarrow> string) \<Rightarrow> (worker_message \<Rightarrow> string) \<Rightarrow> int \<Rightarrow> poll_reads \<Rightarrow> monitor \<Rightarrow> link \<Rightarrow> monitor \<times> link \<times> bool"
  where
  "pollDefinitions sha enc now r mon lk =
     (if \<not> monConnected mon then (mon, lk, False)
      else case prFingerprint r of
        None \<Rightarrow> (mon, lk, True)
      | Some f \<Rightarrow>
          if monLastFingerprint mon = Some f then (mon, lk, False)
          else case prJobs r of
            None \<Rightarrow> (mon, lk, True)
          | Some jobs \<Rightarrow>
              (case poll_jobs sha enc now jobs mon lk of
                 (mon, lk, True) \<Rightarrow> (mon, lk, True)
               | (mon, lk, False) \<Rightarrow>
                   if filter (\<lambda>u. u \<notin> liveUuid ` set jobs) (map fst (monHashes mon)) \<noteq> []
                   then sendSnapshot sha enc now (prSnapshotId r) (prSnapshotJobs r) (prSnapshotFingerprint r) mon lk
                   else (mon\<lparr>monLastFingerprint := Some f\<rparr>,
                         lk\<lparr>linkOutbox := setDefinitionHashes (monInstance mon) (monHashes mon) (linkOutbox lk)\<rparr>,
                         False)))"

section \<open>History polling\<close>

text \<open>A row of \<open>sysjobhistory\<close> as the query returns it; \<open>agent_datetime\<close> may be null.\<close>

record msdb_history =
  mhInstanceId :: int
  mhJobId :: string
  mhStepId :: int
  mhStepName :: "string option"
  mhRunStatus :: int
  mhRunDatetime :: "int option"
  mhRunDurationSeconds :: int
  mhMessage :: "string option"
  mhRetriesAttempted :: int
  mhServer :: "string option"
  mhSqlSeverity :: int
  mhSqlMessageId :: int

definition readHistorySince :: "msdb_history list \<Rightarrow> int \<Rightarrow> nat \<Rightarrow> msdb_history list" where
  "readHistorySince table mark batchSize =
     filter (\<lambda>r. mhRunDatetime r \<noteq> None)
       (take batchSize (sort_key mhInstanceId (filter (\<lambda>r. mhInstanceId r > mark) table)))"

definition history_wire_of :: "msdb_history \<Rightarrow> history_wire" where
  "history_wire_of r = \<lparr> hwJobUuid = to_lower (mhJobId r), hwInstanceId = mhInstanceId r, hwStepId = mhStepId r,
     hwStepName = or_empty (mhStepName r), hwRunStatus = mhRunStatus r,
     hwRunDatetime = map_option toTimestamp (mhRunDatetime r), hwRunDurationSeconds = mhRunDurationSeconds r,
     hwMessage = or_empty (mhMessage r), hwRetriesAttempted = mhRetriesAttempted r, hwServer = or_empty (mhServer r),
     hwSqlSeverity = mhSqlSeverity r, hwSqlMessageId = mhSqlMessageId r \<rparr>"

lemma history_mark_set [simp]:
  "getHistoryHighWaterMark i (setHistoryHighWaterMark i v q) = (case syncState q i of None \<Rightarrow> v | Some r \<Rightarrow> max (historyHwm r) v)"
  by (simp add: getHistoryHighWaterMark_def setHistoryHighWaterMark_def fresh_sync_def Let_def split: option.splits)

lemma enqueue_sync [simp]: "syncState (enqueue kind inst p now q) = syncState q"
  by (simp add: enqueue_def evictIfNeeded_def Let_def)

lemma emit_sync [simp]: "syncState (linkOutbox (fst (emit_message enc now m lk))) = syncState (linkOutbox lk)"
  by (simp add: emit_message_def split: option.splits)

lemma emit_up [simp]: "linkUp (fst (emit_message enc now m lk)) = linkUp lk"
  by (simp add: emit_message_def split: option.splits)

lemma read_above: "r \<in> set (readHistorySince table mark n) \<Longrightarrow> mark < mhInstanceId r \<and> r \<in> set table"
  by (auto simp: readHistorySince_def dest: in_set_takeD)

text \<open>
  The loop of \<open>pollHistory\<close> on a table that does not change meanwhile. It returns because the mark
  passes at least one row of the table in every round.
\<close>

function pollHistory ::
  "(worker_message \<Rightarrow> string) \<Rightarrow> int \<Rightarrow> string \<Rightarrow> msdb_history list \<Rightarrow> nat \<Rightarrow> link \<Rightarrow> link" where
  "pollHistory enc now inst table batchSize lk =
     (let records = readHistorySince table (getHistoryHighWaterMark inst (linkOutbox lk)) batchSize in
      if records = [] then lk
      else
        (let lk = fst (emit_message enc now (MsgHistory inst (map history_wire_of records)) lk);
             lk = lk\<lparr>linkOutbox := setHistoryHighWaterMark inst (Max (set (map mhInstanceId records))) (linkOutbox lk)\<rparr>
         in if length records < batchSize then lk else pollHistory enc now inst table batchSize lk))"
  by auto

lemma mark_moves:
  assumes "records = readHistorySince table (getHistoryHighWaterMark inst (linkOutbox lk)) n" and "records \<noteq> []"
    and "lk' = (fst (emit_message enc now m lk))\<lparr>linkOutbox := setHistoryHighWaterMark inst
      (Max (set (map mhInstanceId records))) (linkOutbox (fst (emit_message enc now m lk)))\<rparr>"
  shows "getHistoryHighWaterMark inst (linkOutbox lk') = Max (set (map mhInstanceId records))"
    and "getHistoryHighWaterMark inst (linkOutbox lk) < Max (set (map mhInstanceId records))"
    and "Max (set (map mhInstanceId records)) \<in> mhInstanceId ` set table"
proof -
  let ?m = "getHistoryHighWaterMark inst (linkOutbox lk)" and ?M = "Max (set (map mhInstanceId records))"
  have "?M \<in> set (map mhInstanceId records)" using assms(2) by (intro Max_in) simp_all
  then obtain r where r: "r \<in> set records" "?M = mhInstanceId r" by auto
  with assms(1) read_above [of r table ?m n] show lt: "?m < ?M" and "?M \<in> mhInstanceId ` set table" by auto
  then show "getHistoryHighWaterMark inst (linkOutbox lk') = ?M"
    by (simp add: assms(3)) (auto simp: getHistoryHighWaterMark_def split: option.splits)
qed

termination pollHistory
proof (relation "measure (\<lambda>(enc, now, inst, table, n, lk).
    card {i \<in> mhInstanceId ` set table. getHistoryHighWaterMark inst (linkOutbox lk) < i})")
  show "wf (measure (\<lambda>(enc :: worker_message \<Rightarrow> string, now :: int, inst, table, n :: nat, lk).
    card {i \<in> mhInstanceId ` set table. getHistoryHighWaterMark inst (linkOutbox lk) < i}))" by simp
next
  fix enc now inst table n lk records lk1 lk2
  assume "records = readHistorySince table (getHistoryHighWaterMark inst (linkOutbox lk)) n" and "records \<noteq> []"
    and "lk1 = fst (emit_message enc now (MsgHistory inst (map history_wire_of records)) lk)"
    and "lk2 = lk1\<lparr>linkOutbox := setHistoryHighWaterMark inst (Max (set (map mhInstanceId records))) (linkOutbox lk1)\<rparr>"
  then have m: "getHistoryHighWaterMark inst (linkOutbox lk2) = Max (set (map mhInstanceId records))"
    "getHistoryHighWaterMark inst (linkOutbox lk) < Max (set (map mhInstanceId records))"
    "Max (set (map mhInstanceId records)) \<in> mhInstanceId ` set table"
    using mark_moves [of records table inst lk n lk2 enc now "MsgHistory inst (map history_wire_of records)"] by auto
  have "{i \<in> mhInstanceId ` set table. getHistoryHighWaterMark inst (linkOutbox lk2) < i} \<subset>
      {i \<in> mhInstanceId ` set table. getHistoryHighWaterMark inst (linkOutbox lk) < i}"
    using m by auto
  then show "((enc, now, inst, table, n, lk2), (enc, now, inst, table, n, lk)) \<in> measure (\<lambda>(enc, now, inst, table, n, lk).
    card {i \<in> mhInstanceId ` set table. getHistoryHighWaterMark inst (linkOutbox lk) < i})"
    by (simp add: psubset_card_mono)
qed

declare pollHistory.simps [simp del]

section \<open>Activity and the Agent error log\<close>

record msdb_activity =
  maJobId :: string
  maStartExecutionDate :: "int option"
  maStopExecutionDate :: "int option"
  maLastExecutedStepId :: "int option"
  maLastExecutedStepDate :: "int option"
  maNextScheduledRunDate :: "int option"
  maCurrentStepName :: "string option"
  maLastRunOutcome :: "int option"

definition activity_wire_of :: "msdb_activity \<Rightarrow> activity_wire" where
  "activity_wire_of r = \<lparr> awJobUuid = to_lower (maJobId r),
     awState = (if maStartExecutionDate r \<noteq> None \<and> maStopExecutionDate r = None then ''executing'' else ''idle''),
     awCurrentStepId = (case maLastExecutedStepId r of None \<Rightarrow> 0 | Some k \<Rightarrow> k),
     awCurrentStepName = or_empty (maCurrentStepName r),
     awStartExecutionDate = map_option toTimestamp (maStartExecutionDate r),
     awLastExecutedStepDate = map_option toTimestamp (maLastExecutedStepDate r),
     awNextScheduledRunDate = map_option toTimestamp (maNextScheduledRunDate r),
     awLastRunOutcome = (case maLastRunOutcome r of None \<Rightarrow> - 1 | Some k \<Rightarrow> k) \<rparr>"

definition pollActivity ::
  "(worker_message \<Rightarrow> string) \<Rightarrow> int \<Rightarrow> msdb_activity list option \<Rightarrow> monitor \<Rightarrow> link \<Rightarrow> monitor \<times> link \<times> bool" where
  "pollActivity enc now rows mon lk =
     (if \<not> monConnected mon then (mon, lk, False)
      else case rows of
        None \<Rightarrow> (mon, lk, True)
      | Some rs \<Rightarrow>
          (let rows = map activity_wire_of rs;
               mon = mon\<lparr>monAnyExecuting := list_ex (\<lambda>r. awState r = ''executing'') rows\<rparr>
           in if rows = [] then (mon, lk, False)
              else (mon, fst (emit_message enc now (MsgActivity (monInstance mon) rows) lk), False)))"

datatype log_read = LogRows "(int \<times> string \<times> string) list" | LogUnavailable | LogFailed

text \<open>
  The rows of \<open>xp_readerrorlog\<close> are a time, a text and the process. \<open>classify\<close> is \<open>classifySeverity\<close>,
  two case-insensitive regular expressions over the text.
\<close>

definition pollAgentLog ::
  "(string \<Rightarrow> string) \<Rightarrow> (worker_message \<Rightarrow> string) \<Rightarrow> int \<Rightarrow> log_read \<Rightarrow> monitor \<Rightarrow> link \<Rightarrow> monitor \<times> link \<times> bool" where
  "pollAgentLog classify enc now rd mon lk =
     (if \<not> monConnected mon \<or> \<not> monAgentLogSupported mon then (mon, lk, False)
      else case rd of
        LogUnavailable \<Rightarrow> (mon\<lparr>monAgentLogSupported := False\<rparr>, lk, False)
      | LogFailed \<Rightarrow> (mon, lk, True)
      | LogRows rs \<Rightarrow>
          (let since = getAgentLogHighWaterMark (monInstance mon) (linkOutbox lk);
               fresh = (case since of None \<Rightarrow> rs | Some t \<Rightarrow> filter (\<lambda>(at, txt, info). at > t) rs)
           in case fresh of
                [] \<Rightarrow> (mon, lk, False)
              | r # older \<Rightarrow>
                  (let rows = map (\<lambda>(at, txt, info). \<lparr> lwLoggedAt = Some (toTimestamp at),
                         lwSeverity = classify txt, lwMessage = txt, lwProcessInfo = info \<rparr>) fresh;
                       lk = fst (emit_message enc now (MsgAgentLog (monInstance mon) rows) lk);
                       newest = foldl (\<lambda>a b. if fst a > fst b then a else b) r older
                   in (mon, lk\<lparr>linkOutbox := setAgentLogHighWaterMark (monInstance mon) (fst newest) (linkOutbox lk)\<rparr>,
                       False))))"

section \<open>Catching up on history\<close>

lemma emit_message_up: "linkUp lk \<Longrightarrow> emit_message enc now m lk = (lk\<lparr>linkSent := linkSent lk @ [m]\<rparr>, True)"
  by (simp add: emit_message_def)

lemma slices_Nil [simp]: "slices n [] = []"
  by (simp add: slices.simps)

lemma slices_rest: "xs \<noteq> [] \<Longrightarrow> n \<noteq> 0 \<Longrightarrow> slices n xs = take n xs # slices n (drop n xs)"
  by (simp add: slices.simps)

lemma concat_slices: "n \<noteq> 0 \<Longrightarrow> concat (slices n xs) = xs"
  by (induction n xs rule: slices.induct) (subst slices.simps, auto)

text \<open>What lies above the largest of the first \<open>n\<close> keys of a strictly sorted list.\<close>

lemma filter_above_take:
  assumes "sorted_wrt (<) (map f xs)" and "take n xs \<noteq> []"
  shows "filter (\<lambda>x. Max (set (map f (take n xs))) < f x) xs = drop n xs"
proof -
  let ?M = "Max (set (map f (take n xs)))"
  have "sorted_wrt (\<lambda>x y. f x < f y) (take n xs @ drop n xs)" using assms(1) by (simp add: sorted_wrt_map)
  then have lt: "f x < f y" if "x \<in> set (take n xs)" "y \<in> set (drop n xs)" for x y
    using that unfolding sorted_wrt_append by blast
  have "?M \<in> set (map f (take n xs))" using assms(2) by (intro Max_in) auto
  then have "\<forall>y \<in> set (drop n xs). ?M < f y" using lt by auto
  moreover have "\<forall>x \<in> set (take n xs). \<not> ?M < f x" by (simp add: not_less)
  ultimately have "filter (\<lambda>x. ?M < f x) (take n xs @ drop n xs) = drop n xs"
    by (simp only: filter_append) simp
  then show ?thesis by simp
qed

definition rows_above :: "int \<Rightarrow> msdb_history list \<Rightarrow> msdb_history list" where
  "rows_above m table = filter (\<lambda>r. m < mhInstanceId r) (sort_key mhInstanceId table)"

lemma rows_above_filter: "m \<le> m' \<Longrightarrow> filter (\<lambda>r. m' < mhInstanceId r) (rows_above m table) = rows_above m' table"
  by (auto simp: rows_above_def intro!: filter_cong)

lemma read_history_dated:
  assumes "\<forall>r \<in> set table. mhRunDatetime r \<noteq> None"
  shows "readHistorySince table m n = take n (rows_above m table)"
proof -
  have "readHistorySince table m n = filter (\<lambda>r. mhRunDatetime r \<noteq> None) (take n (rows_above m table))"
    by (simp add: readHistorySince_def rows_above_def filter_sort)
  also have "\<dots> = take n (rows_above m table)"
    using assms by (intro filter_True) (auto simp: rows_above_def dest!: in_set_takeD)
  finally show ?thesis .
qed

lemma rows_above_strict:
  assumes "distinct (map mhInstanceId table)"
  shows "sorted_wrt (<) (map mhInstanceId (rows_above m table))"
proof -
  have "sorted (map mhInstanceId (sort_key mhInstanceId table))" by simp
  moreover have "distinct (map mhInstanceId (sort_key mhInstanceId table))"
    using assms by (simp add: distinct_map)
  ultimately have "sorted_wrt (<) (map mhInstanceId (sort_key mhInstanceId table))"
    by (simp add: strict_sorted_iff)
  then show ?thesis by (simp add: rows_above_def sorted_wrt_map sorted_wrt_filter)
qed

definition history_batch :: "string \<Rightarrow> msdb_history list \<Rightarrow> worker_message" where
  "history_batch inst rs = MsgHistory inst (map history_wire_of rs)"

lemma mark_above:
  assumes "rows_above m table = []" shows "m = Max (insert m (mhInstanceId ` set table))"
proof -
  have "mhInstanceId r \<le> m" if "r \<in> set table" for r
    using assms that by (force simp: rows_above_def filter_empty_conv)
  then show ?thesis by (intro Max_eqI [symmetric]) auto
qed

lemma max_insert_below:
  assumes "(a :: int) < b" and "b \<in> A" and "finite A"
  shows "Max (insert b A) = Max (insert a A)"
proof -
  have "A \<noteq> {}" "b \<le> Max A" using assms by auto
  moreover from this have "a \<le> Max A" using assms(1) by linarith
  ultimately show ?thesis using assms by (simp add: max_def)
qed

text \<open>
  C18. A history poll returns. On a table that does not change meanwhile and whose rows are dated, with a
  positive batch size and the link up, it has then sent every row above the bookmark exactly once, in
  order of id and in batches of the configured size, and the bookmark is the id of the newest row, or
  the old one where no row is above it: the same poll again sends nothing, and a later row will be read.
\<close>

theorem pollHistory_catches_up:
  assumes "linkUp lk" and "0 < n" and "distinct (map mhInstanceId table)"
    and "\<forall>r \<in> set table. mhRunDatetime r \<noteq> None"
  shows "linkSent (pollHistory enc now inst table n lk) = linkSent lk @ map (history_batch inst)
      (slices n (rows_above (getHistoryHighWaterMark inst (linkOutbox lk)) table)) \<and>
    rows_above (getHistoryHighWaterMark inst (linkOutbox (pollHistory enc now inst table n lk))) table = [] \<and>
    getHistoryHighWaterMark inst (linkOutbox (pollHistory enc now inst table n lk)) =
      Max (insert (getHistoryHighWaterMark inst (linkOutbox lk)) (mhInstanceId ` set table))"
  using assms
proof (induction enc now inst table n lk rule: pollHistory.induct)
  case (1 enc now inst table n lk)
  let ?m = "getHistoryHighWaterMark inst (linkOutbox lk)"
  define rs where "rs = readHistorySince table ?m n"
  have read: "rs = take n (rows_above ?m table)" using read_history_dated [OF "1.prems"(4)] by (simp add: rs_def)
  show ?case
  proof (cases "rs = []")
    case True
    then have "rows_above ?m table = []" using read "1.prems"(2) by simp
    moreover from this have "?m = Max (insert ?m (mhInstanceId ` set table))" by (rule mark_above)
    ultimately show ?thesis using True by (subst (1 2 3) pollHistory.simps) (simp add: rs_def [symmetric])
  next
    case False
    define M where "M = Max (set (map mhInstanceId rs))"
    define lk' where "lk' = (fst (emit_message enc now (history_batch inst rs) lk))\<lparr>linkOutbox :=
        setHistoryHighWaterMark inst M (linkOutbox (fst (emit_message enc now (history_batch inst rs) lk)))\<rparr>"
    have mark: "getHistoryHighWaterMark inst (linkOutbox lk') = M" "?m < M" "M \<in> mhInstanceId ` set table"
      using mark_moves [OF rs_def False lk'_def [unfolded M_def]] by (simp_all add: M_def)
    have newest: "Max (insert M (mhInstanceId ` set table)) = Max (insert ?m (mhInstanceId ` set table))"
      using mark(2,3) by (intro max_insert_below) simp_all
    have above: "rows_above M table = drop n (rows_above ?m table)"
      using filter_above_take [OF rows_above_strict [OF "1.prems"(3)], of n ?m] False mark(2)
        rows_above_filter [of ?m M table] by (simp add: read M_def)
    have sent: "linkSent lk' = linkSent lk @ [history_batch inst rs]" and up: "linkUp lk'"
      using "1.prems"(1) by (simp_all add: lk'_def emit_message_up)
    have unfold: "pollHistory enc now inst table n lk = (if length rs < n then lk' else pollHistory enc now inst table n lk')"
      using False by (subst pollHistory.simps)
        (simp add: rs_def [symmetric] M_def lk'_def history_batch_def Let_def)
    have parts: "slices n (rows_above ?m table) = rs # slices n (rows_above M table)"
      using slices_rest [of "rows_above ?m table" n] False "1.prems"(2) read above by auto
    show ?thesis
    proof (cases "length rs < n")
      case True
      then have "rows_above M table = []" by (simp add: above read)
      moreover from this have "M = Max (insert M (mhInstanceId ` set table))" by (rule mark_above)
      ultimately show ?thesis using True newest by (simp add: unfold parts sent mark(1))
    next
      case more: False
      have "linkSent (pollHistory enc now inst table n lk') = linkSent lk' @ map (history_batch inst)
          (slices n (rows_above (getHistoryHighWaterMark inst (linkOutbox lk')) table)) \<and>
        rows_above (getHistoryHighWaterMark inst (linkOutbox (pollHistory enc now inst table n lk'))) table = [] \<and>
        getHistoryHighWaterMark inst (linkOutbox (pollHistory enc now inst table n lk')) =
          Max (insert (getHistoryHighWaterMark inst (linkOutbox lk')) (mhInstanceId ` set table))"
        by (rule "1.IH" [OF rs_def False _ lk'_def [unfolded M_def] more up "1.prems"(2-4)])
          (simp add: history_batch_def)
      then show ?thesis using more newest by (elim conjE) (simp add: unfold parts sent mark(1))
    qed
  qed
qed

definition sample_run :: "int \<Rightarrow> int option \<Rightarrow> msdb_history" where
  "sample_run i at = \<lparr> mhInstanceId = i, mhJobId = ''J'', mhStepId = 0, mhStepName = None, mhRunStatus = 1,
     mhRunDatetime = at, mhRunDurationSeconds = 1, mhMessage = None, mhRetriesAttempted = 0, mhServer = None,
     mhSqlSeverity = 0, mhSqlMessageId = 0 \<rparr>"

definition sample_link :: link where
  "sample_link = \<lparr> linkUp = True, linkSent = [], linkOutbox = openOutbox [] 1 (\<lambda>_. None) (\<lambda>_. None) 10 \<rparr>"

lemma pollHistory_catches_up_witness:
  "let lk = pollHistory (\<lambda>_. []) 0 ''S'' [sample_run 3 (Some 7), sample_run 1 (Some 5), sample_run 2 (Some 6)] 2 sample_link
   in length (linkSent lk) = 2 \<and> getHistoryHighWaterMark ''S'' (linkOutbox lk) = 3"
proof -
  let ?t = "[sample_run 3 (Some 7), sample_run 1 (Some 5), sample_run 2 (Some 6)]"
  have "linkUp sample_link" "(0::nat) < 2" "distinct (map mhInstanceId ?t)"
    "\<forall>r \<in> set ?t. mhRunDatetime r \<noteq> None"
    by (simp_all add: sample_link_def sample_run_def)
  from pollHistory_catches_up [OF this, of "\<lambda>_. []" 0 "''S''"] show ?thesis
    by (simp add: sample_link_def sample_run_def rows_above_def getHistoryHighWaterMark_def openOutbox_def
        slices_rest insort_key.simps Let_def)
qed

text \<open>
  Rows without a date are dropped after \<open>TOP\<close> has counted them: when the first batch above the mark
  holds nothing else, no later row is ever read.
\<close>

lemma undated_rows_stall:
  assumes "\<forall>r \<in> set (take n (rows_above (getHistoryHighWaterMark inst (linkOutbox lk)) table)). mhRunDatetime r = None"
  shows "pollHistory enc now inst table n lk = lk"
proof -
  have "readHistorySince table (getHistoryHighWaterMark inst (linkOutbox lk)) n = []"
    using assms by (simp add: readHistorySince_def rows_above_def filter_sort filter_empty_conv)
  then show ?thesis by (subst pollHistory.simps) simp
qed

section \<open>Chunks of a snapshot\<close>

text \<open>Every chunk but the last announces another, and together they are the snapshot.\<close>

lemma snapshot_chunks_spec:
  "snapshot_chunks i inst blobs \<noteq> [] \<and>
   concat (map scJobs (snapshot_chunks i inst blobs)) = blobs \<and>
   \<not> scMoreChunks (last (snapshot_chunks i inst blobs)) \<and>
   (\<forall>c \<in> set (butlast (snapshot_chunks i inst blobs)). scMoreChunks c) \<and>
   (\<forall>c \<in> set (snapshot_chunks i inst blobs). scSnapshotId c = i \<and> scInstanceName c = inst)"
proof -
  let ?s = "slices SNAPSHOT_CHUNK_SIZE blobs"
  define cs where "cs = (if ?s = [] then [[]] else ?s)"
  define f where "f = (\<lambda>(k, c). \<lparr> scSnapshotId = i, scInstanceName = inst, scMoreChunks = (k < length cs - 1), scJobs = c \<rparr>)"
  have e: "snapshot_chunks i inst blobs = map f (zip [0..<length cs] cs)"
    by (simp add: snapshot_chunks_def cs_def f_def Let_def)
  have ne: "cs \<noteq> []" by (simp add: cs_def)
  have c: "concat cs = blobs"
    using concat_slices [of SNAPSHOT_CHUNK_SIZE blobs] by (auto simp: cs_def SNAPSHOT_CHUNK_SIZE_def)
  have "map scJobs (map f (zip [0..<length cs] cs)) = cs"
    by (simp add: f_def comp_def case_prod_unfold)
  moreover have "butlast (map f (zip [0..<length cs] cs)) = map f (zip [0..<length cs - 1] (butlast cs))"
    using ne by (cases cs rule: rev_cases) (simp_all add: map_butlast [symmetric])
  moreover have "last (map f (zip [0..<length cs] cs)) = f (length cs - 1, last cs)"
    using ne by (cases cs rule: rev_cases) simp_all
  ultimately show ?thesis
    unfolding e using ne c by (auto simp: f_def dest: set_zip_leftD)
qed

section \<open>Definition changes reach the control plane\<close>

definition changed_blob :: "monitor \<Rightarrow> job_blob \<Rightarrow> bool" where
  "changed_blob mon b \<longleftrightarrow> map_of (monHashes mon) (blobUuid b) \<noteq> Some (blobHash b)"

definition delta_of :: "monitor \<Rightarrow> job_blob \<Rightarrow> worker_message" where
  "delta_of mon b = MsgDefinition \<lparr> ddInstanceName = monInstance mon, ddJob = Some b, ddDeleted = False,
     ddAppliedCommandId = or_empty (attribution_get (blobUuid b) (monAttribution mon)) \<rparr>"

definition shipped :: "monitor \<Rightarrow> job_blob list \<Rightarrow> monitor \<Rightarrow> bool" where
  "shipped mon blobs mon' \<longleftrightarrow>
     monInstance mon' = monInstance mon \<and> monConnected mon' = monConnected mon \<and>
     (\<forall>u. map_of (monHashes mon') u =
        (case find (\<lambda>b. blobUuid b = u) blobs of None \<Rightarrow> map_of (monHashes mon) u | Some b \<Rightarrow> Some (blobHash b))) \<and>
     (\<forall>u. attribution_get u (monAttribution mon') =
        (if \<exists>b \<in> set blobs. blobUuid b = u \<and> changed_blob mon b then None
         else attribution_get u (monAttribution mon)))"

lemma toBlob_uuid: "toBlob sha l = Some b \<Longrightarrow> blobUuid b = liveUuid l"
  by (auto simp: toBlob_def)

lemma those_Cons: "those (x # xs) = Some ys \<Longrightarrow> \<exists>z zs. x = Some z \<and> those xs = Some zs \<and> ys = z # zs"
  by (auto split: option.splits)

lemma blobs_uuids: "those (map (toBlob sha) jobs) = Some blobs \<Longrightarrow> map blobUuid blobs = map liveUuid jobs"
proof (induction jobs arbitrary: blobs)
  case Nil
  then show ?case by simp
next
  case (Cons l ls)
  then show ?case using those_Cons [of "toBlob sha l" "map (toBlob sha) ls" blobs] by (auto dest: toBlob_uuid)
qed

lemma find_key_None: "find (\<lambda>x. f x = k) xs = None \<longleftrightarrow> k \<notin> f ` set xs"
  by (induction xs) auto

lemma shipped_skip:
  assumes "shipped mon bs mon'" and "blobUuid b \<notin> blobUuid ` set bs" and "\<not> changed_blob mon b"
  shows "shipped mon (b # bs) mon'"
proof -
  have f: "find (\<lambda>x. blobUuid x = blobUuid b) bs = None" using assms(2) by (simp add: find_key_None)
  have "map_of (monHashes mon') u = (case find (\<lambda>x. blobUuid x = u) (b # bs) of
      None \<Rightarrow> map_of (monHashes mon) u | Some x \<Rightarrow> Some (blobHash x))" for u
    using assms(1,3) f by (cases "blobUuid b = u") (auto simp: shipped_def changed_blob_def)
  moreover have "(\<exists>x \<in> set (b # bs). blobUuid x = u \<and> changed_blob mon x) \<longleftrightarrow>
      (\<exists>x \<in> set bs. blobUuid x = u \<and> changed_blob mon x)" for u
    using assms(3) by auto
  ultimately show ?thesis using assms(1) by (simp add: shipped_def)
qed

lemma shipped_cong:
  assumes "shipped (mon\<lparr>monAttribution := attribution_delete (blobUuid b) (monAttribution mon),
      monHashes := AList.update (blobUuid b) (blobHash b) (monHashes mon)\<rparr>) bs mon'"
    and "blobUuid b \<notin> blobUuid ` set bs" and "changed_blob mon b"
  shows "shipped mon (b # bs) mon'"
proof -
  have f: "find (\<lambda>b'. blobUuid b' = blobUuid b) bs = None" using assms(2) by (simp add: find_key_None)
  have c: "changed_blob (mon\<lparr>monAttribution := a, monHashes := AList.update (blobUuid b) (blobHash b) (monHashes mon)\<rparr>) x
      = changed_blob mon x" if "x \<in> set bs" for x a
  proof -
    have "blobUuid x \<noteq> blobUuid b" using that assms(2) by (metis image_eqI)
    then show ?thesis by (simp add: changed_blob_def update_conv')
  qed
  show ?thesis
    using assms f c
    by (auto simp: shipped_def update_conv' attribution_get_def attribution_delete_def delete_conv'
        split: option.splits if_splits)
qed

lemma poll_jobs_up:
  assumes "those (map (toBlob sha) jobs) = Some blobs" and "distinct (map liveUuid jobs)" and "linkUp lk"
  shows "\<exists>mon'. poll_jobs sha enc now jobs mon lk =
     (mon', lk\<lparr>linkSent := linkSent lk @ map (delta_of mon) (filter (changed_blob mon) blobs)\<rparr>, False) \<and>
     shipped mon blobs mon'"
  using assms
proof (induction jobs arbitrary: blobs mon lk)
  case Nil
  then show ?case by (simp add: shipped_def)
next
  case (Cons l ls)
  obtain b bs where b: "toBlob sha l = Some b" and bs: "those (map (toBlob sha) ls) = Some bs" and e: "blobs = b # bs"
    using those_Cons [of "toBlob sha l" "map (toBlob sha) ls" blobs] Cons.prems(1) by auto
  have u: "blobUuid b = liveUuid l" by (rule toBlob_uuid [OF b])
  have fresh: "blobUuid b \<notin> blobUuid ` set bs"
    using arg_cong [OF blobs_uuids [OF bs], of set] Cons.prems(2) by (simp add: u)
  show ?case
  proof (cases "changed_blob mon b")
    case False
    obtain mon' where "poll_jobs sha enc now ls mon lk =
        (mon', lk\<lparr>linkSent := linkSent lk @ map (delta_of mon) (filter (changed_blob mon) bs)\<rparr>, False)"
      and s: "shipped mon bs mon'" using Cons.IH [OF bs _ Cons.prems(3), of mon] Cons.prems(2) by auto
    moreover have "shipped mon (b # bs) mon'"
      by (rule shipped_skip [OF s fresh False])
    moreover have "map_of (monHashes mon) (liveUuid l) = Some (blobHash b)"
      using False by (simp add: changed_blob_def u)
    ultimately show ?thesis using False by (simp add: e b)
  next
    case True
    let ?mon = "mon\<lparr>monAttribution := attribution_delete (liveUuid l) (monAttribution mon),
        monHashes := AList.update (liveUuid l) (blobHash b) (monHashes mon)\<rparr>"
    let ?lk = "lk\<lparr>linkSent := linkSent lk @ [delta_of mon b]\<rparr>"
    have same: "changed_blob ?mon x = changed_blob mon x" "delta_of ?mon x = delta_of mon x" if "x \<in> set bs" for x
    proof -
      have "blobUuid x \<noteq> liveUuid l" using that fresh u by (metis image_eqI)
      then show "changed_blob ?mon x = changed_blob mon x" "delta_of ?mon x = delta_of mon x"
        by (simp_all add: changed_blob_def delta_of_def update_conv' attribution_get_def
            attribution_delete_def delete_conv')
    qed
    have "map (delta_of ?mon) (filter (changed_blob ?mon) bs) = map (delta_of mon) (filter (changed_blob mon) bs)"
      using same by (auto cong: filter_cong map_cong)
    with Cons.IH [OF bs, of ?lk ?mon] Cons.prems obtain mon' where
      "poll_jobs sha enc now ls ?mon ?lk = (mon', ?lk\<lparr>linkSent := linkSent ?lk @
        map (delta_of mon) (filter (changed_blob mon) bs)\<rparr>, False)" and "shipped ?mon bs mon'" by auto
    moreover from this(2) have "shipped mon (b # bs) mon'"
      using fresh True by (intro shipped_cong) (simp_all add: u)
    moreover have "poll_jobs sha enc now (l # ls) mon lk = poll_jobs sha enc now ls ?mon ?lk"
      using True Cons.prems(3)
      by (simp add: b emit_message_up changed_blob_def u delta_of_def or_empty_def Let_def)
    ultimately show ?thesis using True by (simp add: e)
  qed
qed

lemma shipped_keys:
  assumes "shipped mon blobs mon'" and "map blobUuid blobs = map liveUuid jobs"
    and "fst ` set (monHashes mon) \<subseteq> liveUuid ` set jobs"
  shows "filter (\<lambda>u. u \<notin> liveUuid ` set jobs) (map fst (monHashes mon')) = []"
proof -
  have b: "blobUuid ` set blobs = liveUuid ` set jobs" using arg_cong [OF assms(2), of set] by simp
  have "u \<in> liveUuid ` set jobs" if "u \<in> fst ` set (monHashes mon')" for u
  proof (cases "find (\<lambda>b. blobUuid b = u) blobs")
    case None
    from that have "map_of (monHashes mon') u \<noteq> None" by (simp add: map_of_eq_None_iff)
    with None assms(1) have "map_of (monHashes mon) u \<noteq> None" by (simp add: shipped_def)
    with assms(3) show ?thesis by (auto simp: map_of_eq_None_iff)
  next
    case (Some x)
    from find_SomeD [OF Some] b show ?thesis by auto
  qed
  then show ?thesis by (auto simp: filter_empty_conv)
qed

text \<open>
  C19. While connected with the stream up, a poll that finds the fingerprint moved, reads the jobs and has
  no vanished job in its cache sends a delta for exactly the jobs whose hash the control plane has not
  been told, each attributed to the command that caused it when there is one, and the cache then holds
  the hash of every job: a second poll of the same jobs sends nothing, whatever the fingerprint.
\<close>

theorem pollDefinitions_ships:
  assumes "monConnected mon" and "linkUp lk" and "prFingerprint r = Some f" and "monLastFingerprint mon \<noteq> Some f"
    and "prJobs r = Some jobs" and "those (map (toBlob sha) jobs) = Some blobs" and "distinct (map liveUuid jobs)"
    and "fst ` set (monHashes mon) \<subseteq> liveUuid ` set jobs"
    and "prFingerprint r' = Some f'" and "prJobs r' = Some jobs"
  shows "\<exists>mon' lk'. pollDefinitions sha enc now r mon lk = (mon', lk', False) \<and>
     linkSent lk' = linkSent lk @ map (delta_of mon) (filter (changed_blob mon) blobs) \<and>
     (\<forall>b \<in> set blobs. map_of (monHashes mon') (blobUuid b) = Some (blobHash b)) \<and>
     linkSent (fst (snd (pollDefinitions sha enc now' r' mon' lk'))) = linkSent lk'"
proof -
  have u: "map blobUuid blobs = map liveUuid jobs" by (rule blobs_uuids [OF assms(6)])
  then have d: "distinct (map blobUuid blobs)" using assms(7) by simp
  from poll_jobs_up [OF assms(6,7,2)] obtain m1 where
    p1: "poll_jobs sha enc now jobs mon lk =
      (m1, lk\<lparr>linkSent := linkSent lk @ map (delta_of mon) (filter (changed_blob mon) blobs)\<rparr>, False)"
    and s1: "shipped mon blobs m1" by blast
  let ?m = "m1\<lparr>monLastFingerprint := Some f\<rparr>"
  define lk' where "lk' = lk\<lparr>linkSent := linkSent lk @ map (delta_of mon) (filter (changed_blob mon) blobs),
      linkOutbox := setDefinitionHashes (monInstance m1) (monHashes m1) (linkOutbox lk)\<rparr>"
  have first: "pollDefinitions sha enc now r mon lk = (?m, lk', False)"
    using shipped_keys [OF s1 u assms(8)] assms(1,3-5)
    by (simp add: pollDefinitions_def p1 lk'_def)
  have cache: "map_of (monHashes ?m) (blobUuid b) = Some (blobHash b)" if "b \<in> set blobs" for b
    using s1 find_distinct [OF d that] by (simp add: shipped_def)
  have quiet: "filter (changed_blob ?m) blobs = []" using cache by (simp add: changed_blob_def filter_empty_conv)
  have up: "linkUp lk'" using assms(2) by (simp add: lk'_def)
  from poll_jobs_up [OF assms(6,7) up, of enc now' ?m] quiet obtain m2 where
    p2: "poll_jobs sha enc now' jobs ?m lk' = (m2, lk', False)" and s2: "shipped ?m blobs m2" by auto
  have "fst ` set (monHashes ?m) \<subseteq> liveUuid ` set jobs"
    using shipped_keys [OF s1 u assms(8)] by (auto simp: filter_empty_conv)
  then have "linkSent (fst (snd (pollDefinitions sha enc now' r' ?m lk'))) = linkSent lk'"
    using shipped_keys [OF s2 u] assms(9,10) by (simp add: pollDefinitions_def p2)
  with first cache show ?thesis by (auto simp: lk'_def)
qed

lemma toBlob_valid:
  assumes "jobDefinitionSchema (liveDefinition l)"
  shows "\<exists>b. toBlob sha l = Some b \<and> blobUuid b = liveUuid l \<and> blobHash b = sha (blobJson b) \<and>
     canonicaliseJob (liveDefinition l) = Some (blobJson b)"
  using assms
  by (simp add: toBlob_def canonicaliseJobWithHash_def canonicaliseJob_def canonicalJsonStringify_job Let_def)

definition sample_live :: live_job where
  "sample_live = \<lparr> liveUuid = ''j'', liveDefinition = sample_job ''x'', liveModified = 5 \<rparr>"

definition sample_monitor :: monitor where
  "sample_monitor = \<lparr> monConnected = True, monInstance = ''S'', monHashes = [(''j'', [])], monLastFingerprint = None,
     monAgentLogSupported = True, monAnyExecuting = False, monFastUntil = 0, monAttribution = [(''j'', (''c'', 0))] \<rparr>"

definition sample_reads :: "int \<Rightarrow> poll_reads" where
  "sample_reads at = \<lparr> prFingerprint = Some (1, Some at), prJobs = Some [sample_live], prSnapshotId = [],
     prSnapshotJobs = None, prSnapshotFingerprint = None \<rparr>"

lemma pollDefinitions_ships_witness:
  "\<exists>mon' lk' b. pollDefinitions (\<lambda>s. CHR ''#'' # s) (\<lambda>_. []) 0 (sample_reads 5) sample_monitor sample_link = (mon', lk', False) \<and>
     linkSent lk' = [MsgDefinition \<lparr> ddInstanceName = ''S'', ddJob = Some b, ddDeleted = False, ddAppliedCommandId = ''c'' \<rparr>]"
proof -
  obtain b where b: "toBlob (\<lambda>s. CHR ''#'' # s) sample_live = Some b" "blobUuid b = ''j''"
      "blobHash b = CHR ''#'' # blobJson b"
    using toBlob_valid [of sample_live "\<lambda>s. CHR ''#'' # s"] by (auto simp: sample_live_def sample_job_valid)
  have pre: "monConnected sample_monitor" "linkUp sample_link" "prFingerprint (sample_reads 5) = Some (1, Some 5)"
    "monLastFingerprint sample_monitor \<noteq> Some (1, Some 5)" "prJobs (sample_reads 5) = Some [sample_live]"
    "those (map (toBlob (\<lambda>s. CHR ''#'' # s)) [sample_live]) = Some [b]" "distinct (map liveUuid [sample_live])"
    "fst ` set (monHashes sample_monitor) \<subseteq> liveUuid ` set [sample_live]"
    "prFingerprint (sample_reads 6) = Some (1, Some 6)" "prJobs (sample_reads 6) = Some [sample_live]"
    by (simp_all add: sample_monitor_def sample_link_def sample_reads_def b(1)) (simp add: sample_live_def)
  have "map (delta_of sample_monitor) (filter (changed_blob sample_monitor) [b]) =
      [MsgDefinition \<lparr> ddInstanceName = ''S'', ddJob = Some b, ddDeleted = False, ddAppliedCommandId = ''c'' \<rparr>]"
    by (simp add: delta_of_def changed_blob_def sample_monitor_def b attribution_get_def or_empty_def)
  with pollDefinitions_ships [OF pre, of "\<lambda>_. []" 0 0] show ?thesis by (auto simp: sample_link_def)
qed

section \<open>Changes the poll misses\<close>

text \<open>A poll that finds the fingerprint it remembers reads nothing else.\<close>

lemma poll_same_fingerprint:
  "monLastFingerprint mon = Some f \<Longrightarrow> prFingerprint r = Some f \<Longrightarrow> pollDefinitions sha enc now r mon lk = (mon, lk, False)"
  by (simp add: pollDefinitions_def)

lemma poll_jobs_down:
  "\<not> linkUp lk \<Longrightarrow> those (map (toBlob sha) jobs) = Some blobs \<Longrightarrow> poll_jobs sha enc now jobs mon lk = (mon, lk, False)"
proof (induction jobs arbitrary: blobs)
  case Nil
  then show ?case by simp
next
  case (Cons l ls)
  obtain b bs where "toBlob sha l = Some b" "those (map (toBlob sha) ls) = Some bs"
    using those_Cons [of "toBlob sha l" "map (toBlob sha) ls" blobs] Cons.prems(2) by auto
  with Cons show ?case by (simp add: emit_message_def queued_kind_def)
qed

text \<open>
  A delta the session refuses is left out of the cache so that the next poll retries, but the
  fingerprint is remembered all the same, and the next poll does not get past it.
\<close>

lemma refused_delta_not_retried:
  assumes "monConnected mon" and "\<not> linkUp lk" and "prFingerprint r = Some f" and "prJobs r = Some jobs"
    and "those (map (toBlob sha) jobs) = Some blobs" and "fst ` set (monHashes mon) \<subseteq> liveUuid ` set jobs"
    and "pollDefinitions sha enc now r mon lk = (mon', lk', threw)" and "prFingerprint r' = Some f"
  shows "monHashes mon' = monHashes mon \<and>
    pollDefinitions sha enc now' r' mon' (lk'\<lparr>linkUp := True\<rparr>) = (mon', lk'\<lparr>linkUp := True\<rparr>, False)"
proof -
  have "filter (\<lambda>u. u \<notin> liveUuid ` set jobs) (map fst (monHashes mon)) = []"
    using assms(6) by (auto simp: filter_empty_conv)
  with assms(1,3,4,7) poll_jobs_down [OF assms(2,5)] have "monHashes mon' = monHashes mon \<and> monLastFingerprint mon' = Some f"
    by (auto simp: pollDefinitions_def split: if_splits)
  with assms(8) show ?thesis by (simp add: poll_same_fingerprint)
qed

text \<open>
  A snapshot reads the fingerprint after the jobs: a change that falls between the two is in neither
  the snapshot nor, as long as the fingerprint stays, any poll.
\<close>

lemma snapshot_hides_later_change:
  assumes "sendSnapshot sha enc now i (Some jobs) (Some f) mon lk = (mon', lk', False)" and "monConnected mon"
    and "prFingerprint r = Some f"
  shows "pollDefinitions sha enc now' r mon' lk' = (mon', lk', False)"
  using assms by (auto simp: sendSnapshot_def Let_def poll_same_fingerprint split: option.splits)

text \<open>
  It also fills the cache before it sends: when the fingerprint query then fails, the control plane
  has seen nothing and a later poll finds nothing to send.
\<close>

lemma failed_snapshot_fills_cache:
  assumes "sendSnapshot sha enc now i (Some [l]) None mon lk = (mon', lk', threw)" and "monConnected mon"
    and "toBlob sha l = Some b" and "prFingerprint r = Some f" and "prJobs r = Some [l]"
  shows "linkSent lk' = linkSent lk \<and> linkSent (fst (snd (pollDefinitions sha enc now' r mon' lk'))) = linkSent lk"
proof -
  have m: "mon' = mon\<lparr>monHashes := [(liveUuid l, blobHash b)]\<rparr>" and s: "linkSent lk' = linkSent lk"
    using assms(1-3) toBlob_uuid [OF assms(3)] by (auto simp: sendSnapshot_def Let_def)
  then show ?thesis using assms(2-5) by (simp add: pollDefinitions_def)
qed

text \<open>
  The age of an attribution is only looked at when another is recorded: until then an unrelated edit
  of the job, however late, is sent as the effect of the old command.
\<close>

lemma attribution_outlives_ttl:
  assumes "toBlob sha l = Some b" and "changed_blob mon b" and "linkUp lk" and "to_lower (liveUuid l) = liveUuid l"
  shows "linkSent (fst (snd (poll_jobs sha enc (at + delay) [l] (noteAppliedCommand (liveUuid l) c at mon) lk))) =
    linkSent lk @ [MsgDefinition \<lparr> ddInstanceName = monInstance mon, ddJob = Some b, ddDeleted = False,
      ddAppliedCommandId = c \<rparr>]"
  using assms(2) toBlob_uuid [OF assms(1)]
  by (simp add: assms noteAppliedCommand_def attribution_get_def attribution_set_def update_conv'
      emit_message_up changed_blob_def)

end
