(* ===== verification/MonitorSet.thy ===== *)
theory MonitorSet
  imports Monitoring CanonicalLaws
begin

text \<open>
  The set of instances a worker monitors (\<open>packages/worker/src/monitor-set.ts\<close>, with
  \<open>instanceConfigSchema\<close> and \<open>resolveIntervals\<close>): entries from worker.yaml, retried until they connect,
  and entries configured from the dashboard, reconciled to match what the control plane sends.

  Connecting to SQL Server is an argument: the outcome of the n-th attempt, with what the monitor
  then reads. So are the decryption of a credential and the text of a schema refusal. Every operation
  is one step; the retry timer does not fire inside a reconciliation.
\<close>

section \<open>Configurations\<close>

datatype config_source = FileSource | RemoteSource

record instance_config =
  cnName :: string
  cnServer :: string
  cnPort :: "int option"
  cnDatabase :: string
  cnUser :: "string option"
  cnPassword :: "string option"
  cnDomain :: "string option"
  cnEncrypt :: bool
  cnTrustServerCertificate :: bool
  cnConnectionTimeoutMs :: int
  cnRequestTimeoutMs :: int

definition instanceConfigSchema :: "instance_config \<Rightarrow> bool" where
  "instanceConfigSchema c \<longleftrightarrow> cnName c \<noteq> [] \<and> cnServer c \<noteq> [] \<and>
     (case cnPort c of None \<Rightarrow> True | Some p \<Rightarrow> p > 0) \<and>
     cnConnectionTimeoutMs c > 0 \<and> cnRequestTimeoutMs c > 0"

text \<open>The members the schema fills in when they are absent.\<close>

definition config_defaults :: "string \<Rightarrow> string \<Rightarrow> int option \<Rightarrow> bool \<Rightarrow> bool \<Rightarrow> instance_config" where
  "config_defaults name server port encrypt trust = \<lparr> cnName = name, cnServer = server, cnPort = port,
     cnDatabase = ''msdb'', cnUser = None, cnPassword = None, cnDomain = None, cnEncrypt = encrypt,
     cnTrustServerCertificate = trust, cnConnectionTimeoutMs = 15000, cnRequestTimeoutMs = 30000 \<rparr>"

record wire_config =
  wiInstanceName :: string
  wiServerAddress :: string
  wiAuthMode :: string
  wiLoginName :: string
  wiCredentialCiphertext :: string
  wiCredentialKeyFingerprint :: string
  wiEncryptTls :: bool
  wiTrustServerCertificate :: bool
  wiEnvironmentTag :: string

text \<open>The text before and after the last comma.\<close>

definition split_last_comma :: "string \<Rightarrow> (string \<times> string) option" where
  "split_last_comma s =
     (case dropWhile (\<lambda>c. c \<noteq> CHR '','') (rev s) of
        [] \<Rightarrow> None
      | _ # front \<Rightarrow> Some (rev front, rev (takeWhile (\<lambda>c. c \<noteq> CHR '','') (rev s))))"

text \<open>Ports are read in decimal; \<open>Number\<close> would also take forms such as \<open>0x599\<close> and \<open>1.433e3\<close>.\<close>

definition splitServerAddress :: "string \<Rightarrow> string \<times> int option" where
  "splitServerAddress address =
     (case split_last_comma address of
        None \<Rightarrow> (trim address, None)
      | Some (front, tail) \<Rightarrow>
          (case Schedule.js_number (trim tail) of
             None \<Rightarrow> (trim address, None)
           | Some port \<Rightarrow> if port < 1 \<or> port > 65535 then (trim address, None) else (trim front, Some port)))"

record connection_error =
  ceCode :: "string option"
  ceNumber :: "int option"
  ceMessage :: string

fun contains_text :: "string \<Rightarrow> string \<Rightarrow> bool" where
  "contains_text pat [] \<longleftrightarrow> pat = []"
| "contains_text pat (c # cs) \<longleftrightarrow> take (length pat) (c # cs) = pat \<or> contains_text pat cs"

definition classifyConnectionError :: "connection_error \<Rightarrow> string" where
  "classifyConnectionError e =
     (if ceNumber e = Some 18456 \<or> ceCode e = Some ''ELOGIN'' \<or>
         contains_text ''login failed'' (to_lower (ceMessage e))
      then ''auth_failed'' else ''unreachable'')"

definition json_or_null :: "('a \<Rightarrow> json) \<Rightarrow> 'a option \<Rightarrow> json" where
  "json_or_null f x = (case x of None \<Rightarrow> JNull | Some v \<Rightarrow> f v)"

definition signatureOf :: "instance_config \<Rightarrow> string" where
  "signatureOf c = stringify (JArr [JStr (cnServer c), json_or_null JNum (cnPort c), json_or_null JStr (cnUser c),
     json_or_null JStr (cnPassword c), JBool (cnEncrypt c), JBool (cnTrustServerCertificate c)])"

text \<open>
  \<open>privateDecrypt\<close> followed by \<open>JSON.parse\<close> is a parameter: the message of the exception, or what the
  \<open>password\<close> member holds when it is a string.
\<close>

record credential_env =
  keyFingerprint :: string
  openCredential :: "string \<Rightarrow> string + string option"
  schemaRefusal :: "instance_config \<Rightarrow> string"

definition decryptCredential :: "credential_env \<Rightarrow> string \<Rightarrow> string \<Rightarrow> string + string" where
  "decryptCredential env cipher expected =
     (if expected \<noteq> [] \<and> expected \<noteq> keyFingerprint env
      then Inl ''The stored credential was encrypted to a different key than this worker now holds. Enter it again in the dashboard.''
      else case openCredential env cipher of
        Inl msg \<Rightarrow> Inl msg
      | Inr pw \<Rightarrow> (case pw of
          Some (c # cs) \<Rightarrow> Inr (c # cs)
        | _ \<Rightarrow> Inl ''The decrypted credential contained no password.''))"

datatype instance_config_refusal = AwaitingCredential string | ConfigRefused string

definition parse_config :: "credential_env \<Rightarrow> instance_config \<Rightarrow> instance_config_refusal + instance_config" where
  "parse_config env c = (if instanceConfigSchema c then Inr c else Inl (ConfigRefused (schemaRefusal env c)))"

definition toInstanceConfig :: "credential_env \<Rightarrow> wire_config \<Rightarrow> instance_config_refusal + instance_config" where
  "toInstanceConfig env r =
     (let (server, port) = splitServerAddress (wiServerAddress r);
          base = config_defaults (wiInstanceName r) server port (wiEncryptTls r) (wiTrustServerCertificate r)
      in if wiAuthMode r \<noteq> ''sql'' then parse_config env base
         else if wiCredentialCiphertext r = []
         then Inl (AwaitingCredential ''No SQL credential has been supplied for this instance yet.'')
         else case decryptCredential env (wiCredentialCiphertext r) (wiCredentialKeyFingerprint r) of
           Inl msg \<Rightarrow> Inl (ConfigRefused msg)
         | Inr pw \<Rightarrow> parse_config env (base\<lparr>cnUser := Some (wiLoginName r), cnPassword := Some pw\<rparr>))"

section \<open>The set\<close>

record poll_intervals =
  definitionSeconds :: int
  historySeconds :: int
  activitySeconds :: int
  agentLogSeconds :: int
  pollHistoryBatchSize :: int

definition pick_interval :: "int option \<Rightarrow> int \<Rightarrow> int" where
  "pick_interval remote local = (case remote of None \<Rightarrow> local | Some r \<Rightarrow> if r > 0 then r else local)"

text \<open>\<open>server\<close> is the control plane's configuration, \<^term>\<open>None\<close> when the acknowledgement has none.\<close>

definition resolveIntervals :: "poll_intervals \<Rightarrow> int \<Rightarrow> (poll_intervals \<times> int) option \<Rightarrow> poll_intervals \<times> int" where
  "resolveIntervals local localHeartbeat server =
     (let pick = (\<lambda>f. pick_interval (map_option (\<lambda>s. f (fst s)) server) (f local))
      in (\<lparr> definitionSeconds = pick definitionSeconds, historySeconds = pick historySeconds,
            activitySeconds = pick activitySeconds, agentLogSeconds = pick agentLogSeconds,
            pollHistoryBatchSize = pick pollHistoryBatchSize \<rparr>,
          pick_interval (map_option snd server) localHeartbeat))"

record monitor_entry =
  enMonitor :: monitor
  enSource :: config_source
  enSignature :: string
  enInfo :: instance_info
  enPolling :: "poll_intervals option"

record instance_outcome =
  outName :: string
  outStatus :: string
  outDetail :: string

record monitor_set =
  msEntries :: "(string \<times> monitor_entry) list"
  msIntervals :: "poll_intervals option"
  msAwaiting :: "(string \<times> instance_config) list"
  msRetrying :: bool
  msDials :: nat
  msLink :: link

text \<open>What an attempt to connect yields; the reads feed the first snapshot.\<close>

record connection =
  cxMaxHistoryId :: int
  cxInfo :: instance_info
  cxNow :: int
  cxSnapshotId :: string
  cxJobs :: "live_job list option"
  cxFingerprint :: "fingerprint option"

type_synonym dialler = "nat \<Rightarrow> instance_config \<Rightarrow> connection_error + connection"

record monitor_env =
  seSha :: "string \<Rightarrow> string"
  seEncode :: "worker_message \<Rightarrow> string"
  seDial :: dialler
  seCredentials :: credential_env

definition fresh_monitor :: "string \<Rightarrow> monitor" where
  "fresh_monitor name = \<lparr> monConnected = False, monInstance = name, monHashes = [], monLastFingerprint = None,
     monAgentLogSupported = True, monAnyExecuting = False, monFastUntil = 0, monAttribution = [] \<rparr>"

definition scheduleRetries :: "monitor_set \<Rightarrow> monitor_set" where
  "scheduleRetries st = (if msRetrying st \<or> msAwaiting st = [] then st else st\<lparr>msRetrying := True\<rparr>)"

definition stopRetrying :: "monitor_set \<Rightarrow> monitor_set" where
  "stopRetrying st = st\<lparr>msRetrying := False\<rparr>"

definition connected_outcome :: "string \<Rightarrow> string \<Rightarrow> instance_outcome" where
  "connected_outcome name txt = \<lparr> outName = name, outStatus = ''connected'', outDetail = txt \<rparr>"

text \<open>
  The connected half of \<open>#ensure\<close>: the entry goes in, and when the cadence is known the snapshot is sent
  and polling starts, unless the snapshot throws.
\<close>

definition insert_connected ::
  "monitor_env \<Rightarrow> connection \<Rightarrow> instance_config \<Rightarrow> config_source \<Rightarrow> string \<Rightarrow> monitor_set \<Rightarrow> monitor_set" where
  "insert_connected env cx c src sig st =
     (let (mon, lk) = connect_monitor (cxMaxHistoryId cx) (fresh_monitor (cnName c)) (msLink st);
          entry = (\<lambda>mon iv. \<lparr> enMonitor = mon, enSource = src, enSignature = sig, enInfo = cxInfo cx, enPolling = iv \<rparr>);
          (entry, lk) = (case msIntervals st of
             None \<Rightarrow> (entry mon None, lk)
           | Some iv \<Rightarrow>
               (case sendSnapshot (seSha env) (seEncode env) (cxNow cx) (cxSnapshotId cx) (cxJobs cx)
                       (cxFingerprint cx) mon lk of
                  (mon, lk, threw) \<Rightarrow> (entry mon (if threw then None else Some iv), lk)))
      in st\<lparr>msAwaiting := AList.delete (cnName c) (msAwaiting st),
            msEntries := AList.update (cnName c) entry (msEntries st), msLink := lk\<rparr>)"

definition ensure ::
  "monitor_env \<Rightarrow> instance_config \<Rightarrow> config_source \<Rightarrow> string \<Rightarrow> monitor_set \<Rightarrow> instance_outcome \<times> monitor_set" where
  "ensure env c src sig st =
     (let n = msDials st;
          st = st\<lparr>msEntries := AList.delete (cnName c) (msEntries st), msDials := Suc n\<rparr>
      in case seDial env n c of
           Inl e \<Rightarrow>
             (\<lparr> outName = cnName c, outStatus = classifyConnectionError e, outDetail = ceMessage e \<rparr>,
              if src = FileSource
              then scheduleRetries (st\<lparr>msAwaiting := AList.update (cnName c) c (msAwaiting st)\<rparr>) else st)
         | Inr cx \<Rightarrow> (connected_outcome (cnName c) [], insert_connected env cx c src sig st))"

fun ensure_each :: "monitor_env \<Rightarrow> instance_config list \<Rightarrow> monitor_set \<Rightarrow> instance_outcome list \<times> monitor_set" where
  "ensure_each env [] st = ([], st)"
| "ensure_each env (c # cs) st =
     (let (out, st) = ensure env c FileSource (signatureOf c) st; (outs, st) = ensure_each env cs st
      in (out # outs, st))"

definition addLocal :: "monitor_env \<Rightarrow> instance_config list \<Rightarrow> monitor_set \<Rightarrow> instance_outcome list \<times> monitor_set" where
  "addLocal env cs st = ensure_each env cs st"

definition retryPending :: "monitor_env \<Rightarrow> monitor_set \<Rightarrow> monitor_set" where
  "retryPending env st =
     (let (_, st) = ensure_each env (map snd (msAwaiting st)) st
      in if msAwaiting st = [] then stopRetrying st else st)"

section \<open>Reconciliation\<close>

definition FILE_PRECEDENCE :: string where
  "FILE_PRECEDENCE = ''This instance is configured in worker.yaml on the host, which takes precedence.''"

definition reconcile_one :: "monitor_env \<Rightarrow> wire_config \<Rightarrow> monitor_set \<Rightarrow> instance_outcome \<times> monitor_set" where
  "reconcile_one env r st =
     (let existing = map_of (msEntries st) (wiInstanceName r)
      in if (case existing of None \<Rightarrow> False | Some e \<Rightarrow> enSource e = FileSource)
         then (connected_outcome (wiInstanceName r) FILE_PRECEDENCE, st)
         else case toInstanceConfig (seCredentials env) r of
           Inl (AwaitingCredential msg) \<Rightarrow>
             (\<lparr> outName = wiInstanceName r, outStatus = ''awaiting_credentials'', outDetail = msg \<rparr>, st)
         | Inl (ConfigRefused msg) \<Rightarrow>
             (\<lparr> outName = wiInstanceName r, outStatus = ''decrypt_failed'', outDetail = msg \<rparr>, st)
         | Inr c \<Rightarrow>
             (case existing of
                Some e \<Rightarrow>
                  if enSignature e = signatureOf c \<and> monConnected (enMonitor e)
                  then (connected_outcome (wiInstanceName r) [], st)
                  else ensure env c RemoteSource (signatureOf c) st
              | None \<Rightarrow> ensure env c RemoteSource (signatureOf c) st))"

fun reconcile_each :: "monitor_env \<Rightarrow> wire_config list \<Rightarrow> monitor_set \<Rightarrow> instance_outcome list \<times> monitor_set" where
  "reconcile_each env [] st = ([], st)"
| "reconcile_each env (r # rs) st =
     (let (out, st) = reconcile_one env r st; (outs, st) = reconcile_each env rs st in (out # outs, st))"

definition reconcileRemote :: "monitor_env \<Rightarrow> wire_config list \<Rightarrow> monitor_set \<Rightarrow> instance_outcome list \<times> monitor_set" where
  "reconcileRemote env wire st =
     (let (outs, st) = reconcile_each env wire st
      in (outs, st\<lparr>msEntries := filter (\<lambda>(name, e). \<not> (enSource e = RemoteSource \<and>
            name \<notin> set (map wiInstanceName wire))) (msEntries st)\<rparr>))"

section \<open>Queries and the rest of the operations\<close>

definition monitors :: "monitor_set \<Rightarrow> monitor list" where
  "monitors st = map (\<lambda>(_, e). enMonitor e) (msEntries st)"

definition get_monitor :: "string \<Rightarrow> monitor_set \<Rightarrow> monitor option" where
  "get_monitor name st = map_option enMonitor (map_of (msEntries st) name)"

definition awaitingFirstConnect :: "monitor_set \<Rightarrow> string list" where
  "awaitingFirstConnect st = map fst (msAwaiting st)"

definition instanceInfos :: "monitor_set \<Rightarrow> instance_info list" where
  "instanceInfos st = map (\<lambda>(_, e). enInfo e) (msEntries st)"

definition setIntervals :: "poll_intervals \<Rightarrow> monitor_set \<Rightarrow> monitor_set" where
  "setIntervals iv st = st\<lparr>msIntervals := Some iv\<rparr>"

definition startPollingAll :: "poll_intervals \<Rightarrow> monitor_set \<Rightarrow> monitor_set" where
  "startPollingAll iv st = st\<lparr>msIntervals := Some iv,
     msEntries := map (\<lambda>(name, e). (name, e\<lparr>enPolling := Some iv\<rparr>)) (msEntries st)\<rparr>"

definition closeAll :: "monitor_set \<Rightarrow> monitor_set" where
  "closeAll st = (stopRetrying st)\<lparr>msAwaiting := [], msEntries := []\<rparr>"

section \<open>Invariant of the set\<close>

text \<open>
  One entry per name and each for a connected monitor of that name, no instance both monitored and
  awaiting its first connection, and a retry timer whenever one is awaiting.
\<close>

definition set_ok :: "monitor_set \<Rightarrow> bool" where
  "set_ok st \<longleftrightarrow> distinct (map fst (msEntries st)) \<and> distinct (map fst (msAwaiting st)) \<and>
     fst ` set (msEntries st) \<inter> fst ` set (msAwaiting st) = {} \<and>
     (\<forall>(n, e) \<in> set (msEntries st). monConnected (enMonitor e) \<and> monInstance (enMonitor e) = n) \<and>
     (\<forall>(n, c) \<in> set (msAwaiting st). cnName c = n) \<and>
     (msAwaiting st \<noteq> [] \<longrightarrow> msRetrying st)"

lemma sendSnapshot_keeps:
  "sendSnapshot sha enc now i jobs fp mon lk = (mon', lk', t) \<Longrightarrow>
     monConnected mon' = monConnected mon \<and> monInstance mon' = monInstance mon"
  by (auto simp: sendSnapshot_def Let_def split: if_splits option.splits)

lemma insert_connected_shape:
  obtains e where "msEntries (insert_connected env cx c src sig st) = AList.update (cnName c) e (msEntries st)"
    and "msAwaiting (insert_connected env cx c src sig st) = AList.delete (cnName c) (msAwaiting st)"
    and "msRetrying (insert_connected env cx c src sig st) = msRetrying st"
    and "msIntervals (insert_connected env cx c src sig st) = msIntervals st"
    and "msDials (insert_connected env cx c src sig st) = msDials st"
    and "enSource e = src" "enSignature e = sig" "monConnected (enMonitor e)" "monInstance (enMonitor e) = cnName c"
proof -
  obtain mon lk where c: "connect_monitor (cxMaxHistoryId cx) (fresh_monitor (cnName c)) (msLink st) = (mon, lk)"
    by fastforce
  then have mon: "monConnected mon" "monInstance mon = cnName c"
    by (auto simp: connect_monitor_def fresh_monitor_def Let_def)
  show ?thesis
  proof (cases "msIntervals st")
    case None
    let ?e = "\<lparr> enMonitor = mon, enSource = src, enSignature = sig, enInfo = cxInfo cx, enPolling = None \<rparr>"
    show ?thesis by (rule that [of ?e]) (simp_all add: insert_connected_def c mon None)
  next
    case (Some iv)
    obtain mon' lk' t where s: "sendSnapshot (seSha env) (seEncode env) (cxNow cx) (cxSnapshotId cx) (cxJobs cx)
        (cxFingerprint cx) mon lk = (mon', lk', t)" using prod_cases3 by blast
    let ?e = "\<lparr> enMonitor = mon', enSource = src, enSignature = sig, enInfo = cxInfo cx,
        enPolling = (if t then None else Some iv) \<rparr>"
    from sendSnapshot_keeps [OF s] mon have "monConnected mon'" "monInstance mon' = cnName c" by simp_all
    then show ?thesis by (intro that [of ?e]) (simp_all add: insert_connected_def c Some s)
  qed
qed

lemma ensure_cases [consumes 1, case_names failed connected]:
  assumes "ensure env c src sig st = (out, st')"
  obtains e where "seDial env (msDials st) c = Inl e" "outName out = cnName c" "outStatus out = classifyConnectionError e"
      "msEntries st' = AList.delete (cnName c) (msEntries st)"
      "msAwaiting st' = (if src = FileSource then AList.update (cnName c) c (msAwaiting st) else msAwaiting st)"
      "msRetrying st' = (msRetrying st \<or> src = FileSource)" "msIntervals st' = msIntervals st"
      "msDials st' = Suc (msDials st)"
  | cx e where "seDial env (msDials st) c = Inr cx" "out = connected_outcome (cnName c) []"
      "msEntries st' = AList.update (cnName c) e (AList.delete (cnName c) (msEntries st))"
      "msAwaiting st' = AList.delete (cnName c) (msAwaiting st)"
      "msRetrying st' = msRetrying st" "msIntervals st' = msIntervals st" "msDials st' = Suc (msDials st)"
      "enSource e = src" "enSignature e = sig" "monConnected (enMonitor e)" "monInstance (enMonitor e) = cnName c"
proof (cases "seDial env (msDials st) c")
  case (Inl e)
  have "AList.update (cnName c) c (msAwaiting st) \<noteq> []"
    using dom_update [of "cnName c" c "msAwaiting st"] by auto
  with Inl assms show ?thesis
    by (intro that(1) [OF Inl]) (auto simp: ensure_def scheduleRetries_def Let_def split: if_splits)
next
  case (Inr cx)
  obtain e where "msEntries st' = AList.update (cnName c) e (AList.delete (cnName c) (msEntries st))"
    "msAwaiting st' = AList.delete (cnName c) (msAwaiting st)" "msRetrying st' = msRetrying st"
    "msIntervals st' = msIntervals st" "msDials st' = Suc (msDials st)"
    "enSource e = src" "enSignature e = sig" "monConnected (enMonitor e)" "monInstance (enMonitor e) = cnName c"
    using assms Inr
      insert_connected_shape [of env cx c src sig "st\<lparr>msEntries := AList.delete (cnName c) (msEntries st), msDials := Suc (msDials st)\<rparr>"]
    by (auto simp: ensure_def Let_def)
  with Inr assms show ?thesis by (intro that(2)) (simp_all add: ensure_def Let_def)
qed

lemma update_subset: "set (AList.update k v xs) \<subseteq> insert (k, v) (set xs)"
  by (induction xs) auto

lemma set_delete_iff: "x \<in> set (AList.delete k xs) \<longleftrightarrow> x \<in> set xs \<and> fst x \<noteq> k"
  by (auto simp: AList.delete_eq)

lemma entry_keys_update: "fst ` set (AList.update k v xs) = insert k (fst ` set xs)"
  using dom_update [of k v xs] by auto

lemma keys_delete: "fst ` set (AList.delete k xs) = fst ` set xs - {k}"
  by (auto simp: AList.delete_eq)

lemmas alist_keys = entry_keys_update keys_delete

lemma ensure_ok:
  assumes "set_ok st" and e: "ensure env c src sig st = (out, st')"
  shows "set_ok st'"
  using e
proof (cases rule: ensure_cases)
  case (failed e)
  have "\<forall>(n, x) \<in> set (AList.update (cnName c) c (msAwaiting st)). cnName x = n"
    using assms(1) update_subset [of "cnName c" c "msAwaiting st"] unfolding set_ok_def by fastforce
  with assms(1) failed show ?thesis
    by (auto simp: set_ok_def alist_keys distinct_delete distinct_update set_delete_iff simp del: set_map)
next
  case (connected cx e)
  let ?es = "AList.delete (cnName c) (msEntries st)"
  have "\<forall>(n, x) \<in> set (AList.update (cnName c) e ?es). monConnected (enMonitor x) \<and> monInstance (enMonitor x) = n"
    using assms(1) connected update_subset [of "cnName c" e ?es] unfolding set_ok_def
    by (fastforce simp: set_delete_iff)
  with assms(1) connected show ?thesis
    by (auto simp: set_ok_def alist_keys distinct_delete distinct_update set_delete_iff simp del: set_map)
qed

lemma ensure_each_ok: "set_ok st \<Longrightarrow> ensure_each env cs st = (outs, st') \<Longrightarrow> set_ok st'"
  by (induction cs arbitrary: st outs) (auto simp: Let_def dest: ensure_ok split: prod.splits)

lemma toInstanceConfig_name: "toInstanceConfig env r = Inr c \<Longrightarrow> cnName c = wiInstanceName r"
  by (auto simp: toInstanceConfig_def parse_config_def config_defaults_def Let_def
      split: prod.splits if_splits sum.splits)

lemma on_host:
  "(case x of None \<Rightarrow> False | Some e \<Rightarrow> enSource e = FileSource) \<longleftrightarrow> (\<exists>e. x = Some e \<and> enSource e = FileSource)"
  by (cases x) auto

text \<open>One configuration from the dashboard: refused or already in force, or an attempt to connect.\<close>

lemma not_file: "src \<noteq> FileSource \<Longrightarrow> src = RemoteSource"
  by (cases src) simp_all

lemma reconcile_one_cases [consumes 1, case_names unchanged ensured]:
  assumes "reconcile_one env r st = (out, st')"
  obtains "st' = st" "outName out = wiInstanceName r"
      "outStatus out = ''connected'' \<longrightarrow> (\<exists>e. map_of (msEntries st) (wiInstanceName r) = Some e \<and>
         (enSource e = FileSource \<and> outDetail out = FILE_PRECEDENCE \<or>
          enSource e = RemoteSource \<and> outDetail out = [] \<and> (\<exists>c. toInstanceConfig (seCredentials env) r = Inr c \<and>
            enSignature e = signatureOf c \<and> monConnected (enMonitor e))))"
  | c where "toInstanceConfig (seCredentials env) r = Inr c" "cnName c = wiInstanceName r"
      "ensure env c RemoteSource (signatureOf c) st = (out, st')"
      "\<And>e. map_of (msEntries st) (wiInstanceName r) = Some e \<Longrightarrow> enSource e = RemoteSource"
proof (cases "\<exists>e. map_of (msEntries st) (wiInstanceName r) = Some e \<and> enSource e = FileSource")
  case True
  with assms show ?thesis by (intro that(1)) (auto simp: reconcile_one_def on_host connected_outcome_def)
next
  case False
  then have remote: "enSource e = RemoteSource" if "map_of (msEntries st) (wiInstanceName r) = Some e" for e
    using that by (cases "enSource e") auto
  show ?thesis
  proof (cases "toInstanceConfig (seCredentials env) r")
    case (Inl x)
    with assms False show ?thesis
      by (intro that(1)) (auto simp: reconcile_one_def on_host split: instance_config_refusal.splits)
  next
    case (Inr c)
    note n = toInstanceConfig_name [OF Inr]
    show ?thesis
    proof (cases "\<exists>e. map_of (msEntries st) (wiInstanceName r) = Some e \<and> enSignature e = signatureOf c \<and>
        monConnected (enMonitor e)")
      case True
      with assms False Inr show ?thesis
        by (intro that(1)) (auto intro: not_file simp: reconcile_one_def on_host connected_outcome_def)
    next
      case no: False
      from assms False Inr no have "ensure env c RemoteSource (signatureOf c) st = (out, st')"
        by (auto simp: reconcile_one_def on_host split: option.splits if_splits)
      with Inr n remote show ?thesis by (intro that(2))
    qed
  qed
qed

lemma reconcile_one_ok: "set_ok st \<Longrightarrow> reconcile_one env r st = (out, st') \<Longrightarrow> set_ok st'"
  by (erule reconcile_one_cases) (auto dest: ensure_ok)

lemma reconcile_each_ok: "set_ok st \<Longrightarrow> reconcile_each env rs st = (outs, st') \<Longrightarrow> set_ok st'"
  by (induction rs arbitrary: st outs) (auto simp: Let_def dest: reconcile_one_ok split: prod.splits)

lemma set_ok_filter: "set_ok st \<Longrightarrow> set_ok (st\<lparr>msEntries := filter P (msEntries st)\<rparr>)"
  by (auto simp: set_ok_def distinct_map_filter simp del: set_map)

lemma reconcileRemote_ok: "set_ok st \<Longrightarrow> set_ok (snd (reconcileRemote env wire st))"
  by (auto simp: reconcileRemote_def Let_def intro!: set_ok_filter dest: reconcile_each_ok split: prod.splits)

lemma set_ok_stop: "set_ok st \<Longrightarrow> msAwaiting st = [] \<Longrightarrow> set_ok (stopRetrying st)"
  by (simp add: set_ok_def stopRetrying_def)

lemma retryPending_ok: "set_ok st \<Longrightarrow> set_ok (retryPending env st)"
  by (auto simp: retryPending_def Let_def dest: ensure_each_ok intro: set_ok_stop split: prod.splits)

datatype set_op =
    AddLocal "instance_config list" | RetryPending | Reconcile "wire_config list"
  | SetIntervals poll_intervals | StartPollingAll poll_intervals | CloseAll

fun set_step :: "monitor_env \<Rightarrow> set_op \<Rightarrow> monitor_set \<Rightarrow> monitor_set" where
  "set_step env (AddLocal cs) st = snd (addLocal env cs st)"
| "set_step env RetryPending st = retryPending env st"
| "set_step env (Reconcile wire) st = snd (reconcileRemote env wire st)"
| "set_step env (SetIntervals iv) st = setIntervals iv st"
| "set_step env (StartPollingAll iv) st = startPollingAll iv st"
| "set_step env CloseAll st = closeAll st"

definition empty_set :: "link \<Rightarrow> monitor_set" where
  "empty_set lk = \<lparr> msEntries = [], msIntervals = None, msAwaiting = [], msRetrying = False, msDials = 0, msLink = lk \<rparr>"

lemma addLocal_ok: "set_ok st \<Longrightarrow> set_ok (snd (addLocal env cs st))"
  unfolding addLocal_def by (rule ensure_each_ok [of st env cs "fst (ensure_each env cs st)"]) simp_all

lemma setIntervals_ok: "set_ok st \<Longrightarrow> set_ok (setIntervals iv st)"
  by (simp add: set_ok_def setIntervals_def)

lemma startPollingAll_ok: "set_ok st \<Longrightarrow> set_ok (startPollingAll iv st)"
  by (auto simp: set_ok_def startPollingAll_def comp_def case_prod_unfold image_image)

lemma closeAll_ok: "set_ok (closeAll st)"
  by (simp add: set_ok_def closeAll_def)

lemma set_step_ok: "set_ok st \<Longrightarrow> set_ok (set_step env op st)"
  by (cases op) (simp_all add: addLocal_ok retryPending_ok reconcileRemote_ok setIntervals_ok startPollingAll_ok closeAll_ok)

lemma set_run_ok: "set_ok st \<Longrightarrow> set_ok (foldl (\<lambda>st op. set_step env op st) st ops)"
  by (induction ops arbitrary: st) (simp_all add: set_step_ok)

section \<open>What a reconciliation may touch\<close>

lemma map_of_update_delete:
  "map_of (AList.update k v (AList.delete k xs)) = (map_of xs)(k \<mapsto> v)"
  by (simp add: update_conv' delete_conv')

lemma ensure_frame:
  assumes "ensure env c src sig st = (out, st')" and "n \<noteq> cnName c"
  shows "map_of (msEntries st') n = map_of (msEntries st) n" "map_of (msAwaiting st') n = map_of (msAwaiting st) n"
  using assms by (cases rule: ensure_cases, auto simp: update_conv' delete_conv')+

lemma reconcile_one_frame:
  assumes "reconcile_one env r st = (out, st')" and "n \<noteq> wiInstanceName r"
  shows "map_of (msEntries st') n = map_of (msEntries st) n" "map_of (msAwaiting st') n = map_of (msAwaiting st) n"
  using assms by (cases rule: reconcile_one_cases, auto dest: ensure_frame)+

lemma reconcile_each_frame:
  "reconcile_each env rs st = (outs, st') \<Longrightarrow> n \<notin> wiInstanceName ` set rs \<Longrightarrow>
     map_of (msEntries st') n = map_of (msEntries st) n \<and> map_of (msAwaiting st') n = map_of (msAwaiting st) n"
  by (induction rs arbitrary: st outs) (auto simp: Let_def reconcile_one_frame split: prod.splits)

text \<open>The entry of a file instance, and whether it has one, is out of reach.\<close>

lemma reconcile_one_file:
  assumes "reconcile_one env r st = (out, st')" and "enSource e = FileSource"
  shows "map_of (msEntries st') n = Some e \<longleftrightarrow> map_of (msEntries st) n = Some e"
  using assms(1)
proof (cases rule: reconcile_one_cases)
  case (ensured c)
  show ?thesis
  proof (cases "n = wiInstanceName r")
    case True
    with ensured(4) assms(2) have "map_of (msEntries st) n \<noteq> Some e" by auto
    moreover have "map_of (msEntries st') n \<noteq> Some e"
      using ensured(3) True ensured(2) assms(2) by (cases rule: ensure_cases) (auto simp: update_conv' delete_conv')
    ultimately show ?thesis by simp
  qed (use assms(1) in \<open>simp add: reconcile_one_frame\<close>)
qed simp

lemma reconcile_each_file:
  "reconcile_each env rs st = (outs, st') \<Longrightarrow> enSource e = FileSource \<Longrightarrow>
     map_of (msEntries st') n = Some e \<longleftrightarrow> map_of (msEntries st) n = Some e"
  by (induction rs arbitrary: st outs) (auto simp: Let_def reconcile_one_file split: prod.splits)

lemma reconcile_each_names:
  "reconcile_each env rs st = (outs, st') \<Longrightarrow> map outName outs = map wiInstanceName rs"
proof (induction rs arbitrary: st outs)
  case (Cons r rs)
  obtain o1 st1 where 1: "reconcile_one env r st = (o1, st1)" by fastforce
  then have "outName o1 = wiInstanceName r"
    by (cases rule: reconcile_one_cases) (auto elim!: ensure_cases simp: connected_outcome_def)
  with Cons 1 show ?case by (auto simp: Let_def split: prod.splits)
qed simp

text \<open>
  The configuration \<open>r\<close> is in force: its monitor is connected with the settings of \<open>r\<close>. An entry of
  worker.yaml with its name overrides it instead.
\<close>

definition in_force :: "monitor_env \<Rightarrow> wire_config \<Rightarrow> monitor_set \<Rightarrow> bool" where
  "in_force env r st \<longleftrightarrow> (\<exists>e c. map_of (msEntries st) (wiInstanceName r) = Some e \<and> enSource e = RemoteSource \<and>
     toInstanceConfig (seCredentials env) r = Inr c \<and> enSignature e = signatureOf c \<and> monConnected (enMonitor e))"

definition overridden :: "wire_config \<Rightarrow> monitor_set \<Rightarrow> bool" where
  "overridden r st \<longleftrightarrow> (\<exists>e. map_of (msEntries st) (wiInstanceName r) = Some e \<and> enSource e = FileSource)"

text \<open>What the detail of an outcome \<open>connected\<close> says is so.\<close>

definition connected_means :: "monitor_env \<Rightarrow> wire_config \<Rightarrow> string \<Rightarrow> monitor_set \<Rightarrow> bool" where
  "connected_means env r why st \<longleftrightarrow>
     why = FILE_PRECEDENCE \<and> overridden r st \<or> why = [] \<and> in_force env r st"

lemma not_connected [simp]: "classifyConnectionError e \<noteq> ''connected''"
  by (simp add: classifyConnectionError_def)

lemma reconcile_one_connected:
  assumes "reconcile_one env r st = (out, st')" and "outStatus out = ''connected''"
  shows "connected_means env r (outDetail out) st'"
  using assms(1)
proof (cases rule: reconcile_one_cases)
  case unchanged
  then obtain e where e: "map_of (msEntries st) (wiInstanceName r) = Some e"
    "enSource e = FileSource \<and> outDetail out = FILE_PRECEDENCE \<or>
     enSource e = RemoteSource \<and> outDetail out = [] \<and> (\<exists>c. toInstanceConfig (seCredentials env) r = Inr c \<and>
       enSignature e = signatureOf c \<and> monConnected (enMonitor e))"
    using assms(2) by blast
  then show ?thesis
    by (cases "enSource e") (auto simp: connected_means_def overridden_def in_force_def unchanged(1))
next
  case (ensured c)
  from ensured(3) show ?thesis
  proof (cases rule: ensure_cases)
    case (failed e)
    with assms(2) show ?thesis by simp
  next
    case (connected cx e)
    with ensured(1,2) show ?thesis
      by (auto simp: connected_means_def connected_outcome_def in_force_def map_of_update_delete)
  qed
qed

lemma connected_means_cong:
  "map_of (msEntries st') (wiInstanceName r) = map_of (msEntries st) (wiInstanceName r) \<Longrightarrow>
     connected_means env r why st' = connected_means env r why st"
  by (simp add: connected_means_def overridden_def in_force_def)

lemma reconcile_each_connected:
  "reconcile_each env rs st = (outs, st') \<Longrightarrow> distinct (map wiInstanceName rs) \<Longrightarrow>
     (r, out) \<in> set (zip rs outs) \<Longrightarrow> outStatus out = ''connected'' \<Longrightarrow> connected_means env r (outDetail out) st'"
proof (induction rs arbitrary: st outs)
  case (Cons r' rs)
  obtain o1 st1 where 1: "reconcile_one env r' st = (o1, st1)" by fastforce
  obtain os where 2: "reconcile_each env rs st1 = (os, st')" and outs: "outs = o1 # os"
    using Cons.prems(1) 1 by (auto simp: Let_def split: prod.splits)
  show ?case
  proof (cases "(r, out) \<in> set (zip rs os)")
    case True
    with Cons.IH [OF 2] Cons.prems show ?thesis by simp
  next
    case False
    with Cons.prems(3) outs have r: "r = r'" "out = o1" by auto
    with 1 Cons.prems(4) have "connected_means env r (outDetail out) st1" by (simp add: reconcile_one_connected)
    with reconcile_each_frame [OF 2, of "wiInstanceName r"] Cons.prems(2) r show ?thesis
      using connected_means_cong [of st' r st1] by simp
  qed
qed simp

text \<open>Looking up a key in a table from which rows were removed.\<close>

lemma lookup_removed:
  assumes "distinct (map fst table)"
  shows "map_of (filter (\<lambda>row. \<not> gone row) table) key =
    (case map_of table key of Some v \<Rightarrow> if gone (key, v) then None else Some v | None \<Rightarrow> None)"
  using assms
proof (induction table)
  case (Cons row table)
  obtain a v where row: "row = (a, v)" by fastforce
  have "map_of table a = None" using Cons.prems row by (simp add: map_of_eq_None_iff)
  with Cons row show ?case by (cases "key = a") simp_all
qed simp

definition dropped :: "wire_config list \<Rightarrow> string \<times> monitor_entry \<Rightarrow> bool" where
  "dropped wire x \<longleftrightarrow> enSource (snd x) = RemoteSource \<and> fst x \<notin> set (map wiInstanceName wire)"

lemma reconcileRemote_eq:
  "reconcileRemote env wire st = (outs, st') \<longleftrightarrow> (\<exists>st1. reconcile_each env wire st = (outs, st1) \<and>
     st' = st1\<lparr>msEntries := filter (\<lambda>x. \<not> dropped wire x) (msEntries st1)\<rparr>)"
  by (cases "reconcile_each env wire st")
    (auto simp: reconcileRemote_def dropped_def case_prod_unfold simp del: set_map)

lemma reconcileRemote_lookup:
  assumes "set_ok st" and "reconcile_each env wire st = (outs, st1)"
  shows "map_of (filter (\<lambda>x. \<not> dropped wire x) (msEntries st1)) n =
     (case map_of (msEntries st1) n of None \<Rightarrow> None | Some e \<Rightarrow> if dropped wire (n, e) then None else Some e)"
  using reconcile_each_ok [OF assms] by (subst lookup_removed) (auto simp: set_ok_def split: option.splits)

lemma reconcileRemote_facts:
  assumes "set_ok st" and "distinct (map wiInstanceName wire)" and "reconcileRemote env wire st = (outs, st')"
  shows "map outName outs = map wiInstanceName wire"
    and "(r, out) \<in> set (zip wire outs) \<Longrightarrow> outStatus out = ''connected'' \<Longrightarrow> connected_means env r (outDetail out) st'"
proof -
  obtain st1 where 1: "reconcile_each env wire st = (outs, st1)"
    and st': "st' = st1\<lparr>msEntries := filter (\<lambda>x. \<not> dropped wire x) (msEntries st1)\<rparr>"
    using assms(3) reconcileRemote_eq by blast
  show "map outName outs = map wiInstanceName wire" by (rule reconcile_each_names [OF 1])
  assume z: "(r, out) \<in> set (zip wire outs)" and "outStatus out = ''connected''"
  then have "connected_means env r (outDetail out) st1" using reconcile_each_connected [OF 1 assms(2)] by blast
  moreover have "wiInstanceName r \<in> wiInstanceName ` set wire" using set_zip_leftD [OF z] by simp
  then have "map_of (msEntries st') (wiInstanceName r) = map_of (msEntries st1) (wiInstanceName r)"
    using reconcileRemote_lookup [OF assms(1) 1, of "wiInstanceName r"]
    by (simp add: st' dropped_def split: option.splits)
  ultimately show "connected_means env r (outDetail out) st'" using connected_means_cong by blast
qed

text \<open>
  C23. In every reachable state of a worker's set, reconciling with what the control plane sends answers
  each configuration once and in order, leaves every entry from worker.yaml (an instance that has
  connected) exactly as it was and creates none, leaves no dashboard entry that is not listed, and keeps
  every unlisted instance of the host that is still being retried. A configuration reported as connected
  is in force, its own monitor connected with its settings, unless the detail says that worker.yaml takes
  precedence, and then an entry of worker.yaml has its name. The set stays well formed.
\<close>

theorem reconcile_honours_file:
  assumes "st = foldl (\<lambda>st op. set_step env op st) (empty_set lk) ops"
    and "distinct (map wiInstanceName wire)" and "reconcileRemote env wire st = (outs, st')"
  shows "set_ok st' \<and> map outName outs = map wiInstanceName wire \<and>
    (\<forall>n e. enSource e = FileSource \<longrightarrow> map_of (msEntries st') n = Some e \<longleftrightarrow> map_of (msEntries st) n = Some e) \<and>
    (\<forall>n e. map_of (msEntries st') n = Some e \<and> enSource e = RemoteSource \<longrightarrow> n \<in> wiInstanceName ` set wire) \<and>
    (\<forall>n. n \<notin> wiInstanceName ` set wire \<longrightarrow> map_of (msAwaiting st') n = map_of (msAwaiting st) n) \<and>
    (\<forall>(r, out) \<in> set (zip wire outs). outStatus out = ''connected'' \<longrightarrow> connected_means env r (outDetail out) st')"
proof -
  have ok: "set_ok st" unfolding assms(1) by (rule set_run_ok) (simp add: set_ok_def empty_set_def)
  obtain st1 where 1: "reconcile_each env wire st = (outs, st1)"
    and st': "st' = st1\<lparr>msEntries := filter (\<lambda>x. \<not> dropped wire x) (msEntries st1)\<rparr>"
    using assms(3) reconcileRemote_eq by blast
  have look: "map_of (msEntries st') n = (case map_of (msEntries st1) n of None \<Rightarrow> None
      | Some e \<Rightarrow> if dropped wire (n, e) then None else Some e)" for n
    using reconcileRemote_lookup [OF ok 1] by (simp add: st')
  have on_file: "map_of (msEntries st') n = Some e \<longleftrightarrow> map_of (msEntries st) n = Some e" if "enSource e = FileSource" for n e
    using reconcile_each_file [OF 1 that, of n] that by (auto simp: look dropped_def split: option.splits)
  have remote: "n \<in> wiInstanceName ` set wire" if "map_of (msEntries st') n = Some e" "enSource e = RemoteSource" for n e
    using that by (auto simp: look dropped_def split: option.splits if_splits)
  have force: "connected_means env r (outDetail out) st'" if "(r, out) \<in> set (zip wire outs)" "outStatus out = ''connected''" for r out
    using reconcileRemote_facts(2) [OF ok assms(2,3) that] .
  have await: "map_of (msAwaiting st') n = map_of (msAwaiting st) n" if "n \<notin> wiInstanceName ` set wire" for n
    using reconcile_each_frame [OF 1 that] by (simp add: st')
  show ?thesis
    using reconcileRemote_ok [OF ok, of env wire] reconcile_each_names [OF 1] on_file remote await force assms(3) by auto
qed

text \<open>The statuses a reconciliation can report.\<close>

lemma reconcile_one_status:
  assumes "reconcile_one env r st = (out, st')"
  shows "outStatus out \<in> {''connected'', ''auth_failed'', ''unreachable'', ''decrypt_failed'', ''awaiting_credentials''}"
  using assms
  by (auto simp: reconcile_one_def ensure_def connected_outcome_def classifyConnectionError_def Let_def
      split: if_splits option.splits sum.splits instance_config_refusal.splits)

lemma reconcile_each_status:
  "reconcile_each env rs st = (outs, st') \<Longrightarrow> out \<in> set outs \<Longrightarrow>
     outStatus out \<in> {''connected'', ''auth_failed'', ''unreachable'', ''decrypt_failed'', ''awaiting_credentials''}"
proof (induction rs arbitrary: st outs)
  case (Cons r rs)
  obtain o1 st1 os where 1: "reconcile_one env r st = (o1, st1)" and 2: "reconcile_each env rs st1 = (os, st')"
    and outs: "outs = o1 # os"
    using Cons.prems(1) by (auto simp: Let_def split: prod.splits)
  show ?case
  proof (cases "out = o1")
    case True
    with reconcile_one_status [OF 1] show ?thesis by simp
  next
    case False
    with Cons.IH [OF 2] Cons.prems(2) outs show ?thesis by simp
  qed
qed simp

section \<open>Instances of the host are kept\<close>

text \<open>Monitored as an instance of the host, or still being retried.\<close>

definition kept_by_host :: "string \<Rightarrow> monitor_set \<Rightarrow> bool" where
  "kept_by_host n st \<longleftrightarrow> (\<exists>e. map_of (msEntries st) n = Some e \<and> enSource e = FileSource) \<or> n \<in> fst ` set (msAwaiting st)"

lemma key_lookup: "n \<in> fst ` set xs \<longleftrightarrow> map_of xs n \<noteq> None"
  by (simp add: map_of_eq_None_iff)

lemma kept_cong:
  "map_of (msEntries st') n = map_of (msEntries st) n \<Longrightarrow> map_of (msAwaiting st') n = map_of (msAwaiting st) n \<Longrightarrow>
     kept_by_host n st' \<longleftrightarrow> kept_by_host n st"
  by (simp add: kept_by_host_def key_lookup)

lemma ensure_kept:
  assumes "ensure env c FileSource sig st = (out, st')" and "kept_by_host n st \<or> n = cnName c"
  shows "kept_by_host n st'"
proof (cases "n = cnName c")
  case True
  from assms(1) True show ?thesis
    by (cases rule: ensure_cases) (auto simp: kept_by_host_def alist_keys map_of_update_delete simp del: set_map)
next
  case False
  with assms kept_cong [OF ensure_frame [OF assms(1) False]] show ?thesis by blast
qed

lemma ensure_each_kept:
  "ensure_each env cs st = (outs, st') \<Longrightarrow> kept_by_host n st \<or> n \<in> cnName ` set cs \<Longrightarrow> kept_by_host n st'"
proof (induction cs arbitrary: st outs)
  case (Cons c cs)
  obtain o1 st1 os where 1: "ensure env c FileSource (signatureOf c) st = (o1, st1)"
    and 2: "ensure_each env cs st1 = (os, st')"
    using Cons.prems(1) by (auto simp: Let_def split: prod.splits)
  from Cons.prems(2) ensure_kept [OF 1, of n] have "kept_by_host n st1 \<or> n \<in> cnName ` set cs" by auto
  with Cons.IH [OF 2] show ?case .
qed auto

lemma reconcileRemote_kept:
  assumes "set_ok st" and "kept_by_host n st" and "n \<notin> wiInstanceName ` set wire"
  shows "kept_by_host n (snd (reconcileRemote env wire st))"
proof -
  obtain outs st' where r: "reconcileRemote env wire st = (outs, st')" by fastforce
  then obtain st1 where 1: "reconcile_each env wire st = (outs, st1)"
    and st': "st' = st1\<lparr>msEntries := filter (\<lambda>x. \<not> dropped wire x) (msEntries st1)\<rparr>"
    using reconcileRemote_eq by blast
  have "kept_by_host n st1" using kept_cong assms(2) reconcile_each_frame [OF 1 assms(3)] by blast
  then show ?thesis
    using reconcileRemote_lookup [OF assms(1) 1, of n] by (auto simp: kept_by_host_def r st' dropped_def)
qed

lemma set_step_kept:
  assumes "set_ok st" and "kept_by_host n st" and "op \<noteq> CloseAll"
    and "\<And>wire. op = Reconcile wire \<Longrightarrow> n \<notin> wiInstanceName ` set wire"
  shows "kept_by_host n (set_step env op st)"
proof (cases op)
  case (AddLocal cs)
  with assms(2) ensure_each_kept [of env cs st "fst (ensure_each env cs st)"] show ?thesis by (simp add: addLocal_def)
next
  case RetryPending
  obtain outs st1 where 1: "ensure_each env (map snd (msAwaiting st)) st = (outs, st1)" by fastforce
  have "kept_by_host n st1" using ensure_each_kept [OF 1] assms(2) by blast
  then show ?thesis by (auto simp: RetryPending retryPending_def 1 stopRetrying_def kept_by_host_def)
next
  case (StartPollingAll iv)
  with assms(2) show ?thesis by (auto simp: kept_by_host_def startPollingAll_def map_of_map [unfolded comp_def])
next
  case (Reconcile wire)
  with assms show ?thesis by (simp add: reconcileRemote_kept)
qed (use assms in \<open>auto simp: setIntervals_def kept_by_host_def\<close>)

lemma set_run_kept:
  "set_ok st \<Longrightarrow> kept_by_host n st \<Longrightarrow> CloseAll \<notin> set ops \<Longrightarrow>
     \<forall>wire. Reconcile wire \<in> set ops \<longrightarrow> n \<notin> wiInstanceName ` set wire \<Longrightarrow>
     kept_by_host n (foldl (\<lambda>st op. set_step env op st) st ops)"
proof (induction ops arbitrary: st)
  case (Cons op ops)
  have "kept_by_host n (set_step env op st)" using Cons.prems by (intro set_step_kept) auto
  moreover have "set_ok (set_step env op st)" using Cons.prems(1) by (rule set_step_ok)
  ultimately show ?case using Cons by simp
qed simp

text \<open>
  An instance listed in worker.yaml is monitored or still being retried, with the timer running,
  whatever happens later, until the worker shuts down or the dashboard configures an instance of the
  same name.
\<close>

theorem file_instance_persists:
  assumes "c \<in> set cs" and "CloseAll \<notin> set ops"
    and "\<forall>wire. Reconcile wire \<in> set ops \<longrightarrow> cnName c \<notin> wiInstanceName ` set wire"
    and "st = foldl (\<lambda>st op. set_step env op st) (empty_set lk) (AddLocal cs # ops)"
  shows "(\<exists>e. map_of (msEntries st) (cnName c) = Some e \<and> enSource e = FileSource \<and> monConnected (enMonitor e)) \<or>
    (cnName c \<in> set (awaitingFirstConnect st) \<and> msRetrying st)"
proof -
  have empty: "set_ok (empty_set lk)" by (simp add: set_ok_def empty_set_def)
  have "set_ok st" unfolding assms(4) by (rule set_run_ok [OF empty])
  moreover have "kept_by_host (cnName c) st"
  proof -
    have "kept_by_host (cnName c) (set_step env (AddLocal cs) (empty_set lk))"
      using ensure_each_kept [of env cs "empty_set lk" "fst (ensure_each env cs (empty_set lk))"] assms(1)
      by (simp add: addLocal_def)
    from set_run_kept [OF set_step_ok [OF empty] this assms(2,3)] show ?thesis by (simp add: assms(4))
  qed
  ultimately show ?thesis
    by (auto simp: kept_by_host_def set_ok_def awaitingFirstConnect_def dest!: map_of_SomeD)
qed

section \<open>Settled configurations\<close>

lemma signatureOf_inject:
  "signatureOf c = signatureOf d \<longleftrightarrow> cnServer c = cnServer d \<and> cnPort c = cnPort d \<and> cnUser c = cnUser d \<and>
     cnPassword c = cnPassword d \<and> cnEncrypt c = cnEncrypt d \<and>
     cnTrustServerCertificate c = cnTrustServerCertificate d"
proof -
  have "signatureOf c = signatureOf d \<longleftrightarrow>
      [JStr (cnServer c), json_or_null JNum (cnPort c), json_or_null JStr (cnUser c),
       json_or_null JStr (cnPassword c), JBool (cnEncrypt c), JBool (cnTrustServerCertificate c)] =
      [JStr (cnServer d), json_or_null JNum (cnPort d), json_or_null JStr (cnUser d),
       json_or_null JStr (cnPassword d), JBool (cnEncrypt d), JBool (cnTrustServerCertificate d)]"
    unfolding signatureOf_def stringify_inject by simp
  then show ?thesis by (auto simp: json_or_null_def split: option.splits)
qed

lemma reconcile_one_settled:
  assumes "in_force env r st \<or> overridden r st"
  shows "\<exists>out. reconcile_one env r st = (out, st) \<and> outStatus out = ''connected''"
proof -
  obtain e where e: "map_of (msEntries st) (wiInstanceName r) = Some e"
    and how: "enSource e = FileSource \<or> (\<exists>c. toInstanceConfig (seCredentials env) r = Inr c \<and>
        enSignature e = signatureOf c \<and> monConnected (enMonitor e))"
    using assms by (auto simp: in_force_def overridden_def)
  then show ?thesis by (cases "enSource e") (auto simp: reconcile_one_def on_host connected_outcome_def)
qed

lemma reconcile_each_settled:
  "\<forall>r \<in> set rs. in_force env r st \<or> overridden r st \<Longrightarrow>
     \<exists>outs. reconcile_each env rs st = (outs, st) \<and> (\<forall>out \<in> set outs. outStatus out = ''connected'')"
proof (induction rs)
  case (Cons r rs)
  then obtain o1 os where "reconcile_one env r st = (o1, st)" "outStatus o1 = ''connected''"
    "reconcile_each env rs st = (os, st)" "\<forall>out \<in> set os. outStatus out = ''connected''"
    using reconcile_one_settled [of env r st] by auto
  then show ?case by (intro exI [of _ "o1 # os"]) simp
qed simp

text \<open>
  Once every configuration is connected, sending the same ones again changes nothing: no connection
  is made, no entry replaced and every outcome is again \<open>connected\<close>.
\<close>

lemma reconcile_again:
  assumes "\<forall>r \<in> set wire. in_force env r st \<or> overridden r st" and "\<forall>x \<in> set (msEntries st). \<not> dropped wire x"
  shows "snd (reconcileRemote env wire st) = st \<and>
    (\<forall>out \<in> set (fst (reconcileRemote env wire st)). outStatus out = ''connected'')"
proof -
  obtain outs where r: "reconcile_each env wire st = (outs, st)" "\<forall>out \<in> set outs. outStatus out = ''connected''"
    using reconcile_each_settled [OF assms(1)] by blast
  then have "reconcileRemote env wire st = (outs, st\<lparr>msEntries := filter (\<lambda>x. \<not> dropped wire x) (msEntries st)\<rparr>)"
    using reconcileRemote_eq by blast
  with r assms(2) show ?thesis by simp
qed

section \<open>Two gaps\<close>

text \<open>
  An instance of worker.yaml that has not connected yet is no entry, so a configuration of the same
  name from the dashboard is not refused: once it connects the instance is no longer retried, and it
  belongs to the dashboard, which can then remove it.
\<close>

lemma awaiting_instance_taken_over:
  assumes "set_ok st" and "map_of (msAwaiting st) (wiInstanceName r) = Some file_config"
    and "toInstanceConfig (seCredentials env) r = Inr c" and "seDial env (msDials st) c = Inr cx"
    and "reconcileRemote env [r] st = (outs, st1)" and "reconcileRemote env [] st1 = (outs', st2)"
  shows "wiInstanceName r \<notin> set (awaitingFirstConnect st2) \<and> get_monitor (wiInstanceName r) st2 = None"
proof -
  note n = toInstanceConfig_name [OF assms(3)]
  obtain out st0 where 1: "reconcile_one env r st = (out, st0)" by fastforce
  have free: "map_of (msEntries st) (wiInstanceName r) = None"
  proof -
    have "wiInstanceName r \<in> fst ` set (msAwaiting st)" using key_lookup assms(2) by fastforce
    then have "wiInstanceName r \<notin> fst ` set (msEntries st)" using assms(1) unfolding set_ok_def by blast
    then show ?thesis by (simp add: map_of_eq_None_iff)
  qed
  have e: "ensure env c RemoteSource (signatureOf c) st = (out, st0)"
    using 1 free assms(3) by (simp add: reconcile_one_def)
  from e obtain m where m: "map_of (msEntries st0) (wiInstanceName r) = Some m" "enSource m = RemoteSource"
      and gone: "map_of (msAwaiting st0) (wiInstanceName r) = None"
    by (cases rule: ensure_cases) (use assms(4) n in \<open>auto simp: map_of_update_delete delete_conv'\<close>)
  have each: "reconcile_each env [r] st = ([out], st0)" "reconcile_each env [] st1 = ([], st1)" using 1 by simp_all
  have ok: "set_ok st1" using reconcileRemote_ok [OF assms(1), of env "[r]"] assms(5) by simp
  have st1: "st1 = st0\<lparr>msEntries := filter (\<lambda>x. \<not> dropped [r] x) (msEntries st0)\<rparr>"
    and st2: "st2 = st1\<lparr>msEntries := filter (\<lambda>x. \<not> dropped [] x) (msEntries st1)\<rparr>"
    using assms(5,6) each by (simp_all add: reconcileRemote_eq)
  have "map_of (msEntries st1) (wiInstanceName r) = Some m"
    using reconcileRemote_lookup [OF assms(1) each(1), of "wiInstanceName r"] m
    unfolding st1 by (simp add: dropped_def)
  then have "map_of (msEntries st2) (wiInstanceName r) = None"
    using reconcileRemote_lookup [OF ok each(2), of "wiInstanceName r"] m
    unfolding st2 by (simp add: dropped_def)
  moreover have "msAwaiting st2 = msAwaiting st0" unfolding st2 st1 by simp
  ultimately show ?thesis
    using gone by (simp add: get_monitor_def awaitingFirstConnect_def map_of_eq_None_iff)
qed

text \<open>
  An instance added while the worker runs, whose first snapshot fails, is reported as connected and
  never polled.
\<close>

lemma failed_first_snapshot_unpolled:
  assumes "seDial env (msDials st) c = Inr cx" and "msIntervals st = Some iv" and "cxJobs cx = None"
  shows "\<exists>out st' e. ensure env c src sig st = (out, st') \<and> outStatus out = ''connected'' \<and>
    map_of (msEntries st') (cnName c) = Some e \<and> enPolling e = None"
  using assms
  by (auto simp: ensure_def insert_connected_def connect_monitor_def sendSnapshot_def fresh_monitor_def
      connected_outcome_def map_of_update_delete Let_def)

section \<open>A concrete worker\<close>

definition wired :: "string \<Rightarrow> string \<Rightarrow> wire_config" where
  "wired name addr = \<lparr> wiInstanceName = name, wiServerAddress = addr, wiAuthMode = ''windows'', wiLoginName = [],
     wiCredentialCiphertext = [], wiCredentialKeyFingerprint = [], wiEncryptTls = True, wiTrustServerCertificate = False,
     wiEnvironmentTag = [] \<rparr>"

definition some_connection :: connection where
  "some_connection = \<lparr> cxMaxHistoryId = 0, cxInfo = \<lparr> infoName = ''a'', infoServerName = [], infoSqlVersion = [],
     infoSqlEdition = [], infoAgentStatus = [], infoWriteMode = None \<rparr>, cxNow = 0, cxSnapshotId = ''s'',
     cxJobs = Some [], cxFingerprint = Some (0, None) \<rparr>"

text \<open>The first attempt of all fails, every later one succeeds.\<close>

definition sample_env :: monitor_env where
  "sample_env = \<lparr> seSha = (\<lambda>s. s), seEncode = (\<lambda>_. []),
     seDial = (\<lambda>n c. if n = 0 then Inl \<lparr> ceCode = None, ceNumber = None, ceMessage = ''Login failed for user'' \<rparr>
        else Inr some_connection),
     seCredentials = \<lparr> keyFingerprint = [], openCredential = (\<lambda>_. Inr None), schemaRefusal = (\<lambda>_. []) \<rparr> \<rparr>"

definition sample_ops :: "set_op list" where
  "sample_ops = [AddLocal [config_defaults ''a'' ''db1'' None True False], RetryPending, Reconcile [wired ''b'' ''db2'']]"

lemma reconcile_honours_file_witness:
  "let st = foldl (\<lambda>st op. set_step sample_env op st) (empty_set sample_link) sample_ops;
       st' = snd (reconcileRemote sample_env [wired ''a'' ''db9'', wired ''c'' ''db3,1433''] st)
   in set_ok st' \<and> map fst (msEntries st) = [''a'', ''b''] \<and> map fst (msEntries st') = [''a'', ''c''] \<and>
      map_of (msEntries st') ''a'' = map_of (msEntries st) ''a''"
proof -
  let ?st = "foldl (\<lambda>st op. set_step sample_env op st) (empty_set sample_link) sample_ops"
  let ?wire = "[wired ''a'' ''db9'', wired ''c'' ''db3,1433'']"
  have st: "map fst (msEntries ?st) = [''a'', ''b'']" "map fst (msEntries (snd (reconcileRemote sample_env ?wire ?st))) = [''a'', ''c'']"
    "map_option enSource (map_of (msEntries ?st) ''a'') = Some FileSource"
    by code_simp+
  obtain outs st' where r: "reconcileRemote sample_env ?wire ?st = (outs, st')" by fastforce
  have "distinct (map wiInstanceName ?wire)" by (simp add: wired_def)
  note all = reconcile_honours_file [OF refl this r]
  from st(3) obtain e where "map_of (msEntries ?st) ''a'' = Some e" "enSource e = FileSource" by auto
  with all have "map_of (msEntries st') ''a'' = map_of (msEntries ?st) ''a''" by simp
  with all st r show ?thesis by (simp add: Let_def)
qed

lemma file_instance_persists_witness:
  "''a'' \<in> set (awaitingFirstConnect (foldl (\<lambda>st op. set_step sample_env op st) (empty_set sample_link)
      [AddLocal [config_defaults ''a'' ''db1'' None True False], Reconcile []]))"
proof -
  let ?c = "config_defaults ''a'' ''db1'' None True False"
  let ?st = "foldl (\<lambda>st op. set_step sample_env op st) (empty_set sample_link) [AddLocal [?c], Reconcile []]"
  have "(\<exists>e. map_of (msEntries ?st) (cnName ?c) = Some e \<and> enSource e = FileSource \<and> monConnected (enMonitor e)) \<or>
      (cnName ?c \<in> set (awaitingFirstConnect ?st) \<and> msRetrying ?st)"
    by (rule file_instance_persists [OF _ _ _ refl]) simp_all
  moreover have "map_option enSource (map_of (msEntries ?st) ''a'') = None" by code_simp
  ultimately show ?thesis by (simp add: config_defaults_def)
qed

end
