(* ===== verification/WorkerConfig.thy ===== *)
theory WorkerConfig
  imports MonitorSet Access Registry
begin

text \<open>
  Which SQL Server instances a worker is to monitor and how it logs in
  (\<open>packages/server/src/domain/worker-config.ts\<close>): the key a worker publishes, the configurations saved
  from the dashboard, the set sent down a session, and what the worker reports back.

  The credential columns of \<open>workers\<close>, the table \<open>worker_instance_configs\<close> and the two columns of
  \<open>instances\<close> that matter here are modelled; ids and the time are arguments. The fingerprint of a
  public key is a parameter, \<^term>\<open>None\<close> when the key cannot be read.
\<close>

section \<open>Tables\<close>

datatype sql_auth_mode = IntegratedAuth | SqlAuth

fun auth_mode_name :: "sql_auth_mode \<Rightarrow> string" where
  "auth_mode_name IntegratedAuth = ''integrated''"
| "auth_mode_name SqlAuth = ''sql''"

datatype config_status =
  CfgAwaitingCredentials | CfgPending | CfgConnected | CfgAuthFailed | CfgUnreachable | CfgDecryptFailed

record keyed_worker =
  kwId :: string
  kwHostName :: string
  kwVersion :: "string option"
  kwCreatedAt :: int
  kwLastSeenAt :: "int option"
  kwPublicKeyPem :: "string option"
  kwKeyFingerprint :: "string option"

record config_row =
  cfId :: string
  cfWorkerId :: string
  cfInstanceName :: string
  cfServerAddress :: string
  cfAuthMode :: sql_auth_mode
  cfLoginName :: "string option"
  cfCiphertext :: "string option"
  cfKeyFingerprint :: "string option"
  cfCredentialUpdatedAt :: "int option"
  cfCredentialUpdatedBy :: "string option"
  cfEncryptTls :: bool
  cfTrustServerCertificate :: bool
  cfEnvironmentTag :: "string option"
  cfStatus :: config_status
  cfStatusDetail :: "string option"
  cfStatusAt :: "int option"
  cfCreatedBy :: "string option"

record mirrored_instance =
  miId :: string
  miWorkerId :: string
  miName :: string
  miDetachedAt :: "int option"

record config_state =
  keyedWorkers :: "keyed_worker list"
  configRows :: "config_row list"
  mirrored :: "mirrored_instance list"

datatype worker_config_error = WorkerConfigError int string

section \<open>The worker's key\<close>

definition getCredentialKey :: "string \<Rightarrow> config_state \<Rightarrow> (string \<times> string) option" where
  "getCredentialKey w st =
     (case find (\<lambda>x. kwId x = w) (keyedWorkers st) of
        None \<Rightarrow> None
      | Some x \<Rightarrow>
          if presented (kwPublicKeyPem x) \<and> presented (kwKeyFingerprint x)
          then Some (the (kwPublicKeyPem x), the (kwKeyFingerprint x)) else None)"

definition REKEYED :: string where
  "REKEYED = ''The worker generated a new key, so the stored credential can no longer be decrypted. Enter it again.''"

definition recordCredentialKey ::
  "(string \<Rightarrow> string option) \<Rightarrow> string \<Rightarrow> string \<Rightarrow> int \<Rightarrow> config_state
     \<Rightarrow> (worker_config_error + bool \<times> string) \<times> config_state" where
  "recordCredentialKey fingerprintPublicKey w pem now st =
     (case fingerprintPublicKey pem of
        None \<Rightarrow> (Inl (WorkerConfigError 400 ''BadKey''), st)
      | Some fp \<Rightarrow>
          (let old = (case find (\<lambda>x. kwId x = w) (keyedWorkers st) of None \<Rightarrow> None | Some x \<Rightarrow> kwKeyFingerprint x);
               changed = (old \<noteq> None \<and> old \<noteq> Some fp);
               st = st\<lparr>keyedWorkers := map (\<lambda>x. if kwId x = w
                  then x\<lparr>kwPublicKeyPem := Some pem, kwKeyFingerprint := Some fp\<rparr> else x) (keyedWorkers st)\<rparr>
           in (Inr (changed, fp),
               if \<not> changed then st
               else st\<lparr>configRows := map (\<lambda>r. if cfWorkerId r = w \<and> cfAuthMode r = SqlAuth
                  then r\<lparr>cfStatus := CfgAwaitingCredentials, cfStatusDetail := Some REKEYED, cfStatusAt := Some now\<rparr>
                  else r) (configRows st)\<rparr>)))"

section \<open>Configurations\<close>

record config_view =
  cvId :: string
  cvWorkerId :: string
  cvInstanceName :: string
  cvServerAddress :: string
  cvAuthMode :: sql_auth_mode
  cvLoginName :: "string option"
  cvHasCredential :: bool
  cvCredentialUpdatedAt :: "int option"
  cvEncryptTls :: bool
  cvTrustServerCertificate :: bool
  cvEnvironmentTag :: "string option"
  cvStatus :: config_status
  cvStatusDetail :: "string option"
  cvStatusAt :: "int option"

definition config_view_of :: "config_row \<Rightarrow> config_view" where
  "config_view_of r = \<lparr> cvId = cfId r, cvWorkerId = cfWorkerId r, cvInstanceName = cfInstanceName r,
     cvServerAddress = cfServerAddress r, cvAuthMode = cfAuthMode r, cvLoginName = cfLoginName r,
     cvHasCredential = (cfCiphertext r \<noteq> None), cvCredentialUpdatedAt = cfCredentialUpdatedAt r,
     cvEncryptTls = cfEncryptTls r, cvTrustServerCertificate = cfTrustServerCertificate r,
     cvEnvironmentTag = cfEnvironmentTag r, cvStatus = cfStatus r, cvStatusDetail = cfStatusDetail r,
     cvStatusAt = cfStatusAt r \<rparr>"

definition rows_of :: "string \<Rightarrow> config_state \<Rightarrow> config_row list" where
  "rows_of w st = sort_key cfInstanceName (filter (\<lambda>r. cfWorkerId r = w) (configRows st))"

definition listInstanceConfigs :: "string \<Rightarrow> config_state \<Rightarrow> config_view list" where
  "listInstanceConfigs w st = map config_view_of (rows_of w st)"

record config_input =
  ciWorkerId :: string
  ciInstanceName :: string
  ciServerAddress :: string
  ciAuthMode :: sql_auth_mode
  ciLoginName :: "string option"
  ciCiphertext :: "string option"
  ciKeyFingerprint :: "string option"
  ciEncryptTls :: "bool option"
  ciTrustServerCertificate :: "bool option"
  ciEnvironmentTag :: "string option"
  ciActorId :: "string option"

definition MAX_CIPHERTEXT_BASE64 :: nat where "MAX_CIPHERTEXT_BASE64 = 4096"

text \<open>The refusals, in the order of the code.\<close>

definition check_config :: "config_input \<Rightarrow> config_state \<Rightarrow> worker_config_error option" where
  "check_config inp st =
     (if ciAuthMode inp = SqlAuth \<and> \<not> presented (ciLoginName inp) then Some (WorkerConfigError 400 ''MissingLogin'')
      else if \<not> presented (ciCiphertext inp) then None
      else case getCredentialKey (ciWorkerId inp) st of
        None \<Rightarrow> Some (WorkerConfigError 409 ''NoCredentialKey'')
      | Some (pem, fp) \<Rightarrow>
          if ciKeyFingerprint inp \<noteq> Some fp then Some (WorkerConfigError 409 ''KeyChanged'')
          else if length (the (ciCiphertext inp)) > MAX_CIPHERTEXT_BASE64
          then Some (WorkerConfigError 400 ''CiphertextTooLarge'') else None)"

text \<open>The members \<open>shared\<close> and \<open>credential\<close> set on a row.\<close>

definition shared_columns :: "config_input \<Rightarrow> config_row \<Rightarrow> config_row" where
  "shared_columns inp r = r\<lparr>cfServerAddress := ciServerAddress inp, cfAuthMode := ciAuthMode inp,
     cfLoginName := (if ciAuthMode inp = IntegratedAuth then None else ciLoginName inp),
     cfEncryptTls := (case ciEncryptTls inp of None \<Rightarrow> True | Some b \<Rightarrow> b),
     cfTrustServerCertificate := (case ciTrustServerCertificate inp of None \<Rightarrow> False | Some b \<Rightarrow> b),
     cfEnvironmentTag := normaliseTag (ciEnvironmentTag inp)\<rparr>"

definition credential_columns :: "config_input \<Rightarrow> int \<Rightarrow> config_row \<Rightarrow> config_row" where
  "credential_columns inp now r =
     (if ciAuthMode inp = IntegratedAuth
      then r\<lparr>cfCiphertext := None, cfKeyFingerprint := None, cfCredentialUpdatedAt := None,
             cfCredentialUpdatedBy := None\<rparr>
      else if presented (ciCiphertext inp)
      then r\<lparr>cfCiphertext := ciCiphertext inp, cfKeyFingerprint := ciKeyFingerprint inp,
             cfCredentialUpdatedAt := Some now, cfCredentialUpdatedBy := ciActorId inp\<rparr>
      else r)"

definition usable :: "config_input \<Rightarrow> bool" where
  "usable inp \<longleftrightarrow> ciAuthMode inp = IntegratedAuth \<or> presented (ciCiphertext inp)"

definition inserted_row :: "string \<Rightarrow> config_input \<Rightarrow> int \<Rightarrow> config_row" where
  "inserted_row newId inp now = credential_columns inp now (shared_columns inp
     \<lparr> cfId = newId, cfWorkerId = ciWorkerId inp, cfInstanceName = ciInstanceName inp, cfServerAddress = [],
       cfAuthMode = IntegratedAuth, cfLoginName = None, cfCiphertext = None, cfKeyFingerprint = None,
       cfCredentialUpdatedAt = None, cfCredentialUpdatedBy = None, cfEncryptTls = True,
       cfTrustServerCertificate = False, cfEnvironmentTag = None,
       cfStatus = (if usable inp then CfgPending else CfgAwaitingCredentials), cfStatusDetail = None,
       cfStatusAt = Some now, cfCreatedBy = ciActorId inp \<rparr>)"

definition updated_row :: "config_input \<Rightarrow> int \<Rightarrow> config_row \<Rightarrow> config_row" where
  "updated_row inp now r =
     (let r = credential_columns inp now (shared_columns inp r)
      in if usable inp then r\<lparr>cfStatus := CfgPending, cfStatusDetail := None, cfStatusAt := Some now\<rparr> else r)"

definition config_of :: "string \<Rightarrow> string \<Rightarrow> config_row \<Rightarrow> bool" where
  "config_of w n r \<longleftrightarrow> cfWorkerId r = w \<and> cfInstanceName r = n"

definition set_detached :: "string \<Rightarrow> string \<Rightarrow> int option \<Rightarrow> config_state \<Rightarrow> config_state" where
  "set_detached w n at st = st\<lparr>mirrored := map (\<lambda>i. if miWorkerId i = w \<and> miName i = n
     then i\<lparr>miDetachedAt := at\<rparr> else i) (mirrored st)\<rparr>"

definition upsertInstanceConfig ::
  "string \<Rightarrow> int \<Rightarrow> config_input \<Rightarrow> config_state \<Rightarrow> (worker_config_error + config_view) \<times> config_state" where
  "upsertInstanceConfig newId now inp st =
     (case check_config inp st of
        Some e \<Rightarrow> (Inl e, st)
      | None \<Rightarrow>
          (let mine = config_of (ciWorkerId inp) (ciInstanceName inp);
               (i, rows) = (case find mine (configRows st) of
                  None \<Rightarrow> (newId, configRows st @ [inserted_row newId inp now])
                | Some r \<Rightarrow> (cfId r, map (\<lambda>r. if mine r then updated_row inp now r else r) (configRows st)));
               st = set_detached (ciWorkerId inp) (ciInstanceName inp) None (st\<lparr>configRows := rows\<rparr>)
           in (case find (\<lambda>v. cvId v = i) (listInstanceConfigs (ciWorkerId inp) st) of
                 None \<Rightarrow> Inl (WorkerConfigError 500 ''Internal'') | Some v \<Rightarrow> Inr v, st)))"

definition deleteInstanceConfig :: "string \<Rightarrow> int \<Rightarrow> config_state \<Rightarrow> string option \<times> config_state" where
  "deleteInstanceConfig i now st =
     (case find (\<lambda>r. cfId r = i) (configRows st) of
        None \<Rightarrow> (None, st)
      | Some r \<Rightarrow>
          (Some (cfWorkerId r),
           set_detached (cfWorkerId r) (cfInstanceName r) (Some now)
             (st\<lparr>configRows := filter (\<lambda>r. cfId r \<noteq> i) (configRows st)\<rparr>)))"

section \<open>Sending and reporting\<close>

definition wire_of :: "config_row \<Rightarrow> wire_config" where
  "wire_of r = \<lparr> wiInstanceName = cfInstanceName r, wiServerAddress = cfServerAddress r,
     wiAuthMode = auth_mode_name (cfAuthMode r), wiLoginName = or_empty (cfLoginName r),
     wiCredentialCiphertext = or_empty (cfCiphertext r),
     wiCredentialKeyFingerprint = or_empty (cfKeyFingerprint r), wiEncryptTls = cfEncryptTls r,
     wiTrustServerCertificate = cfTrustServerCertificate r, wiEnvironmentTag = or_empty (cfEnvironmentTag r) \<rparr>"

definition buildInstanceConfigSet :: "string \<Rightarrow> config_state \<Rightarrow> wire_config list" where
  "buildInstanceConfigSet w st = map wire_of (rows_of w st)"

text \<open>The message and the session it goes to; \<^term>\<open>None\<close> when the worker is offline.\<close>

definition pushInstanceConfigs :: "worker_registry \<Rightarrow> string \<Rightarrow> config_state \<Rightarrow> (nat \<times> wire_config list) option" where
  "pushInstanceConfigs reg w st =
     map_option (\<lambda>live. (sessionNo live, buildInstanceConfigSet w st)) (registry_get w reg)"

definition toConfigStatus :: "string \<Rightarrow> config_status" where
  "toConfigStatus s =
     (if s = ''connected'' then CfgConnected else if s = ''auth_failed'' then CfgAuthFailed
      else if s = ''unreachable'' then CfgUnreachable else if s = ''decrypt_failed'' then CfgDecryptFailed
      else if s = ''awaiting_credentials'' then CfgAwaitingCredentials else CfgPending)"

definition report_one :: "string \<Rightarrow> int \<Rightarrow> config_state \<Rightarrow> instance_outcome \<Rightarrow> config_state" where
  "report_one w now st out =
     st\<lparr>configRows := map (\<lambda>r. if config_of w (outName out) r
        then r\<lparr>cfStatus := toConfigStatus (outStatus out), cfStatusDetail := str_or_null (outDetail out),
               cfStatusAt := Some now\<rparr> else r) (configRows st)\<rparr>"

definition recordInstanceConfigStatus :: "string \<Rightarrow> int \<Rightarrow> instance_outcome list \<Rightarrow> config_state \<Rightarrow> config_state" where
  "recordInstanceConfigStatus w now outs st = foldl (report_one w now) st outs"

record awaiting_worker =
  awkId :: string
  awkHostName :: string
  awkVersion :: "string option"
  awkCreatedAt :: int
  awkLastSeenAt :: "int option"
  awkHasCredentialKey :: bool
  awkConfiguredInstances :: nat
  awkLiveInstances :: nat

definition listWorkersAwaitingSetup :: "config_state \<Rightarrow> awaiting_worker list" where
  "listWorkersAwaitingSetup st =
     filter (\<lambda>a. awkLiveInstances a = 0)
       (map (\<lambda>x. \<lparr> awkId = kwId x, awkHostName = kwHostName x, awkVersion = kwVersion x,
            awkCreatedAt = kwCreatedAt x, awkLastSeenAt = kwLastSeenAt x,
            awkHasCredentialKey = (kwKeyFingerprint x \<noteq> None),
            awkConfiguredInstances = length (filter (\<lambda>r. cfWorkerId r = kwId x) (configRows st)),
            awkLiveInstances = length (filter (\<lambda>i. miWorkerId i = kwId x) (mirrored st)) \<rparr>)
          (sort_key kwCreatedAt (keyedWorkers st)))"

section \<open>What is stored\<close>

text \<open>
  One row per worker and instance name; a row for integrated authentication holds no login, no
  ciphertext and no fingerprint; a ciphertext comes with the fingerprint it was made for; and a row
  for SQL authentication names a login.
\<close>

definition row_ok :: "config_row \<Rightarrow> bool" where
  "row_ok r \<longleftrightarrow> (cfAuthMode r = IntegratedAuth \<longrightarrow> cfLoginName r = None \<and> cfCiphertext r = None) \<and>
     (cfCiphertext r = None \<longleftrightarrow> cfKeyFingerprint r = None) \<and>
     (cfAuthMode r = SqlAuth \<longrightarrow> presented (cfLoginName r))"

definition config_key :: "config_row \<Rightarrow> string \<times> string" where
  "config_key r = (cfWorkerId r, cfInstanceName r)"

definition config_ok :: "config_state \<Rightarrow> bool" where
  "config_ok st \<longleftrightarrow> distinct (map config_key (configRows st)) \<and> (\<forall>r \<in> set (configRows st). row_ok r)"

lemma config_of_key: "config_of w n r \<longleftrightarrow> config_key r = (w, n)"
  by (simp add: config_of_def config_key_def)

lemma presentedE:
  assumes "presented x" obtains c cs where "x = Some (c # cs)"
  using assms by (cases x) (auto simp: presented_def neq_Nil_conv)

lemma presented_None [simp]: "\<not> presented None" "presented (Some s) \<longleftrightarrow> s \<noteq> []"
  by (simp_all add: presented_def)

lemma check_config_ok:
  assumes "check_config inp st = None"
  shows "ciAuthMode inp = SqlAuth \<Longrightarrow> presented (ciLoginName inp)"
    and "presented (ciCiphertext inp) \<Longrightarrow> \<exists>pem fp. getCredentialKey (ciWorkerId inp) st = Some (pem, fp) \<and>
       ciKeyFingerprint inp = Some fp"
  using assms by (auto simp: check_config_def split: if_splits option.splits)

lemma shared_columns_simps [simp]:
  "config_key (shared_columns inp r) = config_key r" "cfId (shared_columns inp r) = cfId r"
  "cfCiphertext (shared_columns inp r) = cfCiphertext r"
  "cfKeyFingerprint (shared_columns inp r) = cfKeyFingerprint r"
  "cfAuthMode (shared_columns inp r) = ciAuthMode inp"
  "cfLoginName (shared_columns inp r) = (if ciAuthMode inp = IntegratedAuth then None else ciLoginName inp)"
  "cfServerAddress (shared_columns inp r) = ciServerAddress inp"
  by (simp_all add: shared_columns_def config_key_def)

lemma credential_columns_simps [simp]:
  "config_key (credential_columns inp now r) = config_key r" "cfId (credential_columns inp now r) = cfId r"
  "cfAuthMode (credential_columns inp now r) = cfAuthMode r" "cfLoginName (credential_columns inp now r) = cfLoginName r"
  "cfServerAddress (credential_columns inp now r) = cfServerAddress r"
  "cfCiphertext (credential_columns inp now r) = (if ciAuthMode inp = IntegratedAuth then None
     else if presented (ciCiphertext inp) then ciCiphertext inp else cfCiphertext r)"
  "cfKeyFingerprint (credential_columns inp now r) = (if ciAuthMode inp = IntegratedAuth then None
     else if presented (ciCiphertext inp) then ciKeyFingerprint inp else cfKeyFingerprint r)"
  by (simp_all add: credential_columns_def config_key_def)

lemma updated_row_simps [simp]:
  "config_key (updated_row inp now r) = config_key r" "cfId (updated_row inp now r) = cfId r"
  "cfAuthMode (updated_row inp now r) = ciAuthMode inp"
  "cfLoginName (updated_row inp now r) = (if ciAuthMode inp = IntegratedAuth then None else ciLoginName inp)"
  "cfServerAddress (updated_row inp now r) = ciServerAddress inp"
  "cfCiphertext (updated_row inp now r) = (if ciAuthMode inp = IntegratedAuth then None
     else if presented (ciCiphertext inp) then ciCiphertext inp else cfCiphertext r)"
  "cfKeyFingerprint (updated_row inp now r) = (if ciAuthMode inp = IntegratedAuth then None
     else if presented (ciCiphertext inp) then ciKeyFingerprint inp else cfKeyFingerprint r)"
  by (simp_all add: updated_row_def Let_def config_key_def [of "_\<lparr>cfStatus := _\<rparr>"]
      config_key_def [of "_\<lparr>cfStatusAt := _\<rparr>"] flip: config_key_def)

lemma inserted_row_simps [simp]:
  "config_key (inserted_row i inp now) = (ciWorkerId inp, ciInstanceName inp)" "cfId (inserted_row i inp now) = i"
  "cfAuthMode (inserted_row i inp now) = ciAuthMode inp"
  "cfLoginName (inserted_row i inp now) = (if ciAuthMode inp = IntegratedAuth then None else ciLoginName inp)"
  "cfServerAddress (inserted_row i inp now) = ciServerAddress inp"
  "cfCiphertext (inserted_row i inp now) = (if ciAuthMode inp = IntegratedAuth then None
     else if presented (ciCiphertext inp) then ciCiphertext inp else None)"
  "cfKeyFingerprint (inserted_row i inp now) = (if ciAuthMode inp = IntegratedAuth then None
     else if presented (ciCiphertext inp) then ciKeyFingerprint inp else None)"
  by (simp_all add: inserted_row_def) (simp add: config_key_def)

lemma updated_row_ok:
  assumes "check_config inp st = None" and "row_ok r" shows "row_ok (updated_row inp now r)"
  using assms check_config_ok [OF assms(1)] by (auto simp: row_ok_def elim!: presentedE)

lemma inserted_row_ok:
  assumes "check_config inp st = None" shows "row_ok (inserted_row i inp now)"
  using check_config_ok [OF assms] by (auto simp: row_ok_def elim!: presentedE)

text \<open>What a successful save leaves: the row of that name is the saved one, the others are as they were.\<close>

definition saved_row :: "string \<Rightarrow> int \<Rightarrow> config_input \<Rightarrow> config_state \<Rightarrow> config_row" where
  "saved_row newId now inp st =
     (case find (config_of (ciWorkerId inp) (ciInstanceName inp)) (configRows st) of
        None \<Rightarrow> inserted_row newId inp now | Some r \<Rightarrow> updated_row inp now r)"

lemma upsert_rows:
  assumes ok: "check_config inp st = None" and u: "upsertInstanceConfig newId now inp st = (res, st')"
    and "distinct (map config_key (configRows st))"
  shows "keyedWorkers st' = keyedWorkers st"
    and "distinct (map config_key (configRows st'))"
    and "set (configRows st') = insert (saved_row newId now inp st)
      {r \<in> set (configRows st). config_key r \<noteq> (ciWorkerId inp, ciInstanceName inp)}"
proof -
  let ?k = "(ciWorkerId inp, ciInstanceName inp)"
  show "keyedWorkers st' = keyedWorkers st"
    using u ok by (auto simp: upsertInstanceConfig_def set_detached_def Let_def split: prod.splits)
  have "configRows st' = (case find (config_of (ciWorkerId inp) (ciInstanceName inp)) (configRows st) of
        None \<Rightarrow> configRows st @ [inserted_row newId inp now]
      | Some r \<Rightarrow> map (\<lambda>r. if config_key r = ?k then updated_row inp now r else r) (configRows st))"
    using u ok
    by (auto simp: upsertInstanceConfig_def set_detached_def config_of_key Let_def split: prod.splits option.splits)
  moreover have "distinct (map config_key (configRows st')) \<and> set (configRows st') =
      insert (saved_row newId now inp st) {r \<in> set (configRows st). config_key r \<noteq> ?k}"
  proof (cases "find (config_of (ciWorkerId inp) (ciInstanceName inp)) (configRows st)")
    case None
    then have "\<forall>r \<in> set (configRows st). config_key r \<noteq> ?k" by (auto simp: find_None_iff config_of_key)
    then have "{r \<in> set (configRows st). config_key r \<noteq> ?k} = set (configRows st)" and "?k \<notin> config_key ` set (configRows st)"
      by auto
    with calculation None assms(3) show ?thesis by (simp add: saved_row_def)
  next
    case (Some r)
    note r = find_SomeD [OF Some, unfolded config_of_key]
    have same: "r' = r" if "r' \<in> set (configRows st)" "config_key r' = ?k" for r'
      using that r assms(3) inj_onD [of config_key "set (configRows st)" r' r] by (simp add: distinct_map)
    have "map config_key (configRows st') = map config_key (configRows st)" using calculation Some by simp
    moreover have "set (configRows st') = insert (updated_row inp now r) {r \<in> set (configRows st). config_key r \<noteq> ?k}"
      using \<open>configRows st' = _\<close> Some r same by (auto simp: image_iff)
    ultimately show ?thesis using assms(3) Some by (simp add: saved_row_def)
  qed
  ultimately show "distinct (map config_key (configRows st'))"
    and "set (configRows st') = insert (saved_row newId now inp st) {r \<in> set (configRows st). config_key r \<noteq> ?k}"
    by simp_all
qed

lemma saved_row_fields:
  "config_key (saved_row newId now inp st) = (ciWorkerId inp, ciInstanceName inp)"
  "cfServerAddress (saved_row newId now inp st) = ciServerAddress inp"
  "cfAuthMode (saved_row newId now inp st) = ciAuthMode inp"
  "cfLoginName (saved_row newId now inp st) = (if ciAuthMode inp = IntegratedAuth then None else ciLoginName inp)"
  by (auto simp: saved_row_def config_of_key split: option.splits dest: find_SomeD)

lemma saved_row_ok: "config_ok st \<Longrightarrow> check_config inp st = None \<Longrightarrow> row_ok (saved_row newId now inp st)"
  by (auto simp: saved_row_def config_ok_def inserted_row_ok updated_row_ok split: option.splits dest: find_SomeD)

lemma upsert_refused: "check_config inp st \<noteq> None \<Longrightarrow> snd (upsertInstanceConfig newId now inp st) = st"
  by (auto simp: upsertInstanceConfig_def)

lemma upsert_ok:
  assumes "config_ok st" shows "config_ok (snd (upsertInstanceConfig newId now inp st))"
proof (cases "check_config inp st")
  case None
  obtain res st' where u: "upsertInstanceConfig newId now inp st = (res, st')" by fastforce
  from upsert_rows [OF None u] assms saved_row_ok [OF assms None] show ?thesis by (auto simp: config_ok_def u)
qed (use assms in \<open>simp add: upsert_refused\<close>)

datatype config_op =
    SaveConfig string int config_input
  | RemoveConfig string int
  | PublishKey string string int
  | ReportStatus string int "instance_outcome list"

fun config_step :: "(string \<Rightarrow> string option) \<Rightarrow> config_op \<Rightarrow> config_state \<Rightarrow> config_state" where
  "config_step fpk (SaveConfig i now inp) st = snd (upsertInstanceConfig i now inp st)"
| "config_step fpk (RemoveConfig i now) st = snd (deleteInstanceConfig i now st)"
| "config_step fpk (PublishKey w pem now) st = snd (recordCredentialKey fpk w pem now st)"
| "config_step fpk (ReportStatus w now outs) st = recordInstanceConfigStatus w now outs st"

definition config_run :: "(string \<Rightarrow> string option) \<Rightarrow> config_op list \<Rightarrow> config_state \<Rightarrow> config_state" where
  "config_run fpk ops st = foldl (\<lambda>st op. config_step fpk op st) st ops"

definition published :: "(string \<Rightarrow> string option) \<Rightarrow> config_op list \<Rightarrow> string \<Rightarrow> string set" where
  "published fpk ops w = {fp. \<exists>pem now. PublishKey w pem now \<in> set ops \<and> fpk pem = Some fp}"

text \<open>Changes of a row that leave what \<^const>\<open>row_ok\<close> and the key depend on.\<close>

definition same_credential :: "config_row \<Rightarrow> config_row \<Rightarrow> bool" where
  "same_credential r r' \<longleftrightarrow> config_key r' = config_key r \<and> cfAuthMode r' = cfAuthMode r \<and>
     cfLoginName r' = cfLoginName r \<and> cfCiphertext r' = cfCiphertext r \<and> cfKeyFingerprint r' = cfKeyFingerprint r"

lemma same_credential_status [simp]:
  "same_credential r (r\<lparr>cfStatus := s, cfStatusDetail := d, cfStatusAt := t\<rparr>)" "same_credential r r"
  by (simp_all add: same_credential_def config_key_def)

lemma map_same_credential:
  assumes "\<And>r. same_credential r (f r)"
  shows "config_ok (st\<lparr>configRows := map f (configRows st)\<rparr>) \<longleftrightarrow> config_ok st"
    and "r' \<in> set (map f rows) \<Longrightarrow> \<exists>r \<in> set rows. same_credential r r'"
proof -
  have "row_ok (f r) \<longleftrightarrow> row_ok r" for r using assms [of r] by (simp add: row_ok_def same_credential_def)
  moreover have "map config_key (map f (configRows st)) = map config_key (configRows st)"
    using assms by (simp add: same_credential_def)
  ultimately show "config_ok (st\<lparr>configRows := map f (configRows st)\<rparr>) \<longleftrightarrow> config_ok st"
    by (simp add: config_ok_def del: map_map)
  show "r' \<in> set (map f rows) \<Longrightarrow> \<exists>r \<in> set rows. same_credential r r'" using assms by auto
qed

text \<open>Every row holds a fingerprint its worker has published, and so does the worker's own row.\<close>

definition fingerprints_in :: "(string \<Rightarrow> string set) \<Rightarrow> config_state \<Rightarrow> bool" where
  "fingerprints_in K st \<longleftrightarrow>
     (\<forall>r \<in> set (configRows st). \<forall>fp. cfKeyFingerprint r = Some fp \<longrightarrow> fp \<in> K (cfWorkerId r)) \<and>
     (\<forall>x \<in> set (keyedWorkers st). \<forall>fp. kwKeyFingerprint x = Some fp \<longrightarrow> fp \<in> K (kwId x))"

lemma fingerprints_mono: "fingerprints_in K st \<Longrightarrow> (\<And>w. K w \<subseteq> K' w) \<Longrightarrow> fingerprints_in K' st"
  unfolding fingerprints_in_def by blast

lemma getCredentialKey_mem:
  "getCredentialKey w st = Some (pem, fp) \<Longrightarrow> \<exists>x \<in> set (keyedWorkers st). kwId x = w \<and> kwKeyFingerprint x = Some fp"
  by (auto simp: getCredentialKey_def split: option.splits if_splits elim!: presentedE dest!: find_SomeD)

lemma saved_row_fingerprint:
  assumes "check_config inp st = None" and "cfKeyFingerprint (saved_row i now inp st) = Some fp"
  shows "(\<exists>x \<in> set (keyedWorkers st). kwId x = ciWorkerId inp \<and> kwKeyFingerprint x = Some fp) \<or>
    (\<exists>r \<in> set (configRows st). cfWorkerId r = ciWorkerId inp \<and> cfKeyFingerprint r = Some fp)"
proof (cases "presented (ciCiphertext inp)")
  case True
  then obtain pem fp' where g: "getCredentialKey (ciWorkerId inp) st = Some (pem, fp')" and "ciKeyFingerprint inp = Some fp'"
    using check_config_ok(2) [OF assms(1)] by blast
  moreover have "ciKeyFingerprint inp = Some fp"
    using assms(2) True by (auto simp: saved_row_def split: option.splits if_splits)
  ultimately show ?thesis using getCredentialKey_mem [OF g] by simp
next
  case False
  with assms(2) show ?thesis
    by (auto simp: saved_row_def config_of_def split: option.splits if_splits dest!: find_SomeD)
qed

lemma save_fingerprints:
  assumes "config_ok st" and "fingerprints_in K st"
  shows "fingerprints_in K (snd (upsertInstanceConfig i now inp st))"
proof (cases "check_config inp st")
  case None
  obtain res st' where u: "upsertInstanceConfig i now inp st = (res, st')" by fastforce
  have "distinct (map config_key (configRows st))" using assms(1) by (simp add: config_ok_def)
  note rows = upsert_rows [OF None u this]
  have w: "cfWorkerId (saved_row i now inp st) = ciWorkerId inp"
    using saved_row_fields(1) [of i now inp st] by (simp add: config_key_def)
  have "fp \<in> K (ciWorkerId inp)" if "cfKeyFingerprint (saved_row i now inp st) = Some fp" for fp
    using saved_row_fingerprint [OF None that] assms(2) unfolding fingerprints_in_def by metis
  with assms(2) w show ?thesis by (auto simp: fingerprints_in_def rows(1,3) u)
qed (use assms in \<open>simp add: upsert_refused\<close>)

lemma report_ok:
  "config_ok (recordInstanceConfigStatus w now outs st) = config_ok st"
  "fingerprints_in K (recordInstanceConfigStatus w now outs st) = fingerprints_in K st"
proof -
  have one: "config_ok (report_one w now st out) = config_ok st" for st out
    unfolding report_one_def by (rule map_same_credential) simp
  have two: "fingerprints_in K (report_one w now st out) = fingerprints_in K st" for st out
  proof -
    obtain f where f: "configRows (report_one w now st out) = map f (configRows st)"
      "\<And>r. cfWorkerId (f r) = cfWorkerId r \<and> cfKeyFingerprint (f r) = cfKeyFingerprint r"
      using that [of "\<lambda>r. if config_of w (outName out) r then r\<lparr>cfStatus := toConfigStatus (outStatus out),
        cfStatusDetail := str_or_null (outDetail out), cfStatusAt := Some now\<rparr> else r"] by (simp add: report_one_def)
    moreover have "keyedWorkers (report_one w now st out) = keyedWorkers st" by (simp add: report_one_def)
    ultimately show ?thesis by (simp add: fingerprints_in_def)
  qed
  show "config_ok (recordInstanceConfigStatus w now outs st) = config_ok st"
    by (induction outs arbitrary: st) (simp_all add: recordInstanceConfigStatus_def one)
  show "fingerprints_in K (recordInstanceConfigStatus w now outs st) = fingerprints_in K st"
    by (induction outs arbitrary: st) (simp_all add: recordInstanceConfigStatus_def two)
qed

lemma publish_ok:
  "config_ok (snd (recordCredentialKey fpk w pem now st)) = config_ok st"
proof (cases "fpk pem")
  case (Some fp)
  let ?f = "\<lambda>r. if cfWorkerId r = w \<and> cfAuthMode r = SqlAuth
    then r\<lparr>cfStatus := CfgAwaitingCredentials, cfStatusDetail := Some REKEYED, cfStatusAt := Some now\<rparr> else r"
  have "config_ok (st\<lparr>keyedWorkers := ks, configRows := map ?f (configRows st)\<rparr>) = config_ok st" for ks
    using map_same_credential(1) [of ?f "st\<lparr>keyedWorkers := ks\<rparr>"] by (simp add: config_ok_def)
  with Some show ?thesis by (auto simp: recordCredentialKey_def Let_def) (simp_all add: config_ok_def)
qed (simp add: recordCredentialKey_def)

lemma publish_fingerprints:
  assumes "fingerprints_in K st" and "\<And>fp. fpk pem = Some fp \<Longrightarrow> fp \<in> K w"
  shows "fingerprints_in K (snd (recordCredentialKey fpk w pem now st))"
  using assms by (cases "fpk pem") (auto simp: recordCredentialKey_def fingerprints_in_def Let_def)

lemma delete_ok:
  "config_ok st \<Longrightarrow> config_ok (snd (deleteInstanceConfig i now st))"
  "fingerprints_in K st \<Longrightarrow> fingerprints_in K (snd (deleteInstanceConfig i now st))"
  by (auto simp: deleteInstanceConfig_def set_detached_def config_ok_def fingerprints_in_def distinct_map_filter
      split: option.splits)

text \<open>
  C26. Whatever is saved, removed, published and reported, the database holds one configuration per
  worker and name, no login or ciphertext for integrated authentication, a login for every SQL
  one, and no ciphertext except with the fingerprint of a key that very worker has published.
\<close>

theorem stored_credentials_ok:
  assumes "configRows st0 = []" and "\<forall>x \<in> set (keyedWorkers st0). kwKeyFingerprint x = None"
  shows "config_ok (config_run fpk ops st0) \<and>
    (\<forall>r \<in> set (configRows (config_run fpk ops st0)). cfCiphertext r \<noteq> None \<longrightarrow>
       (\<exists>fp \<in> published fpk ops (cfWorkerId r). cfKeyFingerprint r = Some fp))"
proof -
  have "config_ok (config_run fpk ops st0) \<and> fingerprints_in (published fpk ops) (config_run fpk ops st0)"
  proof (induction ops rule: rev_induct)
    case (snoc op ops)
    let ?st = "config_run fpk ops st0"
    have f: "fingerprints_in (published fpk (ops @ [op])) ?st"
      by (rule fingerprints_mono [of "published fpk ops"]) (use snoc in \<open>simp, auto simp: published_def\<close>)
    have "config_ok (config_step fpk op ?st) \<and> fingerprints_in (published fpk (ops @ [op])) (config_step fpk op ?st)"
    proof (cases op)
      case (PublishKey w pem now)
      then have "fp \<in> published fpk (ops @ [op]) w" if "fpk pem = Some fp" for fp
        using that by (auto simp: published_def)
      with publish_fingerprints [OF f] snoc PublishKey show ?thesis by (simp add: publish_ok)
    qed (use snoc f in \<open>simp_all add: upsert_ok save_fingerprints report_ok delete_ok\<close>)
    then show ?case by (simp add: config_run_def)
  qed (use assms in \<open>auto simp: config_run_def config_ok_def fingerprints_in_def\<close>)
  then show ?thesis by (auto simp: config_ok_def row_ok_def fingerprints_in_def)
qed

section \<open>From the dashboard to the worker\<close>

lemma rows_of_set [simp]: "set (rows_of w st) = {r \<in> set (configRows st). cfWorkerId r = w}"
  by (auto simp: rows_of_def)

lemma distinct_rows_of:
  assumes "config_ok st" shows "distinct (map cfInstanceName (rows_of w st))"
proof -
  have "distinct (map config_key (filter (\<lambda>r. cfWorkerId r = w) (configRows st)))"
    using assms by (simp add: config_ok_def distinct_map_filter)
  then have "distinct (filter (\<lambda>r. cfWorkerId r = w) (configRows st))"
    and "inj_on cfInstanceName {r \<in> set (configRows st). cfWorkerId r = w}"
    by (auto simp: distinct_map inj_on_def config_key_def)
  then show ?thesis by (simp add: distinct_map rows_of_def)
qed

lemma filter_key: "distinct (map f xs) \<Longrightarrow> x \<in> set xs \<Longrightarrow> filter (\<lambda>y. f y = f x) xs = [x]"
  by (induction xs) (auto simp: filter_empty_conv image_iff)

lemma wire_of_simps [simp]:
  "wiInstanceName (wire_of r) = cfInstanceName r" "wiServerAddress (wire_of r) = cfServerAddress r"
  "wiAuthMode (wire_of r) = auth_mode_name (cfAuthMode r)" "wiLoginName (wire_of r) = or_empty (cfLoginName r)"
  "wiCredentialCiphertext (wire_of r) = or_empty (cfCiphertext r)"
  "wiCredentialKeyFingerprint (wire_of r) = or_empty (cfKeyFingerprint r)"
  by (simp_all add: wire_of_def)

lemma wire_names: "map wiInstanceName (buildInstanceConfigSet w st) = map cfInstanceName (rows_of w st)"
  by (simp add: buildInstanceConfigSet_def)

lemma auth_mode_name_sql [simp]: "auth_mode_name m = ''sql'' \<longleftrightarrow> m = SqlAuth"
  by (cases m) simp_all

text \<open>
  C27. A password encrypted in the browser to the key the worker last published reaches that worker: the
  set sent to it holds exactly one configuration of that name, the worker opens it and logs in with
  that login and password at that address. A worker holding any other key reports that the credential was
  made for a different key, whatever its private key would make of the ciphertext.
\<close>

theorem credential_reaches_worker:
  assumes "config_ok st" and "upsertInstanceConfig newId now inp st = (Inr v, st')"
    and "ciAuthMode inp = SqlAuth" and "ciCiphertext inp = Some cipher" and "cipher \<noteq> []"
    and "keyFingerprint env = or_empty (ciKeyFingerprint inp)" and "openCredential env cipher = Inr (Some password)"
    and "password \<noteq> []" and "ciInstanceName inp \<noteq> []" and "splitServerAddress (ciServerAddress inp) = (server, port)"
    and "server \<noteq> []"
  shows "\<exists>r c. filter (\<lambda>r. wiInstanceName r = ciInstanceName inp) (buildInstanceConfigSet (ciWorkerId inp) st') = [r] \<and>
    toInstanceConfig env r = Inr c \<and> cnUser c = ciLoginName inp \<and> cnPassword c = Some password \<and>
    cnServer c = server \<and> cnPort c = port \<and>
    (\<forall>env'. keyFingerprint env' \<noteq> keyFingerprint env \<longrightarrow> (\<exists>msg. toInstanceConfig env' r = Inl (ConfigRefused msg)))"
proof -
  let ?r = "saved_row newId now inp st" and ?w = "ciWorkerId inp" and ?n = "ciInstanceName inp"
  have ok: "check_config inp st = None" using assms(2) by (auto simp: upsertInstanceConfig_def split: option.splits)
  have "distinct (map config_key (configRows st))" using assms(1) by (simp add: config_ok_def)
  note rows = upsert_rows [OF ok assms(2) this] and saved = saved_row_fields [of newId now inp st]
  have ok': "config_ok st'" using upsert_ok [OF assms(1), of newId now inp] assms(2) by simp
  have r: "?r \<in> set (rows_of ?w st')" "cfInstanceName ?r = ?n"
    using rows(3) saved(1) by (auto simp: config_key_def)
  have one: "filter (\<lambda>r. wiInstanceName r = ?n) (buildInstanceConfigSet ?w st') = [wire_of ?r]"
    using filter_key [OF distinct_rows_of [OF ok'] r(1)] r(2)
    by (simp add: buildInstanceConfigSet_def filter_map comp_def)
  have cols: "cfCiphertext ?r = Some cipher" "cfKeyFingerprint ?r = ciKeyFingerprint inp"
    using assms(3-5) by (auto simp: saved_row_def split: option.splits)
  obtain login where login: "ciLoginName inp = Some login" using check_config_ok(1) [OF ok assms(3)] by (auto elim: presentedE)
  obtain fp where fp: "ciKeyFingerprint inp = Some fp" and "fp \<noteq> []"
    using check_config_ok(2) [OF ok] assms(4,5) by (auto simp: getCredentialKey_def split: option.splits if_splits elim!: presentedE)
  have port: "case port of None \<Rightarrow> True | Some p \<Rightarrow> p > 0"
    using assms(10) by (auto simp: splitServerAddress_def split: option.splits if_splits prod.splits)
  have "toInstanceConfig env (wire_of ?r) = Inr ((config_defaults ?n server port (wiEncryptTls (wire_of ?r))
      (wiTrustServerCertificate (wire_of ?r)))\<lparr>cnUser := Some login, cnPassword := Some password\<rparr>)"
    using assms(3,5-11) saved cols r(2) login fp port
    by (auto simp: toInstanceConfig_def decryptCredential_def parse_config_def instanceConfigSchema_def
        config_defaults_def or_empty_def neq_Nil_conv)
  moreover have "\<exists>msg. toInstanceConfig env' (wire_of ?r) = Inl (ConfigRefused msg)"
    if "keyFingerprint env' \<noteq> keyFingerprint env" for env'
    using that assms(3,5,6,10) saved cols fp \<open>fp \<noteq> []\<close>
    by (simp add: toInstanceConfig_def decryptCredential_def or_empty_def)
  ultimately show ?thesis using one login by (simp add: config_defaults_def)
qed

text \<open>What a list of reports makes of a row: the report of its name, when there is one.\<close>

definition with_report :: "string \<Rightarrow> int \<Rightarrow> instance_outcome list \<Rightarrow> config_row \<Rightarrow> config_row" where
  "with_report w now outs r =
     (case find (\<lambda>out. config_of w (outName out) r) outs of
        None \<Rightarrow> r
      | Some out \<Rightarrow> r\<lparr>cfStatus := toConfigStatus (outStatus out), cfStatusDetail := str_or_null (outDetail out),
                    cfStatusAt := Some now\<rparr>)"

lemma recordInstanceConfigStatus_rows:
  "distinct (map outName outs) \<Longrightarrow>
     configRows (recordInstanceConfigStatus w now outs st) = map (with_report w now outs) (configRows st)"
proof (induction outs arbitrary: st)
  case Nil
  then show ?case by (simp add: recordInstanceConfigStatus_def with_report_def)
next
  case (Cons out outs)
  have "with_report w now outs (if config_of w (outName out) r then r\<lparr>cfStatus := toConfigStatus (outStatus out),
      cfStatusDetail := str_or_null (outDetail out), cfStatusAt := Some now\<rparr> else r) = with_report w now (out # outs) r" for r
  proof (cases "config_of w (outName out) r")
    case True
    have "find (\<lambda>out'. outName out' = outName out) outs = None"
      using Cons.prems by (auto simp: find_None_iff image_iff)
    with True show ?thesis by (simp add: with_report_def config_of_def eq_commute)
  qed (simp add: with_report_def)
  with Cons show ?case by (simp add: recordInstanceConfigStatus_def report_one_def)
qed

lemma toConfigStatus_known:
  "s \<in> {''connected'', ''auth_failed'', ''unreachable'', ''decrypt_failed'', ''awaiting_credentials''} \<Longrightarrow>
     toConfigStatus s \<noteq> CfgPending"
  "toConfigStatus s = CfgConnected \<longleftrightarrow> s = ''connected''"
  by (auto simp: toConfigStatus_def)

text \<open>
  C28. When a worker reconciles with the set built for it and its report is stored, no configuration of that
  worker is left pending. One shown as connected without a detail is in force on the worker, connected
  with the settings stored; the only other thing shown beside connected is that worker.yaml takes
  precedence, and then an entry of worker.yaml has the name of the configuration.
\<close>

theorem dashboard_shows_the_worker:
  assumes "config_ok st" and "set_ok ms" and "reconcileRemote env (buildInstanceConfigSet w st) ms = (outs, ms')"
  shows "\<forall>r' \<in> set (configRows (recordInstanceConfigStatus w now outs st)). cfWorkerId r' = w \<longrightarrow>
    cfStatus r' \<noteq> CfgPending \<and> (cfStatus r' = CfgConnected \<longrightarrow>
      cfStatusDetail r' = None \<and> in_force env (wire_of r') ms' \<or>
      cfStatusDetail r' = Some FILE_PRECEDENCE \<and> overridden (wire_of r') ms')"
proof (intro ballI impI)
  fix r' assume r': "r' \<in> set (configRows (recordInstanceConfigStatus w now outs st))" "cfWorkerId r' = w"
  let ?wire = "buildInstanceConfigSet w st"
  have dist: "distinct (map wiInstanceName ?wire)" by (simp add: wire_names distinct_rows_of [OF assms(1)])
  note facts = reconcileRemote_facts [OF assms(2) dist assms(3)]
  have douts: "distinct (map outName outs)" using facts(1) dist by simp
  then obtain r where r: "r \<in> set (configRows st)" "r' = with_report w now outs r"
    using r'(1) by (auto simp: recordInstanceConfigStatus_rows)
  then have w: "cfWorkerId r = w" using r'(2) by (auto simp: with_report_def split: option.splits)
  have "wire_of r \<in> set ?wire" using r(1) w by (auto simp: buildInstanceConfigSet_def)
  moreover have len: "length ?wire = length outs" using map_eq_imp_length_eq [OF facts(1)] by simp
  ultimately obtain out where z: "(wire_of r, out) \<in> set (zip ?wire outs)"
    by (metis in_set_impl_in_set_zip1)
  have name: "outName out = cfInstanceName r"
  proof -
    obtain i where "i < length outs" "?wire ! i = wire_of r" "outs ! i = out" using z by (auto simp: set_zip)
    with facts(1) len show ?thesis by (metis nth_map wire_of_simps(1))
  qed
  have mem: "out \<in> set outs" using z by (rule set_zip_rightD)
  have "find (\<lambda>o'. outName o' = outName out) outs = Some out"
    by (rule find_distinct [OF douts mem])
  then have "find (\<lambda>o'. config_of w (outName o') r) outs = Some out" using w name by (simp add: config_of_def eq_commute)
  then have st: "cfStatus r' = toConfigStatus (outStatus out)" "cfStatusDetail r' = str_or_null (outDetail out)"
    and wire: "wire_of r' = wire_of r"
    using r(2) by (simp_all add: with_report_def wire_of_def)
  obtain ms1 where "reconcile_each env ?wire ms = (outs, ms1)" using assms(3) reconcileRemote_eq by blast
  from reconcile_each_status [OF this mem] have "cfStatus r' \<noteq> CfgPending"
    unfolding st by (rule toConfigStatus_known(1))
  moreover have "cfStatusDetail r' = None \<and> in_force env (wire_of r') ms' \<or>
      cfStatusDetail r' = Some FILE_PRECEDENCE \<and> overridden (wire_of r') ms'" if "cfStatus r' = CfgConnected"
  proof -
    have "connected_means env (wire_of r') (outDetail out) ms'"
      using that facts(2) [OF z] by (simp add: st toConfigStatus_known(2) wire)
    moreover have "FILE_PRECEDENCE \<noteq> []" by (simp add: FILE_PRECEDENCE_def)
    ultimately show ?thesis by (auto simp: connected_means_def st(2) str_or_null_def)
  qed
  ultimately show "cfStatus r' \<noteq> CfgPending \<and> (cfStatus r' = CfgConnected \<longrightarrow>
      cfStatusDetail r' = None \<and> in_force env (wire_of r') ms' \<or>
      cfStatusDetail r' = Some FILE_PRECEDENCE \<and> overridden (wire_of r') ms')" by blast
qed

section \<open>A gap and concrete configurations\<close>

text \<open>
  Switching a configuration to SQL authentication without entering a password keeps its status, so
  one that was connected goes on being shown as connected although no credential is stored.
\<close>

lemma switched_to_sql_stays_connected:
  assumes "find (config_of (ciWorkerId inp) (ciInstanceName inp)) (configRows st) = Some r" and "row_ok r"
    and "cfAuthMode r = IntegratedAuth" and "ciAuthMode inp = SqlAuth" and "ciCiphertext inp = None"
  shows "cfStatus (saved_row i now inp st) = cfStatus r \<and> cfCiphertext (saved_row i now inp st) = None"
  using assms by (simp add: saved_row_def updated_row_def usable_def credential_columns_def shared_columns_def
      row_ok_def Let_def)

definition demo_input :: config_input where
  "demo_input = \<lparr> ciWorkerId = ''w'', ciInstanceName = ''a'', ciServerAddress = ''db1,1433'', ciAuthMode = SqlAuth,
     ciLoginName = Some ''sa'', ciCiphertext = Some ''secret'', ciKeyFingerprint = Some ''k1'', ciEncryptTls = None,
     ciTrustServerCertificate = None, ciEnvironmentTag = None, ciActorId = None \<rparr>"

definition demo_state :: config_state where
  "demo_state = \<lparr> keyedWorkers = [\<lparr> kwId = ''w'', kwHostName = ''h'', kwVersion = None, kwCreatedAt = 0,
     kwLastSeenAt = None, kwPublicKeyPem = None, kwKeyFingerprint = None \<rparr>], configRows = [], mirrored = [] \<rparr>"

definition demo_ops :: "config_op list" where
  "demo_ops = [PublishKey ''w'' ''k1'' 1, SaveConfig ''c1'' 2 demo_input]"

lemma stored_credentials_ok_witness:
  "config_ok (config_run Some demo_ops demo_state) \<and> map cfCiphertext (configRows (config_run Some demo_ops demo_state)) = [Some ''secret'']"
proof -
  have "config_ok (config_run Some demo_ops demo_state)"
    using stored_credentials_ok [of demo_state Some demo_ops] by (simp add: demo_state_def)
  moreover have "map cfCiphertext (configRows (config_run Some demo_ops demo_state)) = [Some ''secret'']" by code_simp
  ultimately show ?thesis by blast
qed

definition demo_credentials :: credential_env where
  "demo_credentials = \<lparr> keyFingerprint = ''k1'', openCredential = (\<lambda>c. Inr (if c = ''secret'' then Some ''pw'' else None)),
     schemaRefusal = (\<lambda>_. []) \<rparr>"

definition keyed_state :: config_state where
  "keyed_state = snd (recordCredentialKey Some ''w'' ''k1'' 1 demo_state)"

lemma credential_reaches_worker_witness:
  "\<exists>r c. buildInstanceConfigSet ''w'' (snd (upsertInstanceConfig ''c1'' 2 demo_input keyed_state)) = [r] \<and>
     toInstanceConfig demo_credentials r = Inr c \<and> cnPassword c = Some ''pw'' \<and> cnPort c = Some 1433"
proof -
  obtain res st' where u: "upsertInstanceConfig ''c1'' 2 demo_input keyed_state = (res, st')" by fastforce
  have "\<not> isl (fst (upsertInstanceConfig ''c1'' 2 demo_input keyed_state))" by code_simp
  then obtain v where v: "upsertInstanceConfig ''c1'' 2 demo_input keyed_state = (Inr v, st')"
    using u by (cases res) auto
  have ok: "config_ok keyed_state" by (simp add: keyed_state_def publish_ok) (simp add: config_ok_def demo_state_def)
  have split: "splitServerAddress (ciServerAddress demo_input) = (''db1'', Some 1433)" by code_simp
  have "\<exists>r c. filter (\<lambda>r. wiInstanceName r = ciInstanceName demo_input) (buildInstanceConfigSet (ciWorkerId demo_input) st') = [r] \<and>
      toInstanceConfig demo_credentials r = Inr c \<and> cnUser c = ciLoginName demo_input \<and> cnPassword c = Some ''pw'' \<and>
      cnServer c = ''db1'' \<and> cnPort c = Some 1433 \<and>
      (\<forall>env'. keyFingerprint env' \<noteq> keyFingerprint demo_credentials \<longrightarrow> (\<exists>msg. toInstanceConfig env' r = Inl (ConfigRefused msg)))"
    by (rule credential_reaches_worker [where cipher = "''secret''", OF ok v _ _ _ _ _ _ _ split])
      (simp_all add: demo_input_def demo_credentials_def or_empty_def)
  moreover have "map wiInstanceName (buildInstanceConfigSet ''w'' (snd (upsertInstanceConfig ''c1'' 2 demo_input keyed_state))) = [''a'']"
    by code_simp
  then have "filter (\<lambda>r. wiInstanceName r = ''a'') (buildInstanceConfigSet ''w'' st') = buildInstanceConfigSet ''w'' st'"
    using v by (auto simp: filter_id_conv)
  ultimately show ?thesis using v by (auto simp: demo_input_def)
qed

definition integrated_input :: config_input where
  "integrated_input = demo_input\<lparr>ciAuthMode := IntegratedAuth, ciLoginName := None, ciCiphertext := None\<rparr>"

definition integrated_state :: config_state where
  "integrated_state = snd (upsertInstanceConfig ''c1'' 2 integrated_input demo_state)"

lemma dashboard_shows_the_worker_witness:
  "let outs = fst (reconcileRemote sample_env (buildInstanceConfigSet ''w'' integrated_state) ((empty_set sample_link)\<lparr>msDials := 1\<rparr>));
       st' = recordInstanceConfigStatus ''w'' 9 outs integrated_state
   in map cfStatus (configRows st') = [CfgConnected] \<and> (\<forall>r \<in> set (configRows st'). cfWorkerId r = ''w'' \<longrightarrow> cfStatus r \<noteq> CfgPending)"
proof -
  let ?ms = "(empty_set sample_link)\<lparr>msDials := 1\<rparr>"
  obtain outs ms' where r: "reconcileRemote sample_env (buildInstanceConfigSet ''w'' integrated_state) ?ms = (outs, ms')"
    by fastforce
  have "config_ok integrated_state" unfolding integrated_state_def by (rule upsert_ok) (simp add: config_ok_def demo_state_def)
  moreover have "set_ok ?ms" by (simp add: set_ok_def empty_set_def)
  moreover have "map cfStatus (configRows (recordInstanceConfigStatus ''w'' 9
      (fst (reconcileRemote sample_env (buildInstanceConfigSet ''w'' integrated_state) ?ms)) integrated_state)) = [CfgConnected]"
    by code_simp
  ultimately show ?thesis
    using dashboard_shows_the_worker [OF _ _ r, of 9] r by (simp add: Let_def)
qed

end
