(* ===== verification/WorkerSession.thy ===== *)
theory WorkerSession
  imports Complex_Main Capabilities MonitorSet Outbox
begin

text \<open>
  The worker's outbound session (\<open>packages/worker/src/session.ts\<close>, \<open>backoff.ts\<close>): the state of
  \<open>ControlPlaneSession\<close>, one function for each of its methods and listeners, and the session as a
  transition system whose steps are the calls and events that Node's event loop may deliver, in any
  order: method calls, the end of an awaited credential, a channel that opens or throws, stream
  events, also those of abandoned streams, and the retry timer.

  An awaited \<open>buildCallMetadata\<close> is a counter of attempts under way. A client and its stream get
  the same number, counted from 0, so that \<open>isCurrent\<close> compares numbers; the channels opened and
  not closed are kept in a list, as are the listeners that wait for a drained stream. The callbacks
  and the writes are a log. The outcome of a write, the draws of \<open>Math.random\<close> and the fingerprint
  of a key are parameters.
\<close>

section \<open>Backoff\<close>

record session_config =
  scInitialDelay :: int
  scMaxDelay :: int
  scJitter :: rat
  scCeiling :: string
  scPin :: "string option"

text \<open>What the schema of \<open>config.ts\<close> guarantees of these fields.\<close>

definition session_config_ok :: "session_config \<Rightarrow> bool" where
  "session_config_ok cfg \<longleftrightarrow> 0 < scInitialDelay cfg \<and> 0 < scMaxDelay cfg \<and>
     0 \<le> scJitter cfg \<and> scJitter cfg \<le> 1 \<and> scCeiling cfg \<in> set (map tier_name TIERS)"

text \<open>\<open>Math.round\<close>: halves go up.\<close>

definition js_round :: "rat \<Rightarrow> int" where
  "js_round x = \<lfloor>x + 1 / 2\<rfloor>"

definition exponential_delay :: "session_config \<Rightarrow> nat \<Rightarrow> rat" where
  "exponential_delay cfg n = min (of_int (scInitialDelay cfg) * 2 ^ n) (of_int (scMaxDelay cfg))"

definition backoff_next :: "session_config \<Rightarrow> rat \<Rightarrow> nat \<Rightarrow> int \<times> nat" where
  "backoff_next cfg random n =
     (let e = exponential_delay cfg n; jitter = e * scJitter cfg * (random * 2 - 1)
      in (max 0 (js_round (e + jitter)), n + 1))"

definition drawn :: "rat \<Rightarrow> bool" where
  "drawn r \<longleftrightarrow> 0 \<le> r \<and> r < 1"

section \<open>State\<close>

text \<open>
  \<open>#reconnectTimer\<close> is null, a timer that will fire, or the handle of a timer that \<open>stop\<close> cleared
  and left in the field.
\<close>

datatype retry_timer = NoTimer | Armed int | Cleared

datatype ('w, 'm) session_output =
    Ready "capability list" "(poll_intervals \<times> int) option"
  | Message 'm
  | Disconnected string
  | Wrote nat 'w

record ('w, 'm) session =
  client :: "nat option"
  stream :: "nat option"
  backoffAttempt :: nat
  stopped :: bool
  sConnected :: bool
  backpressured :: bool
  reconnectTimer :: retry_timer
  sCapabilities :: "capability list"
  signingKey :: string
  attempts :: nat
  handles :: nat
  openChannels :: "nat list"
  drainListeners :: "nat list"
  outputs :: "('w, 'm) session_output list"

definition new_session :: "('w, 'm) session" where
  "new_session = \<lparr>client = None, stream = None, backoffAttempt = 0, stopped = False,
     sConnected = False, backpressured = False, reconnectTimer = NoTimer,
     sCapabilities = [capability.Observe], signingKey = '''', attempts = 0, handles = 0, openChannels = [],
     drainListeners = [], outputs = []\<rparr>"

definition emit :: "('w, 'm) session_output \<Rightarrow> ('w, 'm) session \<Rightarrow> ('w, 'm) session" where
  "emit out s = s\<lparr>outputs := outputs s @ [out]\<rparr>"

text \<open>\<open>this.#client?.close()\<close>\<close>

definition close_channel :: "('w, 'm) session \<Rightarrow> ('w, 'm) session" where
  "close_channel s = (case client s of
     None \<Rightarrow> s | Some c \<Rightarrow> s\<lparr>openChannels := removeAll c (openChannels s)\<rparr>)"

definition drop_session :: "('w, 'm) session \<Rightarrow> ('w, 'm) session" where
  "drop_session s =
     (close_channel (s\<lparr>sConnected := False, backpressured := False, stream := None\<rparr>))\<lparr>client := None\<rparr>"

section \<open>Methods and listeners\<close>

definition scheduleReconnect ::
  "session_config \<Rightarrow> rat \<Rightarrow> ('w, 'm) session \<Rightarrow> ('w, 'm) session" where
  "scheduleReconnect cfg random s =
     (if stopped s \<or> reconnectTimer s \<noteq> NoTimer then s
      else let s = drop_session s; (delay, n) = backoff_next cfg random (backoffAttempt s)
           in s\<lparr>backoffAttempt := n, reconnectTimer := Armed delay\<rparr>)"

definition handleDisconnect ::
  "session_config \<Rightarrow> rat \<Rightarrow> string \<Rightarrow> ('w, 'm) session \<Rightarrow> ('w, 'm) session" where
  "handleDisconnect cfg random reason s =
     (if \<not> sConnected s \<and> reconnectTimer s \<noteq> NoTimer then s
      else let s = emit (Disconnected reason) (drop_session s)
           in if stopped s then s else scheduleReconnect cfg random s)"

text \<open>\<open>#connect\<close>, up to the awaited credential.\<close>

definition connect :: "('w, 'm) session \<Rightarrow> ('w, 'm) session" where
  "connect s = (if stopped s then s else s\<lparr>attempts := Suc (attempts s)\<rparr>)"

definition start :: "('w, 'm) session \<Rightarrow> ('w, 'm) session" where
  "start s = connect (s\<lparr>stopped := False\<rparr>)"

definition stop :: "('w, 'm) session \<Rightarrow> ('w, 'm) session" where
  "stop s = (close_channel (s\<lparr>stopped := True,
     reconnectTimer := (if reconnectTimer s = NoTimer then NoTimer else Cleared)\<rparr>))\<lparr>sConnected := False\<rparr>"

definition reconnect ::
  "session_config \<Rightarrow> rat \<Rightarrow> string \<Rightarrow> ('w, 'm) session \<Rightarrow> ('w, 'm) session" where
  "reconnect cfg random reason s =
     (if stopped s then s else handleDisconnect cfg random reason (s\<lparr>backoffAttempt := 0\<rparr>))"

text \<open>What became of a write: taken at once, taken and buffered, or an exception.\<close>

datatype write_result = Written | Buffered | WriteThrows

definition send ::
  "write_result \<Rightarrow> 'w \<Rightarrow> ('w, 'm) session \<Rightarrow> ('w, 'm) session \<times> bool" where
  "send result msg s =
     (case stream s of
        None \<Rightarrow> (s, False)
      | Some n \<Rightarrow>
          (if \<not> sConnected s then (s, False)
           else (case result of
             WriteThrows \<Rightarrow> (s, False)
           | Written \<Rightarrow> (emit (Wrote n msg) s, True)
           | Buffered \<Rightarrow>
               (if backpressured s then (emit (Wrote n msg) s, True)
                else (emit (Wrote n msg) (s\<lparr>backpressured := True,
                        drainListeners := n # drainListeners s\<rparr>), True)))))"

text \<open>The \<open>drain\<close> listener, which does not ask whether its stream is the current one.\<close>

definition on_drain :: "nat \<Rightarrow> ('w, 'm) session \<Rightarrow> ('w, 'm) session" where
  "on_drain n s = s\<lparr>backpressured := False, drainListeners := removeAll n (drainListeners s)\<rparr>"

text \<open>The attempt once its credential is there, or is not.\<close>

definition credential_missing ::
  "session_config \<Rightarrow> rat \<Rightarrow> ('w, 'm) session \<Rightarrow> ('w, 'm) session" where
  "credential_missing cfg random s = scheduleReconnect cfg random (s\<lparr>attempts := attempts s - 1\<rparr>)"

text \<open>An attempt can throw before there is a channel, before its stream, or at the first write.\<close>

datatype throw_point = NoChannel | NoStream | NoHello

definition open_handle :: "throw_point option \<Rightarrow> ('w, 'm) session \<Rightarrow> ('w, 'm) session" where
  "open_handle p s =
     (let n = handles s; s = s\<lparr>attempts := attempts s - 1\<rparr>
      in if p = Some NoChannel then s
         else let s = s\<lparr>client := Some n, openChannels := n # openChannels s, handles := Suc n\<rparr>
              in if p = Some NoStream then s else s\<lparr>stream := Some n\<rparr>)"

definition connect_throws ::
  "session_config \<Rightarrow> rat \<Rightarrow> throw_point \<Rightarrow> ('w, 'm) session \<Rightarrow> ('w, 'm) session" where
  "connect_throws cfg random p s = scheduleReconnect cfg random (open_handle (Some p) s)"

definition connect_opens :: "'w \<Rightarrow> ('w, 'm) session \<Rightarrow> ('w, 'm) session" where
  "connect_opens hello s = emit (Wrote (handles s) hello) (open_handle None s)"

record hello_ack =
  haCapabilities :: "string list"
  haSigningKey :: string
  haConfig :: "(poll_intervals \<times> int) option"

datatype 'm session_message = HelloAck hello_ack | Other 'm | NoContent

definition local_ceiling :: "session_config \<Rightarrow> string" where
  "local_ceiling cfg = (if isMaxCapabilityTier (scCeiling cfg) then scCeiling cfg else ''readOnly'')"

definition pin_mismatch :: "session_config \<Rightarrow> (string \<Rightarrow> string) \<Rightarrow> string \<Rightarrow> bool" where
  "pin_mismatch cfg fingerprint key \<longleftrightarrow>
     (case scPin cfg of
        None \<Rightarrow> False
      | Some p \<Rightarrow> p \<noteq> '''' \<and> key \<noteq> '''' \<and> fingerprint key \<noteq> to_lower p)"

text \<open>\<^term>\<open>None\<close>: the listener throws, which ends the process.\<close>

definition on_hello_ack ::
  "session_config \<Rightarrow> (string \<Rightarrow> string) \<Rightarrow> rat \<Rightarrow> hello_ack \<Rightarrow> ('w, 'm) session
     \<Rightarrow> ('w, 'm) session option" where
  "on_hello_ack cfg fingerprint random ack s =
     (case effectiveCapabilities (haCapabilities ack) (local_ceiling cfg) of
        None \<Rightarrow> None
      | Some caps \<Rightarrow>
          (let s = s\<lparr>sCapabilities := caps\<rparr>
           in Some (if pin_mismatch cfg fingerprint (haSigningKey ack)
                    then handleDisconnect cfg random ''command signing key did not match the pin'' s
                    else emit (Ready caps (haConfig ack))
                           (s\<lparr>signingKey := haSigningKey ack, sConnected := True,
                              backoffAttempt := 0\<rparr>))))"

definition on_data ::
  "session_config \<Rightarrow> (string \<Rightarrow> string) \<Rightarrow> rat \<Rightarrow> nat \<Rightarrow> 'm session_message \<Rightarrow> ('w, 'm) session
     \<Rightarrow> ('w, 'm) session option" where
  "on_data cfg fingerprint random n msg s =
     (if stream s \<noteq> Some n then Some s
      else case msg of
        NoContent \<Rightarrow> Some s
      | HelloAck ack \<Rightarrow> on_hello_ack cfg fingerprint random ack s
      | Other m \<Rightarrow> Some (emit (Message m) s))"

definition on_error ::
  "session_config \<Rightarrow> rat \<Rightarrow> nat \<Rightarrow> string \<Rightarrow> ('w, 'm) session \<Rightarrow> ('w, 'm) session" where
  "on_error cfg random n why s =
     (if stream s \<noteq> Some n then s else handleDisconnect cfg random (''stream error: '' @ why) s)"

definition on_end ::
  "session_config \<Rightarrow> rat \<Rightarrow> nat \<Rightarrow> ('w, 'm) session \<Rightarrow> ('w, 'm) session" where
  "on_end cfg random n s =
     (if stream s \<noteq> Some n then s else handleDisconnect cfg random ''server closed the stream'' s)"

text \<open>The retry timer's callback.\<close>

definition timer_fires :: "('w, 'm) session \<Rightarrow> ('w, 'm) session" where
  "timer_fires s = connect (s\<lparr>reconnectTimer := NoTimer\<rparr>)"

section \<open>The session as a transition system\<close>

datatype ('w, 'm) session_event =
    Start | Stop | Reconnect string
  | CredentialMissing | OpenThrows throw_point | Opens 'w
  | Arrives nat "'m session_message" | StreamFails nat string | StreamEnds nat | Drains nat
  | TimerFires | Sends 'w write_result

inductive session_step ::
  "session_config \<Rightarrow> (string \<Rightarrow> string) \<Rightarrow> ('w, 'm) session \<Rightarrow> ('w, 'm) session_event
     \<Rightarrow> ('w, 'm) session \<Rightarrow> bool" for cfg fingerprint where
  started: "session_step cfg fingerprint s Start (start s)"
| halted: "session_step cfg fingerprint s Stop (stop s)"
| redialled: "drawn r \<Longrightarrow> session_step cfg fingerprint s (Reconnect why) (reconnect cfg r why s)"
| no_credential: "drawn r \<Longrightarrow> 0 < attempts s \<Longrightarrow>
    session_step cfg fingerprint s CredentialMissing (credential_missing cfg r s)"
| open_threw: "drawn r \<Longrightarrow> 0 < attempts s \<Longrightarrow>
    session_step cfg fingerprint s (OpenThrows p) (connect_throws cfg r p s)"
| opened: "0 < attempts s \<Longrightarrow> session_step cfg fingerprint s (Opens hello) (connect_opens hello s)"
| arrived: "drawn r \<Longrightarrow> n < handles s \<Longrightarrow> on_data cfg fingerprint r n msg s = Some s' \<Longrightarrow>
    session_step cfg fingerprint s (Arrives n msg) s'"
| failed: "drawn r \<Longrightarrow> n < handles s \<Longrightarrow>
    session_step cfg fingerprint s (StreamFails n why) (on_error cfg r n why s)"
| ended: "drawn r \<Longrightarrow> n < handles s \<Longrightarrow>
    session_step cfg fingerprint s (StreamEnds n) (on_end cfg r n s)"
| drained: "n \<in> set (drainListeners s) \<Longrightarrow> session_step cfg fingerprint s (Drains n) (on_drain n s)"
| fired: "reconnectTimer s = Armed d \<Longrightarrow> session_step cfg fingerprint s TimerFires (timer_fires s)"
| sent: "session_step cfg fingerprint s (Sends msg res) (fst (send res msg s))"

inductive_cases session_stepE: "session_step cfg fingerprint s ev s'"

text \<open>
  Reachability from a session that was just started, over the events that a condition on state and
  event lets happen; and the runs between two states.
\<close>

inductive session_reach ::
  "session_config \<Rightarrow> (string \<Rightarrow> string) \<Rightarrow> (('w, 'm) session \<Rightarrow> ('w, 'm) session_event \<Rightarrow> bool)
     \<Rightarrow> ('w, 'm) session \<Rightarrow> bool" for cfg fingerprint allowed where
  fresh: "session_reach cfg fingerprint allowed (start new_session)"
| further: "session_reach cfg fingerprint allowed s \<Longrightarrow> allowed s ev \<Longrightarrow>
    session_step cfg fingerprint s ev s' \<Longrightarrow> session_reach cfg fingerprint allowed s'"

inductive session_trace ::
  "session_config \<Rightarrow> (string \<Rightarrow> string) \<Rightarrow> ('w, 'm) session \<Rightarrow> ('w, 'm) session_event list
     \<Rightarrow> ('w, 'm) session \<Rightarrow> bool" for cfg fingerprint where
  no_event: "session_trace cfg fingerprint s [] s"
| next_event: "session_step cfg fingerprint s ev s1 \<Longrightarrow> session_trace cfg fingerprint s1 evs s2 \<Longrightarrow>
    session_trace cfg fingerprint s (ev # evs) s2"

text \<open>
  Two disciplines of the caller. \<open>lasting\<close>: a session is not started again after \<open>stop\<close>, which the
  worker process never does. \<open>calm\<close>: moreover it is started only once, and \<open>reconnect\<close> is not
  called while an attempt is under way.
\<close>

definition lasting :: "('w, 'm) session \<Rightarrow> ('w, 'm) session_event \<Rightarrow> bool" where
  "lasting s ev \<longleftrightarrow> (ev = Start \<longrightarrow> \<not> stopped s)"

definition calm :: "('w, 'm) session \<Rightarrow> ('w, 'm) session_event \<Rightarrow> bool" where
  "calm s ev \<longleftrightarrow> (case ev of Start \<Rightarrow> False | Reconnect _ \<Rightarrow> attempts s = 0 | _ \<Rightarrow> True)"

definition anything :: "('w, 'm) session \<Rightarrow> ('w, 'm) session_event \<Rightarrow> bool" where
  "anything s ev \<longleftrightarrow> True"

section \<open>What the operations touch\<close>

lemma close_channel_update:
  "close_channel s = s\<lparr>openChannels :=
     (case client s of None \<Rightarrow> openChannels s | Some c \<Rightarrow> removeAll c (openChannels s))\<rparr>"
  by (simp add: close_channel_def split: option.split)

lemma drop_session_fields [simp]:
  "client (drop_session s) = None" "stream (drop_session s) = None" "\<not> sConnected (drop_session s)"
  "backoffAttempt (drop_session s) = backoffAttempt s" "stopped (drop_session s) = stopped s"
  "reconnectTimer (drop_session s) = reconnectTimer s" "sCapabilities (drop_session s) = sCapabilities s"
  "signingKey (drop_session s) = signingKey s" "attempts (drop_session s) = attempts s"
  "handles (drop_session s) = handles s" "outputs (drop_session s) = outputs s"
  "openChannels (drop_session s) =
     (case client s of None \<Rightarrow> openChannels s | Some c \<Rightarrow> removeAll c (openChannels s))"
  by (simp_all add: drop_session_def close_channel_update split: option.split)

lemma emit_fields [simp]:
  "client (emit out s) = client s" "stream (emit out s) = stream s"
  "sConnected (emit out s) = sConnected s" "backoffAttempt (emit out s) = backoffAttempt s"
  "stopped (emit out s) = stopped s" "reconnectTimer (emit out s) = reconnectTimer s"
  "sCapabilities (emit out s) = sCapabilities s" "signingKey (emit out s) = signingKey s"
  "attempts (emit out s) = attempts s" "handles (emit out s) = handles s"
  "openChannels (emit out s) = openChannels s" "outputs (emit out s) = outputs s @ [out]"
  by (simp_all add: emit_def)

lemmas session_ops = scheduleReconnect_def handleDisconnect_def connect_def start_def stop_def
  reconnect_def send_def on_drain_def credential_missing_def connect_throws_def connect_opens_def
  open_handle_def on_error_def on_end_def timer_fires_def close_channel_update Let_def

text \<open>An event of a stream that is not the current one changes nothing.\<close>

lemma stale_stream_ignored:
  assumes "stream s \<noteq> Some n"
  shows "on_data cfg fp r n msg s = Some s" and "on_error cfg r n why s = s" and "on_end cfg r n s = s"
  using assms by (simp_all add: on_data_def on_error_def on_end_def)

section \<open>Trust\<close>

lemma disconnect_keeps [simp]:
  "sCapabilities (scheduleReconnect cfg r s) = sCapabilities s"
  "signingKey (scheduleReconnect cfg r s) = signingKey s"
  "outputs (scheduleReconnect cfg r s) = outputs s"
  "sCapabilities (handleDisconnect cfg r why s) = sCapabilities s"
  "signingKey (handleDisconnect cfg r why s) = signingKey s"
  by (simp_all add: scheduleReconnect_def handleDisconnect_def Let_def split_beta)

text \<open>What holds of every session, as far as trust goes.\<close>

definition pin_respected :: "session_config \<Rightarrow> (string \<Rightarrow> string) \<Rightarrow> string \<Rightarrow> bool" where
  "pin_respected cfg fingerprint key \<longleftrightarrow>
     (\<forall>p. scPin cfg = Some p \<and> p \<noteq> '''' \<longrightarrow> key = '''' \<or> fingerprint key = to_lower p)"

definition within_ceiling :: "tier \<Rightarrow> capability list \<Rightarrow> bool" where
  "within_ceiling t caps \<longleftrightarrow> set caps \<subseteq> insert capability.Observe (set (MAX_CAPABILITY_TIERS t))"

fun output_within :: "tier \<Rightarrow> ('w, 'm) session_output \<Rightarrow> bool" where
  "output_within t (Ready caps conf) = within_ceiling t caps"
| "output_within t _ = True"

definition session_trusted ::
  "session_config \<Rightarrow> (string \<Rightarrow> string) \<Rightarrow> tier \<Rightarrow> ('w, 'm) session \<Rightarrow> bool" where
  "session_trusted cfg fingerprint t s \<longleftrightarrow>
     pin_respected cfg fingerprint (signingKey s) \<and> within_ceiling t (sCapabilities s) \<and>
     list_all (output_within t) (outputs s)"

lemma pin_mismatch_respected: "\<not> pin_mismatch cfg fp key \<longleftrightarrow> pin_respected cfg fp key"
  by (auto simp: pin_mismatch_def pin_respected_def split: option.splits)

lemma local_ceiling_tier [simp]: "scCeiling cfg = tier_name t \<Longrightarrow> local_ceiling cfg = tier_name t"
  by (cases t) (auto simp: local_ceiling_def isMaxCapabilityTier_def TIERS_def)

lemma disconnect_within [simp]:
  "list_all (output_within t) (outputs (handleDisconnect cfg r why s)) =
   list_all (output_within t) (outputs s)"
  by (simp add: handleDisconnect_def Let_def)

lemma handleDisconnect_trusted [simp]:
  "session_trusted cfg fp t (handleDisconnect cfg r why s) = session_trusted cfg fp t s"
  by (simp add: session_trusted_def)

lemma scheduleReconnect_trusted [simp]:
  "session_trusted cfg fp t (scheduleReconnect cfg r s) = session_trusted cfg fp t s"
  by (simp add: session_trusted_def)

lemma on_hello_ack_trusted:
  assumes "scCeiling cfg = tier_name t" and "session_trusted cfg fp t s"
    and "on_hello_ack cfg fp r ack s = Some s'"
  shows "session_trusted cfg fp t s'"
proof -
  obtain caps where e: "effectiveCapabilities (haCapabilities ack) (tier_name t) = Some caps"
    and c: "set caps = insert capability.Observe
              {c \<in> set (MAX_CAPABILITY_TIERS t). cap_name c \<in> set (haCapabilities ack)}"
    using effectiveCapabilities_tier by blast
  have "within_ceiling t caps"
    using c by (auto simp: within_ceiling_def)
  then show ?thesis
    using assms e
    by (auto simp: on_hello_ack_def Let_def session_trusted_def pin_mismatch_respected split: if_splits)
qed

lemma session_trusted_update [simp]:
  "session_trusted cfg fp t (s\<lparr>backoffAttempt := n\<rparr>) = session_trusted cfg fp t s"
  "session_trusted cfg fp t (s\<lparr>attempts := n\<rparr>) = session_trusted cfg fp t s"
  "session_trusted cfg fp t (open_handle p s) = session_trusted cfg fp t s"
  "session_trusted cfg fp t (emit (Wrote k w) s) = session_trusted cfg fp t s"
  "session_trusted cfg fp t (emit (Message m) s) = session_trusted cfg fp t s"
  "session_trusted cfg fp t (connect s) = session_trusted cfg fp t s"
  "session_trusted cfg fp t (start s) = session_trusted cfg fp t s"
  "session_trusted cfg fp t (stop s) = session_trusted cfg fp t s"
  "session_trusted cfg fp t (timer_fires s) = session_trusted cfg fp t s"
  "session_trusted cfg fp t (on_drain j s) = session_trusted cfg fp t s"
  "session_trusted cfg fp t (fst (send res w s)) = session_trusted cfg fp t s"
  by (simp_all add: session_trusted_def session_ops split: option.split write_result.split)

lemma session_step_trusted:
  assumes "session_step cfg fp s ev s'" and "scCeiling cfg = tier_name t"
    and "session_trusted cfg fp t s"
  shows "session_trusted cfg fp t s'"
  using assms(1)
proof cases
  case (arrived r n msg)
  then show ?thesis
    using assms(2,3) on_hello_ack_trusted
    by (auto simp: on_data_def split: if_splits session_message.splits)
qed (use assms(3) in \<open>simp_all add: reconnect_def credential_missing_def connect_throws_def
  connect_opens_def on_error_def on_end_def\<close>)

text \<open>
  C10. Whatever arrives on the session, in whatever order calls, streams and timers interleave: the
  key that commands are verified with is empty or, when \<open>worker.yaml\<close> pins a fingerprint, has that
  fingerprint; and the capabilities, those in force and those ever announced as ready, stay within
  the ceiling of \<open>worker.yaml\<close>, whatever the control plane grants.
\<close>

theorem session_trust:
  assumes "session_reach cfg fingerprint anything s" and "scCeiling cfg = tier_name t"
  shows "pin_respected cfg fingerprint (signingKey s) \<and> within_ceiling t (sCapabilities s) \<and>
    (\<forall>caps conf. Ready caps conf \<in> set (outputs s) \<longrightarrow> within_ceiling t caps)"
proof -
  have "session_trusted cfg fingerprint t s"
    using assms(1)
  proof induction
    case fresh
    show ?case
      by (simp add: session_trusted_def new_session_def pin_respected_def within_ceiling_def
          start_def connect_def)
  next
    case (further s ev s')
    then show ?case using session_step_trusted assms(2) by blast
  qed
  then show ?thesis by (auto simp: session_trusted_def list_all_iff)
qed

section \<open>Reconnecting\<close>

text \<open>The longest delay that the configuration allows.\<close>

definition longest_delay :: "session_config \<Rightarrow> int" where
  "longest_delay cfg = js_round (of_int (scMaxDelay cfg) * (1 + scJitter cfg))"

lemma exponential_delay_bounds:
  assumes "session_config_ok cfg"
  shows "0 < exponential_delay cfg n" and "exponential_delay cfg n \<le> of_int (scMaxDelay cfg)"
  using assms by (simp_all add: exponential_delay_def session_config_ok_def)

lemma backoff_next_bounds:
  assumes ok: "session_config_ok cfg" and r: "drawn r"
  shows "0 \<le> fst (backoff_next cfg r n)" and "fst (backoff_next cfg r n) \<le> longest_delay cfg"
proof -
  let ?e = "exponential_delay cfg n" and ?j = "scJitter cfg" and ?m = "of_int (scMaxDelay cfg) :: rat"
  note e = exponential_delay_bounds [OF ok, of n]
  have j: "0 \<le> ?j" using ok by (simp add: session_config_ok_def)
  have "?e * ?j * (r * 2 - 1) \<le> ?e * ?j * 1"
    by (rule mult_left_mono) (use e j r in \<open>auto simp: drawn_def\<close>)
  then have "?e + ?e * ?j * (r * 2 - 1) \<le> ?e * (1 + ?j)" by (simp add: algebra_simps)
  also have "\<dots> \<le> ?m * (1 + ?j)" using e j by (intro mult_right_mono) auto
  finally have "js_round (?e + ?e * ?j * (r * 2 - 1)) \<le> longest_delay cfg"
    unfolding js_round_def longest_delay_def by (intro floor_mono) simp
  moreover have "0 \<le> longest_delay cfg"
    using e j by (auto simp: longest_delay_def js_round_def)
  ultimately show "fst (backoff_next cfg r n) \<le> longest_delay cfg"
    by (simp add: backoff_next_def Let_def)
qed (simp add: backoff_next_def Let_def)

text \<open>
  As long as the worker is not stopped, something is under way that leads to the next session:
  a stream, an attempt, or a retry timer whose delay is within the bound.
\<close>

definition retry_ok :: "session_config \<Rightarrow> ('w, 'm) session \<Rightarrow> bool" where
  "retry_ok cfg s \<longleftrightarrow>
     (case reconnectTimer s of
        NoTimer \<Rightarrow> True | Armed d \<Rightarrow> 0 \<le> d \<and> d \<le> longest_delay cfg | Cleared \<Rightarrow> stopped s)"

definition underway :: "('w, 'm) session \<Rightarrow> bool" where
  "underway s \<longleftrightarrow> stopped s \<or> stream s \<noteq> None \<or> 0 < attempts s \<or> reconnectTimer s \<noteq> NoTimer"

definition trying :: "session_config \<Rightarrow> ('w, 'm) session \<Rightarrow> bool" where
  "trying cfg s \<longleftrightarrow> retry_ok cfg s \<and> underway s"

lemma retry_ok_update [simp]:
  "retry_ok cfg (s\<lparr>sCapabilities := caps\<rparr>) = retry_ok cfg s"
  "retry_ok cfg (s\<lparr>signingKey := k\<rparr>) = retry_ok cfg s"
  "retry_ok cfg (s\<lparr>sConnected := b\<rparr>) = retry_ok cfg s"
  "retry_ok cfg (s\<lparr>backoffAttempt := n\<rparr>) = retry_ok cfg s"
  "retry_ok cfg (s\<lparr>attempts := n\<rparr>) = retry_ok cfg s"
  "retry_ok cfg (emit out s) = retry_ok cfg s"
  "retry_ok cfg (drop_session s) = retry_ok cfg s"
  "retry_ok cfg (open_handle p s) = retry_ok cfg s"
  "retry_ok cfg (fst (send res w s)) = retry_ok cfg s"
  "retry_ok cfg (on_drain j s) = retry_ok cfg s"
  by (simp_all add: retry_ok_def session_ops split: retry_timer.split option.split write_result.split)

lemma underway_update [simp]:
  "underway (s\<lparr>sCapabilities := caps\<rparr>) = underway s"
  "underway (s\<lparr>signingKey := k\<rparr>) = underway s"
  "underway (s\<lparr>sConnected := b\<rparr>) = underway s"
  "underway (s\<lparr>backoffAttempt := n\<rparr>) = underway s"
  "underway (emit out s) = underway s"
  "underway (fst (send res w s)) = underway s"
  "underway (on_drain j s) = underway s"
  "underway (open_handle None s)"
  by (simp_all add: underway_def session_ops split: option.split write_result.split)

lemma trying_retry: "trying cfg s \<Longrightarrow> retry_ok cfg s"
  by (simp add: trying_def)

lemma trying_update [simp]:
  "trying cfg (emit out s) = trying cfg s"
  "trying cfg (s\<lparr>backoffAttempt := n\<rparr>) = trying cfg s"
  "trying cfg (fst (send res w s)) = trying cfg s"
  "trying cfg (on_drain j s) = trying cfg s"
  by (simp_all add: trying_def)

lemma scheduleReconnect_trying:
  assumes "session_config_ok cfg" and "drawn r" and "retry_ok cfg s"
  shows "trying cfg (scheduleReconnect cfg r s)"
  using assms backoff_next_bounds [OF assms(1,2), of "backoffAttempt s"]
  by (auto simp: scheduleReconnect_def trying_def retry_ok_def underway_def Let_def split_beta)

lemma handleDisconnect_trying:
  assumes "session_config_ok cfg" and "drawn r" and "retry_ok cfg s"
  shows "trying cfg (handleDisconnect cfg r why s)"
  using scheduleReconnect_trying [OF assms(1,2), of "emit (Disconnected why) (drop_session s)"] assms(3)
  by (auto simp: handleDisconnect_def Let_def trying_def underway_def)

lemma on_hello_ack_trying:
  assumes "session_config_ok cfg" and "drawn r" and "trying cfg s"
    and "on_hello_ack cfg fp r ack s = Some s'"
  shows "trying cfg s'"
proof -
  have "trying cfg (handleDisconnect cfg r why (s\<lparr>sCapabilities := caps\<rparr>))" for why caps
    using assms(3) by (intro handleDisconnect_trying [OF assms(1,2)]) (simp add: trying_def)
  moreover have "trying cfg (emit out (s\<lparr>sCapabilities := caps, signingKey := k, sConnected := True,
      backoffAttempt := n\<rparr>))" for out caps k n
    using assms(3) by (simp add: trying_def)
  ultimately show ?thesis
    using assms(4) by (auto simp: on_hello_ack_def Let_def split: option.splits if_splits)
qed

lemma session_step_trying:
  assumes "session_step cfg fp s ev s'" and "lasting s ev" and "session_config_ok cfg" and "trying cfg s"
  shows "trying cfg s'"
  using assms(1)
proof cases
  case started
  with assms(2,4) show ?thesis
    by (auto simp: lasting_def trying_def underway_def retry_ok_def start_def connect_def
        split: retry_timer.splits)
next
  case halted
  show ?thesis unfolding halted
    by (simp add: trying_def underway_def retry_ok_def stop_def close_channel_update)
next
  case (arrived r n msg)
  then show ?thesis
    using on_hello_ack_trying [OF assms(3) arrived(2) assms(4)] assms(4)
    by (auto simp: on_data_def trying_def split: if_splits session_message.splits)
next
  case (fired d)
  with assms(4) show ?thesis
    by (auto simp: trying_def underway_def retry_ok_def timer_fires_def connect_def)
qed (use assms(4) in \<open>auto intro!: scheduleReconnect_trying [OF assms(3)] handleDisconnect_trying [OF assms(3)]
  simp: reconnect_def credential_missing_def connect_throws_def on_error_def on_end_def trying_retry
  connect_opens_def, simp_all add: trying_def\<close>)

lemma session_reach_trying:
  assumes "session_reach cfg fp lasting s" and "session_config_ok cfg"
  shows "trying cfg s"
  using assms(1)
proof induction
  case fresh
  show ?case
    by (simp add: trying_def underway_def retry_ok_def new_session_def start_def connect_def)
next
  case (further s ev s')
  then show ?case using session_step_trying assms(2) by blast
qed

text \<open>
  The worker never gives up: in every state that a session which was not stopped can be in,
  there is a stream, an attempt under way, or an armed retry timer, and a timer's delay is at least 0
  and at most the configured maximum with its jitter.
\<close>

theorem session_keeps_trying:
  assumes "session_reach cfg fingerprint lasting s" and "session_config_ok cfg" and "\<not> stopped s"
  shows "stream s \<noteq> None \<or> 0 < attempts s \<or>
    (\<exists>d. reconnectTimer s = Armed d \<and> 0 \<le> d \<and> d \<le> longest_delay cfg)"
  using session_reach_trying [OF assms(1,2)] assms(3)
  by (cases "reconnectTimer s") (auto simp: trying_def underway_def retry_ok_def)

text \<open>The number of the current stream was handed out.\<close>

definition stream_known :: "('w, 'm) session \<Rightarrow> bool" where
  "stream_known s \<longleftrightarrow> (\<forall>n. stream s = Some n \<longrightarrow> n < handles s)"

lemma disconnect_known:
  assumes "stream_known s"
  shows "stream_known (scheduleReconnect cfg r s)" and "stream_known (handleDisconnect cfg r why s)"
  using assms by (simp_all add: stream_known_def scheduleReconnect_def handleDisconnect_def Let_def split_beta)

lemma stream_known_update [simp]:
  "stream_known (s\<lparr>backoffAttempt := n\<rparr>) = stream_known s"
  "stream_known (s\<lparr>attempts := n\<rparr>) = stream_known s"
  "stream_known (s\<lparr>sCapabilities := caps\<rparr>) = stream_known s"
  "stream_known (emit out s) = stream_known s"
  "stream_known s \<Longrightarrow> stream_known (open_handle p s)"
  "stream_known (start s) = stream_known s" "stream_known (stop s) = stream_known s"
  "stream_known (timer_fires s) = stream_known s" "stream_known (on_drain j s) = stream_known s"
  "stream_known (fst (send res w s)) = stream_known s"
  by (auto simp: stream_known_def session_ops split: option.split write_result.split)

lemma session_step_known:
  assumes "session_step cfg fp s ev s'" and "stream_known s"
  shows "stream_known s'"
  using assms(1)
proof cases
  case (arrived r n msg)
  have "stream_known (s\<lparr>sCapabilities := caps, signingKey := k, sConnected := True,
      backoffAttempt := j\<rparr>)" for caps k j
    using assms(2) by (simp add: stream_known_def)
  with arrived assms(2) show ?thesis
    by (auto simp: on_data_def on_hello_ack_def Let_def disconnect_known
        split: if_splits session_message.splits option.splits)
qed (use assms(2) in \<open>simp_all add: reconnect_def credential_missing_def connect_throws_def
  connect_opens_def on_error_def on_end_def disconnect_known\<close>)

lemma session_reach_known: "session_reach cfg fp allowed s \<Longrightarrow> stream_known s"
  by (induction rule: session_reach.induct)
    (simp_all add: session_step_known, simp add: stream_known_def new_session_def)

text \<open>An attempt under way becomes a session, once it opens and is greeted.\<close>

lemma attempt_connects:
  assumes "session_config_ok cfg" and "0 < attempts s" and "pin_respected cfg fp (haSigningKey ack)"
  shows "\<exists>s'. session_trace cfg fp s [Opens hello, Arrives (handles s) (HelloAck ack)] s' \<and>
    sConnected s' \<and> stream s' = Some (handles s) \<and> backoffAttempt s' = 0 \<and>
    signingKey s' = haSigningKey ack \<and> stopped s' = stopped s"
proof -
  let ?s = "connect_opens hello s"
  obtain t where t: "scCeiling cfg = tier_name t"
    using assms(1) by (auto simp: session_config_ok_def)
  obtain caps where "effectiveCapabilities (haCapabilities ack) (tier_name t) = Some caps"
    using effectiveCapabilities_tier by blast
  then have ack: "on_data cfg fp 0 (handles s) (HelloAck ack) ?s =
      Some (emit (Ready caps (haConfig ack)) (?s\<lparr>sCapabilities := caps,
        signingKey := haSigningKey ack, sConnected := True, backoffAttempt := 0\<rparr>))"
    using assms(3) t
    by (simp add: on_data_def on_hello_ack_def pin_mismatch_respected [symmetric] Let_def
        connect_opens_def open_handle_def)
  have 1: "session_step cfg fp s (Opens hello) ?s"
    using assms(2) by (rule session_step.opened)
  have 2: "session_step cfg fp ?s (Arrives (handles s) (HelloAck ack))
      (emit (Ready caps (haConfig ack)) (?s\<lparr>sCapabilities := caps,
        signingKey := haSigningKey ack, sConnected := True, backoffAttempt := 0\<rparr>))"
    by (rule session_step.arrived [OF _ _ ack]) (simp_all add: drawn_def connect_opens_def open_handle_def Let_def)
  show ?thesis
    using session_trace.next_event [OF 1 session_trace.next_event [OF 2 session_trace.no_event]]
    by (fastforce simp: connect_opens_def open_handle_def Let_def)
qed

lemma timer_connects:
  assumes "session_config_ok cfg" and "reconnectTimer s = Armed d" and "\<not> stopped s"
    and "pin_respected cfg fp (haSigningKey ack)"
  shows "\<exists>s' n. session_trace cfg fp s [TimerFires, Opens hello, Arrives n (HelloAck ack)] s' \<and>
    sConnected s' \<and> stream s' = Some n \<and> backoffAttempt s' = 0 \<and>
    signingKey s' = haSigningKey ack \<and> \<not> stopped s'"
proof -
  have "0 < attempts (timer_fires s)" "stopped (timer_fires s) = stopped s"
    using assms(3) by (simp_all add: timer_fires_def connect_def)
  with attempt_connects [OF assms(1) _ assms(4), of "timer_fires s" hello] assms(3)
    session_trace.next_event [OF session_step.fired [OF assms(2)]]
  show ?thesis by metis
qed

lemma ended_stream_retries:
  assumes "trying cfg s" and "\<not> stopped s" and "stream s = Some n"
  shows "\<exists>d. reconnectTimer (on_end cfg 0 n s) = Armed d \<and> \<not> stopped (on_end cfg 0 n s)"
  using assms
  by (cases "reconnectTimer s")
    (auto simp: trying_def retry_ok_def on_end_def handleDisconnect_def scheduleReconnect_def Let_def
      split_beta)

text \<open>
  C25. The worker can always get back: from every state that a session which was not stopped can be
  in, the current stream ending (if there is one), the retry timer firing (if it waits), the channel
  opening and one greeting are enough to be connected again, on the new stream, with the key of that
  greeting and the backoff reset. The greeting only has to respect the pinned fingerprint.
\<close>

theorem session_recovers:
  assumes "session_reach cfg fingerprint lasting s" and "session_config_ok cfg" and "\<not> stopped s"
    and "pin_respected cfg fingerprint (haSigningKey ack)"
  shows "\<exists>pre n s'. length pre \<le> 2 \<and> set pre \<subseteq> insert TimerFires (range StreamEnds) \<and>
    session_trace cfg fingerprint s (pre @ [Opens hello, Arrives n (HelloAck ack)]) s' \<and>
    sConnected s' \<and> stream s' = Some n \<and> backoffAttempt s' = 0 \<and>
    signingKey s' = haSigningKey ack \<and> \<not> stopped s'"
proof -
  note trying = session_reach_trying [OF assms(1,2)]
  note timer = timer_connects [OF assms(2) _ _ assms(4), where hello = hello]
  consider "0 < attempts s" | d where "reconnectTimer s = Armed d" | n where "stream s = Some n"
    using trying assms(3) by (cases "reconnectTimer s") (auto simp: trying_def underway_def retry_ok_def)
  then show ?thesis
  proof cases
    case 1
    from attempt_connects [OF assms(2) this assms(4), of hello] assms(3) show ?thesis
      by (intro exI [of _ "[]"]) auto
  next
    case 2
    from timer [OF this assms(3)] show ?thesis by (intro exI [of _ "[TimerFires]"]) auto
  next
    case 3
    have step: "session_step cfg fingerprint s (StreamEnds n) (on_end cfg 0 n s)"
      using session_reach_known [OF assms(1)] 3
      by (intro session_step.ended) (auto simp: drawn_def stream_known_def)
    obtain d where "reconnectTimer (on_end cfg 0 n s) = Armed d" "\<not> stopped (on_end cfg 0 n s)"
      using ended_stream_retries [OF trying assms(3) 3] by blast
    from timer [OF this] session_trace.next_event [OF step] show ?thesis
      by (intro exI [of _ "[StreamEnds n, TimerFires]"]) fastforce
  qed
qed

section \<open>One session at a time\<close>

definition armed :: "retry_timer \<Rightarrow> bool" where
  "armed timer \<longleftrightarrow> (\<exists>d. timer = Armed d)"

definition single_session :: "('w, 'm) session \<Rightarrow> bool" where
  "single_session s \<longleftrightarrow>
     (stream s = None \<or> stream s = client s) \<and> (sConnected s \<longrightarrow> stream s \<noteq> None) \<and>
     (openChannels s = [] \<or> (\<exists>c. client s = Some c \<and> openChannels s = [c])) \<and>
     (0 < attempts s \<longrightarrow> attempts s = 1 \<and> client s = None \<and> reconnectTimer s = NoTimer) \<and>
     (reconnectTimer s \<noteq> NoTimer \<longrightarrow> client s = None) \<and>
     (stopped s \<longrightarrow> \<not> armed (reconnectTimer s)) \<and>
     (\<not> stopped s \<longrightarrow>
        attempts s + length (openChannels s) + of_bool (armed (reconnectTimer s)) = 1 \<and>
        openChannels s = (case stream s of None \<Rightarrow> [] | Some n \<Rightarrow> [n]) \<and> stream s = client s \<and>
        reconnectTimer s \<noteq> Cleared)"

lemma armed_simps [simp]: "\<not> armed NoTimer" "armed (Armed d)" "\<not> armed Cleared"
  by (simp_all add: armed_def)

text \<open>Both ways of losing a session end with a timer as the only thing that is left.\<close>

lemma schedule_single:
  assumes "attempts s = 0" and "reconnectTimer s = NoTimer"
    and "openChannels s = [] \<or> (\<exists>c. client s = Some c \<and> openChannels s = [c])" and "\<not> stopped s"
  shows "single_session (scheduleReconnect cfg r s)"
  using assms by (auto simp: scheduleReconnect_def Let_def split_beta single_session_def split: option.splits)

lemma handleDisconnect_single:
  assumes "single_session s" and "stream s \<noteq> None \<or> attempts s = 0"
  shows "single_session (handleDisconnect cfg r why s)"
proof (cases "\<not> sConnected s \<and> reconnectTimer s \<noteq> NoTimer")
  case True
  with assms(1) show ?thesis by (simp add: handleDisconnect_def)
next
  case False
  let ?d = "emit (Disconnected why) (drop_session s)"
  have *: "reconnectTimer s = NoTimer" "attempts s = 0" "openChannels ?d = []"
    using False assms by (auto simp: single_session_def split: option.splits)
  show ?thesis
  proof (cases "stopped s")
    case True
    with False * show ?thesis by (auto simp: handleDisconnect_def single_session_def)
  next
    case nonstop: False
    have "single_session (scheduleReconnect cfg r ?d)"
      by (rule schedule_single) (use * nonstop in simp_all)
    with False nonstop show ?thesis by (auto simp: handleDisconnect_def Let_def)
  qed
qed

lemma attempt_ends_single:
  assumes "single_session s" and "0 < attempts s"
  shows "single_session (credential_missing cfg r s)" and "single_session (connect_throws cfg r p s)"
proof -
  note inv = assms(1) [unfolded single_session_def] assms(2)
  show "single_session (credential_missing cfg r s)"
  proof (cases "stopped s")
    case True
    with inv show ?thesis
      by (auto simp: credential_missing_def scheduleReconnect_def single_session_def)
  next
    case False
    with inv show ?thesis
      unfolding credential_missing_def by (intro schedule_single) auto
  qed
  show "single_session (connect_throws cfg r p s)"
  proof (cases "stopped s")
    case True
    with inv show ?thesis
      by (auto simp: connect_throws_def open_handle_def scheduleReconnect_def single_session_def Let_def)
  next
    case False
    with inv show ?thesis
      unfolding connect_throws_def
      by (intro schedule_single) (auto simp: open_handle_def Let_def)
  qed
qed

lemma on_hello_ack_single:
  assumes "single_session s" and "stream s = Some n" and "on_hello_ack cfg fp r ack s = Some s'"
  shows "single_session s'"
proof -
  have "single_session (s\<lparr>sCapabilities := caps\<rparr>)" for caps
    using assms(1) by (auto simp: single_session_def)
  then have "single_session (handleDisconnect cfg r why (s\<lparr>sCapabilities := caps\<rparr>))" for why caps
    by (rule handleDisconnect_single) (simp add: assms(2))
  moreover have "single_session (emit out (s\<lparr>sCapabilities := caps, signingKey := k, sConnected := True,
      backoffAttempt := j\<rparr>))" for out caps k j
    using assms(1,2) by (cases "client s") (auto simp: single_session_def)
  ultimately show ?thesis
    using assms(3) by (auto simp: on_hello_ack_def Let_def split: option.splits if_splits)
qed

lemma single_session_update:
  assumes "single_session s"
  shows "single_session (emit out s)" "single_session (s\<lparr>backoffAttempt := n\<rparr>)"
    "single_session (on_drain j s)" "single_session (fst (send res w s))" "single_session (stop s)"
    "0 < attempts s \<Longrightarrow> single_session (connect_opens hello s)"
    "armed (reconnectTimer s) \<Longrightarrow> single_session (timer_fires s)"
  using assms
  by (auto simp: single_session_def session_ops split: option.splits write_result.splits)

lemma session_step_single:
  assumes "session_step cfg fp s ev s'" and "calm s ev" and "single_session s"
  shows "single_session s'"
  using assms(1)
proof cases
  case started
  with assms(2) show ?thesis by (simp add: calm_def)
next
  case (redialled r why)
  with assms(2,3) handleDisconnect_single [OF single_session_update(2) [OF assms(3)]] show ?thesis
    by (auto simp: calm_def reconnect_def)
next
  case (arrived r n msg)
  then show ?thesis
    using assms(3) on_hello_ack_single
    by (auto simp: on_data_def single_session_update split: if_splits session_message.splits)
qed (use assms(3) in \<open>auto simp: single_session_update attempt_ends_single on_error_def on_end_def
  intro!: handleDisconnect_single\<close>)

text \<open>
  C24. In a worker that starts once and calls \<open>reconnect\<close> only when no attempt is under way, exactly one of three
  things exists at any time until it is stopped: an attempt, a retry timer, or a session, and then
  the session's channel is the only one open. No channel leaks over any sequence of failures, refused
  keys and late events; after \<open>stop\<close> there is at most one channel or attempt left.
\<close>

theorem one_session_at_a_time:
  assumes "session_reach cfg fingerprint calm s"
  shows "attempts s + length (openChannels s) \<le> 1 \<and> (stopped s \<or>
    attempts s + length (openChannels s) + of_bool (armed (reconnectTimer s)) = 1 \<and>
    openChannels s = (case stream s of None \<Rightarrow> [] | Some n \<Rightarrow> [n]))"
proof -
  have "single_session s"
    using assms
  proof induction
    case fresh
    show ?case by (simp add: single_session_def new_session_def start_def connect_def)
  next
    case (further s ev s')
    then show ?case using session_step_single by blast
  qed
  then show ?thesis by (auto simp: single_session_def)
qed

text \<open>A session that is refused for its key is gone, and the key in force is the one before.\<close>

lemma wrong_key_refused:
  assumes "single_session s" and "\<not> stopped s" and "stream s = Some n"
    and "pin_mismatch cfg fp (haSigningKey ack)"
    and "on_data cfg fp r n (HelloAck ack) s = Some s'"
  shows "stream s' = None \<and> openChannels s' = [] \<and> \<not> sConnected s' \<and> signingKey s' = signingKey s \<and>
    armed (reconnectTimer s')"
proof -
  have "reconnectTimer s = NoTimer" using assms(1,3) by (auto simp: single_session_def)
  then show ?thesis
    using assms by (cases "client s") (auto simp: on_data_def on_hello_ack_def Let_def handleDisconnect_def
        scheduleReconnect_def split_beta single_session_def split: option.splits)
qed

section \<open>The outbox over the session\<close>

text \<open>
  \<open>drainOutbox\<close> hands its rows to \<open>send\<close>; the outcomes of the writes come one after the other.
\<close>

definition offer ::
  "(nat \<Rightarrow> write_result) \<Rightarrow> ('w, 'm) session \<times> nat \<Rightarrow> 'w \<Rightarrow> (('w, 'm) session \<times> nat) \<times> bool" where
  "offer results st msg =
     (let (s, accepted) = send (results (snd st)) msg (fst st) in ((s, Suc (snd st)), accepted))"

lemma send_connected:
  assumes "sConnected s" and "stream s = Some n" and "send res msg s = (s', accepted)"
  shows "sConnected s'" and "stream s' = Some n" and "accepted \<longleftrightarrow> res \<noteq> WriteThrows"
    and "outputs s' = outputs s @ (if accepted then [Wrote n msg] else [])"
  using assms by (auto simp: send_def split: write_result.splits if_splits)

lemma deliver_offer:
  assumes "sConnected s" and "stream s = Some n"
    and "deliver parse (offer results) rows (s, i) = (rows', s', j)"
  shows "\<exists>k \<le> length rows. rows' = drop k rows \<and>
    outputs s' = outputs s @ map (Wrote n) (List.map_filter (\<lambda>r. parse (rowPayload r)) (take k rows)) \<and>
    ((\<forall>i. results i \<noteq> WriteThrows) \<longrightarrow> rows' = [])"
  using assms
proof (induction rows arbitrary: s i)
  case Nil
  then show ?case by simp
next
  case (Cons r rows)
  show ?case
  proof (cases "parse (rowPayload r)")
    case None
    then have "deliver parse (offer results) rows (s, i) = (rows', s', j)" using Cons.prems(3) by simp
    from Cons.IH [OF Cons.prems(1,2) this] obtain k where "k \<le> length rows" "rows' = drop k rows"
      "outputs s' = outputs s @ map (Wrote n) (List.map_filter (\<lambda>r. parse (rowPayload r)) (take k rows))"
      "(\<forall>i. results i \<noteq> WriteThrows) \<longrightarrow> rows' = []" by blast
    with None show ?thesis by (intro exI [of _ "Suc k"]) simp
  next
    case (Some m)
    obtain s1 accepted where send: "send (results i) m s = (s1, accepted)" by fastforce
    then have offered: "offer results (s, i) m = ((s1, Suc i), accepted)" by (simp add: offer_def)
    note c = send_connected [OF Cons.prems(1,2) send]
    show ?thesis
    proof (cases accepted)
      case True
      with Some offered Cons.prems(3) have "deliver parse (offer results) rows (s1, Suc i) = (rows', s', j)"
        by simp
      from Cons.IH [OF c(1,2) this] obtain k where "k \<le> length rows" "rows' = drop k rows"
        "outputs s' = outputs s1 @ map (Wrote n) (List.map_filter (\<lambda>r. parse (rowPayload r)) (take k rows))"
        "(\<forall>i. results i \<noteq> WriteThrows) \<longrightarrow> rows' = []" by blast
      with Some True c(4) show ?thesis by (intro exI [of _ "Suc k"]) simp
    next
      case False
      with Some offered Cons.prems(3) c show ?thesis by auto
    qed
  qed
qed

text \<open>
  C30. Backpressure neither loses nor repeats history: draining the outbox over a connected session
  returns, writes each message of the rows it removes exactly once, in order, on the current stream,
  keeps the rows behind them, and empties the outbox whenever no write throws, whether or not the
  stream asked to slow down on the way.
\<close>

theorem drain_over_session:
  assumes "outbox_ok q" and "sConnected s" and "stream s = Some n"
  shows "\<exists>q' s' j. drainOutbox peek acknowledge parse (offer results) (\<lambda>(s, i). sConnected s) q (s, 0) =
      Some (q', s', j) \<and> outbox_ok q' \<and>
    (\<exists>k \<le> length (outboxRows q). outboxRows q' = drop k (outboxRows q) \<and>
       outputs s' = outputs s @
         map (Wrote n) (List.map_filter (\<lambda>r. parse (rowPayload r)) (take k (outboxRows q))) \<and>
       ((\<forall>i. results i \<noteq> WriteThrows) \<longrightarrow> outboxRows q' = []))"
proof -
  obtain q' s' j where "drain_loop peek acknowledge parse (offer results) q (s, 0) = Some (q', s', j)"
    and "outbox_ok q'" and d: "deliver parse (offer results) (outboxRows q) (s, 0) = (outboxRows q', s', j)"
    using outbox_queue.drain_loop_deliver [OF assms(1), of parse "offer results" "(s, 0)"] by auto
  with deliver_offer [OF assms(2,3) d] assms(2) show ?thesis
    by (intro exI [of _ q'] exI [of _ s'] exI [of _ j]) (simp add: drainOutbox_def)
qed

section \<open>A concrete worker\<close>

lemma session_trace_reach:
  assumes "session_trace cfg fp s evs s'" and "session_reach cfg fp allowed s"
    and "\<And>s ev. ev \<in> set evs \<Longrightarrow> allowed s ev"
  shows "session_reach cfg fp allowed s'"
  using assms
proof induction
  case (next_event s ev s1 evs s2)
  then have "session_reach cfg fp allowed s1"
    using session_reach.further by (metis list.set_intros(1))
  with next_event show ?case by simp
qed

definition pinned_worker :: session_config where
  "pinned_worker = \<lparr>scInitialDelay = 1000, scMaxDelay = 60000, scJitter = 3 / 10,
     scCeiling = ''operate'', scPin = Some ''AB''\<rparr>"

definition demo_fingerprint :: "string \<Rightarrow> string" where
  "demo_fingerprint key = (if key = ''pem'' then ''ab'' else ''cd'')"

definition demo_ack :: hello_ack where
  "demo_ack = \<lparr>haCapabilities = [''observe'', ''job.run'', ''job.write''], haSigningKey = ''pem'',
     haConfig = None\<rparr>"

lemma demo_pin: "to_lower ''AB'' = ''ab''"
  by code_simp

lemma pinned_worker_ok: "session_config_ok pinned_worker" "scCeiling pinned_worker = tier_name Operate"
  "pin_respected pinned_worker demo_fingerprint (haSigningKey demo_ack)"
  by (simp_all add: session_config_ok_def pinned_worker_def TIERS_def pin_respected_def
      demo_fingerprint_def demo_ack_def demo_pin)

lemma start_new_session [simp]:
  "attempts (start new_session) = 1" "handles (start new_session) = 0"
  "stream (start new_session) = None" "\<not> stopped (start new_session)"
  "reconnectTimer (start new_session) = NoTimer" "client (start new_session) = None"
  "\<not> sConnected (start new_session)" "backoffAttempt (start new_session) = 0"
  "openChannels (start new_session) = []" "outputs (start new_session) = []"
  by (simp_all add: start_def connect_def new_session_def)

lemma demo_connected:
  assumes "\<And>s. allowed s (Opens ''hello'')" and "\<And>s. allowed s (Arrives 0 (HelloAck demo_ack))"
  shows "\<exists>s :: (string, string) session. session_reach pinned_worker demo_fingerprint allowed s \<and>
    sConnected s \<and> stream s = Some 0 \<and> \<not> stopped s \<and> signingKey s = ''pem''"
proof -
  obtain s' :: "(string, string) session" where
    "session_trace pinned_worker demo_fingerprint (start new_session)
       [Opens ''hello'', Arrives 0 (HelloAck demo_ack)] s'"
    and s': "sConnected s'" "stream s' = Some 0" "\<not> stopped s'" "signingKey s' = ''pem''"
    using attempt_connects [OF pinned_worker_ok(1) _ pinned_worker_ok(3), of "start new_session" "''hello''"]
    by (auto simp: demo_ack_def)
  from session_trace_reach [OF this(1) session_reach.fresh, of allowed] assms s' show ?thesis by fastforce
qed

theorem session_trust_witness:
  "\<exists>s :: (string, string) session. sConnected s \<and> signingKey s = ''pem'' \<and>
     pin_respected pinned_worker demo_fingerprint (signingKey s) \<and> within_ceiling Operate (sCapabilities s)"
proof -
  obtain s :: "(string, string) session" where "session_reach pinned_worker demo_fingerprint anything s"
    "sConnected s" "signingKey s = ''pem''"
    using demo_connected [of anything] by (auto simp: anything_def)
  with session_trust [OF this(1) pinned_worker_ok(2)] show ?thesis by blast
qed

theorem session_keeps_trying_witness:
  "\<exists>d. reconnectTimer (credential_missing pinned_worker 0 (start new_session :: (string, string) session)) =
     Armed d \<and> 0 \<le> d \<and> d \<le> 78000"
proof -
  let ?s = "credential_missing pinned_worker 0 (start new_session :: (string, string) session)"
  have "session_reach pinned_worker demo_fingerprint lasting ?s"
    by (rule session_reach.further [OF session_reach.fresh _ session_step.no_credential])
      (simp_all add: lasting_def drawn_def)
  moreover have "stream ?s = None" "attempts ?s = 0" "\<not> stopped ?s"
    by (simp_all add: credential_missing_def scheduleReconnect_def Let_def split_beta)
  moreover have "longest_delay pinned_worker = 78000"
    unfolding longest_delay_def pinned_worker_def js_round_def by (rule floor_unique) simp_all
  ultimately show ?thesis
    using session_keeps_trying [of pinned_worker demo_fingerprint ?s] pinned_worker_ok(1) by simp
qed

theorem session_recovers_witness:
  "\<exists>pre n s'. session_trace pinned_worker demo_fingerprint (start new_session :: (string, string) session)
     (pre @ [Opens ''hello'', Arrives n (HelloAck demo_ack)]) s' \<and> sConnected s' \<and> signingKey s' = ''pem''"
proof -
  have "signingKey s = haSigningKey demo_ack \<longleftrightarrow> signingKey s = ''pem''" for s :: "(string, string) session"
    by (simp add: demo_ack_def)
  with session_recovers [OF session_reach.fresh pinned_worker_ok(1) _ pinned_worker_ok(3), of "''hello''"]
  show ?thesis by (metis start_new_session(4))
qed

theorem one_session_at_a_time_witness:
  "\<exists>s :: (string, string) session. sConnected s \<and> openChannels s = [0] \<and> attempts s = 0"
proof -
  obtain s :: "(string, string) session" where s: "session_reach pinned_worker demo_fingerprint calm s"
    "sConnected s" "stream s = Some 0" "\<not> stopped s"
    using demo_connected [of calm] by (auto simp: calm_def)
  from one_session_at_a_time [OF s(1)] s show ?thesis by (intro exI [of _ s]) auto
qed

theorem drain_over_session_witness:
  "\<exists>q' s' j. drainOutbox peek acknowledge Some (offer (\<lambda>_. Buffered)) (\<lambda>(s, i). sConnected s) two_rows
      ((start new_session :: (string, string) session)\<lparr>sConnected := True, stream := Some 0\<rparr>, 0) =
      Some (q', s', j) \<and> outboxRows q' = [] \<and> outputs s' = [Wrote 0 ''a'', Wrote 0 ''b'']"
proof -
  have ok: "outbox_ok two_rows"
    by (simp add: two_rows_def enqueue_def evictIfNeeded_def empty_outbox_def openOutbox_def
        outbox_ok_def new_row_def)
  have rows: "map rowPayload (outboxRows two_rows) = [''a'', ''b'']"
    by (simp add: two_rows_def empty_outbox_def openOutbox_def enqueue_def evictIfNeeded_def new_row_def)
  then have "List.map_filter (\<lambda>r. Some (rowPayload r)) (outboxRows two_rows) = [''a'', ''b'']"
    by (simp add: map_filter_def comp_def)
  moreover have "drop k xs = [] \<Longrightarrow> take k xs = xs" for k and xs :: "outbox_row list" by simp
  ultimately show ?thesis
    using drain_over_session [OF ok, of "(start new_session :: (string, string) session)
        \<lparr>sConnected := True, stream := Some 0\<rparr>" 0 Some "\<lambda>_. Buffered"]
    by fastforce
qed

section \<open>What is left open\<close>

text \<open>
  \<open>reconnect\<close> says that it dials again immediately, and \<open>scheduleReconnect\<close> puts its delay before
  it: with the defaults, at least 700 ms.
\<close>

lemma reconnect_waits:
  assumes "scInitialDelay cfg = 1000" "scMaxDelay cfg = 60000" "scJitter cfg = 3 / 10" and "drawn r"
    and "\<not> stopped s" "reconnectTimer s = NoTimer"
  shows "\<exists>d. reconnectTimer (reconnect cfg r why s) = Armed d \<and> 700 \<le> d \<and> attempts (reconnect cfg r why s) = attempts s"
proof -
  have "(700 :: rat) \<le> 1000 + 1000 * (3 / 10) * (r * 2 - 1)" using assms(4) by (simp add: drawn_def)
  then have "700 \<le> js_round (1000 + 1000 * (3 / 10) * (r * 2 - 1))"
    by (simp add: js_round_def le_floor_iff)
  moreover have "fst (backoff_next cfg r 0) = max 0 (js_round (1000 + 1000 * (3 / 10) * (r * 2 - 1)))"
    unfolding backoff_next_def exponential_delay_def assms(1-3) Let_def by simp
  ultimately have "700 \<le> fst (backoff_next cfg r 0)" by linarith
  then show ?thesis
    using assms(5,6)
    by (simp add: reconnect_def handleDisconnect_def scheduleReconnect_def Let_def split_beta)
qed

text \<open>
  \<open>connectAsync\<close> looks at \<open>stopped\<close> only before it awaits the credential: an attempt that was under
  way when the session was stopped still opens a channel, is greeted and becomes connected.
\<close>

lemma stop_does_not_stop:
  "\<exists>s :: (string, string) session. session_trace pinned_worker demo_fingerprint (start new_session)
     [Stop, Opens ''hello'', Arrives 0 (HelloAck demo_ack)] s \<and> stopped s \<and> sConnected s"
proof -
  let ?s = "stop (start new_session) :: (string, string) session"
  have s: "0 < attempts ?s" "handles ?s = 0" "stopped ?s"
    by (simp_all add: stop_def close_channel_update)
  show ?thesis
    using attempt_connects [OF pinned_worker_ok(1) s(1) pinned_worker_ok(3), of "''hello''"] s(2,3)
      session_trace.next_event [OF session_step.halted [of _ _ "start new_session"]]
    by metis
qed

text \<open>
  A \<open>reconnect\<close> while an attempt is under way, as after a renewed certificate, arms the timer beside
  the attempt; when it fires, the second channel replaces the first, which is never closed.
\<close>

lemma overlapping_attempts_leak:
  "\<exists>s :: (string, string) session. session_trace pinned_worker demo_fingerprint (start new_session)
     [Reconnect ''client certificate renewed'', Opens ''hello'', TimerFires, Opens ''hello''] s \<and>
     openChannels s = [1, 0] \<and> client s = Some 1"
proof -
  let ?s1 = "reconnect pinned_worker 0 ''client certificate renewed'' (start new_session :: (string, string) session)"
  let ?s2 = "connect_opens ''hello'' ?s1"
  let ?s3 = "timer_fires ?s2"
  have s1: "0 < attempts ?s1" "attempts ?s1 = 1" "handles ?s1 = 0" "openChannels ?s1 = []" "\<not> stopped ?s1"
    "\<exists>d. reconnectTimer ?s1 = Armed d"
    by (simp_all add: reconnect_def handleDisconnect_def scheduleReconnect_def Let_def split_beta)
  then obtain d where d: "reconnectTimer ?s2 = Armed d"
    by (auto simp: connect_opens_def open_handle_def Let_def)
  have s3: "0 < attempts ?s3"
    using s1 by (simp add: timer_fires_def connect_def connect_opens_def open_handle_def Let_def)
  have "session_trace pinned_worker demo_fingerprint (start new_session)
     [Reconnect ''client certificate renewed'', Opens ''hello'', TimerFires, Opens ''hello'']
     (connect_opens ''hello'' ?s3)"
    by (rule session_trace.intros session_step.redialled [where r = 0] session_step.opened session_step.fired
        s1(1) d s3 | simp add: drawn_def)+
  moreover have "openChannels (connect_opens ''hello'' ?s3) = [1, 0]" "client (connect_opens ''hello'' ?s3) = Some 1"
    using s1 by (simp_all add: connect_opens_def open_handle_def timer_fires_def connect_def Let_def)
  ultimately show ?thesis by blast
qed

text \<open>
  \<open>stop\<close> clears the timer but keeps its handle, so a session that is started again after it never
  schedules another attempt: one failure and nothing is under way any more.
\<close>

lemma restarted_session_stuck:
  "\<exists>s :: (string, string) session. session_trace cfg fp (start new_session)
     [CredentialMissing, Stop, Start, CredentialMissing] s \<and>
     \<not> stopped s \<and> stream s = None \<and> attempts s = 0 \<and> reconnectTimer s = Cleared"
proof -
  let ?s1 = "credential_missing cfg 0 (start new_session :: (string, string) session)"
  let ?s3 = "start (stop ?s1)"
  have s3: "0 < attempts ?s3" "attempts ?s3 = 1" "stream ?s3 = None" "\<not> stopped ?s3" "reconnectTimer ?s3 = Cleared"
    by (simp_all add: credential_missing_def scheduleReconnect_def Let_def split_beta stop_def
        close_channel_update start_def connect_def new_session_def)
  have "session_trace cfg fp (start new_session)
     [CredentialMissing, Stop, Start, CredentialMissing] (credential_missing cfg 0 ?s3)"
    by (rule session_trace.intros session_step.no_credential [where r = 0] session_step.halted session_step.started
        s3(1) | simp add: drawn_def)+
  with s3 show ?thesis
    by (intro exI [of _ "credential_missing cfg 0 ?s3"])
      (simp add: credential_missing_def scheduleReconnect_def)
qed

end
