(* ===== verification/CertRenewal.thy ===== *)
theory CertRenewal
  imports Complex_Main Prelude
begin

text \<open>
  The worker's side of certificate renewal (\<open>packages/worker/src/cert-renewal.ts\<close>): the timers of
  \<open>CertificateRenewer\<close>, the request, the reply and the installation of the new pair. Each method and
  each timer callback is a function on the renewer's state, which includes the disk. Reading X.509,
  generating a request, the session's \<open>send\<close> and whether a file could be written are parameters;
  times and delays are rational numbers of milliseconds.
\<close>

section \<open>Configuration and state\<close>

definition RENEW_AT_LIFETIME_FRACTION :: rat where "RENEW_AT_LIFETIME_FRACTION = 1 / 2"

definition JITTER_FRACTION :: rat where "JITTER_FRACTION = 1 / 20"

definition RETRY_DELAY_MS :: rat where "RETRY_DELAY_MS = 60 * 60 * 1000"

definition MAX_TIMEOUT_MS :: rat where "MAX_TIMEOUT_MS = 2147483647"

record renewer_config =
  rcMtls :: bool
  rcCertPath :: "string option"
  rcKeyPath :: "string option"
  rcCaPath :: "string option"

text \<open>
  \<open>new X509Certificate\<close> fails or gives the two dates, each of which may be no date; a pair is good
  when both halves parse and \<open>checkPrivateKey\<close> accepts them.
\<close>

record x509 =
  validity :: "string \<Rightarrow> (int option \<times> int option) option"
  goodPair :: "string \<Rightarrow> string \<Rightarrow> bool"

text \<open>\<open>#timer\<close>: a full wait with the rest still to be armed, or the wait before a request.\<close>

datatype renewal_timer = Idle | Rearm rat | RenewAfter rat

datatype renewer_call = SendCsr string | CallReconnect

record renewer =
  rnTimer :: renewal_timer
  rnResponseTimer :: bool
  rnPendingKey :: "string option"
  rnStopped :: bool
  rnDisk :: "string \<Rightarrow> string option"
  rnCalls :: "renewer_call list"

definition new_renewer :: "(string \<Rightarrow> string option) \<Rightarrow> renewer" where
  "new_renewer disk = \<lparr>rnTimer = Idle, rnResponseTimer = False, rnPendingKey = None, rnStopped = False,
     rnDisk = disk, rnCalls = []\<rparr>"

section \<open>Timers\<close>

definition clearTimers :: "renewer \<Rightarrow> renewer" where
  "clearTimers s = s\<lparr>rnTimer := Idle, rnResponseTimer := False\<rparr>"

definition armTimer :: "rat \<Rightarrow> renewer \<Rightarrow> renewer" where
  "armTimer delay s =
     (if delay > MAX_TIMEOUT_MS then s\<lparr>rnTimer := Rearm (delay - MAX_TIMEOUT_MS)\<rparr>
      else s\<lparr>rnTimer := RenewAfter delay\<rparr>)"

definition scheduleRetry :: "renewer \<Rightarrow> renewer" where
  "scheduleRetry s = (if rnStopped s then s else s\<lparr>rnTimer := RenewAfter RETRY_DELAY_MS\<rparr>)"

section \<open>Requesting\<close>

text \<open>\<open>generated\<close> is the request and its private key, \<^term>\<open>None\<close> when generating them threw.\<close>

definition requestRenewal ::
  "renewer_config \<Rightarrow> (string \<times> string) option \<Rightarrow> bool \<Rightarrow> renewer \<Rightarrow> renewer" where
  "requestRenewal cfg generated accepted s =
     (if rnStopped s \<or> \<not> rcMtls cfg then s
      else let s = s\<lparr>rnTimer := Idle\<rparr>
           in case generated of
                None \<Rightarrow> scheduleRetry s
              | Some (csr, key) \<Rightarrow>
                  (let s = s\<lparr>rnCalls := rnCalls s @ [SendCsr csr]\<rparr>
                   in if accepted then s\<lparr>rnPendingKey := Some key, rnResponseTimer := True\<rparr> else s))"

definition response_timeout :: "renewer \<Rightarrow> renewer" where
  "response_timeout s =
     (let s = s\<lparr>rnResponseTimer := False\<rparr>
      in case rnPendingKey s of
           None \<Rightarrow> s
         | Some key \<Rightarrow> if key = '''' then s else scheduleRetry (s\<lparr>rnPendingKey := None\<rparr>))"

definition renew_at :: "rat \<Rightarrow> int \<Rightarrow> int \<Rightarrow> rat" where
  "renew_at random notBefore notAfter =
     (let lifetime = of_int (notAfter - notBefore); jitter = lifetime * JITTER_FRACTION * random
      in of_int notBefore + lifetime * RENEW_AT_LIFETIME_FRACTION + jitter)"

definition scheduleFromCertificate ::
  "renewer_config \<Rightarrow> x509 \<Rightarrow> rat \<Rightarrow> rat \<Rightarrow> (string \<times> string) option \<Rightarrow> bool \<Rightarrow> renewer \<Rightarrow> renewer" where
  "scheduleFromCertificate cfg env random now generated accepted s =
     (case rcCertPath cfg of
        None \<Rightarrow> s
      | Some path \<Rightarrow>
          if path = '''' then s
          else case Option.bind (rnDisk s path) (validity env) of
            None \<Rightarrow> s
          | Some (Some notBefore, Some notAfter) \<Rightarrow>
              if notAfter \<le> notBefore then s
              else let delay = max 0 (renew_at random notBefore notAfter - now)
                   in if delay = 0 then requestRenewal cfg generated accepted s else armTimer delay s
          | Some _ \<Rightarrow> s)"

section \<open>Sessions and replies\<close>

definition onSessionReady ::
  "renewer_config \<Rightarrow> x509 \<Rightarrow> rat \<Rightarrow> rat \<Rightarrow> (string \<times> string) option \<Rightarrow> bool \<Rightarrow> renewer \<Rightarrow> renewer" where
  "onSessionReady cfg env random now generated accepted s =
     (if \<not> rcMtls cfg \<or> rnStopped s then s
      else scheduleFromCertificate cfg env random now generated accepted
             ((clearTimers s)\<lparr>rnPendingKey := None\<rparr>))"

definition onDisconnect :: "renewer \<Rightarrow> renewer" where
  "onDisconnect s = (clearTimers s)\<lparr>rnPendingKey := None\<rparr>"

definition stop_renewer :: "renewer \<Rightarrow> renewer" where
  "stop_renewer s = (clearTimers (s\<lparr>rnStopped := True\<rparr>))\<lparr>rnPendingKey := None\<rparr>"

record renewal_response =
  rrSuccess :: bool
  rrCertificate :: string
  rrCaCertificate :: string

text \<open>
  Which of the three writes would succeed. \<open>writeSecretFile\<close> replaces the file by a rename or
  leaves it as it was and throws.
\<close>

record write_outcomes =
  woKey :: bool
  woCertificate :: bool
  woCa :: bool

text \<open>The new disk, and whether \<open>install\<close> returned.\<close>

definition install ::
  "renewer_config \<Rightarrow> x509 \<Rightarrow> write_outcomes \<Rightarrow> string \<Rightarrow> string \<Rightarrow> string \<Rightarrow> (string \<Rightarrow> string option)
     \<Rightarrow> (string \<Rightarrow> string option) \<times> bool" where
  "install cfg env w certificate ca key disk =
     (case (rcCertPath cfg, rcKeyPath cfg) of
        (Some certPath, Some keyPath) \<Rightarrow>
          if certPath = '''' \<or> keyPath = '''' \<or> \<not> goodPair env certificate key then (disk, False)
          else if \<not> woKey w then (disk, False)
          else let disk = disk(keyPath \<mapsto> key)
          in if \<not> woCertificate w then (disk, False)
          else let disk = disk(certPath \<mapsto> certificate)
          in (case rcCaPath cfg of
                None \<Rightarrow> (disk, True)
              | Some caPath \<Rightarrow>
                  if caPath = '''' \<or> ca = '''' then (disk, True)
                  else if woCa w then (disk(caPath \<mapsto> ca), True) else (disk, False))
      | _ \<Rightarrow> (disk, False))"

definition onResponse ::
  "renewer_config \<Rightarrow> x509 \<Rightarrow> write_outcomes \<Rightarrow> renewal_response \<Rightarrow> renewer \<Rightarrow> renewer" where
  "onResponse cfg env w response s =
     (if \<not> rcMtls cfg \<or> rnStopped s then s
      else let pending = rnPendingKey s; s = s\<lparr>rnPendingKey := None, rnResponseTimer := False\<rparr>
           in case pending of
                None \<Rightarrow> s
              | Some key \<Rightarrow>
                  if key = '''' then s
                  else if \<not> rrSuccess response \<or> rrCertificate response = '''' then scheduleRetry s
                  else let (disk, installed) = install cfg env w (rrCertificate response)
                             (rrCaCertificate response) key (rnDisk s);
                           s = s\<lparr>rnDisk := disk\<rparr>
                       in if installed then s\<lparr>rnCalls := rnCalls s @ [CallReconnect]\<rparr> else scheduleRetry s)"

definition renewal_timer_fires ::
  "renewer_config \<Rightarrow> (string \<times> string) option \<Rightarrow> bool \<Rightarrow> renewer \<Rightarrow> renewer" where
  "renewal_timer_fires cfg generated accepted s =
     (case rnTimer s of
        Idle \<Rightarrow> s
      | Rearm rest \<Rightarrow> armTimer rest s
      | RenewAfter _ \<Rightarrow> requestRenewal cfg generated accepted s)"

section \<open>The renewer as a transition system\<close>

datatype renewer_event =
    SessionReady rat rat "(string \<times> string) option" bool
  | SessionLost
  | StopRenewer
  | Reply write_outcomes renewal_response
  | RenewalTimer "(string \<times> string) option" bool
  | ResponseTimeout

text \<open>A generated private key is a PEM text, never the empty string.\<close>

definition csr_made :: "(string \<times> string) option \<Rightarrow> bool" where
  "csr_made generated \<longleftrightarrow> (\<forall>csr key. generated = Some (csr, key) \<longrightarrow> key \<noteq> '''')"

inductive renewer_step ::
  "renewer_config \<Rightarrow> x509 \<Rightarrow> renewer \<Rightarrow> renewer_event \<Rightarrow> renewer \<Rightarrow> bool" for cfg env where
  ready: "0 \<le> r \<Longrightarrow> r < 1 \<Longrightarrow> csr_made g \<Longrightarrow>
    renewer_step cfg env s (SessionReady r now g ok) (onSessionReady cfg env r now g ok s)"
| lost: "renewer_step cfg env s SessionLost (onDisconnect s)"
| halt: "renewer_step cfg env s StopRenewer (stop_renewer s)"
| reply: "renewer_step cfg env s (Reply w response) (onResponse cfg env w response s)"
| due: "rnTimer s \<noteq> Idle \<Longrightarrow> csr_made g \<Longrightarrow>
    renewer_step cfg env s (RenewalTimer g ok) (renewal_timer_fires cfg g ok s)"
| unanswered: "rnResponseTimer s \<Longrightarrow> renewer_step cfg env s ResponseTimeout (response_timeout s)"

inductive renewer_run ::
  "renewer_config \<Rightarrow> x509 \<Rightarrow> renewer \<Rightarrow> renewer_event list \<Rightarrow> renewer \<Rightarrow> bool" for cfg env where
  no_event: "renewer_run cfg env s [] s"
| next_event: "renewer_step cfg env s ev s1 \<Longrightarrow> renewer_run cfg env s1 evs s2 \<Longrightarrow>
    renewer_run cfg env s (ev # evs) s2"

lemma renewer_run_keeps:
  assumes "renewer_run cfg env s evs s'" and "P s" and "\<forall>ev \<in> set evs. allowed ev"
    and "\<And>s ev s'. P s \<Longrightarrow> allowed ev \<Longrightarrow> renewer_step cfg env s ev s' \<Longrightarrow> P s'"
  shows "P s'"
  using assms(1-3) by (induction) (auto dest: assms(4))

section \<open>One thing at a time\<close>

text \<open>
  A private key is held exactly while its answer is awaited; then no other timer runs. A stopped
  renewer is quiet.
\<close>

definition renewer_ok :: "renewer \<Rightarrow> bool" where
  "renewer_ok s \<longleftrightarrow> (rnPendingKey s \<noteq> None \<longleftrightarrow> rnResponseTimer s) \<and> rnPendingKey s \<noteq> Some '''' \<and>
     (rnPendingKey s \<noteq> None \<longrightarrow> rnTimer s = Idle) \<and>
     (rnStopped s \<longrightarrow> rnTimer s = Idle \<and> rnPendingKey s = None)"





lemma new_renewer_ok [simp]: "renewer_ok (new_renewer disk)"
  by (simp add: renewer_ok_def new_renewer_def)

section \<open>When a certificate is renewed\<close>

text \<open>What the timer waits for when it is set: never more than \<open>setTimeout\<close> can take.\<close>

fun timer_wait :: "renewal_timer \<Rightarrow> rat" where
  "timer_wait Idle = 0"
| "timer_wait (Rearm rest) = MAX_TIMEOUT_MS"
| "timer_wait (RenewAfter d) = d"

lemma armTimer_chain:
  fixes cfg :: renewer_config and g :: "(string \<times> string) option" and ok :: bool
  assumes "0 \<le> d"
  defines "fires \<equiv> renewal_timer_fires cfg g ok"
  shows "\<exists>n w. (\<forall>i < n. \<exists>rest. rnTimer ((fires ^^ i) (armTimer d s)) = Rearm rest) \<and>
    rnTimer ((fires ^^ n) (armTimer d s)) = RenewAfter w \<and>
    of_nat n * MAX_TIMEOUT_MS + w = d \<and> 0 \<le> w \<and> w \<le> MAX_TIMEOUT_MS"
  using assms(1)
proof (induction "nat \<lceil>d\<rceil>" arbitrary: d s rule: less_induct)
  case less
  show ?case
  proof (cases "MAX_TIMEOUT_MS < d")
    case False
    with less.prems show ?thesis
      by (intro exI [of _ 0] exI [of _ d]) (simp add: armTimer_def)
  next
    case True
    let ?d = "d - MAX_TIMEOUT_MS" and ?s = "s\<lparr>rnTimer := Rearm (d - MAX_TIMEOUT_MS)\<rparr>"
    have arm: "armTimer d s = ?s" "fires ?s = armTimer ?d ?s"
      using True by (simp_all add: armTimer_def fires_def renewal_timer_fires_def)
    have "nat \<lceil>?d\<rceil> < nat \<lceil>d\<rceil>" "0 \<le> ?d"
      using True less.prems by (auto simp: MAX_TIMEOUT_MS_def)
    from less.hyps [OF this, of ?s] obtain n w where
      n: "\<forall>i < n. \<exists>rest. rnTimer ((fires ^^ i) (armTimer ?d ?s)) = Rearm rest"
      "rnTimer ((fires ^^ n) (armTimer ?d ?s)) = RenewAfter w"
      "of_nat n * MAX_TIMEOUT_MS + w = ?d" "0 \<le> w" "w \<le> MAX_TIMEOUT_MS" by blast
    have step: "(fires ^^ Suc i) (armTimer d s) = (fires ^^ i) (armTimer ?d ?s)" for i
      by (simp add: funpow_swap1 arm)
    have "\<forall>i < Suc n. \<exists>rest. rnTimer ((fires ^^ i) (armTimer d s)) = Rearm rest"
    proof (intro allI impI)
      fix i assume "i < Suc n"
      with n(1) step show "\<exists>rest. rnTimer ((fires ^^ i) (armTimer d s)) = Rearm rest"
        by (cases i) (auto simp: arm(1))
    qed
    with n(2-5) step show ?thesis
      by (intro exI [of _ "Suc n"] exI [of _ w]) (simp add: algebra_simps)
  qed
qed

lemma renew_at_bounds:
  assumes "notBefore < notAfter" and "0 \<le> r" and "r < 1"
  defines "life \<equiv> of_int (notAfter - notBefore) :: rat"
  shows "of_int notBefore + life / 2 \<le> renew_at r notBefore notAfter"
    and "renew_at r notBefore notAfter < of_int notBefore + life * (11 / 20)"
proof -
  have eq: "renew_at r notBefore notAfter = of_int notBefore + life / 2 + life * r / 20"
    by (simp add: renew_at_def Let_def JITTER_FRACTION_def RENEW_AT_LIFETIME_FRACTION_def life_def)
  have "0 < life" using assms(1) by (simp add: life_def)
  then have "0 \<le> life * r" "life * r < life" using assms(2,3) by simp_all
  then show "of_int notBefore + life / 2 \<le> renew_at r notBefore notAfter"
    "renew_at r notBefore notAfter < of_int notBefore + life * (11 / 20)"
    unfolding eq by linarith+
qed

text \<open>The certificate on disk, as far as scheduling needs it.\<close>

definition certificate_window ::
  "renewer_config \<Rightarrow> x509 \<Rightarrow> (string \<Rightarrow> string option) \<Rightarrow> (int \<times> int) option" where
  "certificate_window cfg env disk =
     (case rcCertPath cfg of
        None \<Rightarrow> None
      | Some path \<Rightarrow>
          if path = '''' then None
          else case Option.bind (disk path) (validity env) of
            Some (Some notBefore, Some notAfter) \<Rightarrow>
              if notAfter \<le> notBefore then None else Some (notBefore, notAfter)
          | _ \<Rightarrow> None)"

lemma scheduleFromCertificate_window:
  "scheduleFromCertificate cfg env r now g ok s =
     (case certificate_window cfg env (rnDisk s) of
        None \<Rightarrow> s
      | Some (notBefore, notAfter) \<Rightarrow>
          (let delay = max 0 (renew_at r notBefore notAfter - now)
           in if delay = 0 then requestRenewal cfg g ok s else armTimer delay s))"
  by (auto simp: scheduleFromCertificate_def certificate_window_def Let_def split: option.split)

lemma certificate_windowD: "certificate_window cfg env disk = Some (b, a) \<Longrightarrow> b < a"
  by (auto simp: certificate_window_def split: option.splits if_splits)

text \<open>
  C36. A certificate is renewed on time. When a session becomes ready before the renewal time, the
  timer is armed so that, whatever the certificate's lifetime, it fires a number of times only to arm
  itself again and then requests the renewal, after waits that add up to exactly that time and that
  \<open>setTimeout\<close> can each represent. The renewal time lies between 50 and 55 percent of the lifetime,
  so at least 45 percent is left for retries. When that time is already past, the request is sent at once.
\<close>

theorem renewal_on_time:
  assumes "rcMtls cfg" and "\<not> rnStopped s"
    and "certificate_window cfg env (rnDisk s) = Some (notBefore, notAfter)"
    and "0 \<le> r" and "r < 1"
  shows "let due_at = renew_at r notBefore notAfter; life = of_int (notAfter - notBefore) :: rat;
      fires = renewal_timer_fires cfg g ok;
      s1 = onSessionReady cfg env r now (Some (csr, key)) accepted s
    in of_int notBefore + life / 2 \<le> due_at \<and> due_at < of_int notAfter - life * (9 / 20) \<and>
      (if due_at \<le> now then rnCalls s1 = rnCalls s @ [SendCsr csr]
       else rnCalls s1 = rnCalls s \<and>
        (\<exists>n w. (\<forall>i < n. timer_wait (rnTimer ((fires ^^ i) s1)) = MAX_TIMEOUT_MS) \<and>
           rnTimer ((fires ^^ n) s1) = RenewAfter w \<and> 0 \<le> w \<and> w \<le> MAX_TIMEOUT_MS \<and>
           now + of_nat n * MAX_TIMEOUT_MS + w = due_at))"
proof -
  define due_at where "due_at = renew_at r notBefore notAfter"
  define s1 where "s1 = onSessionReady cfg env r now (Some (csr, key)) accepted s"
  define fires where "fires = renewal_timer_fires cfg g ok"
  note bounds = renew_at_bounds [OF certificate_windowD [OF assms(3)] assms(4,5), folded due_at_def]
  let ?s = "(clearTimers s)\<lparr>rnPendingKey := None\<rparr>"
  have s: "rnDisk ?s = rnDisk s" "rnCalls ?s = rnCalls s" "\<not> rnStopped ?s"
    using assms(2) by (simp_all add: clearTimers_def)
  have "rnCalls s1 = rnCalls s @ [SendCsr csr]" if "due_at \<le> now"
  proof -
    have "s1 = requestRenewal cfg (Some (csr, key)) accepted ?s"
      using that assms(1-3) s by (simp add: s1_def onSessionReady_def scheduleFromCertificate_window due_at_def)
    with s assms(1) show ?thesis by (simp add: requestRenewal_def Let_def)
  qed
  moreover have "rnCalls s1 = rnCalls s \<and>
      (\<exists>n w. (\<forall>i < n. timer_wait (rnTimer ((fires ^^ i) s1)) = MAX_TIMEOUT_MS) \<and>
         rnTimer ((fires ^^ n) s1) = RenewAfter w \<and> 0 \<le> w \<and> w \<le> MAX_TIMEOUT_MS \<and>
         now + of_nat n * MAX_TIMEOUT_MS + w = due_at)" if "\<not> due_at \<le> now"
  proof -
    have s1: "s1 = armTimer (due_at - now) ?s"
      using that assms(1-3) s by (simp add: s1_def onSessionReady_def scheduleFromCertificate_window due_at_def)
    then have "rnCalls s1 = rnCalls s" using s by (simp add: armTimer_def)
    moreover have "0 \<le> due_at - now" using that by simp
    from armTimer_chain [OF this, of cfg g ok ?s, folded fires_def s1] obtain n w where
      n: "\<forall>i < n. \<exists>rest. rnTimer ((fires ^^ i) s1) = Rearm rest" and
      w: "rnTimer ((fires ^^ n) s1) = RenewAfter w" "of_nat n * MAX_TIMEOUT_MS + w = due_at - now"
        "0 \<le> w" "w \<le> MAX_TIMEOUT_MS" by blast
    have "\<forall>i < n. timer_wait (rnTimer ((fires ^^ i) s1)) = MAX_TIMEOUT_MS"
      using n by fastforce
    moreover have "now + of_nat n * MAX_TIMEOUT_MS + w = due_at" using w(2) by linarith
    ultimately show ?thesis using w by blast
  qed
  moreover have "due_at < of_int notAfter - of_int (notAfter - notBefore) * (9 / 20)"
    using bounds(2) by (simp add: field_simps)
  ultimately show ?thesis
    using bounds(1) unfolding Let_def due_at_def [symmetric] s1_def [symmetric] fires_def [symmetric] by simp
qed

section \<open>A session keeps its renewal\<close>








section \<open>The pair on disk\<close>

definition pair_on_disk :: "renewer_config \<Rightarrow> x509 \<Rightarrow> (string \<Rightarrow> string option) \<Rightarrow> bool" where
  "pair_on_disk cfg env disk \<longleftrightarrow>
     (\<forall>certPath keyPath c k. rcCertPath cfg = Some certPath \<longrightarrow> rcKeyPath cfg = Some keyPath \<longrightarrow>
        disk certPath = Some c \<longrightarrow> disk keyPath = Some k \<longrightarrow> goodPair env c k)"

definition paths_apart :: "renewer_config \<Rightarrow> bool" where
  "paths_apart cfg \<longleftrightarrow> (rcCertPath cfg \<noteq> None \<longrightarrow> rcCertPath cfg \<noteq> rcKeyPath cfg) \<and>
     (rcCaPath cfg \<noteq> None \<longrightarrow> rcCaPath cfg \<noteq> rcCertPath cfg \<and> rcCaPath cfg \<noteq> rcKeyPath cfg)"

text \<open>A certificate that cannot be written although its key was is the case left out.\<close>

fun writes_both :: "renewer_event \<Rightarrow> bool" where
  "writes_both (Reply w response) = (woKey w \<longrightarrow> woCertificate w)"
| "writes_both _ = True"

lemma install_pair:
  assumes "pair_on_disk cfg env disk" and "paths_apart cfg" and "woKey w \<longrightarrow> woCertificate w"
  shows "pair_on_disk cfg env (fst (install cfg env w certificate ca key disk))"
  using assms
  by (auto simp: install_def pair_on_disk_def paths_apart_def Let_def split: option.splits if_splits)

lemma install_elsewhere:
  assumes "rcCertPath cfg \<noteq> Some p" and "rcKeyPath cfg \<noteq> Some p" and "rcCaPath cfg \<noteq> Some p"
  shows "fst (install cfg env w certificate ca key disk) p = disk p"
  using assms by (auto simp: install_def Let_def split: option.splits)

lemma renewer_disk [simp]:
  "rnDisk (requestRenewal cfg g ok s) = rnDisk s" "rnDisk (armTimer d s) = rnDisk s"
  "rnDisk (scheduleRetry s) = rnDisk s" "rnDisk (clearTimers s) = rnDisk s"
  "rnDisk (onSessionReady cfg env r now g ok s) = rnDisk s" "rnDisk (onDisconnect s) = rnDisk s"
  "rnDisk (stop_renewer s) = rnDisk s" "rnDisk (renewal_timer_fires cfg g ok s) = rnDisk s"
  "rnDisk (response_timeout s) = rnDisk s"
proof -
  show 1: "rnDisk (scheduleRetry s) = rnDisk s" for s by (simp add: scheduleRetry_def)
  show 2: "rnDisk (requestRenewal cfg g ok s) = rnDisk s" for s
    by (simp add: requestRenewal_def Let_def 1 split: option.split prod.split)
  show 3: "rnDisk (armTimer d s) = rnDisk s" for d s by (simp add: armTimer_def)
  show 4: "rnDisk (clearTimers s) = rnDisk s" for s by (simp add: clearTimers_def)
  show "rnDisk (onSessionReady cfg env r now g ok s) = rnDisk s"
    by (simp add: onSessionReady_def scheduleFromCertificate_window Let_def 2 3 4 split: option.split prod.split)
  show "rnDisk (onDisconnect s) = rnDisk s" by (simp add: onDisconnect_def 4)
  show "rnDisk (stop_renewer s) = rnDisk s" by (simp add: stop_renewer_def 4)
  show "rnDisk (renewal_timer_fires cfg g ok s) = rnDisk s"
    by (simp add: renewal_timer_fires_def 2 3 split: renewal_timer.split)
  show "rnDisk (response_timeout s) = rnDisk s"
    by (simp add: response_timeout_def Let_def 1 split: option.split)
qed

lemma onResponse_disk:
  "rnDisk (onResponse cfg env w response s) = rnDisk s \<or>
   (\<exists>key. rnDisk (onResponse cfg env w response s) =
      fst (install cfg env w (rrCertificate response) (rrCaCertificate response) key (rnDisk s)))"
  by (auto simp: onResponse_def Let_def split: option.split prod.split) (metis fst_conv)+

lemma renewer_step_pair:
  assumes "renewer_step cfg env s ev s'" and "paths_apart cfg" and "writes_both ev"
    and "pair_on_disk cfg env (rnDisk s)"
  shows "pair_on_disk cfg env (rnDisk s')"
  using assms(1)
proof cases
  case (reply w response)
  with assms(3) install_pair [OF assms(4,2)] onResponse_disk [of cfg env w response s] assms(4)
  show ?thesis by auto
qed (use assms(4) in simp_all)

lemma renewer_step_elsewhere:
  assumes "renewer_step cfg env s ev s'"
    and "rcCertPath cfg \<noteq> Some p" and "rcKeyPath cfg \<noteq> Some p" and "rcCaPath cfg \<noteq> Some p"
  shows "rnDisk s' p = rnDisk s p"
  using assms(1)
proof cases
  case (reply w response)
  with install_elsewhere [OF assms(2-4)] onResponse_disk [of cfg env w response s] show ?thesis by auto
qed simp_all

text \<open>
  C38. Renewal never leaves the worker with a certificate and a key that do not belong together,
  whatever is requested, answered, refused, mismatched or lost, provided the certificate can be written
  whenever its key just was; and it writes no file but the three it was configured with.
\<close>

theorem renewed_pair_matches:
  assumes "renewer_run cfg env (new_renewer disk) evs s" and "paths_apart cfg"
    and "pair_on_disk cfg env disk" and "\<forall>ev \<in> set evs. writes_both ev"
  shows "pair_on_disk cfg env (rnDisk s) \<and>
    (\<forall>p. Some p \<notin> {rcCertPath cfg, rcKeyPath cfg, rcCaPath cfg} \<longrightarrow> rnDisk s p = disk p)"
proof -
  have "pair_on_disk cfg env (rnDisk s)"
    by (rule renewer_run_keeps [OF assms(1) _ assms(4)])
      (use assms(2,3) renewer_step_pair in \<open>auto simp: new_renewer_def\<close>)
  moreover have "rnDisk s p = disk p" if p: "Some p \<notin> {rcCertPath cfg, rcKeyPath cfg, rcCaPath cfg}" for p
    by (rule renewer_run_keeps [OF assms(1), where allowed = "\<lambda>_. True" and P = "\<lambda>s. rnDisk s p = disk p"])
      (use p renewer_step_elsewhere in \<open>auto simp: new_renewer_def\<close>)
  ultimately show ?thesis by blast
qed

section \<open>A concrete certificate\<close>

definition demo_renewer :: renewer_config where
  "demo_renewer = \<lparr>rcMtls = True, rcCertPath = Some ''crt'', rcKeyPath = Some ''key'', rcCaPath = None\<rparr>"

text \<open>A certificate of a hundred days (8,640,000,000 ms), and texts that pair when they start alike.\<close>

definition demo_x509 :: x509 where
  "demo_x509 = \<lparr>validity = (\<lambda>pem. Some (Some 0, Some 8640000000)), goodPair = (\<lambda>c k. take 1 c = take 1 k)\<rparr>"

definition demo_disk :: "string \<Rightarrow> string option" where
  "demo_disk = [''crt'' \<mapsto> ''a-cert'', ''key'' \<mapsto> ''a-key'']"

lemma demo_window: "certificate_window demo_renewer demo_x509 demo_disk = Some (0, 8640000000)"
  by (simp add: certificate_window_def demo_renewer_def demo_x509_def demo_disk_def)

theorem renewal_on_time_witness:
  "\<exists>w. rnTimer ((renewal_timer_fires demo_renewer None False ^^ 2)
      (onSessionReady demo_renewer demo_x509 0 0 (Some (''csr'', ''b-key'')) True (new_renewer demo_disk))) =
    RenewAfter w \<and> 2 * MAX_TIMEOUT_MS + w = 4320000000"
proof -
  let ?f = "renewal_timer_fires demo_renewer None False"
  let ?s = "onSessionReady demo_renewer demo_x509 0 0 (Some (''csr'', ''b-key'')) True (new_renewer demo_disk)"
  have at: "renew_at 0 0 8640000000 = 4320000000"
    by (simp add: renew_at_def RENEW_AT_LIFETIME_FRACTION_def Let_def)
  obtain n w where n: "\<forall>i < n. timer_wait (rnTimer ((?f ^^ i) ?s)) = MAX_TIMEOUT_MS"
    "rnTimer ((?f ^^ n) ?s) = RenewAfter w" "0 \<le> w" "w \<le> MAX_TIMEOUT_MS"
    "of_nat n * MAX_TIMEOUT_MS + w = 4320000000"
    using renewal_on_time [of demo_renewer "new_renewer demo_disk" demo_x509 0 8640000000 0 None False 0
        "''csr''" "''b-key''" True] demo_window at
    by (auto simp: demo_renewer_def new_renewer_def Let_def)
  from n(3-5) have "of_nat n * 2147483647 \<le> (4320000000 :: rat)" "4320000000 \<le> of_nat n * (2147483647 :: rat) + 2147483647"
    by (auto simp: MAX_TIMEOUT_MS_def)
  then have "(1 :: rat) < of_nat n" "of_nat n < (3 :: rat)" by simp_all
  then have "n = 2" by simp
  with n show ?thesis by (intro exI [of _ w]) simp
qed


definition demo_reply :: renewal_response where
  "demo_reply = \<lparr>rrSuccess = True, rrCertificate = ''b-cert'', rrCaCertificate = ''''\<rparr>"

text \<open>The run that renews at once: the session is ready late in the certificate's life.\<close>

lemma demo_renewal_run:
  assumes "w = \<lparr>woKey = True, woCertificate = c, woCa = False\<rparr>"
  shows "\<exists>s. renewer_run demo_renewer demo_x509 (new_renewer demo_disk)
      [SessionReady 0 5000000000 (Some (''csr'', ''b-key'')) True, Reply w demo_reply] s \<and>
    rnDisk s ''key'' = Some ''b-key'' \<and> rnDisk s ''crt'' = Some (if c then ''b-cert'' else ''a-cert'')"
proof -
  let ?s1 = "onSessionReady demo_renewer demo_x509 0 5000000000 (Some (''csr'', ''b-key'')) True (new_renewer demo_disk)"
  let ?s2 = "onResponse demo_renewer demo_x509 w demo_reply ?s1"
  have at: "renew_at 0 0 8640000000 = 4320000000"
    by (simp add: renew_at_def RENEW_AT_LIFETIME_FRACTION_def Let_def)
  have s1: "rnPendingKey ?s1 = Some ''b-key''" "\<not> rnStopped ?s1" "rnDisk ?s1 = demo_disk" "rcMtls demo_renewer"
    using demo_window at
    by (simp_all add: onSessionReady_def scheduleFromCertificate_window Let_def requestRenewal_def
        clearTimers_def new_renewer_def demo_renewer_def)
  have "renewer_run demo_renewer demo_x509 (new_renewer demo_disk)
      [SessionReady 0 5000000000 (Some (''csr'', ''b-key'')) True, Reply w demo_reply] ?s2"
    by (rule renewer_run.intros renewer_step.ready renewer_step.reply | simp add: csr_made_def)+
  moreover have "rnDisk ?s2 ''key'' = Some ''b-key''" "rnDisk ?s2 ''crt'' = Some (if c then ''b-cert'' else ''a-cert'')"
    using s1 assms
    by (simp_all add: onResponse_def install_def Let_def demo_reply_def demo_x509_def demo_disk_def
        demo_renewer_def scheduleRetry_def)
  ultimately show ?thesis by blast
qed

lemma demo_pair: "paths_apart demo_renewer" "pair_on_disk demo_renewer demo_x509 demo_disk"
  by (simp_all add: paths_apart_def pair_on_disk_def demo_renewer_def demo_x509_def demo_disk_def)

theorem renewed_pair_matches_witness:
  "\<exists>s :: renewer. rnDisk s ''key'' = Some ''b-key'' \<and> rnDisk s ''crt'' = Some ''b-cert'' \<and>
     pair_on_disk demo_renewer demo_x509 (rnDisk s) \<and> rnDisk s ''other'' = None"
proof -
  obtain s where s: "renewer_run demo_renewer demo_x509 (new_renewer demo_disk)
      [SessionReady 0 5000000000 (Some (''csr'', ''b-key'')) True,
       Reply \<lparr>woKey = True, woCertificate = True, woCa = False\<rparr> demo_reply] s"
    "rnDisk s ''key'' = Some ''b-key''" "rnDisk s ''crt'' = Some ''b-cert''"
    using demo_renewal_run [of _ True] by auto
  have "pair_on_disk demo_renewer demo_x509 (rnDisk s)" "rnDisk s ''other'' = demo_disk ''other''"
    using renewed_pair_matches [OF s(1) demo_pair] by (simp_all add: demo_renewer_def)
  moreover have "demo_disk ''other'' = None" by (simp add: demo_disk_def)
  ultimately show ?thesis using s(2,3) by (intro exI [of _ s]) simp
qed

section \<open>What is left open\<close>

text \<open>
  The comment on \<open>install\<close> says that only the gap between the two renames is left, which contains no
  I/O. The second \<open>writeSecretFile\<close> first writes its temporary file: when that fails, the new key
  is on disk beside the old certificate, the new key's certificate is dropped, and the next handshake
  reads a pair that does not match.
\<close>

lemma half_installed_pair:
  "\<exists>s. renewer_run demo_renewer demo_x509 (new_renewer demo_disk)
      [SessionReady 0 5000000000 (Some (''csr'', ''b-key'')) True,
       Reply \<lparr>woKey = True, woCertificate = False, woCa = False\<rparr> demo_reply] s \<and>
    \<not> pair_on_disk demo_renewer demo_x509 (rnDisk s)"
proof -
  obtain s where "renewer_run demo_renewer demo_x509 (new_renewer demo_disk)
      [SessionReady 0 5000000000 (Some (''csr'', ''b-key'')) True,
       Reply \<lparr>woKey = True, woCertificate = False, woCa = False\<rparr> demo_reply] s"
    "rnDisk s ''key'' = Some ''b-key''" "rnDisk s ''crt'' = Some ''a-cert''"
    using demo_renewal_run [of _ False] by auto
  then show ?thesis
    by (intro exI [of _ s]) (simp add: pair_on_disk_def demo_renewer_def demo_x509_def)
qed

end
