(* ===== verification/HubSession.thy ===== *)
theory HubSession
  imports Scrubbing WorkerIdentity WorkerConfig PipelineRuns
begin

text \<open>
  The control plane's end of a worker session (\<open>packages/server/src/hub/hub.ts\<close>): authentication of the
  stream, the message switch of \<open>handleSession\<close> over every kind of worker message, chunked snapshots,
  certificate renewal, teardown, and the enrolment call. A handler composes the components it calls:
  ingestion, the version history, the command pipeline, the registry, scrubbing, worker identity and
  instance configuration.

  Each component models the columns of a shared table it uses; \<open>mirror_tables\<close> carries what ingestion
  wrote to \<open>workers\<close>, \<open>instances\<close> and \<open>jobs\<close> over to the others. Messages of one session are handled one
  after another (the promise chain of \<open>enqueue\<close>), each in one step; an exception ends the
  handler with the writes made so far and is logged. Parameters are those of the components, the
  wording of an error of a given code (\<open>heErrorText\<close>), and the ids and times drawn while a message is
  handled. The acknowledgement carries the worker's id and capabilities; the signing key and the
  polling intervals it also carries are constants of the process.
\<close>

section \<open>State\<close>

record pending_snapshot =
  psInstanceName :: string
  psJobs :: "job_blob list"
  psStartedAt :: int

datatype server_message =
    HelloAck string "string list"
  | InstanceConfigs "wire_config list"
  | CertificateReply bool string string string

datatype hub_event =
    WorkerEvent | DefinitionEvent string string | HistoryEvent string | ActivityEvent string | CommandEvent string

datatype hub_alert =
    RunsIngested string "history_row list"
  | CommandFailedAlert string string string "string option" string string string

record hub_session =
  hsAuth :: authenticated_worker
  hsRemoteAddress :: string
  hsWorkerId :: string
  hsHostName :: string
  hsInstanceIds :: "(string \<times> string) list"
  hsPending :: "(string \<times> pending_snapshot) list"
  hsLive :: "live_worker option"
  hsSent :: "server_message list"
  hsEnded :: bool

record hub =
  hubPipe :: pipeline
  hubIngest :: ingest_state
  hubIdentity :: identity_state
  hubConfigs :: config_state
  hubLogScrub :: "string \<Rightarrow> log_scrub_config stored_config option"
  hubHistoryScrub :: "string \<Rightarrow> history_scrub_rule list stored_config option"
  hubEvents :: "hub_event list"
  hubAlerts :: "hub_alert list"

record hub_env =
  heSigner :: signer
  heRegexp :: regexp
  heParse :: "string \<Rightarrow> job_definition option"
  heFingerprint :: "string \<Rightarrow> string option"
  heIdentityEnv :: identity_env
  heIdentityConfig :: identity_config
  heMinimumWorkerVersion :: "string option"
  heDetailText :: "error_detail \<Rightarrow> string"
  heErrorText :: "string \<Rightarrow> string"

text \<open>What the handling of one message draws: the time, the ids of two audit rows, and new ids.\<close>

record hub_draws =
  hdNow :: int
  hdFirst :: call_env
  hdSecond :: call_env
  hdInstanceId :: "string \<Rightarrow> string"
  hdCredentialId :: string
  hdSessionNo :: nat

definition SNAPSHOT_ABANDON_MS :: int where
  "SNAPSHOT_ABANDON_MS = 10 * 60 * 1000"

definition mirror_tables :: "hub \<Rightarrow> hub" where
  "mirror_tables h =
     (let ing = hubIngest h; p = hubPipe h; c = hubConfigs h
      in h\<lparr>hubPipe := p\<lparr>
             workersT := map (\<lambda>x. \<lparr> wId = wsId x, wHostName = wsHostName x, wCapabilities = wsCapabilities x,
                wMaxCapabilityReported = wsMaxCapability x \<rparr>) (workerT ing),
             instancesT := map (\<lambda>x. \<lparr> iId = isId x, iWorkerId = isWorkerId x, iName = isName x,
                iEnvironmentTag = (case find (\<lambda>i. iId i = isId x) (instancesT p) of
                   None \<Rightarrow> None | Some i \<Rightarrow> iEnvironmentTag i) \<rparr>) (instanceT ing),
             jobNames := map (\<lambda>j. ((jInstanceId j, jJobUuid j), jName j)) (jobRows (jobsT ing))\<rparr>,
           hubConfigs := c\<lparr>mirrored := map (\<lambda>x. \<lparr> miId = isId x, miWorkerId = isWorkerId x, miName = isName x,
                miDetachedAt = (case find (\<lambda>i. miId i = isId x) (mirrored c) of
                   None \<Rightarrow> None | Some i \<Rightarrow> miDetachedAt i) \<rparr>) (instanceT ing)\<rparr>\<rparr>)"

definition set_ingest :: "ingest_state \<Rightarrow> hub \<Rightarrow> hub" where
  "set_ingest ing h = mirror_tables (h\<lparr>hubIngest := ing\<rparr>)"

definition set_jobs :: "version_store \<Rightarrow> hub \<Rightarrow> hub" where
  "set_jobs vs h = set_ingest ((hubIngest h)\<lparr>jobsT := vs\<rparr>) h"

definition publish :: "hub_event \<Rightarrow> hub \<Rightarrow> hub" where
  "publish e h = h\<lparr>hubEvents := hubEvents h @ [e]\<rparr>"

definition hub_audit :: "call_env \<Rightarrow> audit_entry \<Rightarrow> hub \<Rightarrow> hub" where
  "hub_audit ce e h = h\<lparr>hubPipe := audit_write ce e (hubPipe h)\<rparr>"

definition worker_entry :: "string \<Rightarrow> string \<Rightarrow> string \<Rightarrow> js_fields option \<Rightarrow> string \<Rightarrow> audit_entry" where
  "worker_entry host act target kvs addr = \<lparr> actorType = WorkerActor, actor = host, action = act,
     auditTarget = Some target, detail = (case kvs of None \<Rightarrow> None | Some fs \<Rightarrow> to_jsonb (JsObj fs)),
     remoteAddress = Some addr \<rparr>"

section \<open>Opening a session\<close>

text \<open>A stream that cannot prove who it is leaves one audit row and is ended.\<close>

definition open_session ::
  "hub_env \<Rightarrow> hub_draws \<Rightarrow> string \<Rightarrow> worker_call \<Rightarrow> hub \<Rightarrow> hub_session option \<times> hub" where
  "open_session env d addr call h =
     (let (r, ids) = authenticate_worker (heIdentityEnv env) (heIdentityConfig env) call (hdNow d) (hubIdentity h);
          h = h\<lparr>hubIdentity := ids\<rparr>
      in case r of
           Inl (WorkerAuthError code) \<Rightarrow>
             (None, hub_audit (hdFirst d) \<lparr> actorType = SystemActor, actor = addr, action = ''worker.auth.failed'',
                auditTarget = None, detail = to_jsonb (JsObj [(''code'', JsStr code), (''message'', JsStr (heErrorText env code))]),
                remoteAddress = Some addr \<rparr> h)
         | Inr a \<Rightarrow>
             (Some \<lparr> hsAuth = a, hsRemoteAddress = addr, hsWorkerId = awWorkerId a, hsHostName = awHostName a,
                hsInstanceIds = [], hsPending = [], hsLive = None, hsSent = [], hsEnded = False \<rparr>, h))"

section \<open>Hello\<close>

definition add_instances :: "(string \<times> string) list \<Rightarrow> hub_session \<Rightarrow> hub_session" where
  "add_instances ids s =
     s\<lparr>hsInstanceIds := foldl (\<lambda>m (n, i). AList.update n i m) (hsInstanceIds s) ids\<rparr>"

definition hub_send :: "server_message \<Rightarrow> hub_session \<Rightarrow> hub_session" where
  "hub_send m s = (if hsEnded s then s else s\<lparr>hsSent := hsSent s @ [m]\<rparr>)"

definition declare_instances ::
  "hub_draws \<Rightarrow> string \<Rightarrow> instance_info list \<Rightarrow> hub_session \<times> hub \<Rightarrow> hub_session \<times> hub" where
  "declare_instances d w infos sh =
     (let (s, h) = sh;
          (ids, ing) = upsertInstances w (hdNow d) (map (\<lambda>i. (i, hdInstanceId d (infoName i))) infos) (hubIngest h)
      in (add_instances ids s, set_ingest ing h))"

definition publish_key :: "hub_env \<Rightarrow> hub_draws \<Rightarrow> hello_message \<Rightarrow> string \<Rightarrow> string \<Rightarrow> string \<Rightarrow> hub \<Rightarrow> hub" where
  "publish_key env d hello w host addr h =
     (if heCredentialPublicKey hello = [] then h
      else case recordCredentialKey (heFingerprint env) w (heCredentialPublicKey hello) (hdNow d) (hubConfigs h) of
             (Inl e, c) \<Rightarrow> h\<lparr>hubConfigs := c\<rparr>
           | (Inr (rekeyed, fp), c) \<Rightarrow>
               (let h = h\<lparr>hubConfigs := c\<rparr>
                in if rekeyed then hub_audit (hdFirst d) (worker_entry host ''worker.credential_key.rotated'' w None addr) h
                   else h))"

text \<open>
  A second Hello on the same stream registers a new session object, so the registry tells the old
  one, which is this very stream, to disconnect.
\<close>

definition register_session :: "live_worker \<Rightarrow> hub_session \<times> hub \<Rightarrow> hub_session \<times> hub" where
  "register_session live sh =
     (let (s, h) = sh; p = hubPipe h; old = registry_get (liveWorkerId live) (registryS p);
          own = (case old of None \<Rightarrow> False | Some e \<Rightarrow>
             (case hsLive s of None \<Rightarrow> False | Some l \<Rightarrow> sessionNo l = sessionNo e));
          (_, reg) = register live (registryS p)
      in (s\<lparr>hsLive := Some live, hsEnded := hsEnded s \<or> own\<rparr>, h\<lparr>hubPipe := p\<lparr>registryS := reg\<rparr>\<rparr>))"

definition connected_entry :: "hub_session \<Rightarrow> hello_message \<Rightarrow> string \<Rightarrow> string \<Rightarrow> string list \<Rightarrow> audit_entry" where
  "connected_entry s hello w host caps = worker_entry host ''worker.connected'' w
     (Some [(''version'', JsStr (heWorkerVersion hello)), (''maxCapability'', JsStr (heMaxCapability hello)),
            (''authMode'', JsStr (mode_name (awMode (hsAuth s)))),
            (''instances'', JsArr (map (\<lambda>i. JsStr (infoName i)) (heInstances hello))),
            (''effectiveCapabilities'', JsArr (map JsStr caps))]) (hsRemoteAddress s)"

definition handle_hello :: "hub_env \<Rightarrow> hub_draws \<Rightarrow> hello_message \<Rightarrow> hub_session \<times> hub \<Rightarrow> hub_session \<times> hub" where
  "handle_hello env d hello sh =
     (let (s, h) = sh; a = hsAuth s; addr = hsRemoteAddress s in
      if \<not> fst (checkWorkerVersion (heWorkerVersion hello) (heMinimumWorkerVersion env))
      then (s\<lparr>hsEnded := True\<rparr>,
            hub_audit (hdFirst d) (worker_entry (awHostName a) ''worker.rejected.version'' (awWorkerId a)
              (Some [(''version'', JsStr (heWorkerVersion hello)),
                     (''minimum'', opt_str (heMinimumWorkerVersion env))]) addr) h)
      else case recordWorkerHello (awWorkerId a) (heWorkerVersion hello) (heMaxCapability hello) (Some addr)
                  (hdNow d) (hubIngest h) of
        (None, ing) \<Rightarrow> (s, set_ingest ing h)
      | (Some (w, host, granted), ing) \<Rightarrow>
          (let h = publish_key env d hello w host addr (set_ingest ing h);
               (s, h) = declare_instances d w (heInstances hello) (s\<lparr>hsWorkerId := w, hsHostName := host\<rparr>, h);
               ceiling = (if isMaxCapabilityTier (heMaxCapability hello) then heMaxCapability hello else ''readOnly'')
           in case effectiveCapabilities granted ceiling of
                None \<Rightarrow> (s, h)
              | Some eff \<Rightarrow>
                  (let caps = map cap_name eff;
                       (s, h) = register_session \<lparr> sessionNo = hdSessionNo d, liveWorkerId = w, liveHostName = host,
                          instanceIds = hsInstanceIds s, connectedAt = hdNow d \<rparr> (s, h);
                       h = hub_audit (hdSecond d) (connected_entry s hello w host caps) h;
                       s = hub_send (HelloAck w caps) s;
                       s = (case pushInstanceConfigs (registryS (hubPipe h)) w (hubConfigs h) of
                              None \<Rightarrow> s | Some (no, cs) \<Rightarrow> hub_send (InstanceConfigs cs) s);
                       h = publish WorkerEvent h
                   in (s, h\<lparr>hubPipe := snd (dispatchPendingFor (heSigner env) (hdNow d) w (hubPipe h))\<rparr>))))"

section \<open>Definitions\<close>

definition verifyBlobHash :: "hub_env \<Rightarrow> job_blob \<Rightarrow> job_blob" where
  "verifyBlobHash env b = b\<lparr>blobHash := sha256 (heSigner env) (blobJson b)\<rparr>"

definition record_blob ::
  "hub_env \<Rightarrow> int \<Rightarrow> string \<Rightarrow> version_origin \<Rightarrow> string option \<Rightarrow> string option \<Rightarrow> job_blob \<Rightarrow> version_store
     \<Rightarrow> version_result option \<times> version_store" where
  "record_blob env now iid origin cmd who b vs =
     (let b = verifyBlobHash env b
      in recordJobVersion (heParse env) \<lparr> viInstanceId = iid, viJobUuid = blobUuid b, viCanonicalJson = blobJson b,
           viDefinitionHash = blobHash b, viOrigin = origin, viCommandId = cmd, viCreatedBy = who,
           viDetectedAt = now \<rparr> vs)"

definition sweepAbandonedSnapshots ::
  "int \<Rightarrow> (string \<times> pending_snapshot) list \<Rightarrow> (string \<times> pending_snapshot) list" where
  "sweepAbandonedSnapshots now pending = filter (\<lambda>(k, acc). psStartedAt acc > now - SNAPSHOT_ABANDON_MS) pending"

text \<open>The loop over the blobs of a complete snapshot, and whether it ran to its end.\<close>

fun record_blobs :: "hub_env \<Rightarrow> int \<Rightarrow> string \<Rightarrow> job_blob list \<Rightarrow> version_store \<Rightarrow> bool \<times> version_store" where
  "record_blobs env now iid [] vs = (True, vs)"
| "record_blobs env now iid (b # bs) vs =
     (case record_blob env now iid Local None None b vs of
        (None, vs) \<Rightarrow> (False, vs)
      | (Some r, vs) \<Rightarrow> record_blobs env now iid bs vs)"

definition commit_snapshot :: "hub_env \<Rightarrow> int \<Rightarrow> string \<Rightarrow> job_blob list \<Rightarrow> version_store \<Rightarrow> version_store" where
  "commit_snapshot env now iid blobs vs =
     (case record_blobs env now iid blobs vs of
        (False, vs) \<Rightarrow> vs
      | (True, vs) \<Rightarrow> snd (markJobsMissingFromSnapshot iid (map blobUuid blobs) now vs))"

definition snapshot_key :: "snapshot_chunk \<Rightarrow> string" where
  "snapshot_key c = scInstanceName c @ CHR '':'' # scSnapshotId c"

definition handleSnapshotChunk ::
  "hub_env \<Rightarrow> int \<Rightarrow> string \<Rightarrow> snapshot_chunk \<Rightarrow> hub_session \<times> hub \<Rightarrow> hub_session \<times> hub" where
  "handleSnapshotChunk env now iid c sh =
     (let (s, h) = sh; pending = sweepAbandonedSnapshots now (hsPending s); key = snapshot_key c;
          acc = (case map_of pending key of
             None \<Rightarrow> \<lparr> psInstanceName = scInstanceName c, psJobs = [], psStartedAt = now \<rparr> | Some acc \<Rightarrow> acc);
          acc = acc\<lparr>psJobs := psJobs acc @ scJobs c\<rparr>
      in if scMoreChunks c then (s\<lparr>hsPending := AList.update key acc pending\<rparr>, h)
         else (s\<lparr>hsPending := AList.delete key pending\<rparr>,
               set_jobs (commit_snapshot env now iid (psJobs acc) (jobsT (hubIngest h))) h))"

definition handle_definition :: "hub_env \<Rightarrow> hub_draws \<Rightarrow> definition_delta \<Rightarrow> hub_session \<times> hub \<Rightarrow> hub_session \<times> hub" where
  "handle_definition env d delta sh =
     (let (s, h) = sh; vs = jobsT (hubIngest h) in
      case map_of (hsInstanceIds s) (ddInstanceName delta) of
        None \<Rightarrow> (s, h)
      | Some iid \<Rightarrow>
          (case ddJob delta of
             None \<Rightarrow> (s, h)
           | Some b \<Rightarrow>
               if ddDeleted delta then (s, set_jobs (markJobDeleted iid (blobUuid b) (hdNow d) vs) h)
               else (let cmd = ddAppliedCommandId delta;
                         (r, vs) = record_blob env (hdNow d) iid (if cmd = [] then Local else Remote) (str_or_null cmd) None b vs;
                         h = set_jobs vs h
                     in (s, case r of
                              None \<Rightarrow> h
                            | Some r \<Rightarrow> if changed r then publish (DefinitionEvent iid (blobUuid b)) h else h))))"

section \<open>Observations\<close>

definition handle_history ::
  "hub_env \<Rightarrow> string \<Rightarrow> history_wire list \<Rightarrow> hub_session \<times> hub \<Rightarrow> hub_session \<times> hub" where
  "handle_history env inst rows sh =
     (let (s, h) = sh in
      case map_of (hsInstanceIds s) inst of
        None \<Rightarrow> (s, h)
      | Some iid \<Rightarrow>
          (case applyHistoryScrubRules (heRegexp env) (getHistoryScrubConfig (hsWorkerId s) (hubHistoryScrub h)) rows of
             None \<Rightarrow> (s, h)
           | Some (rows, hits) \<Rightarrow>
               (let (r, ing) = ingestHistory iid rows (hubIngest h);
                    h = set_ingest ing h;
                    h = (if irInserted r > 0 then publish (HistoryEvent iid) h else h)
                in (s, h\<lparr>hubAlerts := hubAlerts h @ [RunsIngested iid (irNewRuns r)]\<rparr>))))"

definition handle_activity :: "hub_draws \<Rightarrow> string \<Rightarrow> activity_wire list \<Rightarrow> hub_session \<times> hub \<Rightarrow> hub_session \<times> hub" where
  "handle_activity d inst rows sh =
     (let (s, h) = sh in
      case map_of (hsInstanceIds s) inst of
        None \<Rightarrow> (s, h)
      | Some iid \<Rightarrow> (s, publish (ActivityEvent iid) (set_ingest (upsertActivity iid rows (hdNow d) (hubIngest h)) h)))"

definition handle_agent_log ::
  "hub_env \<Rightarrow> string \<Rightarrow> agent_log_wire list \<Rightarrow> hub_session \<times> hub \<Rightarrow> hub_session \<times> hub" where
  "handle_agent_log env inst rows sh =
     (let (s, h) = sh in
      case map_of (hsInstanceIds s) inst of
        None \<Rightarrow> (s, h)
      | Some iid \<Rightarrow>
          (case applyScrubRules (heRegexp env) (getScrubConfig (hsWorkerId s) (hubLogScrub h)) rows of
             None \<Rightarrow> (s, h)
           | Some r \<Rightarrow>
               (s, set_ingest (snd (ingestAgentLog (sha256 (heSigner env)) iid (keptRows r) (hubIngest h))) h)))"

definition handle_heartbeat :: "hub_draws \<Rightarrow> instance_info list \<Rightarrow> hub_session \<times> hub \<Rightarrow> hub_session \<times> hub" where
  "handle_heartbeat d infos sh =
     (let (s, h) = sh; h = set_ingest (touchWorker (hsWorkerId s) (hdNow d) (hubIngest h)) h
      in if infos = [] then (s, h) else declare_instances d (hsWorkerId s) infos (s, h))"

definition handle_config_status ::
  "hub_draws \<Rightarrow> (string \<times> string \<times> string) list \<Rightarrow> hub_session \<times> hub \<Rightarrow> hub_session \<times> hub" where
  "handle_config_status d results sh =
     (let (s, h) = sh
      in (s, h\<lparr>hubConfigs := recordInstanceConfigStatus (hsWorkerId s) (hdNow d)
            (map (\<lambda>(n, st, t). \<lparr> outName = n, outStatus = st, outDetail = t \<rparr>) results) (hubConfigs h)\<rparr>))"

section \<open>Certificate renewal\<close>

definition renewal_code :: "renewal_error \<Rightarrow> string" where
  "renewal_code e = (case e of RenewalError code \<Rightarrow> code | RenewalRefused \<Rightarrow> ''Internal'')"

definition handleCertificateRenewal ::
  "hub_env \<Rightarrow> hub_draws \<Rightarrow> string \<Rightarrow> hub_session \<times> hub \<Rightarrow> hub_session \<times> hub" where
  "handleCertificateRenewal env d csr sh =
     (let (s, h) = sh; a = hsAuth s; addr = hsRemoteAddress s;
          entry = (\<lambda>act kvs. worker_entry (awHostName a) act (awWorkerId a) (Some kvs) addr) in
      if awMode a \<noteq> MtlsMode
      then (hub_send (CertificateReply False (''This worker authenticated with '' @ CHR 0x22 # mode_name (awMode a) @
               CHR 0x22 # ''; certificate renewal applies to mTLS workers only.'') [] []) s,
            hub_audit (hdFirst d) (entry ''worker.certificate.renewal_refused''
              [(''mode'', JsStr (mode_name (awMode a)))]) h)
      else case renewWorkerCertificate (heIdentityEnv env) (heIdentityConfig env) (hdCredentialId d) (awWorkerId a)
                  (awHostName a) (awCredentialId a) csr (hdNow d) (hubIdentity h) of
        (Inl e, ids) \<Rightarrow>
          (let code = renewal_code e; msg = heErrorText env code
           in (hub_send (CertificateReply False msg [] []) s,
               hub_audit (hdFirst d) (entry ''worker.certificate.renewal_failed''
                 [(''code'', JsStr code), (''message'', JsStr msg)]) (h\<lparr>hubIdentity := ids\<rparr>)))
      | (Inr (ic, retired), ids) \<Rightarrow>
          (hub_send (CertificateReply True [] (icPem ic) (caCertificatePem (heIdentityEnv env))) s,
           publish WorkerEvent
             (hub_audit (hdFirst d) (entry ''worker.certificate.renewed''
                [(''fingerprint'', JsStr (icFingerprint ic)), (''notAfter'', JsStr (toISOString (icNotAfter ic))),
                 (''supersededCredentials'', JsNum (Num (int retired)))]) (h\<lparr>hubIdentity := ids\<rparr>))))"

section \<open>Command results\<close>

definition report_of :: "hub_env \<Rightarrow> hub_session \<Rightarrow> command_result \<Rightarrow> result_report" where
  "report_of env s r = (let oc = resultOutcome r in
     \<lparr> rCommandId = resultCommandId r, rWorkerId = hsWorkerId s, rSuccess = success oc, rErrorCode = errorCode oc,
       rErrorDetail = heDetailText env (errorDetail oc), rSqlErrorNumber = sqlErrorNumber oc, rHostName = hsHostName s \<rparr>)"

text \<open>
  The live state that came with a result goes to the instance of the command, and only when that
  command was this worker's and its instance is one of this session.
\<close>

definition record_resulting_job ::
  "hub_env \<Rightarrow> hub_draws \<Rightarrow> command_result \<Rightarrow> job_blob \<Rightarrow> hub_session \<times> hub \<Rightarrow> hub_session \<times> hub" where
  "record_resulting_job env d r b sh =
     (let (s, h) = sh; ok = success (resultOutcome r) in
      case find (\<lambda>c. cId c = resultCommandId r \<and> cWorkerId c = hsWorkerId s) (commandsT (hubPipe h)) of
        None \<Rightarrow> (s, h)
      | Some c \<Rightarrow>
          if cInstanceId c = [] \<or> cInstanceId c \<notin> set (map snd (hsInstanceIds s)) then (s, h)
          else (s, set_jobs (snd (record_blob env (hdNow d) (cInstanceId c) (if ok then Remote else Local)
                  (if ok then Some (resultCommandId r) else None) (if ok then cIssuedBy c else None) b
                  (jobsT (hubIngest h)))) h))"

definition result_alert :: "result_report \<Rightarrow> (command_kind \<times> string \<times> string option \<times> string option) option \<Rightarrow> hub \<Rightarrow> hub" where
  "result_alert rep cmd h =
     (case cmd of
        None \<Rightarrow> h
      | Some (kind, inst, job, issuer) \<Rightarrow>
          (let h = publish (CommandEvent inst) h
           in if rSuccess rep then h
              else h\<lparr>hubAlerts := hubAlerts h @ [CommandFailedAlert (rCommandId rep) (kind_name kind) inst job
                     (rErrorCode rep) (rErrorDetail rep) (case issuer of None \<Rightarrow> ''unknown'' | Some u \<Rightarrow> u)]\<rparr>))"

definition handle_command_result ::
  "hub_env \<Rightarrow> hub_draws \<Rightarrow> command_result \<Rightarrow> hub_session \<times> hub \<Rightarrow> hub_session \<times> hub" where
  "handle_command_result env d r sh =
     (let (s, h) = sh; rep = report_of env s r; (cmd, p) = recordResult (hdFirst d) rep (hubPipe h);
          h = result_alert rep cmd (h\<lparr>hubPipe := p\<rparr>)
      in case resultingJob (resultOutcome r) of
           None \<Rightarrow> (s, h)
         | Some b \<Rightarrow> record_resulting_job env d r b (s, h))"

section \<open>The message switch and the end of a session\<close>

fun handle_message :: "hub_env \<Rightarrow> hub_draws \<Rightarrow> worker_message \<Rightarrow> hub_session \<times> hub \<Rightarrow> hub_session \<times> hub" where
  "handle_message env d (MsgHello hello) sh = handle_hello env d hello sh"
| "handle_message env d (MsgSnapshot c) sh =
     (case map_of (hsInstanceIds (fst sh)) (scInstanceName c) of
        None \<Rightarrow> sh | Some iid \<Rightarrow> handleSnapshotChunk env (hdNow d) iid c sh)"
| "handle_message env d (MsgDefinition delta) sh = handle_definition env d delta sh"
| "handle_message env d (MsgHistory inst rows) sh = handle_history env inst rows sh"
| "handle_message env d (MsgActivity inst rows) sh = handle_activity d inst rows sh"
| "handle_message env d (MsgAgentLog inst rows) sh = handle_agent_log env inst rows sh"
| "handle_message env d (MsgHeartbeat infos) sh = handle_heartbeat d infos sh"
| "handle_message env d (MsgInstanceConfigStatus results) sh = handle_config_status d results sh"
| "handle_message env d (MsgCertificateRenewal csr) sh = handleCertificateRenewal env d csr sh"
| "handle_message env d (MsgCommandResult r) sh = handle_command_result env d r sh"

definition teardown :: "hub_draws \<Rightarrow> string \<Rightarrow> hub_session \<times> hub \<Rightarrow> hub_session \<times> hub" where
  "teardown d why sh =
     (let (s, h) = sh in
      case hsLive s of
        None \<Rightarrow> (s, h)
      | Some live \<Rightarrow>
          (let p = hubPipe h;
               h = h\<lparr>hubPipe := p\<lparr>registryS := unregister (hsWorkerId s) live (registryS p)\<rparr>\<rparr>;
               h = set_ingest (markWorkerDisconnected (hsWorkerId s) (hubIngest h)) h;
               h = publish WorkerEvent h;
               h = hub_audit (hdFirst d) (worker_entry (hsHostName s) ''worker.disconnected'' (hsWorkerId s)
                     (Some [(''reason'', JsStr why)]) (hsRemoteAddress s)) h
           in (s\<lparr>hsLive := None\<rparr>, h)))"

text \<open>A session's messages, each with what it draws.\<close>

definition session_run ::
  "hub_env \<Rightarrow> (hub_draws \<times> worker_message) list \<Rightarrow> hub_session \<times> hub \<Rightarrow> hub_session \<times> hub" where
  "session_run env ms sh = foldl (\<lambda>sh (d, m). handle_message env d m sh) sh ms"

section \<open>Enrolment\<close>

datatype grpc_status = Unauthenticated | PermissionDenied

definition failure_code :: "enrol_failure \<Rightarrow> string" where
  "failure_code e = (case e of EnrolmentError code msg \<Rightarrow> code | _ \<Rightarrow> ''Internal'')"

definition failure_text :: "hub_env \<Rightarrow> enrol_failure \<Rightarrow> string" where
  "failure_text env e = (case e of EnrolmentError code msg \<Rightarrow> msg | _ \<Rightarrow> heErrorText env ''Internal'')"

text \<open>The row of \<open>workers\<close> a redeemed token wrote, as the other components see it.\<close>

definition adopt_worker :: "string \<Rightarrow> int \<Rightarrow> identity_state \<Rightarrow> hub \<Rightarrow> hub" where
  "adopt_worker host now ids h =
     (let before = hubIdentity h; h = h\<lparr>hubIdentity := ids\<rparr>; ing = hubIngest h; cfg = hubConfigs h in
      if enrolTokens ids = enrolTokens before then h
      else case find (\<lambda>x. ewHostName x = host) (enrolledWorkers ids) of
        None \<Rightarrow> h
      | Some x \<Rightarrow>
          if (\<exists>y \<in> set (workerT ing). wsId y = ewId x)
          then set_ingest (ing\<lparr>workerT := map (\<lambda>y. if wsId y = ewId x
                 then y\<lparr>wsVersion := ewVersion x, wsCapabilities := ewCapabilities x\<rparr> else y) (workerT ing)\<rparr>) h
          else set_ingest (ing\<lparr>workerT := workerT ing @ [\<lparr> wsId = ewId x, wsHostName = host,
                 wsCapabilities = ewCapabilities x, wsVersion = ewVersion x, wsMaxCapability = None,
                 wsConnectedAt = None, wsLastSeenAt = None, wsLastRemoteAddress = None \<rparr>]\<rparr>)
               (h\<lparr>hubConfigs := cfg\<lparr>keyedWorkers := keyedWorkers cfg @ [\<lparr> kwId = ewId x, kwHostName = host,
                 kwVersion = ewVersion x, kwCreatedAt = now, kwLastSeenAt = None, kwPublicKeyPem = None,
                 kwKeyFingerprint = None \<rparr>]\<rparr>\<rparr>))"

definition enrol_call ::
  "hub_env \<Rightarrow> hub_draws \<Rightarrow> enrol_draws \<Rightarrow> string \<Rightarrow> enrol_request \<Rightarrow> hub
     \<Rightarrow> (grpc_status \<times> string + enrol_result) \<times> hub" where
  "enrol_call env d ed peer req h =
     (let req = req\<lparr>erEntraObjectId := None, erEntraTenantId := None\<rparr>;
          entry = (\<lambda>who act target kvs. \<lparr> actorType = SystemActor, actor = who, action = act, auditTarget = target,
             detail = to_jsonb (JsObj kvs), remoteAddress = Some peer \<rparr>)
      in case redeemEnrolmentToken (heIdentityEnv env) (heIdentityConfig env) req ed (hubIdentity h) of
           (Inr res, ids) \<Rightarrow>
             (Inr res, hub_audit (hdFirst d) (entry (erHostName req) ''worker.enrolled'' (Some (resWorkerId res))
                [(''mode'', JsStr (mode_name (resMode res)))]) (adopt_worker (erHostName req) (hdNow d) ids h))
         | (Inl e, ids) \<Rightarrow>
             (Inl (if failure_code e = ''InvalidToken'' \<or> failure_code e = ''TokenExpired'' then Unauthenticated
                   else PermissionDenied, failure_text env e),
              hub_audit (hdFirst d) (entry (if erHostName req = [] then peer else erHostName req)
                ''worker.enrolment.failed'' None [(''code'', JsStr (failure_code e)), (''message'', JsStr (failure_text env e))])
                (adopt_worker (erHostName req) (hdNow d) ids h)))"

end
