(* ===== verification/HubSessionLaws.thy ===== *)
theory HubSessionLaws
  imports HubSession
begin

text \<open>
  What the hub's end of a session guarantees: a session reaches only its own worker's instances and
  configurations, a chunked snapshot is committed once and mirrored exactly, and what the handlers
  leave open.
\<close>

section \<open>A session reaches only its own instances\<close>

text \<open>Everything held about one instance.\<close>

definition instance_data :: "string \<Rightarrow> ingest_state \<Rightarrow>
    job_row list \<times> version_row list \<times> history_row list \<times> (string \<Rightarrow> activity_row option) \<times> agent_log_entry list" where
  "instance_data i ing =
     (filter (\<lambda>j. jInstanceId j = i) (jobRows (jobsT ing)), filter (\<lambda>v. vInstanceId v = i) (versionRows (jobsT ing)),
      filter (\<lambda>r. hInstanceId r = i) (historyT ing), (\<lambda>u. activityT ing (i, u)),
      filter (\<lambda>e. alInstanceId e = i) (agentLogT ing))"

definition touches :: "string \<Rightarrow> ingest_state \<Rightarrow> ingest_state \<Rightarrow> bool" where
  "touches i ing ing' \<longleftrightarrow> (\<forall>k. k \<noteq> i \<longrightarrow> instance_data k ing' = instance_data k ing) \<and> instanceT ing' = instanceT ing"

lemma touches_refl [simp]: "touches i ing ing"
  by (simp add: touches_def)

lemma touches_trans: "touches i a b \<Longrightarrow> touches i b c \<Longrightarrow> touches i a c"
  by (simp add: touches_def)

lemma touches_foldl: "(\<And>ing x. touches i ing (f ing x)) \<Longrightarrow> touches i ing (foldl f ing xs)"
  by (induction xs arbitrary: ing) (auto intro: touches_trans)

lemma filter_map_cond:
  "(\<And>x. P x \<Longrightarrow> f x = x) \<Longrightarrow> (\<And>x. P (f x) = P x) \<Longrightarrow> filter P (map f xs) = filter P xs"
  by (induction xs) auto

lemma update_jobs_other:
  assumes "\<And>j. P j \<Longrightarrow> jInstanceId j = i" and "\<And>j. jInstanceId (f j) = jInstanceId j" and "k \<noteq> i"
  shows "filter (\<lambda>j. jInstanceId j = k) (jobRows (update_jobs P f vs)) = filter (\<lambda>j. jInstanceId j = k) (jobRows vs)"
  unfolding update_jobs_def by (simp, rule filter_map_cond) (use assms in auto)

lemma touches_jobs:
  assumes "\<And>k. k \<noteq> i \<Longrightarrow> filter (\<lambda>j. jInstanceId j = k) (jobRows vs') = filter (\<lambda>j. jInstanceId j = k) (jobRows (jobsT ing))"
    and "\<And>k. k \<noteq> i \<Longrightarrow> filter (\<lambda>v. vInstanceId v = k) (versionRows vs') = filter (\<lambda>v. vInstanceId v = k) (versionRows (jobsT ing))"
  shows "touches i ing (ing\<lparr>jobsT := vs'\<rparr>)"
  using assms by (simp add: touches_def instance_data_def)

lemma versionRows_update_jobs [simp]: "versionRows (update_jobs P f vs) = versionRows vs"
  by (simp add: update_jobs_def)

lemma touches_update_jobs:
  "(\<And>j. P j \<Longrightarrow> jInstanceId j = i) \<Longrightarrow> (\<And>j. jInstanceId (f j) = jInstanceId j) \<Longrightarrow>
     touches i ing (ing\<lparr>jobsT := update_jobs P f (jobsT ing)\<rparr>)"
  by (rule touches_jobs) (auto intro: update_jobs_other)

lemma is_job_instance: "is_job i u j \<Longrightarrow> jInstanceId j = i"
  by (simp add: is_job_def)

lemma touches_record: "touches (viInstanceId inp) ing (ing\<lparr>jobsT := snd (recordJobVersion parse inp (jobsT ing))\<rparr>)"
proof (rule touches_jobs)
  fix k assume "k \<noteq> viInstanceId inp"
  then show "filter (\<lambda>j. jInstanceId j = k) (jobRows (snd (recordJobVersion parse inp (jobsT ing)))) =
      filter (\<lambda>j. jInstanceId j = k) (jobRows (jobsT ing))"
    and "filter (\<lambda>v. vInstanceId v = k) (versionRows (snd (recordJobVersion parse inp (jobsT ing)))) =
      filter (\<lambda>v. vInstanceId v = k) (versionRows (jobsT ing))"
    by (auto simp: recordJobVersion_def Let_def job_columns_def new_job_def split: option.splits
        intro!: update_jobs_other [of "is_job (viInstanceId inp) (viJobUuid inp)" "viInstanceId inp" _ k _, THEN trans]
        dest: is_job_instance)
qed

lemma touches_record_blob: "touches iid ing (ing\<lparr>jobsT := snd (record_blob env now iid origin cmd who b (jobsT ing))\<rparr>)"
  using touches_record [of "\<lparr> viInstanceId = iid, viJobUuid = blobUuid (verifyBlobHash env b),
      viCanonicalJson = blobJson (verifyBlobHash env b), viDefinitionHash = blobHash (verifyBlobHash env b),
      viOrigin = origin, viCommandId = cmd, viCreatedBy = who, viDetectedAt = now \<rparr>" ing "heParse env"]
  by (simp add: record_blob_def Let_def)

lemma touches_missing: "touches i ing (ing\<lparr>jobsT := snd (markJobsMissingFromSnapshot i seen now (jobsT ing))\<rparr>)"
  unfolding markJobsMissingFromSnapshot_def by (simp, rule touches_update_jobs) (auto simp: missing_job_def)

lemma touches_deleted: "touches i ing (ing\<lparr>jobsT := markJobDeleted i u now (jobsT ing)\<rparr>)"
  unfolding markJobDeleted_def by (rule touches_update_jobs) (auto simp: is_job_def)

lemma touches_record_blobs:
  "touches iid ing (ing\<lparr>jobsT := snd (record_blobs env now iid bs (jobsT ing))\<rparr>)"
proof (induction bs arbitrary: ing)
  case (Cons b bs)
  obtain r vs where r: "record_blob env now iid Local None None b (jobsT ing) = (r, vs)" by fastforce
  have "touches iid ing (ing\<lparr>jobsT := vs\<rparr>)" using touches_record_blob [of iid ing env now Local None None b] r by simp
  moreover have "touches iid (ing\<lparr>jobsT := vs\<rparr>) (ing\<lparr>jobsT := snd (record_blobs env now iid bs vs)\<rparr>)"
    using Cons.IH [of "ing\<lparr>jobsT := vs\<rparr>"] by simp
  ultimately show ?case using r by (cases r) (auto intro: touches_trans)
qed simp

lemma touches_commit: "touches iid ing (ing\<lparr>jobsT := commit_snapshot env now iid bs (jobsT ing)\<rparr>)"
proof -
  obtain ok vs where r: "record_blobs env now iid bs (jobsT ing) = (ok, vs)" by fastforce
  have 1: "touches iid ing (ing\<lparr>jobsT := vs\<rparr>)" using touches_record_blobs [of iid ing env now bs] r by simp
  show ?thesis
    using 1 touches_trans [OF 1 touches_missing [of iid "ing\<lparr>jobsT := vs\<rparr>" "map blobUuid bs" now]] r
    by (cases ok) (simp_all add: commit_snapshot_def)
qed

lemma insert_new_other:
  assumes "\<forall>v \<in> set vs. hInstanceId v = i" and "k \<noteq> i"
  shows "filter (\<lambda>r. hInstanceId r = k) (fst (insert_new vs table)) = filter (\<lambda>r. hInstanceId r = k) table"
  using assms(1)
proof (induction vs arbitrary: table)
  case (Cons v vs)
  obtain t x where e: "insert_new vs (table @ [v]) = (t, x)" by fastforce
  have "filter (\<lambda>r. hInstanceId r = k) t = filter (\<lambda>r. hInstanceId r = k) table"
    using Cons.IH [of "table @ [v]"] Cons.prems assms(2) e by simp
  moreover have "filter (\<lambda>r. hInstanceId r = k) (fst (insert_new vs table)) = filter (\<lambda>r. hInstanceId r = k) table"
    using Cons.IH [of table] Cons.prems by simp
  ultimately show ?case by (simp add: e)
qed simp

lemma insert_entries_other:
  assumes "\<forall>v \<in> set vs. alInstanceId v = i" and "k \<noteq> i"
  shows "filter (\<lambda>r. alInstanceId r = k) (fst (insert_entries vs table)) = filter (\<lambda>r. alInstanceId r = k) table"
  using assms(1)
proof (induction vs arbitrary: table)
  case (Cons v vs)
  obtain t x where e: "insert_entries vs (table @ [v]) = (t, x)" by fastforce
  have "filter (\<lambda>r. alInstanceId r = k) t = filter (\<lambda>r. alInstanceId r = k) table"
    using Cons.IH [of "table @ [v]"] Cons.prems assms(2) e by simp
  moreover have "filter (\<lambda>r. alInstanceId r = k) (fst (insert_entries vs table)) = filter (\<lambda>r. alInstanceId r = k) table"
    using Cons.IH [of table] Cons.prems by simp
  ultimately show ?case by (simp add: e)
qed simp

lemma history_values_instance: "v \<in> set (List.map_filter (history_value i) rows) \<Longrightarrow> hInstanceId v = i"
  by (auto simp: List.map_filter_def history_value_def split: option.splits)

lemma agent_log_values_instance: "v \<in> set (List.map_filter (agent_log_value sha i) rows) \<Longrightarrow> alInstanceId v = i"
  by (auto simp: List.map_filter_def agent_log_value_def split: option.splits)

lemma touches_refresh: "touches i ing (refreshLastRunSummary i us ing)"
  unfolding refreshLastRunSummary_def
proof (rule touches_foldl)
  show "touches i ing (refresh_one i ing u)" for ing u
    by (auto simp: refresh_one_def summarise_def is_job_def split: option.splits intro!: touches_update_jobs)
qed

lemma touches_history: "touches i ing (snd (ingestHistory i rows ing))"
proof (cases "rows = [] \<or> List.map_filter (history_value i) rows = []")
  case False
  let ?vals = "List.map_filter (history_value i) rows"
  obtain table fresh where n: "insert_new ?vals (historyT ing) = (table, fresh)" by fastforce
  have "filter (\<lambda>r. hInstanceId r = k) table = filter (\<lambda>r. hInstanceId r = k) (historyT ing)" if "k \<noteq> i" for k
    using insert_new_other [of ?vals i k "historyT ing"] history_values_instance n that by simp
  then have "touches i ing (set_history_mark i m (ing\<lparr>historyT := table\<rparr>))" for m
    by (simp add: touches_def instance_data_def set_history_mark_def)
  from touches_trans [OF this touches_refresh] False n show ?thesis by (auto simp: ingestHistory_def Let_def)
qed (auto simp: ingestHistory_def)

lemma touches_activity_row: "touches i ing (upsert_activity_row i now ing r)"
proof -
  let ?a = "\<lambda>a. ing\<lparr>activityT := (activityT ing)((i, awJobUuid r) \<mapsto> a)\<rparr>"
  have a: "touches i ing (?a a)" for a by (simp add: touches_def instance_data_def)
  have "touches i (?a a) ((?a a)\<lparr>jobsT := update_jobs (is_job i (awJobUuid r)) (\<lambda>j. j\<lparr>nextRunAt := t\<rparr>) (jobsT (?a a))\<rparr>)" for a t
    by (rule touches_update_jobs) (simp_all add: is_job_def)
  from a touches_trans [OF a this] show ?thesis
    by (simp add: upsert_activity_row_def Let_def split: option.splits)
qed

lemma touches_activity: "touches i ing (upsertActivity i rows now ing)"
  unfolding upsertActivity_def by (rule touches_foldl) (rule touches_activity_row)

lemma touches_agent_log: "touches i ing (snd (ingestAgentLog sha i rows ing))"
proof (cases "List.map_filter (agent_log_value sha i) rows")
  case (Cons v vs)
  obtain table n where e: "insert_entries (v # vs) (agentLogT ing) = (table, n)" by fastforce
  have "filter (\<lambda>r. alInstanceId r = k) table = filter (\<lambda>r. alInstanceId r = k) (agentLogT ing)" if "k \<noteq> i" for k
    using insert_entries_other [of "v # vs" i k "agentLogT ing"] agent_log_values_instance [of _ sha i rows] Cons e that by simp
  then have "touches i ing (set_agent_log_mark i m (ing\<lparr>agentLogT := table\<rparr>))" for m
    by (simp add: touches_def instance_data_def set_agent_log_mark_def)
  with Cons e show ?thesis by (simp add: ingestAgentLog_def Let_def del: insert_entries.simps)
qed (simp add: ingestAgentLog_def)

text \<open>The rows of \<open>instances\<close> keep their id and worker; new ones belong to the worker that declared them.\<close>

definition own_ids :: "string \<Rightarrow> ingest_state \<Rightarrow> string set" where
  "own_ids w ing = isId ` {x \<in> set (instanceT ing). isWorkerId x = w}"

definition no_data_change :: "ingest_state \<Rightarrow> ingest_state \<Rightarrow> bool" where
  "no_data_change ing ing' \<longleftrightarrow> (\<forall>k. instance_data k ing' = instance_data k ing)"

lemma own_ids_map:
  assumes "\<And>x. isId (f x) = isId x" and "\<And>x. isWorkerId (f x) = isWorkerId x"
    and "instanceT ing' = map f (instanceT ing)"
  shows "own_ids w ing' = own_ids w ing"
proof -
  have "{x \<in> set (instanceT ing'). isWorkerId x = w} = f ` {x \<in> set (instanceT ing). isWorkerId x = w}"
    using assms(2,3) by auto
  then show ?thesis unfolding own_ids_def using assms(1) by (simp add: image_image)
qed

lemma upsert_instance_own:
  assumes "upsert_instance w now ix (ids, ing) = (ids', ing')" and "set (map snd ids) \<subseteq> own_ids w ing"
  shows "own_ids w ing \<subseteq> own_ids w ing' \<and> set (map snd ids') \<subseteq> own_ids w ing' \<and> no_data_change ing ing'"
proof -
  obtain info newId where ix: "ix = (info, newId)" by fastforce
  let ?same = "\<lambda>x. isWorkerId x = w \<and> isName x = infoName info"
  have cols: "isId (info_columns info now x) = isId x" "isWorkerId (info_columns info now x) = isWorkerId x" for x
    by (simp_all add: info_columns_def)
  have d: "no_data_change ing ing'"
    using assms(1) by (auto simp: upsert_instance_def ix no_data_change_def instance_data_def Let_def split: option.splits)
  have "\<exists>i. ids' = AList.update (infoName info) i ids \<and> i \<in> own_ids w ing' \<and> own_ids w ing \<subseteq> own_ids w ing'"
  proof (cases "find ?same (instanceT ing)")
    case None
    obtain y where y: "instanceT ing' = instanceT ing @ [y]" "isId y = newId" "isWorkerId y = w"
      and "ids' = AList.update (infoName info) newId ids"
      using assms(1) None by (auto simp: upsert_instance_def ix Let_def cols split: option.splits)
    then show ?thesis by (auto simp: own_ids_def)
  next
    case (Some x)
    then have x: "x \<in> set (instanceT ing)" "?same x" by (auto dest: find_SomeD)
    have "instanceT ing' = map (\<lambda>x. if ?same x then info_columns info now x else x) (instanceT ing)"
      and ids': "ids' = AList.update (infoName info) (isId x) ids"
      using assms(1) Some by (auto simp: upsert_instance_def ix Let_def split: option.splits)
    moreover have "own_ids w ing' = own_ids w ing"
      by (rule own_ids_map [OF _ _ \<open>instanceT ing' = _\<close>]) (simp_all add: cols)
    moreover have "isId x \<in> own_ids w ing" using x by (auto simp: own_ids_def)
    ultimately show ?thesis by auto
  qed
  then obtain i where i: "ids' = AList.update (infoName info) i ids" "i \<in> own_ids w ing'" "own_ids w ing \<subseteq> own_ids w ing'"
    by blast
  have "set (map snd ids') \<subseteq> insert i (set (map snd ids))"
    using set_update_subset [of "infoName info" i ids] i(1) by force
  with i assms(2) d show ?thesis by blast
qed

lemma upsert_each_own:
  assumes "foldl (\<lambda>acc ix. upsert_instance w now ix acc) (ids0, ing0) infos = (ids, ing)"
    and "set (map snd ids0) \<subseteq> own_ids w ing0"
  shows "own_ids w ing0 \<subseteq> own_ids w ing \<and> set (map snd ids) \<subseteq> own_ids w ing \<and> no_data_change ing0 ing"
  using assms
proof (induction infos arbitrary: ids0 ing0)
  case Nil
  then show ?case by (auto simp: no_data_change_def)
next
  case (Cons ix infos)
  obtain ids1 ing1 where 1: "upsert_instance w now ix (ids0, ing0) = (ids1, ing1)" by fastforce
  from upsert_instance_own [OF 1 Cons.prems(2)] have o: "own_ids w ing0 \<subseteq> own_ids w ing1"
    "set (map snd ids1) \<subseteq> own_ids w ing1" "no_data_change ing0 ing1" by blast+
  have "foldl (\<lambda>acc ix. upsert_instance w now ix acc) (ids1, ing1) infos = (ids, ing)"
    using Cons.prems(1) unfolding foldl.simps 1 .
  from Cons.IH [OF this o(2)] o(1,3) show ?case unfolding no_data_change_def by (metis subset_trans)
qed

lemma upsertInstances_own:
  assumes "upsertInstances w now infos ing = (ids, ing')"
  shows "own_ids w ing \<subseteq> own_ids w ing' \<and> set (map snd ids) \<subseteq> own_ids w ing' \<and> no_data_change ing ing'"
  by (rule upsert_each_own [OF assms [unfolded upsertInstances_def]]) simp

text \<open>
  \<open>session_ok w\<close>: a session of worker \<open>w\<close> that knows only ids of that worker's instances.
  \<open>confined w\<close>: it stays one, and what changes belongs to that worker.
\<close>

definition session_ok :: "string \<Rightarrow> hub_session \<times> hub \<Rightarrow> bool" where
  "session_ok w sh \<longleftrightarrow> hsWorkerId (fst sh) = w \<and> awWorkerId (hsAuth (fst sh)) = w \<and>
     set (map snd (hsInstanceIds (fst sh))) \<subseteq> own_ids w (hubIngest (snd sh))"

definition other_configs :: "string \<Rightarrow> hub \<Rightarrow> config_row list" where
  "other_configs w h = filter (\<lambda>r. cfWorkerId r \<noteq> w) (configRows (hubConfigs h))"

definition confined :: "string \<Rightarrow> hub_session \<times> hub \<Rightarrow> hub_session \<times> hub \<Rightarrow> bool" where
  "confined w sh sh' \<longleftrightarrow> session_ok w sh' \<and>
     own_ids w (hubIngest (snd sh)) \<subseteq> own_ids w (hubIngest (snd sh')) \<and>
     (\<forall>i. i \<notin> own_ids w (hubIngest (snd sh')) \<longrightarrow>
        instance_data i (hubIngest (snd sh')) = instance_data i (hubIngest (snd sh))) \<and>
     other_configs w (snd sh') = other_configs w (snd sh)"

lemma confined_refl: "session_ok w sh \<Longrightarrow> confined w sh sh"
  by (simp add: confined_def)

lemma confined_trans: "confined w a b \<Longrightarrow> confined w b c \<Longrightarrow> confined w a c"
  unfolding confined_def by (metis subsetD subset_trans)

lemma set_ingest_simps [simp]:
  "hubIngest (set_ingest ing h) = ing" "configRows (hubConfigs (set_ingest ing h)) = configRows (hubConfigs h)"
  "other_configs w (set_ingest ing h) = other_configs w h"
  "hubIdentity (set_ingest ing h) = hubIdentity h"
  by (simp_all add: set_ingest_def mirror_tables_def other_configs_def Let_def)

lemma hub_audit_simps [simp]:
  "hubIngest (hub_audit ce e h) = hubIngest h" "hubConfigs (hub_audit ce e h) = hubConfigs h"
  "other_configs w (hub_audit ce e h) = other_configs w h"
  by (simp_all add: hub_audit_def other_configs_def)

lemma publish_simps [simp]:
  "hubIngest (publish e h) = hubIngest h" "hubConfigs (publish e h) = hubConfigs h"
  "other_configs w (publish e h) = other_configs w h" "hubPipe (publish e h) = hubPipe h"
  by (simp_all add: publish_def other_configs_def)

lemma set_jobs_simps [simp]: "other_configs w (set_jobs vs h) = other_configs w h"
  "hubIngest (set_jobs vs h) = (hubIngest h)\<lparr>jobsT := vs\<rparr>"
  by (simp_all add: set_jobs_def)

lemma hub_send_simps [simp]:
  "hsWorkerId (hub_send m s) = hsWorkerId s" "hsAuth (hub_send m s) = hsAuth s"
  "hsInstanceIds (hub_send m s) = hsInstanceIds s"
  by (simp_all add: hub_send_def)

text \<open>The two shapes a handler has: it touches one instance of the session, or none.\<close>

lemma confined_touches:
  assumes "session_ok w sh" and "touches i (hubIngest (snd sh)) (hubIngest h')" and "i \<in> set (map snd (hsInstanceIds (fst sh)))"
    and "other_configs w h' = other_configs w (snd sh)"
    and "hsWorkerId s' = hsWorkerId (fst sh)" "hsAuth s' = hsAuth (fst sh)" "hsInstanceIds s' = hsInstanceIds (fst sh)"
  shows "confined w sh (s', h')"
proof -
  have "own_ids w (hubIngest h') = own_ids w (hubIngest (snd sh))" using assms(2) by (simp add: touches_def own_ids_def)
  moreover have "i \<in> own_ids w (hubIngest (snd sh))" using assms(1,3) by (auto simp: session_ok_def)
  ultimately show ?thesis using assms by (auto simp: confined_def session_ok_def touches_def)
qed

lemma confined_none:
  assumes "session_ok w sh" and "no_data_change (hubIngest (snd sh)) (hubIngest h')"
    and "own_ids w (hubIngest (snd sh)) \<subseteq> own_ids w (hubIngest h')"
    and "other_configs w h' = other_configs w (snd sh)"
    and "hsWorkerId s' = w" "hsAuth s' = hsAuth (fst sh)"
    and "set (map snd (hsInstanceIds s')) \<subseteq> own_ids w (hubIngest h')"
  shows "confined w sh (s', h')"
  using assms by (auto simp: confined_def session_ok_def no_data_change_def)

lemma lookup_id: "map_of ids n = Some i \<Longrightarrow> i \<in> set (map snd ids)"
  by (force dest: map_of_SomeD)

lemma confined_one:
  assumes "session_ok w (s, h)" and "map_of (hsInstanceIds s) n = Some i"
    and "touches i (hubIngest h) (hubIngest h')" and "other_configs w h' = other_configs w h"
  shows "confined w (s, h) (s, h')"
  by (rule confined_touches [OF assms(1), of i])
    (simp_all only: fst_conv snd_conv assms(3,4) lookup_id [OF assms(2)])

lemma handle_definition_confined:
  assumes "session_ok w (s, h)" shows "confined w (s, h) (handle_definition env d delta (s, h))"
proof (cases "map_of (hsInstanceIds s) (ddInstanceName delta)")
  case (Some i)
  note one = confined_one [OF assms Some]
  have del: "confined w (s, h) (s, set_jobs (markJobDeleted i u (hdNow d) (jobsT (hubIngest h))) h)" for u
    by (rule one) (simp_all add: touches_deleted)
  have rec: "confined w (s, h) (s, case r of None \<Rightarrow> set_jobs vs h
      | Some r \<Rightarrow> if changed r then publish e (set_jobs vs h) else set_jobs vs h)"
    if "record_blob env now i og cmd who b (jobsT (hubIngest h)) = (r, vs)" for now og cmd who b r vs e
    by (rule one) (use touches_record_blob [of i "hubIngest h" env now og cmd who b] that in \<open>simp_all split: option.split\<close>)
  show ?thesis
  proof (cases "ddJob delta")
    case None
    with confined_refl [OF assms] Some show ?thesis by (simp add: handle_definition_def Let_def)
  next
    case b: (Some b)
    let ?cmd = "ddAppliedCommandId delta"
    obtain r vs where r: "record_blob env (hdNow d) i (if ?cmd = [] then Local else Remote) (str_or_null ?cmd) None b
        (jobsT (hubIngest h)) = (r, vs)" by fastforce
    show ?thesis
      using del [of "blobUuid b"] rec [OF r, of "DefinitionEvent i (blobUuid b)"] r Some b
      by (cases "ddDeleted delta") (simp_all add: handle_definition_def Let_def)
  qed
qed (use confined_refl [OF assms] in \<open>simp add: handle_definition_def Let_def\<close>)

lemma handle_history_confined:
  assumes "session_ok w (s, h)" shows "confined w (s, h) (handle_history env n rows (s, h))"
proof (cases "map_of (hsInstanceIds s) n")
  case (Some i)
  have "confined w (s, h) (s, (if p then publish e (set_ingest ing h) else set_ingest ing h)\<lparr>hubAlerts := al\<rparr>)"
    if "ingestHistory i rows (hubIngest h) = (r, ing)" for rows r ing p e al
    by (rule confined_one [OF assms Some]) (use touches_history [of i "hubIngest h" rows] that in \<open>simp_all add: other_configs_def\<close>)
  then show ?thesis using confined_refl [OF assms] Some
    by (simp add: handle_history_def Let_def split: option.split prod.split)
qed (use confined_refl [OF assms] in \<open>simp add: handle_history_def Let_def\<close>)

lemma handle_activity_confined:
  assumes "session_ok w (s, h)" shows "confined w (s, h) (handle_activity d n rows (s, h))"
proof (cases "map_of (hsInstanceIds s) n")
  case (Some i)
  have "confined w (s, h) (s, publish (ActivityEvent i) (set_ingest (upsertActivity i rows (hdNow d) (hubIngest h)) h))"
    by (rule confined_one [OF assms Some]) (simp_all add: touches_activity)
  with Some show ?thesis by (simp add: handle_activity_def Let_def)
qed (use confined_refl [OF assms] in \<open>simp add: handle_activity_def Let_def\<close>)

lemma handle_agent_log_confined:
  assumes "session_ok w (s, h)" shows "confined w (s, h) (handle_agent_log env n rows (s, h))"
proof (cases "map_of (hsInstanceIds s) n")
  case (Some i)
  have "confined w (s, h) (s, set_ingest (snd (ingestAgentLog sha i rows (hubIngest h))) h)" for sha rows
    by (rule confined_one [OF assms Some]) (simp_all add: touches_agent_log)
  with Some confined_refl [OF assms] show ?thesis by (simp add: handle_agent_log_def Let_def split: option.split)
qed (use confined_refl [OF assms] in \<open>simp add: handle_agent_log_def Let_def\<close>)

lemma handleSnapshotChunk_confined:
  assumes "session_ok w (s, h)" and "map_of (hsInstanceIds s) n = Some i"
  shows "confined w (s, h) (handleSnapshotChunk env now i c (s, h))"
proof -
  have p: "confined w (s, h) (s\<lparr>hsPending := p\<rparr>, h)" for p
    using assms(1) by (simp add: confined_def session_ok_def)
  have "confined w (s, h) (s\<lparr>hsPending := p\<rparr>, set_jobs (commit_snapshot env now i bs (jobsT (hubIngest h))) h)" for p bs
    by (rule confined_touches [OF assms(1), of i])
      (simp_all only: fst_conv snd_conv set_jobs_simps touches_commit lookup_id [OF assms(2)], simp_all)
  with p show ?thesis by (simp add: handleSnapshotChunk_def Let_def)
qed

lemma add_instances_ids:
  "set (map snd (hsInstanceIds (add_instances ids s))) \<subseteq> set (map snd (hsInstanceIds s)) \<union> set (map snd ids)"
proof -
  have "set (map snd (foldl (\<lambda>m (n, i). AList.update n i m) m ids)) \<subseteq> set (map snd m) \<union> set (map snd ids)" for m :: "(string \<times> string) list"
  proof (induction ids arbitrary: m)
    case (Cons x ids)
    obtain n i where x: "x = (n, i)" by fastforce
    have "set (map snd (AList.update n i m)) \<subseteq> insert i (set (map snd m))" using set_update_subset [of n i m] by force
    with Cons.IH [of "AList.update n i m"] show ?case by (auto simp: x simp del: set_map)
  qed simp
  then show ?thesis by (simp add: add_instances_def)
qed

lemma add_instances_simps [simp]:
  "hsWorkerId (add_instances ids s) = hsWorkerId s" "hsAuth (add_instances ids s) = hsAuth s"
  by (simp_all add: add_instances_def)

lemma declare_confined:
  assumes "session_ok w (s, h)" shows "confined w (s, h) (declare_instances d w infos (s, h))"
proof -
  let ?infos = "map (\<lambda>i. (i, hdInstanceId d (infoName i))) infos"
  obtain ids ing where u: "upsertInstances w (hdNow d) ?infos (hubIngest h) = (ids, ing)" by fastforce
  note own = upsertInstances_own [OF u]
  have "set (map snd (hsInstanceIds s)) \<subseteq> own_ids w (hubIngest h)" using assms by (simp add: session_ok_def)
  then have "set (map snd (hsInstanceIds (add_instances ids s))) \<subseteq> own_ids w ing"
    using own add_instances_ids [of ids s] by blast
  then have "confined w (s, h) (add_instances ids s, set_ingest ing h)"
    using own assms by (intro confined_none) (simp_all add: session_ok_def)
  then show ?thesis using u by (simp add: declare_instances_def)
qed

lemma only_workers_no_data:
  "no_data_change ing (ing\<lparr>workerT := ws\<rparr>)" "own_ids w (ing\<lparr>workerT := ws\<rparr>) = own_ids w ing"
  by (simp_all add: no_data_change_def instance_data_def own_ids_def)

lemma confined_workers:
  assumes "session_ok w (s, h)" and "hsWorkerId s' = w" "hsAuth s' = hsAuth s" "hsInstanceIds s' = hsInstanceIds s"
  shows "confined w (s, h) (s', set_ingest ((hubIngest h)\<lparr>workerT := ws\<rparr>) h)"
  using assms by (intro confined_none) (simp_all add: only_workers_no_data session_ok_def)

lemma handle_heartbeat_confined:
  assumes "session_ok w (s, h)" shows "confined w (s, h) (handle_heartbeat d infos (s, h))"
proof -
  have w: "hsWorkerId s = w" using assms by (simp add: session_ok_def)
  let ?h = "set_ingest (touchWorker w (hdNow d) (hubIngest h)) h"
  have t: "confined w (s, h) (s, ?h)" unfolding touchWorker_def by (rule confined_workers [OF assms]) (simp_all add: w)
  then have "session_ok w (s, ?h)" by (simp add: confined_def)
  from confined_trans [OF t declare_confined [OF this]] t show ?thesis by (simp add: handle_heartbeat_def Let_def w)
qed

lemma report_other_configs:
  "filter (\<lambda>r. cfWorkerId r \<noteq> w) (configRows (recordInstanceConfigStatus w now outs c)) = filter (\<lambda>r. cfWorkerId r \<noteq> w) (configRows c)"
  unfolding recordInstanceConfigStatus_def
proof (induction outs arbitrary: c)
  case (Cons out outs)
  have "filter (\<lambda>r. cfWorkerId r \<noteq> w) (configRows (report_one w now c out)) = filter (\<lambda>r. cfWorkerId r \<noteq> w) (configRows c)"
    unfolding report_one_def by (simp, rule filter_map_cond) (auto simp: config_of_def)
  with Cons show ?case by simp
qed simp

lemma handle_config_status_confined:
  assumes "session_ok w (s, h)" shows "confined w (s, h) (handle_config_status d results (s, h))"
  using assms unfolding handle_config_status_def
  by (simp add: Let_def, intro confined_none) (simp_all add: session_ok_def no_data_change_def other_configs_def report_other_configs)

lemma renewal_confined:
  assumes "session_ok w (s, h)" shows "confined w (s, h) (handleCertificateRenewal env d csr (s, h))"
proof -
  have c: "confined w (s, h) (hub_send m s, h')" if "hubIngest h' = hubIngest h" "hubConfigs h' = hubConfigs h" for m h'
    using assms that by (intro confined_none) (simp_all add: session_ok_def no_data_change_def other_configs_def)
  show ?thesis
    by (auto simp: handleCertificateRenewal_def Let_def intro!: c split: prod.splits sum.splits)
qed

lemma only_pipe [simp]:
  "other_configs w (h\<lparr>hubPipe := p\<rparr>) = other_configs w h" "other_configs w (h\<lparr>hubAlerts := al\<rparr>) = other_configs w h"
  by (simp_all add: other_configs_def)

lemma confined_same:
  assumes "session_ok w (s, h)" and "hubIngest h' = hubIngest h" and "other_configs w h' = other_configs w h"
    and "hsWorkerId s' = w" "hsAuth s' = hsAuth s" "hsInstanceIds s' = hsInstanceIds s"
  shows "confined w (s, h) (s', h')"
  using assms by (simp add: confined_def session_ok_def)

lemma handle_command_result_confined:
  assumes "session_ok w (s, h)" shows "confined w (s, h) (handle_command_result env d r (s, h))"
proof -
  have w: "hsWorkerId s = w" using assms by (simp add: session_ok_def)
  let ?rep = "report_of env s r"
  obtain cmd p where c: "recordResult (hdFirst d) ?rep (hubPipe h) = (cmd, p)" by fastforce
  define h1 where "h1 = result_alert ?rep cmd (h\<lparr>hubPipe := p\<rparr>)"
  have h1: "hubIngest h1 = hubIngest h" "other_configs w h1 = other_configs w h"
    by (simp_all add: h1_def result_alert_def Let_def split: option.split prod.split)
  then have c1: "confined w (s, h) (s, h1)" by (intro confined_same [OF assms]) (simp_all add: w)
  then have ok: "session_ok w (s, h1)" by (simp add: confined_def)
  have job: "confined w (s, h1) (record_resulting_job env d r b (s, h1))" for b
  proof -
    have "confined w (s, h1) (s, set_jobs (snd (record_blob env (hdNow d) i og cmd who b (jobsT (hubIngest h1)))) h1)"
      if "i \<in> set (map snd (hsInstanceIds s))" for i og cmd who
      by (rule confined_touches [OF ok, of i]) (use that in \<open>simp_all add: touches_record_blob del: set_map\<close>)
    with confined_refl [OF ok] show ?thesis
      by (simp add: record_resulting_job_def Let_def del: set_map split: option.split)
  qed
  have "handle_command_result env d r (s, h) = (case resultingJob (resultOutcome r) of
      None \<Rightarrow> (s, h1) | Some b \<Rightarrow> record_resulting_job env d r b (s, h1))"
    by (cases "resultingJob (resultOutcome r)") (simp_all add: handle_command_result_def c h1_def Let_def)
  then show ?thesis using c1 confined_trans [OF c1 job] by (simp split: option.split)
qed

lemma publish_key_confined:
  "hubIngest (publish_key env d hello w host addr h) = hubIngest h"
  "other_configs w (publish_key env d hello w host addr h) = other_configs w h"
proof -
  have rows: "filter (\<lambda>r. cfWorkerId r \<noteq> w) (configRows (snd (recordCredentialKey fpk w pem now c))) =
      filter (\<lambda>r. cfWorkerId r \<noteq> w) (configRows c)" for fpk pem now c
  proof -
    have "filter (\<lambda>r. cfWorkerId r \<noteq> w) (map (\<lambda>r. if cfWorkerId r = w \<and> cfAuthMode r = SqlAuth
        then r\<lparr>cfStatus := CfgAwaitingCredentials, cfStatusDetail := Some REKEYED, cfStatusAt := Some now\<rparr> else r)
        (configRows c)) = filter (\<lambda>r. cfWorkerId r \<noteq> w) (configRows c)"
      by (rule filter_map_cond) auto
    then show ?thesis by (simp add: recordCredentialKey_def Let_def split: option.split)
  qed
  obtain r c where r: "recordCredentialKey (heFingerprint env) w (heCredentialPublicKey hello) (hdNow d) (hubConfigs h) = (r, c)"
    by fastforce
  have c: "filter (\<lambda>r. cfWorkerId r \<noteq> w) (configRows c) = other_configs w h"
    using rows [of "heFingerprint env" "heCredentialPublicKey hello" "hdNow d" "hubConfigs h"] r by (simp add: other_configs_def)
  show "hubIngest (publish_key env d hello w host addr h) = hubIngest h"
    by (simp add: publish_key_def r Let_def split: sum.split prod.split)
  show "other_configs w (publish_key env d hello w host addr h) = other_configs w h"
    using c by (simp add: publish_key_def r Let_def split: sum.split prod.split) (simp add: other_configs_def)
qed

lemma register_session_simps [simp]:
  "hsWorkerId (fst (register_session live (s, h))) = hsWorkerId s"
  "hsAuth (fst (register_session live (s, h))) = hsAuth s"
  "hsInstanceIds (fst (register_session live (s, h))) = hsInstanceIds s"
  "hubIngest (snd (register_session live (s, h))) = hubIngest h"
  "other_configs w (snd (register_session live (s, h))) = other_configs w h"
  by (simp_all add: register_session_def Let_def split: prod.split)

text \<open>The part of \<^const>\<open>handle_hello\<close> after the version gate and the capabilities are known.\<close>

definition accept_hello ::
  "hub_env \<Rightarrow> hub_draws \<Rightarrow> hello_message \<Rightarrow> string \<Rightarrow> string \<Rightarrow> capability list \<Rightarrow> hub_session \<times> hub \<Rightarrow> hub_session \<times> hub" where
  "accept_hello env d hello w host eff sh =
     (let (s, h) = sh; caps = map cap_name eff;
          (s, h) = register_session \<lparr> sessionNo = hdSessionNo d, liveWorkerId = w, liveHostName = host,
             instanceIds = hsInstanceIds s, connectedAt = hdNow d \<rparr> (s, h);
          h = hub_audit (hdSecond d) (connected_entry s hello w host caps) h;
          s = hub_send (HelloAck w caps) s;
          s = (case pushInstanceConfigs (registryS (hubPipe h)) w (hubConfigs h) of
                 None \<Rightarrow> s | Some (no, cs) \<Rightarrow> hub_send (InstanceConfigs cs) s);
          h = publish WorkerEvent h
      in (s, h\<lparr>hubPipe := snd (dispatchPendingFor (heSigner env) (hdNow d) w (hubPipe h))\<rparr>))"

lemma accept_hello_confined:
  assumes "session_ok w (s, h)" shows "confined w (s, h) (accept_hello env d hello w host eff (s, h))"
proof -
  let ?live = "\<lparr> sessionNo = hdSessionNo d, liveWorkerId = w, liveHostName = host,
             instanceIds = hsInstanceIds s, connectedAt = hdNow d \<rparr>"
  obtain s1 h1 where 1: "register_session ?live (s, h) = (s1, h1)" by fastforce
  have k: "hsWorkerId s1 = hsWorkerId s" "hsAuth s1 = hsAuth s" "hsInstanceIds s1 = hsInstanceIds s"
    "hubIngest h1 = hubIngest h" "other_configs w h1 = other_configs w h"
    using register_session_simps(1-4) [of ?live s h] register_session_simps(5) [of w ?live s h] 1 by simp_all
  have w: "hsWorkerId s = w" using assms by (simp add: session_ok_def)
  show ?thesis
    unfolding accept_hello_def by (simp add: 1 Let_def, intro confined_same [OF assms])
      (simp_all add: k w split: option.split prod.split)
qed

lemma handle_hello_confined:
  assumes "session_ok w (s, h)" shows "confined w (s, h) (handle_hello env d hello (s, h))"
proof -
  have w: "hsWorkerId s = w" "awWorkerId (hsAuth s) = w" using assms by (simp_all add: session_ok_def)
  note refl = confined_refl [OF assms]
  obtain r ing where r: "recordWorkerHello w (heWorkerVersion hello) (heMaxCapability hello) (Some (hsRemoteAddress s))
      (hdNow d) (hubIngest h) = (r, ing)" by fastforce
  have ing: "ing = (hubIngest h)\<lparr>workerT := workerT ing\<rparr>"
    using r by (auto simp: recordWorkerHello_def split: option.splits)
  show ?thesis
  proof (cases r)
    case None
    have "confined w (s, h) (s, set_ingest ing h)" by (subst ing, rule confined_workers [OF assms]) (simp_all add: w)
    moreover have "confined w (s, h) (s\<lparr>hsEnded := True\<rparr>, hub_audit ce e h)" for ce e
      by (rule confined_same [OF assms]) (simp_all add: w)
    ultimately show ?thesis using r None by (simp add: handle_hello_def w Let_def)
  next
    case (Some x)
    obtain host granted where x: "x = (w, host, granted)"
      using r Some by (auto simp: recordWorkerHello_def split: option.splits dest: find_SomeD)
    let ?s1 = "s\<lparr>hsWorkerId := w, hsHostName := host\<rparr>"
    define h1 where "h1 = publish_key env d hello w host (hsRemoteAddress s) (set_ingest ing h)"
    have "confined w (s, h) (?s1, set_ingest ing h)" by (subst ing, rule confined_workers [OF assms]) (simp_all add: w)
    moreover from this have "session_ok w (?s1, set_ingest ing h)" by (simp add: confined_def)
    then have "confined w (?s1, set_ingest ing h) (?s1, h1)"
      by (rule confined_same) (simp_all add: h1_def publish_key_confined)
    ultimately have c1: "confined w (s, h) (?s1, h1)" by (rule confined_trans)
    then have "session_ok w (?s1, h1)" by (simp add: confined_def)
    note c2 = confined_trans [OF c1 declare_confined [OF this, of d "heInstances hello"]]
    obtain s2 h2 where 2: "declare_instances d w (heInstances hello) (?s1, h1) = (s2, h2)" by fastforce
    have ok: "session_ok w (s2, h2)" using c2 by (simp add: confined_def 2)
    have acc: "confined w (s, h) (accept_hello env d hello w host eff (s2, h2))" for eff
      by (rule confined_trans [OF c2 [unfolded 2] accept_hello_confined [OF ok]])
    have rej: "confined w (s, h) (s\<lparr>hsEnded := True\<rparr>, hub_audit ce e h)" for ce e
      by (rule confined_same [OF assms]) (simp_all add: w)
    show ?thesis
      using acc c2 rej r Some unfolding handle_hello_def accept_hello_def
      by (simp add: w x Let_def 2 h1_def [symmetric] split: option.split)
  qed
qed

lemma handle_message_confined:
  assumes "session_ok w sh" shows "confined w sh (handle_message env d m sh)"
proof -
  obtain s h where sh: "sh = (s, h)" by fastforce
  note ok = assms [unfolded sh]
  show ?thesis
  proof (cases m)
    case (MsgSnapshot c)
    show ?thesis
      using confined_refl [OF ok] handleSnapshotChunk_confined [OF ok] by (simp add: sh MsgSnapshot split: option.split)
  qed (simp_all add: sh handle_hello_confined [OF ok] handle_definition_confined [OF ok] handle_history_confined [OF ok]
      handle_activity_confined [OF ok] handle_agent_log_confined [OF ok] handle_heartbeat_confined [OF ok]
      handle_config_status_confined [OF ok] renewal_confined [OF ok] handle_command_result_confined [OF ok])
qed

lemma session_run_confined: "session_ok w sh \<Longrightarrow> confined w sh (session_run env ms sh)"
proof (induction ms arbitrary: sh)
  case (Cons dm ms)
  have c: "confined w sh (handle_message env (fst dm) (snd dm) sh)" by (rule handle_message_confined [OF Cons.prems])
  then have "session_ok w (handle_message env (fst dm) (snd dm) sh)" by (simp add: confined_def)
  from confined_trans [OF c Cons.IH [OF this]] show ?case by (simp add: session_run_def case_prod_unfold)
qed (simp add: session_run_def confined_refl)

section \<open>A chunked snapshot is committed once and mirrored exactly\<close>

text \<open>The hash a job is shown with, when it exists.\<close>

definition live_hash :: "string \<Rightarrow> version_store \<Rightarrow> string \<Rightarrow> string option" where
  "live_hash i vs u = (case find_job i u vs of
     None \<Rightarrow> None | Some j \<Rightarrow> if deletedAt j = None then currentDefinitionHash j else None)"

definition blob_hashes :: "hub_env \<Rightarrow> job_blob list \<Rightarrow> (string \<times> string) list" where
  "blob_hashes env bs = map (\<lambda>b. (blobUuid b, sha256 (heSigner env) (blobJson b))) bs"

lemma find_job_update:
  assumes "\<And>j. jInstanceId (f j) = jInstanceId j \<and> jJobUuid (f j) = jJobUuid j"
  shows "find_job i u (update_jobs P f st) = map_option (\<lambda>j. if P j then f j else j) (find_job i u st)"
proof -
  have "find (is_job i u) (map (\<lambda>j. if P j then f j else j) xs) =
      map_option (\<lambda>j. if P j then f j else j) (find (is_job i u) xs)" for xs
    using assms by (induction xs) (auto simp: is_job_def)
  then show ?thesis by (simp add: find_job_def update_jobs_def)
qed

lemma find_append: "find P (xs @ ys) = (case find P xs of None \<Rightarrow> find P ys | Some x \<Rightarrow> Some x)"
  by (induction xs) auto

lemma live_hash_record:
  assumes "heParse env (blobJson b) \<noteq> None"
  shows "\<exists>r vs'. record_blob env now i og cmd who b vs = (Some r, vs') \<and>
     live_hash i vs' = (live_hash i vs)(blobUuid b \<mapsto> sha256 (heSigner env) (blobJson b))"
proof -
  obtain d where d: "heParse env (blobJson b) = Some d" using assms by auto
  let ?u = "blobUuid b"
  define inp where "inp = \<lparr> viInstanceId = i, viJobUuid = ?u, viCanonicalJson = blobJson b,
      viDefinitionHash = sha256 (heSigner env) (blobJson b), viOrigin = og, viCommandId = cmd, viCreatedBy = who,
      viDetectedAt = now \<rparr>"
  have inp: "viInstanceId inp = i" "viJobUuid inp = ?u" "viDefinitionHash inp = sha256 (heSigner env) (blobJson b)"
    "viCanonicalJson inp = blobJson b" by (simp_all add: inp_def)
  have e: "record_blob env now i og cmd who b vs = recordJobVersion (heParse env) inp vs"
    by (simp add: record_blob_def verifyBlobHash_def inp_def)
  have rows: "find_job k v (vs\<lparr>versionRows := x\<rparr>) = find_job k v vs" for k v x by (simp add: find_job_def)
  have ours: "find_job i v vs = Some j \<Longrightarrow> is_job i ?u j \<longleftrightarrow> v = ?u" for j v
    by (auto simp: is_job_def dest: find_job_SomeD)
  show ?thesis
  proof (cases "find_job i ?u vs")
    case None
    have "find_job i v (vs\<lparr>versionRows := x, jobRows := jobRows vs @ [job_columns d inp 1 False (new_job inp)]\<rparr>) =
        (if v = ?u then Some (job_columns d inp 1 False (new_job inp)) else find_job i v vs)" for v x
      using None by (auto simp: find_job_def find_append is_job_def job_columns_def new_job_def inp split: option.split)
    then show ?thesis using None
      by (auto simp: e recordJobVersion_def inp d Let_def live_hash_def fun_eq_iff job_columns_def)
  next
    case (Some j)
    show ?thesis
    proof (cases "currentDefinitionHash j = Some (sha256 (heSigner env) (blobJson b))")
      case True
      have cleared: "find_job i v (update_jobs (is_job i ?u) (\<lambda>j. j\<lparr>deletedAt := None, updatedAt := t\<rparr>) vs) =
          map_option (\<lambda>j. if is_job i ?u j then j\<lparr>deletedAt := None, updatedAt := t\<rparr> else j) (find_job i v vs)" for v t
        by (rule find_job_update) simp
      show ?thesis using Some True
        by (auto simp: e recordJobVersion_def inp d Let_def live_hash_def fun_eq_iff cleared ours split: option.split)
    next
      case False
      have upd: "find_job i v (update_jobs (is_job i ?u) (job_columns d inp n dr) (vs\<lparr>versionRows := x\<rparr>)) =
          map_option (\<lambda>j. if is_job i ?u j then job_columns d inp n dr j else j) (find_job i v vs)" for v n dr x
        by (subst find_job_update) (simp_all add: job_columns_def rows)
      show ?thesis using Some False
        by (auto simp: e recordJobVersion_def inp d Let_def live_hash_def fun_eq_iff upd ours job_columns_def split: option.split)
    qed
  qed
qed

lemma live_hash_blobs:
  assumes "\<forall>b \<in> set bs. heParse env (blobJson b) \<noteq> None"
  shows "\<exists>vs'. record_blobs env now i bs vs = (True, vs') \<and>
     live_hash i vs' = live_hash i vs ++ map_of (rev (blob_hashes env bs))"
  using assms
proof (induction bs arbitrary: vs)
  case (Cons b bs)
  then have "heParse env (blobJson b) \<noteq> None" by simp
  from live_hash_record [OF this, of now i Local None None vs] obtain r vs1
    where 1: "record_blob env now i Local None None b vs = (Some r, vs1)"
      "live_hash i vs1 = (live_hash i vs)(blobUuid b \<mapsto> sha256 (heSigner env) (blobJson b))" by blast
  from Cons.IH [of vs1] Cons.prems obtain vs2 where "record_blobs env now i bs vs1 = (True, vs2)"
      "live_hash i vs2 = live_hash i vs1 ++ map_of (rev (blob_hashes env bs))" by auto
  with 1 show ?case by (simp add: blob_hashes_def map_add_upd_left map_add_assoc map_add_upd)
qed (simp add: blob_hashes_def)

lemma live_hash_commit:
  assumes "\<forall>b \<in> set bs. heParse env (blobJson b) \<noteq> None"
  shows "live_hash i (commit_snapshot env now i bs vs) = map_of (rev (blob_hashes env bs))"
proof
  fix u
  obtain vs' where vs': "record_blobs env now i bs vs = (True, vs')"
      "live_hash i vs' = live_hash i vs ++ map_of (rev (blob_hashes env bs))"
    using live_hash_blobs [OF assms] by blast
  let ?miss = "missing_job i (map blobUuid bs)"
  have c: "commit_snapshot env now i bs vs = update_jobs ?miss (\<lambda>j. j\<lparr>deletedAt := Some now, updatedAt := now\<rparr>) vs'"
    by (simp add: commit_snapshot_def vs' markJobsMissingFromSnapshot_def)
  have f: "find_job i u (commit_snapshot env now i bs vs) =
      map_option (\<lambda>j. if ?miss j then j\<lparr>deletedAt := Some now, updatedAt := now\<rparr> else j) (find_job i u vs')"
    unfolding c by (rule find_job_update) simp
  have dom: "u \<in> blobUuid ` set bs \<longleftrightarrow> map_of (rev (blob_hashes env bs)) u \<noteq> None"
    by (auto simp: map_of_eq_None_iff blob_hashes_def image_iff)
  have h: "(live_hash i vs ++ map_of (rev (blob_hashes env bs))) u = live_hash i vs' u" using vs'(2) by simp
  show "live_hash i (commit_snapshot env now i bs vs) u = map_of (rev (blob_hashes env bs)) u"
  proof (cases "u \<in> blobUuid ` set bs")
    case True
    then have "\<not> ?miss j" if "jJobUuid j = u" for j using that by (auto simp: missing_job_def)
    then have "live_hash i (commit_snapshot env now i bs vs) u = live_hash i vs' u"
      unfolding live_hash_def f by (auto split: option.split dest: find_job_SomeD)
    with h True dom show ?thesis by (auto simp: map_add_def)
  next
    case False
    then have "?miss j \<longleftrightarrow> deletedAt j = None" if "jJobUuid j = u" "jInstanceId j = i" for j
      using that by (auto simp: missing_job_def)
    then have "live_hash i (commit_snapshot env now i bs vs) u = None"
      unfolding live_hash_def f by (auto split: option.split dest: find_job_SomeD)
    with False dom show ?thesis by simp
  qed
qed

text \<open>Chunks before the last one only accumulate.\<close>

lemma map_of_swept:
  "map_of xs k = None \<Longrightarrow> map_of (sweepAbandonedSnapshots now xs) k = None"
  "map_of xs k = Some acc \<Longrightarrow> psStartedAt acc > now - SNAPSHOT_ABANDON_MS \<Longrightarrow>
     map_of (sweepAbandonedSnapshots now xs) k = Some acc"
  by (induction xs) (auto simp: sweepAbandonedSnapshots_def split: if_splits)

definition started :: "int \<Rightarrow> string \<Rightarrow> pending_snapshot option \<Rightarrow> pending_snapshot" where
  "started now inst p = (case p of None \<Rightarrow> \<lparr> psInstanceName = inst, psJobs = [], psStartedAt = now \<rparr> | Some acc \<Rightarrow> acc)"

definition fresh_at :: "int \<Rightarrow> pending_snapshot option \<Rightarrow> bool" where
  "fresh_at now p \<longleftrightarrow> (case p of None \<Rightarrow> True | Some acc \<Rightarrow> now < psStartedAt acc + SNAPSHOT_ABANDON_MS)"

lemma swept_fresh:
  "fresh_at now (map_of xs k) \<Longrightarrow> map_of (sweepAbandonedSnapshots now xs) k = map_of xs k"
  by (cases "map_of xs k") (simp_all add: fresh_at_def map_of_swept)

lemma chunk_more:
  assumes "scMoreChunks c" and "fresh_at now (map_of (hsPending s) (snapshot_key c))"
  shows "\<exists>p. handleSnapshotChunk env now iid c (s, h) = (s\<lparr>hsPending := p\<rparr>, h) \<and>
     map_of p (snapshot_key c) = Some ((started now (scInstanceName c) (map_of (hsPending s) (snapshot_key c)))
       \<lparr>psJobs := psJobs (started now (scInstanceName c) (map_of (hsPending s) (snapshot_key c))) @ scJobs c\<rparr>)"
proof -
  let ?acc = "started now (scInstanceName c) (map_of (hsPending s) (snapshot_key c))"
  have "handleSnapshotChunk env now iid c (s, h) = (s\<lparr>hsPending := AList.update (snapshot_key c)
      (?acc\<lparr>psJobs := psJobs ?acc @ scJobs c\<rparr>) (sweepAbandonedSnapshots now (hsPending s))\<rparr>, h)"
    using assms by (simp add: handleSnapshotChunk_def Let_def swept_fresh started_def)
  then show ?thesis by (intro exI conjI, assumption) (simp add: AList.update_conv)
qed

lemma chunk_last:
  assumes "\<not> scMoreChunks c" and "fresh_at now (map_of (hsPending s) (snapshot_key c))"
  shows "\<exists>p. handleSnapshotChunk env now iid c (s, h) = (s\<lparr>hsPending := p\<rparr>, set_jobs (commit_snapshot env now iid
     (psJobs (started now (scInstanceName c) (map_of (hsPending s) (snapshot_key c))) @ scJobs c) (jobsT (hubIngest h))) h)"
  using assms
  by (intro exI [of _ "AList.delete (snapshot_key c) (sweepAbandonedSnapshots now (hsPending s))"])
    (simp add: handleSnapshotChunk_def Let_def swept_fresh started_def)

definition chunk_of :: "string \<Rightarrow> string \<Rightarrow> snapshot_chunk \<Rightarrow> bool" where
  "chunk_of inst sid c \<longleftrightarrow> scInstanceName c = inst \<and> scSnapshotId c = sid"

lemma chunk_key: "chunk_of inst sid c \<Longrightarrow> snapshot_key c = inst @ CHR '':'' # sid"
  by (simp add: chunk_of_def snapshot_key_def)

lemma feed_more:
  assumes "\<forall>c \<in> set cs. scMoreChunks c \<and> chunk_of inst sid c" and "length ds = length cs"
    and "map_of (hsInstanceIds s) inst = Some iid" and "\<forall>d \<in> set ds. hdNow d < psStartedAt acc + SNAPSHOT_ABANDON_MS"
    and "map_of (hsPending s) (inst @ CHR '':'' # sid) = Some acc"
  shows "\<exists>p. session_run env (zip ds (map MsgSnapshot cs)) (s, h) = (s\<lparr>hsPending := p\<rparr>, h) \<and>
     map_of p (inst @ CHR '':'' # sid) = Some (acc\<lparr>psJobs := psJobs acc @ concat (map scJobs cs)\<rparr>)"
  using assms
proof (induction cs arbitrary: ds s acc)
  case Nil
  then show ?case by (intro exI [of _ "hsPending s"]) (simp add: session_run_def)
next
  case (Cons c cs)
  from Cons.prems(2) obtain d ds' where ds: "ds = d # ds'" by (cases ds) auto
  from Cons.prems(1) have c: "scMoreChunks c" "scInstanceName c = inst" "snapshot_key c = inst @ CHR '':'' # sid"
    by (auto simp: chunk_key) (simp add: chunk_of_def)
  let ?acc = "acc\<lparr>psJobs := psJobs acc @ scJobs c\<rparr>"
  have "fresh_at (hdNow d) (map_of (hsPending s) (snapshot_key c))" using Cons.prems(4,5) by (simp add: c fresh_at_def ds)
  from chunk_more [OF c(1) this, of env iid h] obtain p where
    p: "handleSnapshotChunk env (hdNow d) iid c (s, h) = (s\<lparr>hsPending := p\<rparr>, h)"
      "map_of p (inst @ CHR '':'' # sid) = Some ?acc"
    using Cons.prems(5) by (auto simp: c started_def)
  from Cons.IH [of ds' "s\<lparr>hsPending := p\<rparr>" ?acc] Cons.prems p obtain q where
    "session_run env (zip ds' (map MsgSnapshot cs)) (s\<lparr>hsPending := p\<rparr>, h) = (s\<lparr>hsPending := p\<rparr>\<lparr>hsPending := q\<rparr>, h)"
      "map_of q (inst @ CHR '':'' # sid) = Some (?acc\<lparr>psJobs := psJobs ?acc @ concat (map scJobs cs)\<rparr>)"
    by (auto simp: ds)
  then show ?case using p Cons.prems(3) by (intro exI [of _ q]) (simp add: ds session_run_def c)
qed

lemma feed_prefix:
  assumes "\<forall>c \<in> set cs. scMoreChunks c \<and> chunk_of inst sid c" and "length ds = length cs"
    and "map_of (hsInstanceIds s) inst = Some iid" and "\<forall>d \<in> set ds. hdNow d < hdNow (hd ds) + SNAPSHOT_ABANDON_MS"
    and "map_of (hsPending s) (inst @ CHR '':'' # sid) = None"
  shows "\<exists>p. session_run env (zip ds (map MsgSnapshot cs)) (s, h) = (s\<lparr>hsPending := p\<rparr>, h) \<and>
     map_of p (inst @ CHR '':'' # sid) = (if cs = [] then None else
       Some \<lparr> psInstanceName = inst, psJobs = concat (map scJobs cs), psStartedAt = hdNow (hd ds) \<rparr>)"
proof (cases cs)
  case Nil
  with assms show ?thesis by (intro exI [of _ "hsPending s"]) (simp add: session_run_def)
next
  case (Cons c cs')
  from assms(2) Cons obtain d ds' where ds: "ds = d # ds'" by (cases ds) auto
  from assms(1) Cons have c: "scMoreChunks c" "scInstanceName c = inst" "snapshot_key c = inst @ CHR '':'' # sid"
    by (auto simp: chunk_key) (simp add: chunk_of_def)
  let ?acc = "\<lparr> psInstanceName = inst, psJobs = scJobs c, psStartedAt = hdNow d \<rparr>"
  have "fresh_at (hdNow d) (map_of (hsPending s) (snapshot_key c))" using assms(5) by (simp add: c fresh_at_def)
  from chunk_more [OF c(1) this, of env iid h] obtain p where
    p: "handleSnapshotChunk env (hdNow d) iid c (s, h) = (s\<lparr>hsPending := p\<rparr>, h)"
      "map_of p (inst @ CHR '':'' # sid) = Some ?acc"
    using assms(5) by (auto simp: c started_def)
  from feed_more [of cs' inst sid ds' "s\<lparr>hsPending := p\<rparr>" iid ?acc env h] assms p obtain q where
    "session_run env (zip ds' (map MsgSnapshot cs')) (s\<lparr>hsPending := p\<rparr>, h) = (s\<lparr>hsPending := p\<rparr>\<lparr>hsPending := q\<rparr>, h)"
      "map_of q (inst @ CHR '':'' # sid) = Some (?acc\<lparr>psJobs := psJobs ?acc @ concat (map scJobs cs')\<rparr>)"
    by (auto simp: ds Cons)
  then show ?thesis using p assms(3) by (intro exI [of _ q]) (simp add: ds Cons session_run_def c)
qed

definition snapshot_messages ::
  "hub_draws list \<Rightarrow> string \<Rightarrow> string \<Rightarrow> job_blob list \<Rightarrow> (hub_draws \<times> worker_message) list" where
  "snapshot_messages ds sid inst blobs = zip ds (map MsgSnapshot (snapshot_chunks sid inst blobs))"

lemma session_run_append: "session_run env (ms @ ns) sh = session_run env ns (session_run env ms sh)"
  by (simp add: session_run_def)

lemma chunks_split:
  obtains cs c where "snapshot_chunks sid inst blobs = cs @ [c]" and "\<forall>x \<in> set cs. scMoreChunks x \<and> chunk_of inst sid x"
    and "\<not> scMoreChunks c" and "chunk_of inst sid c" and "concat (map scJobs cs) @ scJobs c = blobs"
proof -
  note spec = snapshot_chunks_spec [of sid inst blobs]
  then obtain cs c where s: "snapshot_chunks sid inst blobs = cs @ [c]"
    by (cases "snapshot_chunks sid inst blobs" rule: rev_cases) auto
  from spec [unfolded s] show ?thesis by (intro that [OF s]) (auto simp: chunk_of_def)
qed

lemma snapshot_prefix:
  assumes "map_of (hsInstanceIds s) inst = Some iid" and "map_of (hsPending s) (inst @ CHR '':'' # sid) = None"
    and "length ds = length cs" and "\<forall>d \<in> set ds. hdNow d < hdNow (hd ds) + SNAPSHOT_ABANDON_MS"
    and "\<forall>x \<in> set cs. scMoreChunks x \<and> chunk_of inst sid x"
  shows "snd (session_run env (take k (zip ds (map MsgSnapshot cs))) (s, h)) = h"
proof -
  have "hd (take k ds) = hd ds" if "take k ds \<noteq> []" using that by (cases k; cases ds) auto
  then have t: "\<forall>d \<in> set (take k ds). hdNow d < hdNow (hd (take k ds)) + SNAPSHOT_ABANDON_MS"
    using assms(4) by (cases "take k ds = []") (auto dest: in_set_takeD)
  have "\<exists>p. session_run env (zip (take k ds) (map MsgSnapshot (take k cs))) (s, h) = (s\<lparr>hsPending := p\<rparr>, h)"
    using feed_prefix [of "take k cs" inst sid "take k ds" s iid env h] assms(1-3,5) t
    by (auto dest: in_set_takeD)
  then show ?thesis by (auto simp: take_zip take_map)
qed

lemma snapshot_whole:
  assumes "map_of (hsInstanceIds s) inst = Some iid" and "map_of (hsPending s) (inst @ CHR '':'' # sid) = None"
    and "length ds = length (snapshot_chunks sid inst blobs)"
    and "\<forall>d \<in> set ds. hdNow d < hdNow (hd ds) + SNAPSHOT_ABANDON_MS"
  shows "snd (session_run env (snapshot_messages ds sid inst blobs) (s, h)) =
     set_jobs (commit_snapshot env (hdNow (last ds)) iid blobs (jobsT (hubIngest h))) h"
proof -
  obtain cs c where c: "snapshot_chunks sid inst blobs = cs @ [c]" "\<forall>x \<in> set cs. scMoreChunks x \<and> chunk_of inst sid x"
    "\<not> scMoreChunks c" "chunk_of inst sid c" "concat (map scJobs cs) @ scJobs c = blobs" by (rule chunks_split)
  obtain ds' d where ds: "ds = ds' @ [d]" using assms(3) c(1) by (cases ds rule: rev_cases) auto
  have len: "length ds' = length cs" using assms(3) by (simp add: c(1) ds)
  have t: "\<forall>d \<in> set ds'. hdNow d < hdNow (hd ds') + SNAPSHOT_ABANDON_MS"
    using assms(4) by (cases ds') (auto simp: ds)
  let ?key = "inst @ CHR '':'' # sid"
  obtain p where p: "session_run env (zip ds' (map MsgSnapshot cs)) (s, h) = (s\<lparr>hsPending := p\<rparr>, h)"
      "map_of p ?key = (if cs = [] then None else
         Some \<lparr> psInstanceName = inst, psJobs = concat (map scJobs cs), psStartedAt = hdNow (hd ds') \<rparr>)"
    using feed_prefix [OF c(2) len assms(1) t assms(2), of env h] by blast
  have st: "psJobs (started (hdNow d) (scInstanceName c) (map_of p ?key)) = concat (map scJobs cs)"
    by (simp add: p(2) started_def)
  have fr: "fresh_at (hdNow d) (map_of p ?key)"
    using assms(4) len by (cases ds') (auto simp: p(2) fresh_at_def ds)
  have k: "snapshot_key c = ?key" "scInstanceName c = inst" using c(4) by (simp_all add: chunk_key chunk_of_def)
  from chunk_last [OF c(3), of "hdNow d" "s\<lparr>hsPending := p\<rparr>" env iid h] fr st
  have "snd (handleSnapshotChunk env (hdNow d) iid c (s\<lparr>hsPending := p\<rparr>, h)) =
      set_jobs (commit_snapshot env (hdNow d) iid blobs (jobsT (hubIngest h))) h"
    by (auto simp: k c(5))
  then show ?thesis
    using assms(1) p(1) len
    by (simp add: snapshot_messages_def c(1) ds session_run_append) (simp add: session_run_def k)
qed

text \<open>
  C9. Snapshots mirror the instance. The chunks a worker cuts a snapshot into, received with nothing
  pending under its key and within the abandonment window, change nothing before the last one; with
  the last one, the jobs shown for the instance are exactly the blobs sent, each with the hash
  recomputed from its text, and every other job of that instance is soft-deleted. No other instance
  changes.
\<close>

theorem snapshot_mirrors:
  assumes "map_of (hsInstanceIds s) inst = Some iid" and "map_of (hsPending s) (inst @ CHR '':'' # sid) = None"
    and "length ds = length (snapshot_chunks sid inst blobs)"
    and "\<forall>d \<in> set ds. hdNow d < hdNow (hd ds) + SNAPSHOT_ABANDON_MS"
    and "\<forall>b \<in> set blobs. heParse env (blobJson b) \<noteq> None"
  shows "(\<forall>k < length ds. snd (session_run env (take k (snapshot_messages ds sid inst blobs)) (s, h)) = h) \<and>
     live_hash iid (jobsT (hubIngest (snd (session_run env (snapshot_messages ds sid inst blobs) (s, h))))) =
       map_of (rev (blob_hashes env blobs)) \<and>
     (\<forall>k. k \<noteq> iid \<longrightarrow> instance_data k (hubIngest (snd (session_run env (snapshot_messages ds sid inst blobs) (s, h)))) =
       instance_data k (hubIngest h))"
proof -
  obtain cs c where c: "snapshot_chunks sid inst blobs = cs @ [c]" "\<forall>x \<in> set cs. scMoreChunks x \<and> chunk_of inst sid x"
    by (rule chunks_split)
  obtain ds' d where ds: "ds = ds' @ [d]" using assms(3) c(1) by (cases ds rule: rev_cases) auto
  have len: "length ds' = length cs" using assms(3) by (simp add: c(1) ds)
  have t: "\<forall>d \<in> set ds'. hdNow d < hdNow (hd ds') + SNAPSHOT_ABANDON_MS"
    using assms(4) by (cases ds') (auto simp: ds)
  have "snd (session_run env (take k (snapshot_messages ds sid inst blobs)) (s, h)) = h" if "k < length ds" for k
    using snapshot_prefix [OF assms(1,2) len t c(2), of env k h] that
    by (simp add: snapshot_messages_def c(1) ds len)
  then show ?thesis
    using live_hash_commit [OF assms(5), of iid "hdNow (last ds)"] touches_commit [of iid "hubIngest h" env "hdNow (last ds)" blobs]
    by (simp add: snapshot_whole [OF assms(1-4)] touches_def)
qed

text \<open>
  C8. A session is confined to its worker. Whatever an authenticated stream sends, in whatever order,
  the jobs, versions, history, activity and agent log of an instance that is not its worker's stay as
  they were, and so do the instance configurations of other workers.
\<close>

theorem session_confined:
  assumes "open_session env d addr call h = (Some s, h')"
    and "i \<notin> own_ids (awWorkerId (hsAuth s)) (hubIngest (snd (session_run env ms (s, h'))))"
  shows "instance_data i (hubIngest (snd (session_run env ms (s, h')))) = instance_data i (hubIngest h) \<and>
     other_configs (awWorkerId (hsAuth s)) (snd (session_run env ms (s, h'))) =
       other_configs (awWorkerId (hsAuth s)) h"
proof -
  let ?w = "awWorkerId (hsAuth s)"
  have "hsWorkerId s = ?w" "hsInstanceIds s = []" "hubIngest h' = hubIngest h" "hubConfigs h' = hubConfigs h"
    using assms(1) by (auto simp: open_session_def Let_def split: prod.splits sum.splits worker_auth_error.splits)
  then have "session_ok ?w (s, h')" "other_configs ?w h' = other_configs ?w h"
    by (simp_all add: session_ok_def other_configs_def)
  with session_run_confined [of ?w "(s, h')" env ms] assms(2) \<open>hubIngest h' = hubIngest h\<close>
  show ?thesis by (simp add: confined_def)
qed

section \<open>Concrete sessions\<close>

definition demo_hub_env :: hub_env where
  "demo_hub_env = \<lparr> heSigner = \<lparr> sha256 = (\<lambda>s. s), rsaSign = (\<lambda>k b. []), signingPrivateKeyPem = ''key'' \<rparr>,
     heRegexp = (\<lambda>p. None), heParse = (\<lambda>s. Some example_job), heFingerprint = Some, heIdentityEnv = WorkerIdentity.demo_env,
     heIdentityConfig = WorkerIdentity.demo_config, heMinimumWorkerVersion = None, heDetailText = (\<lambda>e. []),
     heErrorText = (\<lambda>c. c) \<rparr>"

definition demo_draws :: "int \<Rightarrow> hub_draws" where
  "demo_draws now = \<lparr> hdNow = now, hdFirst = example_call ''1'', hdSecond = example_call ''2'',
     hdInstanceId = (\<lambda>n. ''i9''), hdCredentialId = ''c'', hdSessionNo = 1 \<rparr>"

definition demo_row :: "string \<Rightarrow> string \<Rightarrow> job_row" where
  "demo_row i u = (new_job \<lparr> viInstanceId = i, viJobUuid = u, viCanonicalJson = [], viDefinitionHash = [],
     viOrigin = Local, viCommandId = None, viCreatedBy = None, viDetectedAt = 0 \<rparr>)\<lparr>currentDefinitionHash := Some ''h''\<rparr>"

definition demo_instance :: "string \<Rightarrow> string \<Rightarrow> string \<Rightarrow> job_write_mode instance_status" where
  "demo_instance i w n = \<lparr> isId = i, isWorkerId = w, isName = n, isServerName = None, isSqlVersion = None,
     isSqlEdition = None, isAgentStatus = ''running'', isJobWriteMode = None, isLastSeenAt = 0 \<rparr>"

definition demo_hub :: "job_row list \<Rightarrow> job_write_mode instance_status list \<Rightarrow> hub" where
  "demo_hub js is = \<lparr> hubPipe = example_estate,
     hubIngest = example_ingest\<lparr>jobsT := \<lparr> jobRows = js, versionRows = [] \<rparr>, instanceT := is\<rparr>,
     hubIdentity = demo_identities, hubConfigs = \<lparr> keyedWorkers = [], configRows = [], mirrored = [] \<rparr>,
     hubLogScrub = (\<lambda>w. None), hubHistoryScrub = (\<lambda>w. None), hubEvents = [], hubAlerts = [] \<rparr>"

definition demo_live :: "nat \<Rightarrow> live_worker" where
  "demo_live n = \<lparr> sessionNo = n, liveWorkerId = ''w'', liveHostName = ''sql01'', instanceIds = [], connectedAt = 0 \<rparr>"

definition demo_stream :: hub_session where
  "demo_stream = \<lparr> hsAuth = \<lparr> awWorkerId = ''w'', awHostName = ''sql01'', awCredentialId = ''a'', awMode = MtlsMode \<rparr>,
     hsRemoteAddress = ''peer'', hsWorkerId = ''w'', hsHostName = ''sql01'', hsInstanceIds = [(''db1'', ''i1'')],
     hsPending = [], hsLive = None, hsSent = [], hsEnded = False \<rparr>"

definition demo_blob :: "string \<Rightarrow> string \<Rightarrow> job_blob" where
  "demo_blob u j = \<lparr> blobUuid = u, blobJson = j, blobHash = ''claimed'', blobModified = (0, 0) \<rparr>"

lemmas demo_hub_defs = demo_hub_env_def demo_draws_def demo_row_def demo_instance_def demo_hub_def demo_live_def
  demo_stream_def demo_blob_def example_ingest_def new_job_def

text \<open>A snapshot with one job replaces the two jobs known before; the hash is the one of its text.\<close>

lemma demo_chunks: "length (snapshot_chunks ''s1'' ''db1'' [demo_blob ''b'' ''text'']) = 1"
  by code_simp

theorem snapshot_mirrors_witness:
  "live_hash ''i1'' (jobsT (hubIngest (snd (session_run demo_hub_env
      (snapshot_messages [demo_draws 5] ''s1'' ''db1'' [demo_blob ''b'' ''text''])
      (demo_stream, demo_hub [demo_row ''i1'' ''a'', demo_row ''i1'' ''b''] [demo_instance ''i1'' ''w'' ''db1'']))))) =
     [''b'' \<mapsto> ''text'']"
proof -
  have "map_of (hsInstanceIds demo_stream) ''db1'' = Some ''i1''"
    "map_of (hsPending demo_stream) (''db1'' @ CHR '':'' # ''s1'') = None"
    "\<forall>d \<in> set [demo_draws 5]. hdNow d < hdNow (hd [demo_draws 5]) + SNAPSHOT_ABANDON_MS"
    "\<forall>b \<in> set [demo_blob ''b'' ''text'']. heParse demo_hub_env (blobJson b) \<noteq> None"
    by (simp_all add: demo_hub_defs SNAPSHOT_ABANDON_MS_def)
  from snapshot_mirrors [OF this(1,2) _ this(3,4)] show ?thesis
    by (simp add: demo_chunks blob_hashes_def) (simp add: demo_hub_defs)
qed

text \<open>
  Two workers have an instance called \<open>db1\<close>. The one connected here declares its own and deletes a
  job on it; the other worker's job of the same uuid is untouched.
\<close>

definition demo_call :: worker_call where
  "demo_call = \<lparr> peerCertificate = Some ''a'', authorizationHeader = None, workerKeyHeader = None \<rparr>"

definition demo_messages :: "(hub_draws \<times> worker_message) list" where
  "demo_messages =
     [(demo_draws 11, MsgHeartbeat [\<lparr> infoName = ''db1'', infoServerName = [], infoSqlVersion = [], infoSqlEdition = [],
        infoAgentStatus = ''running'', infoWriteMode = None \<rparr>]),
      (demo_draws 12, MsgDefinition \<lparr> ddInstanceName = ''db1'', ddJob = Some (demo_blob ''u'' []), ddDeleted = True,
        ddAppliedCommandId = [] \<rparr>)]"

lemma demo_opened:
  "\<exists>st'. open_session demo_hub_env (demo_draws 10) ''peer'' demo_call h =
     (Some (demo_stream\<lparr>hsInstanceIds := []\<rparr>), h\<lparr>hubIdentity := st'\<rparr>)"
  if "hubIdentity h = demo_identities"
  using demo_session that by (auto simp: open_session_def demo_call_def demo_hub_defs)

lemma own_ids_list: "own_ids w ing = set (map isId (filter (\<lambda>x. isWorkerId x = w) (instanceT ing)))"
  by (simp add: own_ids_def)

lemma demo_own:
  assumes "hubIngest h = example_ingest\<lparr>jobsT := vs, instanceT := [demo_instance ''i2'' ''v'' ''db1'']\<rparr>"
  shows "own_ids ''w'' (hubIngest (snd (session_run demo_hub_env demo_messages
     (demo_stream\<lparr>hsInstanceIds := []\<rparr>, h)))) = {''i9''}"
  using assms
  by (simp add: session_run_def demo_messages_def handle_heartbeat_def declare_instances_def upsertInstances_def
      upsert_instance_def touchWorker_def handle_definition_def own_ids_list Let_def demo_hub_defs add_instances_def
      info_columns_def)

theorem session_confined_witness:
  "\<exists>s h'. open_session demo_hub_env (demo_draws 10) ''peer'' demo_call
       (demo_hub [demo_row ''i2'' ''u''] [demo_instance ''i2'' ''v'' ''db1'']) = (Some s, h') \<and>
     filter (\<lambda>j. jInstanceId j = ''i2'') (jobRows (jobsT (hubIngest (snd (session_run demo_hub_env demo_messages (s, h')))))) =
       [demo_row ''i2'' ''u'']"
proof -
  let ?h = "demo_hub [demo_row ''i2'' ''u''] [demo_instance ''i2'' ''v'' ''db1'']"
  let ?s = "demo_stream\<lparr>hsInstanceIds := []\<rparr>"
  obtain st' where o: "open_session demo_hub_env (demo_draws 10) ''peer'' demo_call ?h = (Some ?s, ?h\<lparr>hubIdentity := st'\<rparr>)"
    using demo_opened [of ?h] by (auto simp: demo_hub_def)
  have "own_ids ''w'' (hubIngest (snd (session_run demo_hub_env demo_messages (?s, ?h\<lparr>hubIdentity := st'\<rparr>)))) = {''i9''}"
    by (rule demo_own) (simp add: demo_hub_def)
  moreover have "awWorkerId (hsAuth ?s) = ''w''" by (simp add: demo_stream_def)
  ultimately have "instance_data ''i2'' (hubIngest (snd (session_run demo_hub_env demo_messages (?s, ?h\<lparr>hubIdentity := st'\<rparr>)))) =
      instance_data ''i2'' (hubIngest ?h)"
    using session_confined [OF o, of "''i2''" demo_messages] by simp
  with o show ?thesis by (auto simp: instance_data_def demo_hub_defs)
qed

section \<open>What the handlers leave open\<close>

text \<open>
  A snapshot that is still arriving when its window ends loses the chunks received so far, and its
  remaining chunks are then committed as if they were the whole of it: the jobs of the lost chunks
  are soft-deleted.
\<close>

lemma slow_snapshot_deletes:
  assumes "hsPending s = [(snapshot_key c, acc)]" and "psStartedAt acc + SNAPSHOT_ABANDON_MS \<le> now"
    and "\<not> scMoreChunks c" and "\<forall>b \<in> set (scJobs c). heParse env (blobJson b) \<noteq> None"
    and "u \<notin> blobUuid ` set (scJobs c)"
  shows "live_hash iid (jobsT (hubIngest (snd (handleSnapshotChunk env now iid c (s, h))))) u = None"
proof -
  have "sweepAbandonedSnapshots now (hsPending s) = []" using assms(1,2) by (simp add: sweepAbandonedSnapshots_def)
  then have "snd (handleSnapshotChunk env now iid c (s, h)) = set_jobs (commit_snapshot env now iid (scJobs c) (jobsT (hubIngest h))) h"
    using assms(3) by (simp add: handleSnapshotChunk_def Let_def)
  then show ?thesis using assms(5)
    by (simp add: live_hash_commit [OF assms(4)] map_of_eq_None_iff blob_hashes_def image_iff)
qed

text \<open>
  The end of a superseded stream writes the worker's row and an audit entry as if the worker had
  disconnected, although its newer session stays registered.
\<close>

lemma superseded_teardown_disconnects:
  assumes "hsLive s = Some old" and "registry_get (hsWorkerId s) (registryS (hubPipe h)) = Some new"
    and "sessionNo new \<noteq> sessionNo old" and "teardown d why (s, h) = (s', h')"
  shows "registry_get (hsWorkerId s) (registryS (hubPipe h')) = Some new \<and>
     (\<forall>x \<in> set (workerT (hubIngest h')). wsId x = hsWorkerId s \<longrightarrow> wsConnectedAt x = None)"
  using assms
  by (auto simp: teardown_def Let_def markWorkerDisconnected_def set_ingest_def mirror_tables_def publish_def
      hub_audit_def audit_write_def unregister_get)

text \<open>
  A definition delta that names any command id at all is recorded as a remote change, so no drift is
  flagged; the id is not compared with the commands of the worker, as it is for a command result.
\<close>

lemma claimed_command_hides_drift:
  assumes "map_of (hsInstanceIds s) (ddInstanceName delta) = Some iid" and "ddJob delta = Some b" and "\<not> ddDeleted delta"
    and "ddAppliedCommandId delta \<noteq> []" and "heParse env (blobJson b) \<noteq> None"
    and "find_job iid (blobUuid b) (jobsT (hubIngest h)) = Some j"
    and "currentDefinitionHash j \<noteq> Some (sha256 (heSigner env) (blobJson b))"
  shows "\<exists>j'. find_job iid (blobUuid b) (jobsT (hubIngest (snd (handle_definition env d delta (s, h))))) = Some j' \<and>
     \<not> isDrifted j' \<and> currentDefinitionHash j' = Some (sha256 (heSigner env) (blobJson b))"
proof -
  have rows: "find_job iid (blobUuid b) (vs\<lparr>versionRows := x\<rparr>) = find_job iid (blobUuid b) vs" for vs x
    by (simp add: find_job_def)
  have "is_job iid (blobUuid b) j" using find_job_SomeD [OF assms(6)] by (simp add: is_job_def)
  moreover have "find_job iid (blobUuid b) (update_jobs P (job_columns e inp n dr) (jobsT (hubIngest h)\<lparr>versionRows := x\<rparr>)) =
      map_option (\<lambda>j. if P j then job_columns e inp n dr j else j) (Some j)" for P e inp n dr x
    by (subst find_job_update) (simp_all add: job_columns_def rows assms(6))
  ultimately show ?thesis
    using assms by (auto simp: handle_definition_def record_blob_def verifyBlobHash_def recordJobVersion_def Let_def
        str_or_null_def job_columns_def)
qed

end
