(* ===== verification/Overview.thy ===== *)
theory Overview
  imports Complex_Main WorkerConfig JobFlow Ingest
begin

text \<open>
  The operations overview (\<open>packages/server/src/domain/overview.ts\<close>): what is running and for how long
  against its own history, recent failures, worker health, the estate-wide job list with its facets,
  and the grouping of jobs across instances. All of it reads the tables that ingestion, the version
  history and the instance configuration keep.

  A collation is a rank of names; the database's and the browser's \<open>localeCompare\<close> are parameters of
  this kind. Rows a query leaves in no particular order come in table order. Averages and ratios are
  exact rationals where the code has doubles.
\<close>

section \<open>Tables and joins\<close>

record estate_db =
  edIngest :: ingest_state
  edConfigs :: config_state

type_synonym collation = "string \<Rightarrow> rat"

definition attached :: "estate_db \<Rightarrow> string \<Rightarrow> bool" where
  "attached db i = (case find (\<lambda>m. miId m = i) (mirrored (edConfigs db)) of
     None \<Rightarrow> True | Some m \<Rightarrow> miDetachedAt m = None)"

record estate_row =
  erJob :: job_row
  erInstance :: "job_write_mode instance_status"
  erHostName :: string
  erTag :: "string option"
  erActivity :: "activity_row option"

definition row_of_job :: "estate_db \<Rightarrow> job_row \<Rightarrow> estate_row option" where
  "row_of_job db j =
     (case find (\<lambda>i. isId i = jInstanceId j) (instanceT (edIngest db)) of
        None \<Rightarrow> None
      | Some i \<Rightarrow>
          (case find (\<lambda>w. wsId w = isWorkerId i) (workerT (edIngest db)) of
             None \<Rightarrow> None
           | Some w \<Rightarrow> Some \<lparr> erJob = j, erInstance = i, erHostName = wsHostName w,
               erTag = (case find (\<lambda>c. cfWorkerId c = isWorkerId i \<and> cfInstanceName c = isName i)
                               (configRows (edConfigs db)) of
                          None \<Rightarrow> None | Some c \<Rightarrow> cfEnvironmentTag c),
               erActivity = activityT (edIngest db) (isId i, jJobUuid j) \<rparr>))"

text \<open>The live jobs of attached instances.\<close>

definition estate_rows :: "estate_db \<Rightarrow> estate_row list" where
  "estate_rows db = filter (\<lambda>r. deletedAt (erJob r) = None \<and> attached db (isId (erInstance r)))
     (List.map_filter (row_of_job db) (jobRows (jobsT (edIngest db))))"

definition er_key :: "estate_row \<Rightarrow> string \<times> string" where
  "er_key r = (isId (erInstance r), jJobUuid (erJob r))"

section \<open>Duration baselines\<close>

definition BASELINE_WINDOW_DAYS :: int where "BASELINE_WINDOW_DAYS = 30"
definition OVERRUN_RATIO :: rat where "OVERRUN_RATIO = 2"
definition OVERRUN_FLOOR_SECONDS :: rat where "OVERRUN_FLOOR_SECONDS = 60"
definition NO_BASELINE_ALERT_SECONDS :: int where "NO_BASELINE_ALERT_SECONDS = 60 * 60"

record duration_baseline =
  dbAverage :: "rat option"
  dbLast :: "int option"

definition baseline_of :: "int \<Rightarrow> history_row list \<Rightarrow> string \<times> string \<Rightarrow> duration_baseline option" where
  "baseline_of since hs k =
     (let runs = filter (\<lambda>r. (hInstanceId r, hJobUuid r) = k \<and> hStepId r = 0 \<and> hRunStatus r = RunSucceeded \<and>
             since \<le> hRunDatetime r) hs
      in case sort_key (\<lambda>r. - hRunDatetime r) runs of
           [] \<Rightarrow> None
         | r # _ \<Rightarrow> Some \<lparr>
             dbAverage = (if length runs < 3 then None
                else Some (of_int (sum_list (map hRunDurationSeconds runs)) / of_nat (length runs))),
             dbLast = Some (hRunDurationSeconds r) \<rparr>)"

definition durationBaselines ::
  "history_row list \<Rightarrow> (string \<times> string) list \<Rightarrow> int \<Rightarrow> ((string \<times> string) \<times> duration_baseline) list" where
  "durationBaselines hs keys now =
     (let since = now - BASELINE_WINDOW_DAYS * 24 * 60 * 60 * 1000
      in List.map_filter (\<lambda>k. map_option (Pair k) (baseline_of since hs k)) (remdups keys))"

section \<open>The step a running job is on\<close>

record step_progress =
  spStepId :: "int option"
  spStepName :: "string option"
  spStepNumber :: "int option"
  spStepCount :: int

text \<open>\<open>clock\<close> is the time read when no job of the set has a start time.\<close>

definition earliestStart :: "int \<Rightarrow> int option list \<Rightarrow> int" where
  "earliestStart clock starts =
     (case List.map_filter id starts of
        [] \<Rightarrow> clock - 60 * 60 * 1000
      | t # ts \<Rightarrow> foldl min t ts - 1000)"

definition current_definition :: "version_store \<Rightarrow> string \<times> string \<Rightarrow> job_definition option" where
  "current_definition vs k =
     (case find_job (fst k) (snd k) vs of
        None \<Rightarrow> None
      | Some j \<Rightarrow> map_option vDefinition (getJobVersion (fst k) (snd k) (currentVersionNo j) vs))"

definition completed_steps :: "int \<Rightarrow> history_row list \<Rightarrow> string \<times> string \<Rightarrow> int option \<Rightarrow> completed_step list" where
  "completed_steps since hs k start =
     map (\<lambda>h. \<lparr> doneStepId = hStepId h, runStatus = hRunStatus h \<rparr>)
       (filter (\<lambda>h. (hInstanceId h, hJobUuid h) = k \<and> (case start of None \<Rightarrow> False | Some t \<Rightarrow> t - 1000 \<le> hRunDatetime h))
         (sort_key hSqlInstanceId (filter (\<lambda>h. hStepId h \<noteq> 0 \<and> since \<le> hRunDatetime h) hs)))"

definition progress_of :: "job_definition \<Rightarrow> completed_step list \<Rightarrow> step_progress" where
  "progress_of d runs =
     (let k = inferRunningStep d runs; ordered = sort_key stepId (steps d);
          index = (case k of None \<Rightarrow> None | Some n \<Rightarrow> find_index (\<lambda>s. stepId s = n) ordered)
      in \<lparr> spStepId = k, spStepName = map_option (\<lambda>n. stepName (ordered ! n)) index,
           spStepNumber = map_option (\<lambda>n. int n + 1) index, spStepCount = int (length ordered) \<rparr>)"

definition runningStepProgress ::
  "int \<Rightarrow> ingest_state \<Rightarrow> ((string \<times> string) \<times> int option) list \<Rightarrow> string \<times> string \<Rightarrow> int option \<Rightarrow> step_progress option" where
  "runningStepProgress clock ing started k start =
     (case current_definition (jobsT ing) k of
        None \<Rightarrow> None
      | Some d \<Rightarrow> if steps d = [] then None
          else Some (progress_of d (completed_steps (earliestStart clock (map snd started)) (historyT ing) k start)))"

section \<open>Running jobs\<close>

record running_job =
  rjInstanceId :: string
  rjInstanceName :: string
  rjHostName :: string
  rjJobUuid :: string
  rjJobName :: string
  rjStepId :: "int option"
  rjStepName :: "string option"
  rjStepNumber :: "int option"
  rjStepCount :: "int option"
  rjStartedAt :: "int option"
  rjElapsed :: "int option"
  rjAverage :: "rat option"
  rjLastDuration :: "int option"
  rjOverrun :: "rat option"
  rjLong :: bool

text \<open>\<open>Math.max(0, Math.round(ms / 1000))\<close>.\<close>

definition elapsed_seconds :: "int \<Rightarrow> int \<Rightarrow> int" where
  "elapsed_seconds now start = max 0 ((now - start + 500) div 1000)"

definition judge_run :: "int option \<Rightarrow> rat option \<Rightarrow> rat option \<times> bool" where
  "judge_run elapsed average =
     (case elapsed of
        None \<Rightarrow> (None, False)
      | Some e \<Rightarrow>
          (case average of
             Some a \<Rightarrow>
               if 0 < a then (Some (of_int e / a), OVERRUN_RATIO \<le> of_int e / a \<and> OVERRUN_FLOOR_SECONDS \<le> of_int e - a)
               else (None, NO_BASELINE_ALERT_SECONDS \<le> e)
           | None \<Rightarrow> (None, NO_BASELINE_ALERT_SECONDS \<le> e)))"

definition running_view :: "int \<Rightarrow> duration_baseline option \<Rightarrow> step_progress option \<Rightarrow> estate_row \<Rightarrow> activity_row \<Rightarrow> running_job" where
  "running_view now baseline progress r act =
     (let elapsed = map_option (elapsed_seconds now) (actStartedAt act);
          average = (case baseline of None \<Rightarrow> None | Some b \<Rightarrow> dbAverage b);
          (overrun, long) = judge_run elapsed average
      in \<lparr> rjInstanceId = isId (erInstance r), rjInstanceName = isName (erInstance r), rjHostName = erHostName r,
           rjJobUuid = jJobUuid (erJob r), rjJobName = jName (erJob r),
           rjStepId = (case progress of None \<Rightarrow> actCurrentStepId act | Some p \<Rightarrow> spStepId p),
           rjStepName = (case progress of None \<Rightarrow> actCurrentStepName act | Some p \<Rightarrow> spStepName p),
           rjStepNumber = (case progress of None \<Rightarrow> None | Some p \<Rightarrow> spStepNumber p),
           rjStepCount = map_option spStepCount progress, rjStartedAt = actStartedAt act, rjElapsed = elapsed,
           rjAverage = average, rjLastDuration = (case baseline of None \<Rightarrow> None | Some b \<Rightarrow> dbLast b),
           rjOverrun = overrun, rjLong = long \<rparr>)"

text \<open>\<open>ORDER BY started_at ASC\<close>: rows without a start time come last.\<close>

definition start_rank :: "int option \<Rightarrow> int \<times> int" where
  "start_rank t = (case t of None \<Rightarrow> (1, 0) | Some t \<Rightarrow> (0, t))"

definition executing_rows :: "estate_db \<Rightarrow> (estate_row \<times> activity_row) list" where
  "executing_rows db = sort_key (\<lambda>(r, a). start_rank (actStartedAt a))
     (List.map_filter (\<lambda>r. case erActivity r of None \<Rightarrow> None
        | Some a \<Rightarrow> if actState a = ''executing'' then Some (r, a) else None) (estate_rows db))"

definition getRunningJobs :: "int \<Rightarrow> estate_db \<Rightarrow> int \<Rightarrow> running_job list" where
  "getRunningJobs clock db now =
     (let rows = executing_rows db; ing = edIngest db;
          keys = map (\<lambda>(r, a). er_key r) rows;
          baselines = durationBaselines (historyT ing) keys now;
          started = map (\<lambda>(r, a). (er_key r, actStartedAt a)) rows
      in map (\<lambda>(r, a). running_view now (map_of baselines (er_key r))
               (runningStepProgress clock ing started (er_key r) (actStartedAt a)) r a) rows)"

section \<open>Failures, workers and totals\<close>

record failed_run =
  frInstanceId :: string
  frInstanceName :: string
  frHostName :: string
  frJobUuid :: string
  frJobName :: string
  frRunDatetime :: int
  frRunDurationSeconds :: int
  frMessage :: "string option"
  frConsecutiveFailures :: nat

definition failure_streak :: "history_row list \<Rightarrow> string \<times> string \<Rightarrow> nat" where
  "failure_streak hs k =
     length (takeWhile (\<lambda>r. hRunStatus r = RunFailed)
       (take 50 (sort_key (\<lambda>r. (- hRunDatetime r, - hSqlInstanceId r))
         (filter (\<lambda>r. (hInstanceId r, hJobUuid r) = k \<and> hStepId r = 0) hs))))"

definition failureStreaks :: "history_row list \<Rightarrow> (string \<times> string) list \<Rightarrow> ((string \<times> string) \<times> nat) list" where
  "failureStreaks hs keys = map (\<lambda>k. (k, failure_streak hs k)) (remdups keys)"

definition failed_rows :: "estate_db \<Rightarrow> int \<Rightarrow> int \<Rightarrow> (history_row \<times> estate_row) list" where
  "failed_rows db since limit =
     take (nat (min limit 500)) (sort_key (\<lambda>(h, r). - hRunDatetime h)
       (concat (map (\<lambda>h. map (Pair h) (filter (\<lambda>r. er_key r = (hInstanceId h, hJobUuid h)) (estate_rows db)))
          (filter (\<lambda>h. hStepId h = 0 \<and> hRunStatus h = RunFailed \<and> since \<le> hRunDatetime h) (historyT (edIngest db))))))"

definition getRecentFailures :: "estate_db \<Rightarrow> int \<Rightarrow> int \<Rightarrow> failed_run list" where
  "getRecentFailures db since limit =
     (let rows = failed_rows db since limit;
          streaks = failureStreaks (historyT (edIngest db)) (map (\<lambda>(h, r). er_key r) rows)
      in map (\<lambda>(h, r). \<lparr> frInstanceId = isId (erInstance r), frInstanceName = isName (erInstance r),
           frHostName = erHostName r, frJobUuid = hJobUuid h, frJobName = jName (erJob r),
           frRunDatetime = hRunDatetime h, frRunDurationSeconds = hRunDurationSeconds h, frMessage = hMessage h,
           frConsecutiveFailures = (case map_of streaks (er_key r) of None \<Rightarrow> 1 | Some n \<Rightarrow> n) \<rparr>) rows)"

record worker_health =
  whWorkerId :: string
  whHostName :: string
  whVersion :: "string option"
  whOnline :: bool
  whLastSeenAt :: "int option"
  whInstanceCount :: nat
  whAgentsNotRunning :: nat

definition getWorkerHealth :: "collation \<Rightarrow> (string \<Rightarrow> bool) \<Rightarrow> estate_db \<Rightarrow> worker_health list" where
  "getWorkerHealth order online db =
     map (\<lambda>w. let is = filter (\<lambda>i. isWorkerId i = wsId w \<and> attached db (isId i)) (instanceT (edIngest db))
              in \<lparr> whWorkerId = wsId w, whHostName = wsHostName w, whVersion = wsVersion w, whOnline = online (wsId w),
                   whLastSeenAt = wsLastSeenAt w, whInstanceCount = length is,
                   whAgentsNotRunning = length (filter (\<lambda>i. isAgentStatus i \<noteq> ''running'') is) \<rparr>)
       (sort_key (\<lambda>w. order (wsHostName w)) (workerT (edIngest db)))"

record estate_totals =
  etInstances :: nat
  etJobs :: nat
  etJobsDisabled :: nat
  etRunningNow :: nat
  etLongRunning :: nat
  etFailedLast24h :: nat
  etWorkersOnline :: nat
  etWorkersOffline :: nat
  etAgentsStopped :: nat

text \<open>The counts a query of its own gives; the other four are filled in by \<open>getOverview\<close>.\<close>

definition getTotals :: "estate_db \<Rightarrow> int \<Rightarrow> estate_totals" where
  "getTotals db since24h =
     (let is = filter (\<lambda>i. attached db (isId i)) (instanceT (edIngest db));
          js = filter (\<lambda>j. deletedAt j = None \<and> (\<exists>i \<in> set is. isId i = jInstanceId j)) (jobRows (jobsT (edIngest db)))
      in \<lparr> etInstances = length is, etJobs = length js,
           etJobsDisabled = length (filter (\<lambda>j. \<not> jEnabled j) js), etRunningNow = 0, etLongRunning = 0,
           etFailedLast24h = length (filter (\<lambda>j. lastRunStatus j = Some RunFailed \<and>
              (case lastRunAt j of None \<Rightarrow> False | Some t \<Rightarrow> since24h \<le> t)) js),
           etWorkersOnline = 0, etWorkersOffline = 0,
           etAgentsStopped = length (filter (\<lambda>i. isAgentStatus i \<noteq> ''running'') is) \<rparr>)"

record overview =
  ovTotals :: estate_totals
  ovRunning :: "running_job list"
  ovFailures :: "failed_run list"
  ovWorkers :: "worker_health list"

definition getOverview ::
  "collation \<Rightarrow> int \<Rightarrow> (string \<Rightarrow> bool) \<Rightarrow> int option \<Rightarrow> int \<Rightarrow> estate_db \<Rightarrow> overview" where
  "getOverview order clock online failureLimit now db =
     (let since = now - 24 * 60 * 60 * 1000; running = getRunningJobs clock db now;
          ws = getWorkerHealth order online db;
          t = getTotals db since
      in \<lparr> ovTotals = t\<lparr>etRunningNow := length running, etLongRunning := length (filter rjLong running),
             etWorkersOnline := length (filter whOnline ws),
             etWorkersOffline := length (filter (\<lambda>w. \<not> whOnline w) ws)\<rparr>,
           ovRunning = running,
           ovFailures = getRecentFailures db since (case failureLimit of None \<Rightarrow> 50 | Some n \<Rightarrow> n),
           ovWorkers = ws \<rparr>)"

section \<open>Every job in the estate\<close>

datatype job_facet = FRunning | FLongRunning | FFailed | FSucceeded | FRetry | FCancelled | FNeverRun | FDisabled | FDrifted

definition JOB_FACETS :: "job_facet list" where
  "JOB_FACETS = [FRunning, FLongRunning, FFailed, FSucceeded, FRetry, FCancelled, FNeverRun, FDisabled, FDrifted]"

definition facetsOf :: "estate_row \<Rightarrow> running_job option \<Rightarrow> job_facet list" where
  "facetsOf r current = (let j = erJob r in
     (if (case erActivity r of None \<Rightarrow> False | Some a \<Rightarrow> actState a = ''executing'') then [FRunning] else []) @
     (if (case current of None \<Rightarrow> False | Some c \<Rightarrow> rjLong c) then [FLongRunning] else []) @
     (if lastRunStatus j = Some RunFailed then [FFailed] else []) @
     (if lastRunStatus j = Some RunSucceeded then [FSucceeded] else []) @
     (if lastRunStatus j = Some RunRetry then [FRetry] else []) @
     (if lastRunStatus j = Some RunCancelled then [FCancelled] else []) @
     (if lastRunAt j = None then [FNeverRun] else []) @
     (if \<not> jEnabled j then [FDisabled] else []) @
     (if isDrifted j then [FDrifted] else []))"

fun FACET_WEIGHT :: "job_facet \<Rightarrow> nat" where
  "FACET_WEIGHT FLongRunning = 0"
| "FACET_WEIGHT FFailed = 1"
| "FACET_WEIGHT FRunning = 2"
| "FACET_WEIGHT FRetry = 3"
| "FACET_WEIGHT FCancelled = 4"
| "FACET_WEIGHT FDrifted = 5"
| "FACET_WEIGHT FNeverRun = 6"
| "FACET_WEIGHT FDisabled = 7"
| "FACET_WEIGHT FSucceeded = 8"

record estate_job =
  ejRow :: estate_row
  ejElapsed :: "int option"
  ejAverage :: "rat option"
  ejFacets :: "job_facet list"

definition urgency :: "estate_job \<Rightarrow> nat" where
  "urgency j = (if ejFacets j = [] then 9 else Min (set (map FACET_WEIGHT (ejFacets j))))"

definition byUrgencyThenName :: "collation \<Rightarrow> estate_job \<Rightarrow> nat \<times> rat \<times> rat \<times> rat" where
  "byUrgencyThenName collate j = (let r = ejRow j in
     (urgency j, collate (jName (erJob r)), collate (erHostName r), collate (isName (erInstance r))))"

definition needle_of :: "string option \<Rightarrow> string" where
  "needle_of filter_text = (case filter_text of None \<Rightarrow> [] | Some t \<Rightarrow> to_lower (trim t))"

definition includes_lower :: "string \<Rightarrow> string \<Rightarrow> bool" where
  "includes_lower needle s = contains_text needle (to_lower s)"

definition text_match :: "string \<Rightarrow> estate_row \<Rightarrow> bool" where
  "text_match needle r \<longleftrightarrow> needle = [] \<or> includes_lower needle (jName (erJob r)) \<or> includes_lower needle (erHostName r) \<or>
     includes_lower needle (isName (erInstance r)) \<or>
     includes_lower needle (case jCategoryName (erJob r) of None \<Rightarrow> [] | Some c \<Rightarrow> c) \<or>
     includes_lower needle (case erTag r of None \<Rightarrow> [] | Some t \<Rightarrow> t)"

text \<open>\<open>ORDER BY\<close> job, host and instance name, then \<open>LIMIT\<close>.\<close>

definition scan_rows :: "collation \<Rightarrow> int \<Rightarrow> estate_db \<Rightarrow> estate_row list" where
  "scan_rows order limit db =
     take (nat limit) (sort_key (\<lambda>r. (order (jName (erJob r)), order (erHostName r), order (isName (erInstance r)))) (estate_rows db))"

text \<open>The limits are positive: the schemas of the routes see to it.\<close>

record estate_options =
  eoFacets :: "job_facet list"
  eoFilter :: "string option"
  eoLimit :: "int option"
  eoScanLimit :: "int option"

record estate_result =
  resJobs :: "estate_job list"
  resCounts :: "job_facet \<Rightarrow> nat"
  resTotal :: nat
  resMatched :: nat
  resReturned :: nat
  resTruncated :: bool

text \<open>The loop over the rows: the total, the counts and the matches so far.\<close>

definition scan_row ::
  "string \<Rightarrow> job_facet list \<Rightarrow> ((string \<times> string) \<times> running_job) list
     \<Rightarrow> nat \<times> (job_facet \<Rightarrow> nat) \<times> estate_job list \<Rightarrow> estate_row \<Rightarrow> nat \<times> (job_facet \<Rightarrow> nat) \<times> estate_job list" where
  "scan_row needle wanted live acc r =
     (let (total, counts, matched) = acc in
      if \<not> text_match needle r then acc
      else (let current = map_of live (er_key r); fs = facetsOf r current;
                counts = foldl (\<lambda>c f. c(f := c f + 1)) counts fs
            in if wanted \<noteq> [] \<and> \<not> list_ex (\<lambda>f. f \<in> set wanted) fs then (total + 1, counts, matched)
               else (total + 1, counts, matched @ [\<lparr> ejRow = r,
                 ejElapsed = (case current of None \<Rightarrow> None | Some c \<Rightarrow> rjElapsed c),
                 ejAverage = (case current of None \<Rightarrow> None | Some c \<Rightarrow> rjAverage c), ejFacets = fs \<rparr>])))"

definition scan_cap :: "int option \<Rightarrow> int" where
  "scan_cap n = min (case n of None \<Rightarrow> 20000 | Some n \<Rightarrow> n) 50000"

definition listEstateJobs :: "collation \<Rightarrow> collation \<Rightarrow> int \<Rightarrow> int \<Rightarrow> estate_options \<Rightarrow> estate_db \<Rightarrow> estate_result" where
  "listEstateJobs order collate clock now opt db =
     (let limit = min (case eoLimit opt of None \<Rightarrow> 500 | Some n \<Rightarrow> n) 5000;
          rows = scan_rows order (scan_cap (eoScanLimit opt)) db;
          live = map (\<lambda>r. ((rjInstanceId r, rjJobUuid r), r)) (getRunningJobs clock db now);
          (total, counts, matched) = foldl (scan_row (needle_of (eoFilter opt)) (eoFacets opt) live) (0, \<lambda>f. 0, []) rows
      in \<lparr> resJobs = take (nat limit) (sort_key (byUrgencyThenName collate) matched), resCounts = counts,
           resTotal = total, resMatched = length matched, resReturned = min (length matched) (nat limit),
           resTruncated = (scan_cap (eoScanLimit opt) \<le> int (length rows)) \<rparr>)"

section \<open>Jobs grouped across instances\<close>

datatype group_key = ByName | ByCategory | ByOwner | BySchedule | ByInstance

record group_member =
  gmRow :: estate_row
  gmScheduleSummary :: string
  gmRunning :: bool

record job_group =
  jgLabel :: string
  jgMembers :: "group_member list"
  jgTotal :: nat
  jgFailing :: nat
  jgRunning :: nat
  jgDisabled :: nat
  jgNeverRun :: nat

definition groupLabel :: "group_key \<Rightarrow> group_member \<Rightarrow> string" where
  "groupLabel key m = (let r = gmRow m in case key of
     ByName \<Rightarrow> jName (erJob r)
   | ByCategory \<Rightarrow> (case jCategoryName (erJob r) of None \<Rightarrow> ''Uncategorised'' | Some c \<Rightarrow> c)
   | ByOwner \<Rightarrow> (case jOwnerLoginName (erJob r) of None \<Rightarrow> ''Unknown owner'' | Some c \<Rightarrow> c)
   | BySchedule \<Rightarrow> gmScheduleSummary m
   | ByInstance \<Rightarrow> erHostName r @ CHR '' '' # CHR 0xB7 # CHR '' '' # isName (erInstance r))"

text \<open>\<open>sort()\<close> orders the texts by code unit.\<close>

definition scheduleSummary :: "version_store \<Rightarrow> string \<times> string \<Rightarrow> string option" where
  "scheduleSummary vs k =
     (case find_job (fst k) (snd k) vs of
        None \<Rightarrow> None
      | Some j \<Rightarrow> if deletedAt j \<noteq> None then None else
          (case current_definition vs k of
             None \<Rightarrow> None
           | Some d \<Rightarrow> if schedules d = [] then None
                       else Some (join '' + '' (sort_key id (map describeSchedule (schedules d))))))"

definition member_of :: "group_key \<Rightarrow> version_store \<Rightarrow> estate_row \<Rightarrow> group_member" where
  "member_of key vs r = \<lparr> gmRow = r,
     gmScheduleSummary = (case (if key = BySchedule then scheduleSummary vs (er_key r) else None) of
        None \<Rightarrow> ''Not scheduled'' | Some s \<Rightarrow> s),
     gmRunning = (case erActivity r of None \<Rightarrow> False | Some a \<Rightarrow> actState a = ''executing'') \<rparr>"

definition member_match :: "string \<Rightarrow> group_member \<Rightarrow> bool" where
  "member_match needle m \<longleftrightarrow> (let r = gmRow m in needle = [] \<or> includes_lower needle (jName (erJob r)) \<or>
     includes_lower needle (erHostName r) \<or> includes_lower needle (isName (erInstance r)))"

definition count_member :: "group_member \<Rightarrow> job_group \<Rightarrow> job_group" where
  "count_member m g = (let j = erJob (gmRow m) in g\<lparr>jgMembers := jgMembers g @ [m], jgTotal := jgTotal g + 1,
     jgFailing := jgFailing g + (if lastRunStatus j = Some RunFailed then 1 else 0),
     jgRunning := jgRunning g + (if gmRunning m then 1 else 0),
     jgDisabled := jgDisabled g + (if \<not> jEnabled j then 1 else 0),
     jgNeverRun := jgNeverRun g + (if lastRunAt j = None then 1 else 0)\<rparr>)"

definition add_member :: "group_key \<Rightarrow> (string \<times> job_group) list \<Rightarrow> group_member \<Rightarrow> (string \<times> job_group) list" where
  "add_member key gs m =
     (let label = groupLabel key m;
          g = (case map_of gs label of
                 None \<Rightarrow> \<lparr> jgLabel = label, jgMembers = [], jgTotal = 0, jgFailing = 0, jgRunning = 0, jgDisabled = 0,
                           jgNeverRun = 0 \<rparr>
               | Some g \<Rightarrow> g)
      in AList.update label (count_member m g) gs)"

definition group_rank :: "collation \<Rightarrow> job_group \<Rightarrow> int \<times> int \<times> rat" where
  "group_rank collate g = (- int (jgFailing g), - int (jgTotal g), collate (jgLabel g))"

definition groupJobs ::
  "collation \<Rightarrow> collation \<Rightarrow> group_key \<Rightarrow> string option \<Rightarrow> int option \<Rightarrow> estate_db \<Rightarrow> job_group list \<times> bool" where
  "groupJobs order collate key filter_text limit db =
     (let rows = scan_rows order (scan_cap limit) db; needle = needle_of filter_text;
          members = filter (member_match needle) (map (member_of key (jobsT (edIngest db))) rows);
          groups = foldl (add_member key) [] members
      in (sort_key (group_rank collate) (map snd groups), scan_cap limit \<le> int (length rows)))"

section \<open>The facet counts\<close>

lemma sorted_fst: "sorted ps \<Longrightarrow> sorted (map fst (ps :: ('a::linorder \<times> 'b::linorder) list))"
  by (induction ps) (auto simp: less_eq_prod_def)

lemma distinct_facetsOf: "distinct (facetsOf r c)"
  by (simp add: facetsOf_def Let_def)

lemma count_facets:
  "distinct fs \<Longrightarrow> foldl (\<lambda>c f. c(f := Suc (c f))) counts fs = (\<lambda>f. counts f + (if f \<in> set fs then 1 else 0))"
  by (induction fs arbitrary: counts) (auto simp: fun_eq_iff)

definition live_of :: "int \<Rightarrow> int \<Rightarrow> estate_db \<Rightarrow> ((string \<times> string) \<times> running_job) list" where
  "live_of clock now db = map (\<lambda>r. ((rjInstanceId r, rjJobUuid r), r)) (getRunningJobs clock db now)"

definition selected :: "job_facet list \<Rightarrow> ((string \<times> string) \<times> running_job) list \<Rightarrow> estate_row \<Rightarrow> bool" where
  "selected wanted live r \<longleftrightarrow> wanted = [] \<or> set (facetsOf r (map_of live (er_key r))) \<inter> set wanted \<noteq> {}"

definition job_of :: "((string \<times> string) \<times> running_job) list \<Rightarrow> estate_row \<Rightarrow> estate_job" where
  "job_of live r = (let current = map_of live (er_key r) in \<lparr> ejRow = r,
     ejElapsed = (case current of None \<Rightarrow> None | Some c \<Rightarrow> rjElapsed c),
     ejAverage = (case current of None \<Rightarrow> None | Some c \<Rightarrow> rjAverage c), ejFacets = facetsOf r current \<rparr>)"

lemma scan_rows_fold:
  "foldl (scan_row needle wanted live) (n, c, m) rows =
     (let ms = filter (text_match needle) rows
      in (n + length ms, \<lambda>f. c f + length (filter (\<lambda>r. f \<in> set (facetsOf r (map_of live (er_key r)))) ms),
          m @ map (job_of live) (filter (selected wanted live) ms)))"
proof (induction rows arbitrary: n c m)
  case Nil
  then show ?case by simp
next
  case (Cons r rows)
  let ?fs = "facetsOf r (map_of live (er_key r))"
  have sel: "(wanted \<noteq> [] \<and> \<not> list_ex (\<lambda>f. f \<in> set wanted) ?fs) \<longleftrightarrow> \<not> selected wanted live r"
    by (auto simp: selected_def list_ex_iff)
  have "scan_row needle wanted live (n, c, m) r =
      (if text_match needle r
       then (n + 1, \<lambda>f. c f + (if f \<in> set ?fs then 1 else 0), if selected wanted live r then m @ [job_of live r] else m)
       else (n, c, m))"
    by (simp add: scan_row_def Let_def count_facets distinct_facetsOf sel job_of_def)
  then show ?case by (simp add: Cons.IH Let_def fun_eq_iff)
qed

text \<open>
  C35. The estate list. Of the rows scanned, in their order and up to the scan limit, the text filter
  keeps some. The list reports how many they are and, for every facet, how many carry it, whatever
  facets are selected; the matches are those with a selected facet (all of them when none is selected),
  and their number is reported. The page is the first part of the matches sorted by urgency, then by
  name, host and instance: 500 of them or as many as asked for, at most 5000. The number shown is the
  length of the page, and the list says it is truncated exactly when the scan limit was reached.
\<close>

theorem estate_facets:
  "let res = listEstateJobs order collate clock now opt db;
       cap = min (case eoScanLimit opt of None \<Rightarrow> 20000 | Some n \<Rightarrow> n) 50000;
       limit = min (case eoLimit opt of None \<Rightarrow> 500 | Some n \<Rightarrow> n) 5000;
       live = live_of clock now db;
       kept = filter (text_match (needle_of (eoFilter opt))) (scan_rows order cap db);
       matches = filter (selected (eoFacets opt) live) kept
   in resTotal res = length kept \<and>
      resCounts res = (\<lambda>f. length (filter (\<lambda>r. f \<in> set (facetsOf r (map_of live (er_key r)))) kept)) \<and>
      resMatched res = length matches \<and>
      resJobs res = take (nat limit) (sort_key (byUrgencyThenName collate) (map (job_of live) matches)) \<and>
      sorted (map urgency (resJobs res)) \<and>
      resReturned res = length (resJobs res) \<and>
      resTruncated res = (cap \<le> int (length (scan_rows order cap db)))"
proof -
  let ?live = "live_of clock now db" and ?limit = "min (case eoLimit opt of None \<Rightarrow> 500 | Some n \<Rightarrow> n) 5000"
  let ?ms = "filter (text_match (needle_of (eoFilter opt))) (scan_rows order (scan_cap (eoScanLimit opt)) db)"
  let ?sel = "filter (selected (eoFacets opt) ?live) ?ms"
  let ?sorted = "sort_key (byUrgencyThenName collate) (map (job_of ?live) ?sel)"
  have r: "listEstateJobs order collate clock now opt db = \<lparr> resJobs = take (nat ?limit) ?sorted,
      resCounts = (\<lambda>f. length (filter (\<lambda>r. f \<in> set (facetsOf r (map_of ?live (er_key r)))) ?ms)),
      resTotal = length ?ms, resMatched = length ?sel, resReturned = min (length ?sel) (nat ?limit),
      resTruncated = (scan_cap (eoScanLimit opt) \<le> int (length (scan_rows order (scan_cap (eoScanLimit opt)) db))) \<rparr>"
    by (simp add: listEstateJobs_def live_of_def [symmetric] scan_rows_fold Let_def)
  have "sorted (map (byUrgencyThenName collate) ?sorted)" by simp
  then have "sorted (map fst (map (byUrgencyThenName collate) ?sorted))" by (rule sorted_fst)
  then have "sorted (map urgency ?sorted)" by (simp add: comp_def byUrgencyThenName_def Let_def)
  then have urg: "sorted (map urgency (take (nat ?limit) ?sorted))" by (simp add: take_map [symmetric] sorted_wrt_take)
  show ?thesis
    using urg unfolding Let_def r estate_result.simps scan_cap_def
    by (intro conjI) (simp_all only: refl, simp_all)
qed

section \<open>Groups partition the estate\<close>

text \<open>What a group holds when its members are given.\<close>

definition group_of :: "string \<Rightarrow> group_member list \<Rightarrow> job_group" where
  "group_of label ms = \<lparr> jgLabel = label, jgMembers = ms, jgTotal = length ms,
     jgFailing = length (filter (\<lambda>m. lastRunStatus (erJob (gmRow m)) = Some RunFailed) ms),
     jgRunning = length (filter gmRunning ms), jgDisabled = length (filter (\<lambda>m. \<not> jEnabled (erJob (gmRow m))) ms),
     jgNeverRun = length (filter (\<lambda>m. lastRunAt (erJob (gmRow m)) = None) ms) \<rparr>"

lemma count_member_group: "count_member m (group_of l ms) = group_of l (ms @ [m])"
  by (simp add: count_member_def group_of_def Let_def)

lemma add_member_map:
  "map_of (add_member key gs m) l =
     (if l = groupLabel key m then Some (count_member m (case map_of gs l of None \<Rightarrow> group_of l [] | Some g \<Rightarrow> g))
      else map_of gs l)"
  by (cases "map_of gs (groupLabel key m)") (simp_all add: add_member_def Let_def AList.update_conv' group_of_def)

lemma fold_groups:
  "map_of (foldl (add_member key) [] ms) l =
     (case filter (\<lambda>m. groupLabel key m = l) ms of [] \<Rightarrow> None | x # xs \<Rightarrow> Some (group_of l (x # xs)))"
proof (induction ms rule: rev_induct)
  case (snoc m ms)
  show ?case
  proof (cases "groupLabel key m = l")
    case True
    then show ?thesis
      by (cases "filter (\<lambda>m. groupLabel key m = l) ms") (simp_all add: add_member_map snoc count_member_group)
  qed (simp add: add_member_map snoc)
qed simp

lemma fold_groups_distinct: "distinct (map fst (foldl (add_member key) [] ms))"
proof (induction ms rule: rev_induct)
  case (snoc m ms)
  then show ?case by (simp add: add_member_def Let_def AList.distinct_update)
qed simp

lemma fold_groups_entry:
  assumes "(l, g) \<in> set (foldl (add_member key) [] ms)"
  shows "g = group_of l (filter (\<lambda>m. groupLabel key m = l) ms) \<and> filter (\<lambda>m. groupLabel key m = l) ms \<noteq> []"
proof -
  have "map_of (foldl (add_member key) [] ms) l = Some g"
    using assms by (simp add: map_of_eq_Some_iff fold_groups_distinct)
  then show ?thesis by (simp add: fold_groups split: list.splits)
qed

lemma fold_groups_labels: "set (map fst (foldl (add_member key) [] ms)) = groupLabel key ` set ms"
proof -
  have "l \<in> set (map fst (foldl (add_member key) [] ms)) \<longleftrightarrow> l \<in> groupLabel key ` set ms" for l
  proof -
    have "l \<in> set (map fst (foldl (add_member key) [] ms)) \<longleftrightarrow> map_of (foldl (add_member key) [] ms) l \<noteq> None"
      by (simp add: map_of_eq_None_iff)
    also have "\<dots> \<longleftrightarrow> filter (\<lambda>m. groupLabel key m = l) ms \<noteq> []" by (simp add: fold_groups split: list.split)
    also have "\<dots> \<longleftrightarrow> l \<in> groupLabel key ` set ms" by (auto simp: filter_empty_conv)
    finally show ?thesis .
  qed
  then show ?thesis by blast
qed

lemma mset_filter_labels:
  assumes "distinct ls" and "set (map f ms) \<subseteq> set ls"
  shows "mset (concat (map (\<lambda>l. filter (\<lambda>m. f m = l) ms) ls)) = mset ms"
  using assms
proof (induction ls arbitrary: ms)
  case (Cons l ls)
  let ?rest = "filter (\<lambda>m. f m \<noteq> l) ms"
  have same: "filter (\<lambda>m. f m = k) ms = filter (\<lambda>m. f m = k) ?rest" if "k \<in> set ls" for k
  proof -
    have "k \<noteq> l" using that Cons.prems(1) by auto
    then show ?thesis by (auto intro: filter_cong)
  qed
  have rest: "mset (concat (map (\<lambda>l. filter (\<lambda>m. f m = l) ?rest) ls)) = mset ?rest"
    using Cons.prems by (intro Cons.IH) auto
  have tail: "map (\<lambda>k. filter (\<lambda>m. f m = k) ms) ls = map (\<lambda>k. filter (\<lambda>m. f m = k) ?rest) ls" using same by auto
  have "mset ms = mset (filter (\<lambda>m. f m = l) ms) + mset ?rest" by (induction ms) auto
  then show ?case by (simp only: list.map concat.simps mset_append tail rest)
qed simp

lemma concat_sort_key: "mset (concat (map f (sort_key k xs))) = mset (concat (map f xs))"
proof -
  have "mset (concat (map f (insort_key k x ys))) = mset (f x) + mset (concat (map f ys))" for x ys
    by (induction ys) auto
  then show ?thesis by (induction xs) auto
qed

definition group_members :: "collation \<Rightarrow> group_key \<Rightarrow> string option \<Rightarrow> int option \<Rightarrow> estate_db \<Rightarrow> group_member list" where
  "group_members order key t limit db =
     filter (member_match (needle_of t)) (map (member_of key (jobsT (edIngest db))) (scan_rows order (scan_cap limit) db))"

text \<open>
  Groups partition the estate. The groups hold every row the scan read and the filter kept,
  exactly once; their labels are distinct; each holds precisely the rows with its label, is not empty
  and counts its total, failing, running, disabled and never-run members correctly; and groups with
  more failures come first.
\<close>

theorem groups_partition:
  "mset (concat (map jgMembers (fst (groupJobs order collate key t limit db)))) = mset (group_members order key t limit db) \<and>
   distinct (map jgLabel (fst (groupJobs order collate key t limit db))) \<and>
   list_all (\<lambda>g. jgMembers g \<noteq> [] \<and>
       g = group_of (jgLabel g) (filter (\<lambda>m. groupLabel key m = jgLabel g) (group_members order key t limit db)))
     (fst (groupJobs order collate key t limit db)) \<and>
   sorted (map (\<lambda>g. - int (jgFailing g)) (fst (groupJobs order collate key t limit db)))"
proof -
  let ?ms = "group_members order key t limit db"
  let ?gs = "foldl (add_member key) [] ?ms"
  have r: "fst (groupJobs order collate key t limit db) = sort_key (group_rank collate) (map snd ?gs)"
    by (simp add: groupJobs_def group_members_def Let_def)
  have entry: "snd lg = group_of (fst lg) (filter (\<lambda>m. groupLabel key m = fst lg) ?ms)"
      "filter (\<lambda>m. groupLabel key m = fst lg) ?ms \<noteq> []" if "lg \<in> set ?gs" for lg
    using fold_groups_entry [of "fst lg" "snd lg" key ?ms] that by simp_all
  have fields: "jgLabel (snd lg) = fst lg" "jgMembers (snd lg) = filter (\<lambda>m. groupLabel key m = fst lg) ?ms"
    if "lg \<in> set ?gs" for lg
    using entry(1) [OF that] by (simp_all add: group_of_def)
  have labels: "map jgLabel (map snd ?gs) = map fst ?gs" by (simp add: fields(1))
  have "mset (map jgLabel (sort_key (group_rank collate) (map snd ?gs))) = mset (map jgLabel (map snd ?gs))"
    by (simp only: mset_map mset_sort)
  then have "distinct (map jgLabel (sort_key (group_rank collate) (map snd ?gs)))"
    unfolding labels using fold_groups_distinct [of key ?ms] by (metis mset_eq_imp_distinct_iff)
  moreover have "mset (concat (map jgMembers (sort_key (group_rank collate) (map snd ?gs)))) = mset ?ms"
  proof -
    have "mset (concat (map jgMembers (sort_key (group_rank collate) (map snd ?gs)))) = mset (concat (map jgMembers (map snd ?gs)))"
      by (rule concat_sort_key)
    also have "map jgMembers (map snd ?gs) = map (\<lambda>l. filter (\<lambda>m. groupLabel key m = l) ?ms) (map fst ?gs)"
      by (simp add: fields(2))
    also have "mset (concat \<dots>) = mset ?ms"
      using fold_groups_distinct [of key ?ms] fold_groups_labels [of key ?ms] by (intro mset_filter_labels) auto
    finally show ?thesis .
  qed
  moreover have "sorted (map (\<lambda>g. - int (jgFailing g)) (sort_key (group_rank collate) (map snd ?gs)))"
    using sorted_fst [OF sorted_sort_key [of "group_rank collate" "map snd ?gs"]] by (simp add: comp_def group_rank_def)
  moreover have "list_all (\<lambda>g. jgMembers g \<noteq> [] \<and> g = group_of (jgLabel g) (filter (\<lambda>m. groupLabel key m = jgLabel g) ?ms))
      (sort_key (group_rank collate) (map snd ?gs))"
    by (simp only: list_all_iff set_sort set_map ball_simps) (use entry fields in force)
  ultimately show ?thesis unfolding r by blast
qed

section \<open>Readings of single jobs\<close>

lemma find_index_bound: "find_index P xs = Some n \<Longrightarrow> n < length xs"
  using find_index_Some_iff [of P xs n] by simp

text \<open>The step number shown is a position among the steps counted, and the name is that step's.\<close>

lemma progress_bounds:
  assumes "spStepNumber (progress_of d runs) = Some n"
  shows "1 \<le> n \<and> n \<le> spStepCount (progress_of d runs) \<and>
     (\<exists>s \<in> set (steps d). spStepId (progress_of d runs) = Some (stepId s) \<and> spStepName (progress_of d runs) = Some (stepName s))"
proof -
  let ?o = "sort_key stepId (steps d)"
  obtain k i where k: "inferRunningStep d runs = Some k" "find_index (\<lambda>s. stepId s = k) ?o = Some i" "n = int i + 1"
    using assms by (auto simp: progress_of_def Let_def split: option.splits)
  have i: "i < length ?o" "stepId (?o ! i) = k" using find_index_SomeD [OF k(2)] find_index_bound [OF k(2)] by auto
  then have "?o ! i \<in> set (steps d)" using nth_mem [OF i(1)] by simp
  with i k show ?thesis by (force simp: progress_of_def Let_def)
qed

text \<open>
  The failures list counts back from a job's latest run, not from the failure it stands beside: a
  failure the job has recovered from shows a streak of zero.
\<close>

lemma recovered_streak_zero:
  assumes "sort_key (\<lambda>r. (- hRunDatetime r, - hSqlInstanceId r))
      (filter (\<lambda>r. (hInstanceId r, hJobUuid r) = k \<and> hStepId r = 0) hs) = newest # older"
    and "hRunStatus newest = RunSucceeded"
  shows "failure_streak hs k = 0"
  unfolding failure_streak_def assms(1) using assms(2) by simp

end
