(* ===== verification/NotificationChannels.thy ===== *)
theory NotificationChannels
  imports Overview
begin

text \<open>
  Notification channels and rules (\<open>packages/server/src/domain/notifications/store.ts\<close>) and what decides
  a send (\<open>senders.ts\<close>): the settings schemas, the hosts a webhook may never reach, the outcome of a
  POST or a mail, the hint kept of a secret, and the tables' operations. The text of a message
  (\<open>render.ts\<close>) is not modelled.

  Parameters: \<open>new URL\<close> (\<^term>\<open>None\<close> is its throw) and what the network answers to one attempt. A
  throw of \<open>zod\<close> carries no text here. The ellipsis of a hint is written as three dots.
\<close>

section \<open>Channel settings\<close>

datatype channel_kind = Email | Slack | Teams | Webhook

fun channel_kind_name :: "channel_kind \<Rightarrow> string" where
  "channel_kind_name Email = ''email''"
| "channel_kind_name Slack = ''slack''"
| "channel_kind_name Teams = ''teams''"
| "channel_kind_name Webhook = ''webhook''"

record email_config =
  ecHost :: string
  ecPort :: int
  ecSecure :: bool
  ecUsername :: "string option"
  ecFrom :: string
  ecTo :: "string list"

text \<open>\<open>z.coerce.number()\<close>; an array is not a port here.\<close>

definition coerce_number :: "js_value \<Rightarrow> int option" where
  "coerce_number v = (case v of JsNum (Num n) \<Rightarrow> Some n | JsNum NegZero \<Rightarrow> Some 0 | JsStr s \<Rightarrow> Schedule.js_number s
     | JsBool b \<Rightarrow> Some (if b then 1 else 0) | JsNull \<Rightarrow> Some 0 | _ \<Rightarrow> None)"

definition text_value :: "js_value \<Rightarrow> string option" where
  "text_value v = (case v of JsStr s \<Rightarrow> if s = [] then None else Some s | _ \<Rightarrow> None)"

fun all_some :: "'a option list \<Rightarrow> 'a list option" where
  "all_some [] = Some []"
| "all_some (x # xs) = (case x of None \<Rightarrow> None | Some v \<Rightarrow> map_option (Cons v) (all_some xs))"

definition email_port :: "js_value \<Rightarrow> int option" where
  "email_port v = (if v = JsUndefined then Some 587
     else case coerce_number v of None \<Rightarrow> None | Some n \<Rightarrow> if 1 \<le> n \<and> n \<le> 65535 then Some n else None)"

definition email_recipients :: "js_value \<Rightarrow> string list option" where
  "email_recipients v = (case v of JsArr vs \<Rightarrow> if vs = [] then None else all_some (map text_value vs) | _ \<Rightarrow> None)"

definition emailConfigSchema :: "js_fields \<Rightarrow> email_config option" where
  "emailConfigSchema c =
     (case (text_value (field c ''host''), email_port (field c ''port''), text_value (field c ''from''),
            email_recipients (field c ''to'')) of
        (Some host, Some port, Some from, Some to) \<Rightarrow>
          (case (case field c ''secure'' of JsUndefined \<Rightarrow> Some False | JsBool b \<Rightarrow> Some b | _ \<Rightarrow> None) of
             None \<Rightarrow> None
           | Some secure \<Rightarrow>
               (case (case field c ''username'' of JsUndefined \<Rightarrow> Some None | JsStr s \<Rightarrow> Some (Some s) | _ \<Rightarrow> None) of
                  None \<Rightarrow> None
                | Some user \<Rightarrow> Some \<lparr> ecHost = host, ecPort = port, ecSecure = secure, ecUsername = user,
                    ecFrom = from, ecTo = to \<rparr>))
      | _ \<Rightarrow> None)"

definition header_of :: "string \<times> js_value \<Rightarrow> (string \<times> string) option" where
  "header_of kv = (case snd kv of JsStr s \<Rightarrow> Some (fst kv, s) | _ \<Rightarrow> None)"

definition webhookConfigSchema :: "js_fields \<Rightarrow> (string \<times> string) list option" where
  "webhookConfigSchema c = (case field c ''headers'' of JsUndefined \<Rightarrow> Some []
     | JsObj kvs \<Rightarrow> all_some (map header_of kvs) | _ \<Rightarrow> None)"

section \<open>Sending\<close>

record parsed_url =
  urlProtocol :: string
  urlHostname :: string
  urlHost :: string
  urlPathname :: string

type_synonym url_parser = "string \<Rightarrow> parsed_url option"

datatype send_failure = NotificationSendError string bool | ZodFailure

record channel_row =
  ncId :: string
  ncName :: string
  ncKind :: channel_kind
  ncConfig :: js_fields
  ncSecret :: "string option"
  ncSecretHint :: "string option"
  ncEnabled :: bool
  ncLastDeliveredAt :: "int option"
  ncLastError :: "string option"
  ncLastErrorAt :: "int option"
  ncCreatedBy :: "string option"

definition starts_with :: "string \<Rightarrow> string \<Rightarrow> bool" where
  "starts_with p s \<longleftrightarrow> take (length p) s = p"

text \<open>\<open>^\[?\<close>: an optional opening bracket before the prefix.\<close>

definition blocked_host :: "string \<Rightarrow> bool" where
  "blocked_host h \<longleftrightarrow>
     starts_with ''169.254.'' h \<or>
     starts_with ''::ffff:a9fe:'' h \<or> starts_with ''[::ffff:a9fe:'' h \<or>
     starts_with ''fe80:'' h \<or> starts_with ''[fe80:'' h \<or>
     h = ''metadata.google.internal'' \<or> h = ''metadata.goog''"

definition without_colon :: "string \<Rightarrow> string" where
  "without_colon s = takeWhile (\<lambda>c. c \<noteq> CHR '':'') s @ drop 1 (dropWhile (\<lambda>c. c \<noteq> CHR '':'') s)"

definition assertWebhookUrlAllowed :: "url_parser \<Rightarrow> string \<Rightarrow> string \<Rightarrow> send_failure + parsed_url" where
  "assertWebhookUrlAllowed parse raw label =
     (case parse raw of
        None \<Rightarrow> Inl (NotificationSendError (label @ '' webhook URL is not a valid URL.'') False)
      | Some url \<Rightarrow>
          if urlProtocol url \<noteq> ''http:'' \<and> urlProtocol url \<noteq> ''https:''
          then Inl (NotificationSendError (label @ '' webhook URL must be http or https, not '' @
                 without_colon (urlProtocol url) @ ''.'') False)
          else if blocked_host (to_lower (urlHostname url))
          then Inl (NotificationSendError (label @ '' webhook URL points at the link-local range, which is where cloud '' @
                 ''instance metadata lives. Refusing to send there.'') False)
          else Inr url)"

datatype post_reply = Reply int string | TimedOut | FetchFailed string

datatype smtp_reply = Accepted | Rejected string "int option"

record network =
  nwHttp :: "parsed_url \<Rightarrow> post_reply"
  nwSmtp :: "email_config \<Rightarrow> smtp_reply"

definition SEND_TIMEOUT_MS :: int where "SEND_TIMEOUT_MS = 15000"

definition postJson :: "url_parser \<Rightarrow> network \<Rightarrow> channel_row \<Rightarrow> string \<Rightarrow> send_failure + unit" where
  "postJson parse nw ch label =
     (case ncSecret ch of
        None \<Rightarrow> Inl (NotificationSendError (label @ '' channel '' @ CHR 0x22 # ncName ch @ CHR 0x22 # '' has no webhook URL.'') False)
      | Some raw \<Rightarrow>
          if raw = []
          then Inl (NotificationSendError (label @ '' channel '' @ CHR 0x22 # ncName ch @ CHR 0x22 # '' has no webhook URL.'') False)
          else case assertWebhookUrlAllowed parse raw label of
            Inl e \<Rightarrow> Inl e
          | Inr url \<Rightarrow>
              (case nwHttp nw url of
                 Reply st txt \<Rightarrow>
                   if 200 \<le> st \<and> st \<le> 299 then Inr ()
                   else Inl (NotificationSendError (label @ '' returned '' @ show_int st @ '' '' @ txt @ ''.'')
                          (500 \<le> st \<or> st = 408 \<or> st = 429))
               | TimedOut \<Rightarrow> Inl (NotificationSendError (label @ '' did not respond within '' @ show_int SEND_TIMEOUT_MS @ ''ms.'') True)
               | FetchFailed m \<Rightarrow> Inl (NotificationSendError (label @ '' delivery failed: '' @ m) True)))"

text \<open>Whether the connection must be upgraded before the password goes over it.\<close>

definition requireTLS :: "email_config \<Rightarrow> bool" where
  "requireTLS c \<longleftrightarrow> presented (ecUsername c) \<and> \<not> ecSecure c"

definition sendEmail :: "network \<Rightarrow> channel_row \<Rightarrow> send_failure + unit" where
  "sendEmail nw ch =
     (case emailConfigSchema (ncConfig ch) of
        None \<Rightarrow> Inl ZodFailure
      | Some c \<Rightarrow>
          (case nwSmtp nw c of
             Accepted \<Rightarrow> Inr ()
           | Rejected m code \<Rightarrow> Inl (NotificationSendError (''SMTP delivery to '' @ ecHost c @ '':'' @ show_int (ecPort c) @
                '' failed: '' @ m) (case code of None \<Rightarrow> True | Some n \<Rightarrow> n < 500))))"

definition sendNotification :: "url_parser \<Rightarrow> network \<Rightarrow> channel_row \<Rightarrow> send_failure + unit" where
  "sendNotification parse nw ch =
     (case ncKind ch of
        Email \<Rightarrow> sendEmail nw ch
      | Slack \<Rightarrow> postJson parse nw ch ''Slack''
      | Teams \<Rightarrow> postJson parse nw ch ''Teams''
      | Webhook \<Rightarrow> (case webhookConfigSchema (ncConfig ch) of
           None \<Rightarrow> Inl ZodFailure | Some hs \<Rightarrow> postJson parse nw ch ''Webhook''))"

definition send_retryable :: "send_failure \<Rightarrow> bool" where
  "send_retryable e = (case e of NotificationSendError m r \<Rightarrow> r | ZodFailure \<Rightarrow> True)"

definition send_text :: "send_failure \<Rightarrow> string" where
  "send_text e = (case e of NotificationSendError m r \<Rightarrow> m | ZodFailure \<Rightarrow> [])"

definition secretHint :: "url_parser \<Rightarrow> channel_kind \<Rightarrow> string \<Rightarrow> string" where
  "secretHint parse kind secret =
     (if kind = Email then show_nat (length secret) @ '' characters''
      else case parse secret of
        Some url \<Rightarrow> urlHost url @ ''/...'' @ take 6 (filter (\<lambda>c. c \<noteq> CHR ''/'') (urlPathname url))
      | None \<Rightarrow> take 4 secret @ ''...'')"

section \<open>Tables\<close>

datatype event_kind = JobFailed | JobSucceeded | JobRecovered | JobLongRunning | WorkerOffline | CommandFailed

record rule_row =
  nrId :: string
  nrName :: string
  nrEnabled :: bool
  nrEvents :: "event_kind list"
  nrInstanceIds :: "string list"
  nrJobNameContains :: "string option"
  nrChannelIds :: "string list"
  nrThrottleMinutes :: int
  nrCreatedBy :: "string option"

datatype payload_value = PStr string | PNum rat | PNull

record event_row =
  neId :: string
  neKind :: event_kind
  neDedupeKey :: string
  neInstanceId :: "string option"
  neWorkerId :: "string option"
  neJobUuid :: "string option"
  nePayload :: "(string \<times> payload_value) list"
  neOccurredAt :: int

datatype delivery_state = DPending | DSent | DFailed | DSuppressed

record delivery_row =
  dlEventId :: string
  dlRuleId :: "string option"
  dlChannelId :: string
  dlState :: delivery_state
  dlAttempts :: nat
  dlLastError :: "string option"
  dlNextAttemptAt :: int
  dlThrottleKey :: string
  dlSentAt :: "int option"
  dlCreatedAt :: int

record notification_db =
  nsChannels :: "channel_row list"
  nsRules :: "rule_row list"
  nsEvents :: "event_row list"
  nsDeliveries :: "delivery_row list"

section \<open>Channels and rules\<close>

record channel_input =
  ciId :: "string option"
  ciName :: string
  ciKind :: channel_kind
  ciConfig :: js_fields
  ciSecret :: "string option"
  ciEnabled :: bool
  ciActorId :: "string option"

definition channelInputSchema :: "channel_input \<Rightarrow> bool" where
  "channelInputSchema i \<longleftrightarrow> 1 \<le> length (ciName i) \<and> length (ciName i) \<le> 128 \<and>
     (case ciSecret i of None \<Rightarrow> True | Some s \<Rightarrow> length s \<le> 4096)"

record channel_view =
  cvId :: string
  cvName :: string
  cvKind :: channel_kind
  cvConfig :: js_fields
  cvHasSecret :: bool
  cvSecretHint :: "string option"
  cvEnabled :: bool
  cvLastDeliveredAt :: "int option"
  cvLastError :: "string option"
  cvLastErrorAt :: "int option"

definition view_of_channel :: "channel_row \<Rightarrow> channel_view" where
  "view_of_channel r = \<lparr> cvId = ncId r, cvName = ncName r, cvKind = ncKind r, cvConfig = ncConfig r,
     cvHasSecret = (ncSecret r \<noteq> None), cvSecretHint = ncSecretHint r, cvEnabled = ncEnabled r,
     cvLastDeliveredAt = ncLastDeliveredAt r, cvLastError = ncLastError r, cvLastErrorAt = ncLastErrorAt r \<rparr>"

definition listChannels :: "collation \<Rightarrow> notification_db \<Rightarrow> channel_view list" where
  "listChannels order db = map view_of_channel (sort_key (\<lambda>c. order (ncName c)) (nsChannels db))"

datatype channel_refusal = NotificationConfigError string | UrlRefused send_failure | NameTaken

text \<open>\<open>assertWebhookUrl\<close> on a secret that was given.\<close>

definition check_url :: "url_parser \<Rightarrow> string option \<Rightarrow> channel_refusal option" where
  "check_url parse secret =
     (if presented secret then (case assertWebhookUrlAllowed parse (the secret) ''That'' of
        Inl e \<Rightarrow> Some (UrlRefused e) | Inr url \<Rightarrow> None) else None)"

definition validateChannel :: "url_parser \<Rightarrow> channel_input \<Rightarrow> bool \<Rightarrow> channel_refusal option" where
  "validateChannel parse i hasStored =
     (case ciKind i of
        Email \<Rightarrow> if emailConfigSchema (ciConfig i) = None then Some (NotificationConfigError []) else None
      | Webhook \<Rightarrow>
          if \<not> presented (ciSecret i) \<and> \<not> hasStored
          then Some (NotificationConfigError ''A webhook channel needs a URL to POST to.'')
          else (case check_url parse (ciSecret i) of
             Some e \<Rightarrow> Some e
           | None \<Rightarrow> if webhookConfigSchema (ciConfig i) = None
                     then Some (NotificationConfigError ''Those headers are not valid.'') else None)
      | k \<Rightarrow>
          if \<not> presented (ciSecret i) \<and> \<not> hasStored
          then Some (NotificationConfigError (''A '' @ channel_kind_name k @ '' channel needs an incoming webhook URL.''))
          else check_url parse (ciSecret i))"

definition channel_values :: "url_parser \<Rightarrow> channel_input \<Rightarrow> channel_row \<Rightarrow> channel_row" where
  "channel_values parse i r =
     (let r = r\<lparr>ncName := ciName i, ncKind := ciKind i, ncConfig := ciConfig i, ncEnabled := ciEnabled i\<rparr>
      in if presented (ciSecret i)
         then r\<lparr>ncSecret := ciSecret i, ncSecretHint := Some (secretHint parse (ciKind i) (the (ciSecret i)))\<rparr> else r)"

definition new_channel :: "string \<Rightarrow> string option \<Rightarrow> channel_row" where
  "new_channel i who = \<lparr> ncId = i, ncName = [], ncKind = Email, ncConfig = [], ncSecret = None, ncSecretHint = None,
     ncEnabled = True, ncLastDeliveredAt = None, ncLastError = None, ncLastErrorAt = None, ncCreatedBy = who \<rparr>"

definition saveChannel ::
  "url_parser \<Rightarrow> string \<Rightarrow> channel_input \<Rightarrow> notification_db \<Rightarrow> (channel_refusal + channel_view) \<times> notification_db" where
  "saveChannel parse newId i db =
     (let existing = (if presented (ciId i) then find (\<lambda>c. ncId c = the (ciId i)) (nsChannels db) else None);
          stored = (case existing of None \<Rightarrow> False | Some c \<Rightarrow> ncSecret c \<noteq> None)
      in case validateChannel parse i stored of
           Some e \<Rightarrow> (Inl e, db)
         | None \<Rightarrow>
             (let row = channel_values parse i (case existing of None \<Rightarrow> new_channel newId (ciActorId i) | Some c \<Rightarrow> c)
              in if \<exists>c \<in> set (nsChannels db). ncName c = ciName i \<and> ncId c \<noteq> ncId row then (Inl NameTaken, db)
                 else (Inr (view_of_channel row),
                       db\<lparr>nsChannels := (if existing = None then nsChannels db @ [row]
                          else map (\<lambda>c. if ncId c = ncId row then row else c) (nsChannels db))\<rparr>)))"

text \<open>The deliveries of the channel go with it; rules that name it are left as they are.\<close>

definition deleteChannel :: "string \<Rightarrow> notification_db \<Rightarrow> notification_db" where
  "deleteChannel i db = db\<lparr>nsChannels := filter (\<lambda>c. ncId c \<noteq> i) (nsChannels db),
     nsDeliveries := filter (\<lambda>d. dlChannelId d \<noteq> i) (nsDeliveries db)\<rparr>"

definition listRules :: "collation \<Rightarrow> notification_db \<Rightarrow> rule_row list" where
  "listRules order db = sort_key (\<lambda>r. order (nrName r)) (nsRules db)"

definition ruleInputSchema :: "rule_row \<Rightarrow> bool" where
  "ruleInputSchema r \<longleftrightarrow> 1 \<le> length (nrName r) \<and> length (nrName r) \<le> 128 \<and> nrEvents r \<noteq> [] \<and> nrChannelIds r \<noteq> [] \<and>
     (case nrJobNameContains r of None \<Rightarrow> True | Some s \<Rightarrow> length s \<le> 128) \<and>
     0 \<le> nrThrottleMinutes r \<and> nrThrottleMinutes r \<le> 10080"

datatype rule_refusal = RuleSaveFailed | RuleNameTaken

text \<open>
  \<open>editing\<close> tells whether the input carried an id; its other fields are those of the row. An edit leaves
  the author as it was.
\<close>

definition saveRule :: "bool \<Rightarrow> rule_row \<Rightarrow> notification_db \<Rightarrow> (rule_refusal + rule_row) \<times> notification_db" where
  "saveRule editing r db =
     (case (if editing then find (\<lambda>x. nrId x = nrId r) (nsRules db) else Some r) of
        None \<Rightarrow> (Inl RuleSaveFailed, db)
      | Some old \<Rightarrow>
          if list_ex (\<lambda>x. nrName x = nrName r \<and> nrId x \<noteq> nrId r) (nsRules db) then (Inl RuleNameTaken, db)
          else (let r = r\<lparr>nrCreatedBy := nrCreatedBy old\<rparr>
                in (Inr r, db\<lparr>nsRules := (if editing then map (\<lambda>x. if nrId x = nrId r then r else x) (nsRules db)
                              else nsRules db @ [r])\<rparr>)))"

definition deleteRule :: "string \<Rightarrow> notification_db \<Rightarrow> notification_db" where
  "deleteRule i db = db\<lparr>nsRules := filter (\<lambda>r. nrId r \<noteq> i) (nsRules db),
     nsDeliveries := map (\<lambda>d. if dlRuleId d = Some i then d\<lparr>dlRuleId := None\<rparr> else d) (nsDeliveries db)\<rparr>"

definition listDeliveries :: "int \<Rightarrow> notification_db \<Rightarrow> (delivery_row \<times> channel_row \<times> event_row) list" where
  "listDeliveries limit db = take (nat (min limit 500)) (List.map_filter (\<lambda>d.
     case (find (\<lambda>c. ncId c = dlChannelId d) (nsChannels db), find (\<lambda>e. neId e = dlEventId d) (nsEvents db)) of
       (Some c, Some e) \<Rightarrow> Some (d, c, e) | _ \<Rightarrow> None) (sort_key (\<lambda>d. - dlCreatedAt d) (nsDeliveries db)))"

section \<open>What may be reached, and what is shown\<close>

text \<open>A failed check costs no request: whatever was sent over HTTP went to an allowed host.\<close>

lemma post_only_allowed:
  assumes "postJson parse nw ch label = Inr ()"
  shows "\<exists>raw url. ncSecret ch = Some raw \<and> parse raw = Some url \<and>
     (urlProtocol url = ''http:'' \<or> urlProtocol url = ''https:'') \<and> \<not> blocked_host (to_lower (urlHostname url))"
  using assms by (auto simp: postJson_def assertWebhookUrlAllowed_def split: option.splits if_splits)

text \<open>What the network would answer is irrelevant when the URL is refused.\<close>

lemma post_refused_sends_nothing:
  assumes "ncSecret ch = Some raw" and "assertWebhookUrlAllowed parse raw label = Inl e"
  shows "\<exists>f. \<forall>nw. postJson parse nw ch label = Inl f \<and> \<not> send_retryable f"
proof (cases "raw = []")
  case False
  have "\<not> send_retryable e"
    using assms(2) by (auto simp: assertWebhookUrlAllowed_def send_retryable_def split: option.splits if_splits)
  with assms False show ?thesis by (auto simp: postJson_def)
qed (use assms in \<open>auto simp: postJson_def send_retryable_def\<close>)

text \<open>The list of channels depends on a secret only through its presence and the stored hint.\<close>

lemma channels_hide_secrets:
  "listChannels order (db\<lparr>nsChannels := map (\<lambda>c. c\<lparr>ncSecret := map_option f (ncSecret c)\<rparr>) (nsChannels db)\<rparr>) =
   listChannels order db"
proof -
  have "sort_key (\<lambda>c. order (ncName c)) (map g cs) = map g (sort_key (\<lambda>c. order (ncName c)) cs)"
    if "\<And>c. ncName (g c) = ncName c" for g :: "channel_row \<Rightarrow> channel_row" and cs
  proof -
    have "insort_key (\<lambda>c. order (ncName c)) (g x) (map g ys) = map g (insort_key (\<lambda>c. order (ncName c)) x ys)" for x ys
      by (induction ys) (simp_all add: that)
    then show ?thesis by (induction cs) simp_all
  qed
  then show ?thesis by (simp add: listChannels_def view_of_channel_def)
qed

text \<open>
  Changing the kind of a mail channel to a webhook kind without giving a URL keeps the mail password
  as its webhook URL; it is not checked.
\<close>

lemma password_kept_as_url:
  assumes "find (\<lambda>c. ncId c = k) (nsChannels db) = Some c" and "k \<noteq> []" and "ncSecret c = Some pw"
    and "distinct (map ncName (nsChannels db))" and "distinct (map ncId (nsChannels db))"
    and "i = \<lparr> ciId = Some k, ciName = ncName c, ciKind = Slack, ciConfig = [], ciSecret = None,
               ciEnabled = True, ciActorId = None \<rparr>"
  shows "\<exists>v db'. saveChannel parse n i db = (Inr v, db') \<and>
     (\<exists>r \<in> set (nsChannels db'). ncId r = k \<and> ncKind r = Slack \<and> ncSecret r = Some pw)"
proof -
  have c: "c \<in> set (nsChannels db)" "ncId c = k" using assms(1) by (auto dest: find_SomeD)
  have "ncId x = k" if "x \<in> set (nsChannels db)" "ncName x = ncName c" for x
    using inj_onD [of ncName "set (nsChannels db)" x c] assms(4) c that by (simp add: distinct_map)
  then have "\<not> (\<exists>x \<in> set (nsChannels db). ncName x = ncName c \<and> ncId x \<noteq> k)" by blast
  then show ?thesis
    using c assms(1,2,3,6)
    by (auto simp: saveChannel_def validateChannel_def check_url_def presented_def channel_values_def Let_def
        intro!: bexI [of _ "c\<lparr>ncKind := Slack, ncConfig := [], ncEnabled := True\<rparr>"])
qed

end
