(* ===== verification/Notifications.thy ===== *)
theory Notifications
  imports NotificationChannels
begin

text \<open>
  The notification pipeline (\<open>packages/server/src/domain/notifications/service.ts\<close>): events recorded
  once, fanned out over the rules to one delivery per channel, delivered with backoff, and the
  detectors that raise them.

  A delivery row is addressed by its event and channel, which are unique together; ids of events are
  drawn as a function of the dedupe key. The instance and worker an event names are taken to exist:
  every detector read them from the tables. \<open>svSends\<close> is not in the code: it is the log of all
  attempts. Database failures are followed where the code catches them, in \<open>#deliver\<close>. Drains of one process do not overlap (\<open>#draining\<close>), so each is one step.
\<close>

section \<open>Recording an event\<close>

fun kind_text :: "event_kind \<Rightarrow> string" where
  "kind_text JobFailed = ''job.failed''"
| "kind_text JobSucceeded = ''job.succeeded''"
| "kind_text JobRecovered = ''job.recovered''"
| "kind_text JobLongRunning = ''job.long_running''"
| "kind_text WorkerOffline = ''worker.offline''"
| "kind_text CommandFailed = ''command.failed''"

record record_input =
  riKind :: event_kind
  riDedupeKey :: string
  riInstanceId :: "string option"
  riWorkerId :: "string option"
  riJobUuid :: "string option"
  riPayload :: "(string \<times> payload_value) list"
  riOccurredAt :: int

record note_draws =
  ndNow :: int
  ndEventId :: "string \<Rightarrow> string"

definition MAX_ATTEMPTS :: nat where "MAX_ATTEMPTS = 8"

definition throttleKey :: "record_input \<Rightarrow> string" where
  "throttleKey i = kind_text (riKind i) @ '':'' @
     (case riInstanceId i of Some x \<Rightarrow> x | None \<Rightarrow> (case riWorkerId i of Some x \<Rightarrow> x | None \<Rightarrow> ''estate'')) @ '':'' @
     (case riJobUuid i of None \<Rightarrow> [] | Some u \<Rightarrow> u)"

definition payload_job_name :: "record_input \<Rightarrow> string" where
  "payload_job_name i = (case map_of (riPayload i) ''jobName'' of Some (PStr s) \<Rightarrow> s | _ \<Rightarrow> [])"

definition rule_matches :: "record_input \<Rightarrow> rule_row \<Rightarrow> bool" where
  "rule_matches i r \<longleftrightarrow> nrEnabled r \<and> riKind i \<in> set (nrEvents r) \<and>
     (nrInstanceIds r = [] \<or> presented (riInstanceId i) \<and> the (riInstanceId i) \<in> set (nrInstanceIds r)) \<and>
     (\<not> presented (nrJobNameContains r) \<or>
        contains_text (to_lower (the (nrJobNameContains r))) (to_lower (payload_job_name i)))"

definition add_target ::
  "string \<Rightarrow> int \<Rightarrow> (string \<times> (string \<times> int)) list \<Rightarrow> string \<Rightarrow> (string \<times> (string \<times> int)) list" where
  "add_target rule minutes ts ch =
     (case map_of ts ch of
        None \<Rightarrow> AList.update ch (rule, minutes) ts
      | Some (r, m) \<Rightarrow> if minutes < m then AList.update ch (rule, minutes) ts else ts)"

definition fan_targets :: "record_input \<Rightarrow> rule_row list \<Rightarrow> (string \<times> (string \<times> int)) list" where
  "fan_targets i rules =
     foldl (\<lambda>ts r. foldl (add_target (nrId r) (nrThrottleMinutes r)) ts (nrChannelIds r)) []
       (filter (rule_matches i) rules)"

definition recentlySent :: "int \<Rightarrow> string \<Rightarrow> string \<Rightarrow> int \<Rightarrow> notification_db \<Rightarrow> bool" where
  "recentlySent now ch key minutes db =
     list_ex (\<lambda>d. dlChannelId d = ch \<and> dlThrottleKey d = key \<and> dlState d = DSent \<and>
       (case dlSentAt d of None \<Rightarrow> False | Some t \<Rightarrow> now - minutes * 60 * 1000 \<le> t)) (nsDeliveries db)"

text \<open>The insert of one delivery: \<^term>\<open>None\<close> when the channel does not exist (foreign key).\<close>

definition queue_delivery ::
  "int \<Rightarrow> string \<Rightarrow> string \<Rightarrow> string \<times> (string \<times> int) \<Rightarrow> notification_db \<Rightarrow> notification_db option" where
  "queue_delivery now eid key target db =
     (let (ch, rule, minutes) = target;
          suppressed = (0 < minutes \<and> recentlySent now ch key minutes db)
      in if \<not> list_ex (\<lambda>c. ncId c = ch) (nsChannels db) then None
         else if list_ex (\<lambda>d. dlEventId d = eid \<and> dlChannelId d = ch) (nsDeliveries db) then Some db
         else Some (db\<lparr>nsDeliveries := nsDeliveries db @ [\<lparr> dlEventId = eid, dlRuleId = Some rule, dlChannelId = ch,
                dlState = (if suppressed then DSuppressed else DPending), dlAttempts = 0,
                dlLastError = (if suppressed then Some (''Throttled: an alert for this was sent within '' @
                   show_int minutes @ '' minutes.'') else None),
                dlNextAttemptAt = now, dlThrottleKey = key, dlSentAt = None, dlCreatedAt = now \<rparr>]\<rparr>))"

text \<open>The loop over the targets, and whether it ran to its end.\<close>

fun queue_all ::
  "int \<Rightarrow> string \<Rightarrow> string \<Rightarrow> (string \<times> (string \<times> int)) list \<Rightarrow> notification_db \<Rightarrow> bool \<times> notification_db" where
  "queue_all now eid key [] db = (True, db)"
| "queue_all now eid key (t # ts) db =
     (case queue_delivery now eid key t db of None \<Rightarrow> (False, db) | Some db \<Rightarrow> queue_all now eid key ts db)"

definition event_of :: "note_draws \<Rightarrow> record_input \<Rightarrow> event_row" where
  "event_of nd i = \<lparr> neId = ndEventId nd (riDedupeKey i), neKind = riKind i, neDedupeKey = riDedupeKey i,
     neInstanceId = riInstanceId i, neWorkerId = riWorkerId i, neJobUuid = riJobUuid i, nePayload = riPayload i,
     neOccurredAt = riOccurredAt i \<rparr>"

text \<open>Whether the event was new; \<^term>\<open>None\<close> is a throw, which leaves what was written so far.\<close>

definition recordEvent :: "note_draws \<Rightarrow> record_input \<Rightarrow> notification_db \<Rightarrow> bool option \<times> notification_db" where
  "recordEvent nd i db =
     (if list_ex (\<lambda>e. neDedupeKey e = riDedupeKey i) (nsEvents db) then (Some False, db)
      else (let e = event_of nd i in
        if list_ex (\<lambda>x. neId x = neId e) (nsEvents db) then (None, db)
        else (case queue_all (ndNow nd) (neId e) (throttleKey i) (fan_targets i (nsRules db))
                     (db\<lparr>nsEvents := nsEvents db @ [e]\<rparr>) of
                (ok, db) \<Rightarrow> (if ok then Some True else None, db))))"

section \<open>Delivery\<close>

text \<open>
  \<open>svSends\<close> logs each attempt: the delivery, whether the channel took the message, and whether the
  database failed while its outcome was being written.
\<close>

record service_state =
  svDb :: notification_db
  svSends :: "((string \<times> string) \<times> bool \<times> bool) list"

definition dl_key :: "delivery_row \<Rightarrow> string \<times> string" where
  "dl_key d = (dlEventId d, dlChannelId d)"

definition retry_delay :: "nat \<Rightarrow> int" where
  "retry_delay n = min (2 ^ n * 1000) 600000"

definition set_delivery :: "string \<times> string \<Rightarrow> (delivery_row \<Rightarrow> delivery_row) \<Rightarrow> notification_db \<Rightarrow> notification_db" where
  "set_delivery k f db = db\<lparr>nsDeliveries := map (\<lambda>d. if dl_key d = k then f d else d) (nsDeliveries db)\<rparr>"

definition set_channel :: "string \<Rightarrow> (channel_row \<Rightarrow> channel_row) \<Rightarrow> notification_db \<Rightarrow> notification_db" where
  "set_channel i f db = db\<lparr>nsChannels := map (\<lambda>c. if ncId c = i then f c else c) (nsChannels db)\<rparr>"

text \<open>
  Each of the four updates of an attempt can fail. One that throws, with a message, may have been
  carried out or not.
\<close>

datatype db_result = Stored | NotStored string | StoredUnheard string

datatype delivery_update = MarkSent | ChannelDelivered | MarkAttempt | ChannelFailed

type_synonym db_results = "string \<times> string \<Rightarrow> delivery_update \<Rightarrow> db_result"

text \<open>The message of the exception, if there is one, and the database afterwards.\<close>

fun try_update ::
  "db_result \<Rightarrow> (notification_db \<Rightarrow> notification_db) \<Rightarrow> notification_db \<Rightarrow> string option \<times> notification_db" where
  "try_update Stored f db = (None, f db)"
| "try_update (NotStored m) f db = (Some m, db)"
| "try_update (StoredUnheard m) f db = (Some m, f db)"

definition record_sent :: "(delivery_update \<Rightarrow> db_result) \<Rightarrow> int \<Rightarrow> delivery_row \<Rightarrow> channel_row \<Rightarrow>
    notification_db \<Rightarrow> string option \<times> notification_db" where
  "record_sent wr now d ch db =
     (case try_update (wr MarkSent) (set_delivery (dl_key d) (\<lambda>x. x\<lparr>dlState := DSent, dlSentAt := Some now,
             dlAttempts := dlAttempts d + 1, dlLastError := None\<rparr>)) db of
        (Some m, db) \<Rightarrow> (Some m, db)
      | (None, db) \<Rightarrow> try_update (wr ChannelDelivered) (set_channel (ncId ch)
          (\<lambda>c. c\<lparr>ncLastDeliveredAt := Some now, ncLastError := None, ncLastErrorAt := None\<rparr>)) db)"

text \<open>The \<open>catch\<close> block; its own exceptions leave \<open>drain\<close>.\<close>

definition record_failure :: "(delivery_update \<Rightarrow> db_result) \<Rightarrow> int \<Rightarrow> delivery_row \<Rightarrow> channel_row \<Rightarrow> string \<Rightarrow> bool \<Rightarrow>
    notification_db \<Rightarrow> string option \<times> notification_db" where
  "record_failure wr now d ch message retryable db =
     (let n = dlAttempts d + 1; giveUp = (\<not> retryable \<or> MAX_ATTEMPTS \<le> n) in
      case try_update (wr MarkAttempt) (set_delivery (dl_key d) (\<lambda>x. x\<lparr>dlState := (if giveUp then DFailed else DPending),
             dlAttempts := n, dlLastError := Some message, dlNextAttemptAt := now + retry_delay n\<rparr>)) db of
        (Some m, db) \<Rightarrow> (Some m, db)
      | (None, db) \<Rightarrow> try_update (wr ChannelFailed) (set_channel (ncId ch)
          (\<lambda>c. c\<lparr>ncLastError := Some message, ncLastErrorAt := Some now\<rparr>)) db)"

text \<open>
  One attempt, and whether it returned. An update that fails after the message was sent is caught like a
  failure to send, with an error that can be retried.
\<close>

definition deliver_one ::
  "url_parser \<Rightarrow> (string \<times> string \<Rightarrow> network) \<Rightarrow> db_results \<Rightarrow> int \<Rightarrow> delivery_row \<times> channel_row \<Rightarrow> service_state
     \<Rightarrow> bool \<times> service_state" where
  "deliver_one parse net wr now dc sv =
     (let (d, ch) = dc; k = dl_key d; result = sendNotification parse (net k) ch;
          (failure, db) = (case result of
             Inl e \<Rightarrow> (Some (send_text e, send_retryable e), svDb sv)
           | Inr u \<Rightarrow> (case record_sent (wr k) now d ch (svDb sv) of
               (None, db) \<Rightarrow> (None, db) | (Some m, db) \<Rightarrow> (Some (m, True), db)));
          (thrown, db) = (case failure of
             None \<Rightarrow> (None, db) | Some (m, retryable) \<Rightarrow> record_failure (wr k) now d ch m retryable db);
          faulty = (thrown \<noteq> None \<or> \<not> isl result \<and> failure \<noteq> None)
      in (thrown = None, sv\<lparr>svDb := db, svSends := svSends sv @ [(k, \<not> isl result, faulty)]\<rparr>))"

definition due_deliveries :: "int \<Rightarrow> nat \<Rightarrow> notification_db \<Rightarrow> (delivery_row \<times> channel_row) list" where
  "due_deliveries now limit db =
     take limit (sort_key (\<lambda>(d, c). dlNextAttemptAt d) (List.map_filter (\<lambda>d.
       if dlState d = DPending \<and> dlNextAttemptAt d \<le> now \<and> list_ex (\<lambda>e. neId e = dlEventId d) (nsEvents db)
       then (case find (\<lambda>c. ncId c = dlChannelId d) (nsChannels db) of
               None \<Rightarrow> None | Some c \<Rightarrow> if ncEnabled c then Some (d, c) else None)
       else None) (nsDeliveries db)))"

text \<open>An exception out of \<open>#deliver\<close> ends the drain; the rows behind it wait for the next one.\<close>

fun deliver_all ::
  "url_parser \<Rightarrow> (string \<times> string \<Rightarrow> network) \<Rightarrow> db_results \<Rightarrow> int \<Rightarrow> (delivery_row \<times> channel_row) list \<Rightarrow> service_state
     \<Rightarrow> bool \<times> service_state" where
  "deliver_all parse net wr now [] sv = (True, sv)"
| "deliver_all parse net wr now (dc # dcs) sv =
     (case deliver_one parse net wr now dc sv of
        (False, sv) \<Rightarrow> (False, sv)
      | (True, sv) \<Rightarrow> deliver_all parse net wr now dcs sv)"

definition drain ::
  "url_parser \<Rightarrow> (string \<times> string \<Rightarrow> network) \<Rightarrow> db_results \<Rightarrow> int \<Rightarrow> nat \<Rightarrow> service_state \<Rightarrow> bool \<times> service_state" where
  "drain parse net wr now limit sv = deliver_all parse net wr now (due_deliveries now limit (svDb sv)) sv"

text \<open>A sample message to one channel.\<close>

definition test_channel ::
  "url_parser \<Rightarrow> network \<Rightarrow> int \<Rightarrow> string \<Rightarrow> notification_db \<Rightarrow> (send_failure + unit) \<times> notification_db" where
  "test_channel parse nw now i db =
     (case find (\<lambda>c. ncId c = i) (nsChannels db) of
        None \<Rightarrow> (Inl (NotificationSendError ''No such channel.'' False), db)
      | Some c \<Rightarrow>
          (case sendNotification parse nw c of
             Inl e \<Rightarrow> (Inl e, db)
           | Inr u \<Rightarrow> (Inr u, set_channel i (\<lambda>c. c\<lparr>ncLastDeliveredAt := Some now, ncLastError := None,
               ncLastErrorAt := None\<rparr>) db)))"

section \<open>Detectors\<close>

record failure_context =
  fcConsecutive :: nat
  fcPrevious :: nat
  fcStepName :: string

definition failureContext :: "history_row list \<Rightarrow> string \<Rightarrow> string \<Rightarrow> int \<Rightarrow> failure_context" where
  "failureContext hs i u n =
     (let ours = filter (\<lambda>r. hInstanceId r = i \<and> hJobUuid r = u \<and> hSqlInstanceId r \<le> n) hs;
          previous = take 30 (sort_key (\<lambda>r. - hSqlInstanceId r) (filter (\<lambda>r. hStepId r = 0) ours));
          failing = (\<lambda>rs. length (takeWhile (\<lambda>r. hRunStatus r = RunFailed) rs));
          steps = sort_key (\<lambda>r. - hSqlInstanceId r)
            (filter (\<lambda>r. hStepId r \<noteq> 0 \<and> hRunStatus r = RunFailed \<and> n - 200 < hSqlInstanceId r) ours)
      in \<lparr> fcConsecutive = failing previous, fcPrevious = failing (drop 1 previous),
           fcStepName = (case steps of [] \<Rightarrow> [] | r # _ \<Rightarrow> (case hStepName r of None \<Rightarrow> [] | Some s \<Rightarrow> s)) \<rparr>)"

definition jobContext :: "estate_db \<Rightarrow> string \<Rightarrow> string \<Rightarrow> estate_row option" where
  "jobContext db i u =
     (case find_job i u (jobsT (edIngest db)) of None \<Rightarrow> None | Some j \<Rightarrow> row_of_job db j)"

definition run_key :: "event_kind \<Rightarrow> string \<Rightarrow> history_row \<Rightarrow> string" where
  "run_key k i r = kind_text k @ '':'' @ i @ '':'' @ hJobUuid r @ '':'' @ show_int (hSqlInstanceId r)"

definition run_event ::
  "event_kind \<Rightarrow> string \<Rightarrow> estate_row \<Rightarrow> history_row \<Rightarrow> (string \<times> payload_value) list \<Rightarrow> record_input" where
  "run_event k i job r extra = \<lparr> riKind = k, riDedupeKey = run_key k i r, riInstanceId = Some i, riWorkerId = None,
     riJobUuid = Some (hJobUuid r),
     riPayload = [(''instanceId'', PStr i), (''jobUuid'', PStr (hJobUuid r)), (''jobName'', PStr (jName (erJob job))),
       (''instanceName'', PStr (isName (erInstance job))), (''hostName'', PStr (erHostName job)),
       (''runDurationSeconds'', PNum (of_int (hRunDurationSeconds r))),
       (''message'', (case hMessage r of None \<Rightarrow> PNull | Some m \<Rightarrow> PStr m))] @ extra,
     riOccurredAt = hRunDatetime r \<rparr>"

text \<open>The events one outcome raises, in order.\<close>

definition events_of_run :: "estate_db \<Rightarrow> string \<Rightarrow> history_row \<Rightarrow> record_input list" where
  "events_of_run db i r =
     (case jobContext db i (hJobUuid r) of
        None \<Rightarrow> []
      | Some job \<Rightarrow>
          (let h = failureContext (historyT (edIngest db)) i (hJobUuid r) (hSqlInstanceId r) in
           if hRunStatus r = RunFailed
           then [run_event JobFailed i job r [(''consecutiveFailures'', PNum (of_nat (fcConsecutive h))),
                   (''stepName'', PStr (fcStepName h))]]
           else run_event JobSucceeded i job r [] #
                (if 0 < fcPrevious h then [run_event JobRecovered i job r [(''previousFailures'', PNum (of_nat (fcPrevious h)))]]
                 else [])))"

text \<open>One after another until one throws: whether none did, and how many were new.\<close>

fun record_events :: "note_draws \<Rightarrow> record_input list \<Rightarrow> notification_db \<Rightarrow> (bool \<times> nat) \<times> notification_db" where
  "record_events nd [] db = ((True, 0), db)"
| "record_events nd (i # is) db =
     (case recordEvent nd i db of
        (None, db) \<Rightarrow> ((False, 0), db)
      | (Some new, db) \<Rightarrow>
          (let ((ok, n), db) = record_events nd is db in ((ok, if new then Suc n else n), db)))"

definition onRunsIngested ::
  "note_draws \<Rightarrow> estate_db \<Rightarrow> string \<Rightarrow> history_row list \<Rightarrow> notification_db \<Rightarrow> bool \<times> notification_db" where
  "onRunsIngested nd db i runs ndb =
     (let outcomes = filter (\<lambda>r. hRunStatus r = RunFailed \<or> hRunStatus r = RunSucceeded) runs;
          ((ok, n), ndb) = record_events nd (concat (map (events_of_run db i) outcomes)) ndb
      in (ok, ndb))"

definition opt_text :: "string option \<Rightarrow> payload_value" where
  "opt_text s = (case s of None \<Rightarrow> PNull | Some s \<Rightarrow> PStr s)"

definition opt_number :: "rat option \<Rightarrow> payload_value" where
  "opt_number n = (case n of None \<Rightarrow> PNull | Some n \<Rightarrow> PNum n)"

definition long_running_event :: "int \<Rightarrow> running_job \<Rightarrow> int \<Rightarrow> record_input" where
  "long_running_event now j start = \<lparr> riKind = JobLongRunning,
     riDedupeKey = ''job.long_running:'' @ rjInstanceId j @ '':'' @ rjJobUuid j @ '':'' @ toISOString start,
     riInstanceId = Some (rjInstanceId j), riWorkerId = None, riJobUuid = Some (rjJobUuid j),
     riPayload = [(''instanceId'', PStr (rjInstanceId j)), (''jobUuid'', PStr (rjJobUuid j)),
       (''jobName'', PStr (rjJobName j)), (''instanceName'', PStr (rjInstanceName j)), (''hostName'', PStr (rjHostName j)),
       (''elapsedSeconds'', opt_number (map_option of_int (rjElapsed j))), (''averageSeconds'', opt_number (rjAverage j)),
       (''currentStepName'', opt_text (rjStepName j))],
     riOccurredAt = now \<rparr>"

definition sweepLongRunning ::
  "note_draws \<Rightarrow> int \<Rightarrow> estate_db \<Rightarrow> int \<Rightarrow> notification_db \<Rightarrow> (bool \<times> nat) \<times> notification_db" where
  "sweepLongRunning nd clock db now ndb =
     record_events nd (List.map_filter (\<lambda>j. if rjLong j then map_option (long_running_event now j) (rjStartedAt j) else None)
       (getRunningJobs clock db now)) ndb"

definition offline_event :: "estate_db \<Rightarrow> int \<Rightarrow> worker_status \<Rightarrow> int \<Rightarrow> record_input" where
  "offline_event db now w seen = \<lparr> riKind = WorkerOffline,
     riDedupeKey = ''worker.offline:'' @ wsId w @ '':'' @ toISOString seen, riInstanceId = None, riWorkerId = Some (wsId w),
     riJobUuid = None,
     riPayload = [(''hostName'', PStr (wsHostName w)),
       (''instanceCount'', PNum (of_nat (length (filter (\<lambda>i. isWorkerId i = wsId w) (instanceT (edIngest db)))))),
       (''lastSeenAt'', PStr (toISOString seen))],
     riOccurredAt = now \<rparr>"

definition offline_workers :: "int \<Rightarrow> (string \<Rightarrow> bool) \<Rightarrow> int \<Rightarrow> estate_db \<Rightarrow> (worker_status \<times> int) list" where
  "offline_workers heartbeatSeconds online now db =
     List.map_filter (\<lambda>w. case wsLastSeenAt w of
         None \<Rightarrow> None
       | Some t \<Rightarrow> if wsConnectedAt w = None \<and> t \<le> now - heartbeatSeconds * 4 * 1000 \<and> \<not> online (wsId w) then Some (w, t) else None)
       (workerT (edIngest db))"

definition sweepOfflineWorkers ::
  "note_draws \<Rightarrow> int \<Rightarrow> (string \<Rightarrow> bool) \<Rightarrow> estate_db \<Rightarrow> int \<Rightarrow> notification_db \<Rightarrow> (bool \<times> nat) \<times> notification_db" where
  "sweepOfflineWorkers nd heartbeatSeconds online db now ndb =
     record_events nd (map (\<lambda>(w, t). offline_event db now w t) (offline_workers heartbeatSeconds online now db)) ndb"

text \<open>
  The query compares \<open>jobs.job_uuid\<close>, a uuid column, with \<open>jobUuid ?? ''\<close>; the empty string is not a
  uuid, so without a job the database refuses the query and the call throws.
\<close>

definition onCommandFailed ::
  "note_draws \<Rightarrow> estate_db \<Rightarrow> string \<Rightarrow> string \<Rightarrow> string \<Rightarrow> string option \<Rightarrow> string \<Rightarrow> string \<Rightarrow> string
     \<Rightarrow> notification_db \<Rightarrow> bool option \<times> notification_db" where
  "onCommandFailed nd db cid kind i job code text who ndb =
     (case job of
        None \<Rightarrow> (None, ndb)
      | Some u \<Rightarrow>
          (let inst = find (\<lambda>x. isId x = i) (instanceT (edIngest db));
               w = (case inst of None \<Rightarrow> None | Some x \<Rightarrow> find (\<lambda>w. wsId w = isWorkerId x) (workerT (edIngest db)));
               name = (case find_job i u (jobsT (edIngest db)) of None \<Rightarrow> [] | Some j \<Rightarrow> jName j)
           in recordEvent nd \<lparr> riKind = CommandFailed, riDedupeKey = ''command.failed:'' @ cid, riInstanceId = Some i,
                riWorkerId = None, riJobUuid = Some u,
                riPayload = [(''instanceId'', PStr i), (''jobUuid'', PStr u),
                  (''jobName'', PStr (if w = None then [] else name)),
                  (''instanceName'', PStr (case w of None \<Rightarrow> [] | Some x \<Rightarrow> (case inst of None \<Rightarrow> [] | Some x \<Rightarrow> isName x))),
                  (''hostName'', PStr (case w of None \<Rightarrow> [] | Some x \<Rightarrow> wsHostName x)),
                  (''commandType'', PStr kind), (''resultCode'', PStr code), (''message'', PStr text), (''issuedBy'', PStr who)],
                riOccurredAt = ndNow nd \<rparr> ndb))"

end
