(* ===== verification/NotificationLaws.thy ===== *)
theory NotificationLaws
  imports Notifications "HOL-Library.Sublist"
begin

text \<open>
  What the notification pipeline guarantees: which channels an event reaches and under which throttle,
  how often a delivery is attempted and made, that a drain leaves nothing due, and that a replayed
  batch of runs raises nothing.
\<close>

section \<open>Fan-out\<close>

text \<open>The smallest throttle a list of rules gives a channel, and from which rule.\<close>

definition naming :: "record_input \<Rightarrow> rule_row list \<Rightarrow> string \<Rightarrow> rule_row list" where
  "naming i rules ch = filter (\<lambda>r. rule_matches i r \<and> ch \<in> set (nrChannelIds r)) rules"

lemma add_target_map:
  "map_of (add_target rule m ts c) ch =
     (if ch = c then (case map_of ts c of None \<Rightarrow> Some (rule, m)
        | Some (r, k) \<Rightarrow> if m < k then Some (rule, m) else Some (r, k)) else map_of ts ch)"
  by (cases "map_of ts c") (auto simp: add_target_def AList.update_conv')

definition minutes_of :: "(string \<times> (string \<times> int)) list \<Rightarrow> string \<Rightarrow> int option" where
  "minutes_of ts ch = map_option snd (map_of ts ch)"

definition least :: "int option \<Rightarrow> int \<Rightarrow> int option" where
  "least old m = Some (case old of None \<Rightarrow> m | Some k \<Rightarrow> min k m)"

lemma least_idem: "least (least old m) m = least old m"
  by (simp add: least_def split: option.split)

lemma add_target_minutes:
  "minutes_of (add_target rule m ts c) ch = (if ch = c then least (minutes_of ts ch) m else minutes_of ts ch)"
  by (auto simp: minutes_of_def add_target_map least_def min_def split: option.splits)

lemma add_targets_minutes:
  "minutes_of (foldl (add_target rule m) ts cs) ch =
     (if ch \<in> set cs then least (minutes_of ts ch) m else minutes_of ts ch)"
  by (induction cs arbitrary: ts) (auto simp: add_target_minutes least_idem)

lemma rules_minutes:
  "minutes_of (foldl (\<lambda>ts r. foldl (add_target (nrId r) (nrThrottleMinutes r)) ts (nrChannelIds r)) ts rules) ch =
     foldl (\<lambda>k r. least k (nrThrottleMinutes r)) (minutes_of ts ch) (filter (\<lambda>r. ch \<in> set (nrChannelIds r)) rules)"
  by (induction rules arbitrary: ts) (simp_all add: add_targets_minutes)

lemma least_fold: "foldl (\<lambda>k r. least k (f r)) (Some m) rs = Some (foldl min m (map f rs))"
  by (induction rs arbitrary: m) (simp_all add: least_def)

lemma foldl_min_Min: "foldl min (m :: int) xs = Min (set (m # xs))"
  by (simp only: Min.set_eq_fold foldl_conv_fold min.commute)

lemma fan_targets_minutes:
  "minutes_of (fan_targets i rules) ch =
     (case map nrThrottleMinutes (naming i rules ch) of [] \<Rightarrow> None | m # ms \<Rightarrow> Some (Min (set (m # ms))))"
proof -
  have n: "filter (\<lambda>r. ch \<in> set (nrChannelIds r)) (filter (rule_matches i) rules) = naming i rules ch"
    by (auto simp: naming_def intro: filter_cong)
  have e: "minutes_of [] ch = None" by (simp add: minutes_of_def)
  have "least None m = Some m" for m by (simp add: least_def)
  then show ?thesis
    unfolding fan_targets_def rules_minutes n e by (cases "naming i rules ch") (simp_all add: least_fold foldl_min_Min)
qed

lemma distinct_add_targets: "distinct (map fst ts) \<Longrightarrow> distinct (map fst (foldl (add_target r m) ts cs))"
proof (induction cs arbitrary: ts)
  case (Cons c cs)
  have "distinct (map fst (add_target r m ts c))"
    using Cons.prems by (simp add: add_target_def AList.distinct_update split: option.split)
  with Cons.IH show ?case by simp
qed simp

lemma distinct_fan_targets: "distinct (map fst (fan_targets i rules))"
proof -
  have "distinct (map fst (foldl (\<lambda>ts r. foldl (add_target (nrId r) (nrThrottleMinutes r)) ts (nrChannelIds r)) ts rs))"
    if "distinct (map fst ts)" for ts rs
    using that by (induction rs arbitrary: ts) (simp_all add: distinct_add_targets)
  then show ?thesis unfolding fan_targets_def by this simp
qed

text \<open>The row queued for a target; only rows already sent decide about throttling.\<close>

definition queued_row ::
  "int \<Rightarrow> string \<Rightarrow> string \<Rightarrow> notification_db \<Rightarrow> string \<times> (string \<times> int) \<Rightarrow> delivery_row" where
  "queued_row now eid key db t =
     (let (ch, rule, minutes) = t; suppressed = (0 < minutes \<and> recentlySent now ch key minutes db)
      in \<lparr> dlEventId = eid, dlRuleId = Some rule, dlChannelId = ch,
           dlState = (if suppressed then DSuppressed else DPending), dlAttempts = 0,
           dlLastError = (if suppressed then Some (''Throttled: an alert for this was sent within '' @
              show_int minutes @ '' minutes.'') else None),
           dlNextAttemptAt = now, dlThrottleKey = key, dlSentAt = None, dlCreatedAt = now \<rparr>)"

lemma queued_row_simps [simp]:
  "dlEventId (queued_row now eid key db t) = eid" "dlChannelId (queued_row now eid key db t) = fst t"
  "dlAttempts (queued_row now eid key db t) = 0" "dlState (queued_row now eid key db t) \<noteq> DSent"
  by (simp_all add: queued_row_def Let_def case_prod_unfold)

lemma recentlySent_queued:
  "recentlySent now ch key m (db\<lparr>nsDeliveries := nsDeliveries db @ [queued_row n e k db t]\<rparr>) = recentlySent now ch key m db"
  by (simp add: recentlySent_def)

lemma queued_row_cong:
  "(\<And>ch key m. recentlySent now ch key m db' = recentlySent now ch key m db) \<Longrightarrow>
     queued_row now eid key db' = queued_row now eid key db"
  by (simp add: queued_row_def fun_eq_iff)

lemma list_ex_key: "list_ex (\<lambda>x. f x = k) xs \<longleftrightarrow> k \<in> f ` set xs"
  by (induction xs) auto

lemma queue_all_cases:
  assumes "queue_all now eid key ts db = (ok, db')" and "distinct (map fst ts)"
    and "\<forall>d \<in> set (nsDeliveries db). dlEventId d = eid \<longrightarrow> dlChannelId d \<notin> fst ` set ts"
  shows "\<exists>us. prefix us ts \<and> (ok \<longrightarrow> us = ts) \<and> fst ` set us \<subseteq> ncId ` set (nsChannels db) \<and>
     db' = db\<lparr>nsDeliveries := nsDeliveries db @ map (queued_row now eid key db) us\<rparr>"
  using assms
proof (induction ts arbitrary: db)
  case (Cons t ts)
  let ?db1 = "db\<lparr>nsDeliveries := nsDeliveries db @ [queued_row now eid key db t]\<rparr>"
  have old: "\<not> list_ex (\<lambda>d. dlEventId d = eid \<and> dlChannelId d = fst t) (nsDeliveries db)"
    using Cons.prems(3) by (auto simp: list_ex_iff)
  have q: "queue_delivery now eid key t db = (if fst t \<in> ncId ` set (nsChannels db) then Some ?db1 else None)"
    using old by (simp add: queue_delivery_def queued_row_def Let_def case_prod_unfold list_ex_key)
  show ?case
  proof (cases "fst t \<in> ncId ` set (nsChannels db)")
    case False
    then show ?thesis using Cons.prems(1) q by (intro exI [of _ "[]"]) auto
  next
    case True
    then have r: "queue_all now eid key ts ?db1 = (ok, db')" using Cons.prems(1) q by simp
    have "\<forall>d \<in> set (nsDeliveries ?db1). dlEventId d = eid \<longrightarrow> dlChannelId d \<notin> fst ` set ts"
      using Cons.prems(2,3) by auto
    from Cons.IH [OF r _ this] Cons.prems(2) obtain us where us: "prefix us ts" "ok \<longrightarrow> us = ts"
      "fst ` set us \<subseteq> ncId ` set (nsChannels db)"
      "db' = ?db1\<lparr>nsDeliveries := nsDeliveries ?db1 @ map (queued_row now eid key ?db1) us\<rparr>" by auto
    have "queued_row now eid key ?db1 = queued_row now eid key db" by (rule queued_row_cong) (rule recentlySent_queued)
    with us True show ?thesis by (intro exI [of _ "t # us"]) simp
  qed
qed (auto intro: exI [of _ "[]"])

section \<open>The invariant\<close>

definition attempts_of :: "((string \<times> string) \<times> bool \<times> bool) list \<Rightarrow> string \<times> string \<Rightarrow> nat" where
  "attempts_of sends k = length (filter (\<lambda>(l, sent, faulty). l = k) sends)"

definition successes_of :: "((string \<times> string) \<times> bool \<times> bool) list \<Rightarrow> string \<times> string \<Rightarrow> nat" where
  "successes_of sends k = length (filter (\<lambda>(l, sent, faulty). l = k \<and> sent) sends)"

text \<open>How often the database failed on the outcome of an attempt.\<close>

definition faults_of :: "((string \<times> string) \<times> bool \<times> bool) list \<Rightarrow> string \<times> string \<Rightarrow> nat" where
  "faults_of sends k = length (filter (\<lambda>(l, sent, faulty). l = k \<and> faulty) sends)"

definition tables_ok :: "notification_db \<Rightarrow> bool" where
  "tables_ok db \<longleftrightarrow> distinct (map neId (nsEvents db)) \<and> distinct (map neDedupeKey (nsEvents db)) \<and>
     distinct (map dl_key (nsDeliveries db)) \<and> (\<forall>d \<in> set (nsDeliveries db). dlEventId d \<in> neId ` set (nsEvents db))"

definition delivery_ok :: "((string \<times> string) \<times> bool \<times> bool) list \<Rightarrow> delivery_row \<Rightarrow> bool" where
  "delivery_ok sends d \<longleftrightarrow> dlAttempts d \<le> attempts_of sends (dl_key d) \<and>
     attempts_of sends (dl_key d) \<le> dlAttempts d + faults_of sends (dl_key d) \<and> dlAttempts d \<le> MAX_ATTEMPTS \<and>
     (dlState d = DPending \<longrightarrow> dlAttempts d < MAX_ATTEMPTS) \<and>
     (if dlState d = DSent then 0 < successes_of sends (dl_key d)
      else successes_of sends (dl_key d) \<le> faults_of sends (dl_key d))"

definition sends_ok :: "service_state \<Rightarrow> bool" where
  "sends_ok sv \<longleftrightarrow> (\<forall>k. attempts_of (svSends sv) k \<le> MAX_ATTEMPTS + faults_of (svSends sv) k \<and>
       successes_of (svSends sv) k \<le> 1 + faults_of (svSends sv) k) \<and>
     (\<forall>s \<in> set (svSends sv). fst (fst s) \<in> neId ` set (nsEvents (svDb sv)))"

definition service_ok :: "service_state \<Rightarrow> bool" where
  "service_ok sv \<longleftrightarrow> tables_ok (svDb sv) \<and> sends_ok sv \<and> (\<forall>d \<in> set (nsDeliveries (svDb sv)). delivery_ok (svSends sv) d)"


lemma record_cases:
  assumes "recordEvent nd i db = (r, db')" and "\<forall>d \<in> set (nsDeliveries db). dlEventId d \<in> neId ` set (nsEvents db)"
  obtains (same) "db' = db" and "r \<noteq> Some True"
  | (new) us where "neId (event_of nd i) \<notin> neId ` set (nsEvents db)" and "riDedupeKey i \<notin> neDedupeKey ` set (nsEvents db)"
      and "prefix us (fan_targets i (nsRules db))" and "r = Some True \<longrightarrow> us = fan_targets i (nsRules db)"
      and "fst ` set us \<subseteq> ncId ` set (nsChannels db)" and "r \<noteq> Some False"
      and "db' = db\<lparr>nsEvents := nsEvents db @ [event_of nd i],
         nsDeliveries := nsDeliveries db @ map (queued_row (ndNow nd) (neId (event_of nd i)) (throttleKey i) db) us\<rparr>"
proof (cases "list_ex (\<lambda>e. neDedupeKey e = riDedupeKey i) (nsEvents db) \<or> list_ex (\<lambda>x. neId x = neId (event_of nd i)) (nsEvents db)")
  case True
  then show ?thesis using assms(1) by (intro same) (auto simp: recordEvent_def Let_def split: if_splits)
next
  case False
  let ?e = "event_of nd i" and ?db1 = "db\<lparr>nsEvents := nsEvents db @ [event_of nd i]\<rparr>"
  have fresh: "neId ?e \<notin> neId ` set (nsEvents db)" "riDedupeKey i \<notin> neDedupeKey ` set (nsEvents db)"
    using False by (auto simp: list_ex_iff)
  obtain ok where q: "queue_all (ndNow nd) (neId ?e) (throttleKey i) (fan_targets i (nsRules db)) ?db1 = (ok, db')"
      and r: "r = (if ok then Some True else None)"
    using assms(1) False by (auto simp: recordEvent_def Let_def split: prod.splits)
  have "\<forall>d \<in> set (nsDeliveries ?db1). dlEventId d = neId ?e \<longrightarrow> dlChannelId d \<notin> fst ` set (fan_targets i (nsRules db))"
  proof (intro ballI impI)
    fix d assume "d \<in> set (nsDeliveries ?db1)" and e: "dlEventId d = neId ?e"
    then have "d \<in> set (nsDeliveries db)" by simp
    then have "dlEventId d \<in> neId ` set (nsEvents db)" using assms(2) by blast
    with e fresh(1) show "dlChannelId d \<notin> fst ` set (fan_targets i (nsRules db))" by simp
  qed
  from queue_all_cases [OF q distinct_fan_targets this] obtain us where us: "prefix us (fan_targets i (nsRules db))"
    "ok \<longrightarrow> us = fan_targets i (nsRules db)" "fst ` set us \<subseteq> ncId ` set (nsChannels ?db1)"
    "db' = ?db1\<lparr>nsDeliveries := nsDeliveries ?db1 @ map (queued_row (ndNow nd) (neId ?e) (throttleKey i) ?db1) us\<rparr>" by blast
  have "queued_row (ndNow nd) (neId ?e) (throttleKey i) ?db1 = queued_row (ndNow nd) (neId ?e) (throttleKey i) db"
    by (rule queued_row_cong) (simp add: recentlySent_def)
  then show ?thesis using us r by (intro new [OF fresh us(1)]) (auto split: if_splits)
qed


section \<open>Delivery keeps it\<close>

lemma set_delivery_simps [simp]:
  "nsEvents (set_delivery k f db) = nsEvents db" "nsChannels (set_delivery k f db) = nsChannels db"
  "nsDeliveries (set_delivery k f db) = map (\<lambda>d. if dl_key d = k then f d else d) (nsDeliveries db)"
  "nsEvents (set_channel c g db) = nsEvents db" "nsDeliveries (set_channel c g db) = nsDeliveries db"
  by (simp_all add: set_delivery_def set_channel_def)

lemma dl_key_update [simp]:
  "dl_key (x\<lparr>dlState := st\<rparr>) = dl_key x" "dl_key (x\<lparr>dlAttempts := n\<rparr>) = dl_key x" "dl_key (x\<lparr>dlLastError := e\<rparr>) = dl_key x"
  "dl_key (x\<lparr>dlSentAt := t\<rparr>) = dl_key x" "dl_key (x\<lparr>dlNextAttemptAt := m\<rparr>) = dl_key x" "dl_key (x\<lparr>dlRuleId := i\<rparr>) = dl_key x"
  by (simp_all add: dl_key_def)

definition channel_enabled :: "notification_db \<Rightarrow> string \<Rightarrow> bool" where
  "channel_enabled db i = (case find (\<lambda>c. ncId c = i) (nsChannels db) of None \<Rightarrow> False | Some c \<Rightarrow> ncEnabled c)"

lemma enabled_set_channel:
  "(\<And>c. ncId (g c) = ncId c \<and> ncEnabled (g c) = ncEnabled c) \<Longrightarrow>
     channel_enabled (set_channel j g db) i = channel_enabled db i"
proof -
  assume g: "\<And>c. ncId (g c) = ncId c \<and> ncEnabled (g c) = ncEnabled c"
  have "find (\<lambda>c. ncId c = i) (map (\<lambda>c. if ncId c = j then g c else c) cs) =
      map_option (\<lambda>c. if ncId c = j then g c else c) (find (\<lambda>c. ncId c = i) cs)" for cs
    using g by (induction cs) auto
  then show ?thesis using g by (simp add: channel_enabled_def set_channel_def split: option.split)
qed

text \<open>
  What one attempt makes of its row: it counts the attempt and settles or requeues the delivery, or,
  when the database failed, may leave the row alone.
\<close>

definition attempt_effect :: "bool \<Rightarrow> bool \<Rightarrow> delivery_row \<Rightarrow> delivery_row \<Rightarrow> bool" where
  "attempt_effect sent faulty d y \<longleftrightarrow> faulty \<and> y = d \<or>
     dlAttempts y = dlAttempts d + 1 \<and>
     (if dlState y = DSent then sent
      else (faulty \<or> \<not> sent) \<and> (dlState y = DFailed \<or> dlState y = DPending \<and> dlAttempts y < MAX_ATTEMPTS))"

definition settles :: "int \<Rightarrow> (delivery_row \<Rightarrow> delivery_row) \<Rightarrow> bool" where
  "settles now f \<longleftrightarrow> (\<forall>x. dlState (f x) = DPending \<longrightarrow> now < dlNextAttemptAt (f x))"

text \<open>A function on rows that keeps their key, applied to the rows with one key.\<close>

definition updates :: "string \<times> string \<Rightarrow> (delivery_row \<Rightarrow> delivery_row) \<Rightarrow> notification_db \<Rightarrow> notification_db \<Rightarrow> bool" where
  "updates k f db db' \<longleftrightarrow> (\<forall>x. dl_key (f x) = dl_key x) \<and> nsEvents db' = nsEvents db \<and>
     (\<forall>i. channel_enabled db' i = channel_enabled db i) \<and>
     nsDeliveries db' = map (\<lambda>x. if dl_key x = k then f x else x) (nsDeliveries db)"

lemma updates_trans:
  assumes "updates k f db db1" and "updates k g db1 db2" shows "updates k (g \<circ> f) db db2"
  using assms by (auto simp: updates_def)

lemma updates_id: "updates k id db db"
  by (simp add: updates_def cong: if_cong)

lemma updates_set_delivery: "(\<And>x. dl_key (f x) = dl_key x) \<Longrightarrow> updates k f db (set_delivery k f db)"
  by (simp add: updates_def channel_enabled_def)

lemma updates_set_channel:
  "(\<And>c. ncId (g c) = ncId c \<and> ncEnabled (g c) = ncEnabled c) \<Longrightarrow> updates k id db (set_channel j g db)"
  by (simp add: updates_def enabled_set_channel cong: if_cong)

lemma try_update_cases:
  assumes "try_update r u db = (m, db')" and "updates k f db (u db)"
  shows "updates k f db db' \<or> updates k id db db' \<and> m \<noteq> None"
  using assms by (cases r) (auto simp: updates_id)

lemma record_sent_effect:
  assumes "record_sent wr now d ch db = (m, db')"
  shows "\<exists>f. updates (dl_key d) f db db' \<and>
    (f = id \<and> m \<noteq> None \<or> (\<forall>x. dlState (f x) = DSent \<and> dlAttempts (f x) = dlAttempts d + 1))"
proof -
  let ?f = "\<lambda>x. x\<lparr>dlState := DSent, dlSentAt := Some now, dlAttempts := dlAttempts d + 1, dlLastError := None\<rparr>"
  obtain m1 db1 where 1: "try_update (wr MarkSent) (set_delivery (dl_key d) ?f) db = (m1, db1)" by fastforce
  have u: "updates (dl_key d) ?f db db1 \<or> updates (dl_key d) id db db1 \<and> m1 \<noteq> None"
    by (rule try_update_cases [OF 1 updates_set_delivery]) simp
  show ?thesis
  proof (cases m1)
    case (Some e)
    with assms 1 u show ?thesis by (auto simp: record_sent_def intro: exI [of _ ?f] exI [of _ id])
  next
    case None
    with assms 1 have g: "try_update (wr ChannelDelivered) (set_channel (ncId ch)
        (\<lambda>c. c\<lparr>ncLastDeliveredAt := Some now, ncLastError := None, ncLastErrorAt := None\<rparr>)) db1 = (m, db')"
      by (simp add: record_sent_def)
    have "updates (dl_key d) id db1 db' \<or> updates (dl_key d) id db1 db' \<and> m \<noteq> None"
      by (rule try_update_cases [OF g updates_set_channel]) simp
    then have "updates (dl_key d) id db1 db'" by blast
    with None u have "updates (dl_key d) ?f db db'" using updates_trans [of "dl_key d" ?f db db1 id db'] by simp
    then show ?thesis by (intro exI [of _ ?f]) simp
  qed
qed

lemma record_failure_effect:
  assumes "record_failure wr now d ch e retryable db = (m, db')"
  shows "\<exists>f. updates (dl_key d) f db db' \<and>
    (f = id \<and> m \<noteq> None \<or> (\<forall>x. dlAttempts (f x) = dlAttempts d + 1 \<and>
       (dlState (f x) = DFailed \<or> dlState (f x) = DPending \<and> dlAttempts d + 1 < MAX_ATTEMPTS \<and> now < dlNextAttemptAt (f x))))"
proof -
  let ?n = "dlAttempts d + 1"
  define F :: "delivery_row \<Rightarrow> delivery_row" where "F = (\<lambda>x. x\<lparr>dlState := (if \<not> retryable \<or> MAX_ATTEMPTS \<le> ?n then DFailed else DPending), dlAttempts := ?n,
     dlLastError := Some e, dlNextAttemptAt := now + retry_delay ?n\<rparr>)"
  have "0 < retry_delay ?n" by (simp add: retry_delay_def)
  then have spec: "\<forall>x. dlAttempts (F x) = ?n \<and> (dlState (F x) = DFailed \<or>
      dlState (F x) = DPending \<and> ?n < MAX_ATTEMPTS \<and> now < dlNextAttemptAt (F x))" by (auto simp: F_def)
  obtain m1 db1 where 1: "try_update (wr MarkAttempt) (set_delivery (dl_key d) F) db = (m1, db1)" by fastforce
  have u: "updates (dl_key d) F db db1 \<or> updates (dl_key d) id db db1 \<and> m1 \<noteq> None"
    by (rule try_update_cases [OF 1 updates_set_delivery]) (simp add: F_def)
  have "updates (dl_key d) F db db' \<or> updates (dl_key d) id db db' \<and> m \<noteq> None"
  proof (cases m1)
    case (Some t)
    with assms 1 have "m = m1" "db' = db1" by (simp_all add: record_failure_def Let_def F_def)
    with u show ?thesis by blast
  next
    case None
    with assms 1 have g: "try_update (wr ChannelFailed) (set_channel (ncId ch)
        (\<lambda>c. c\<lparr>ncLastError := Some e, ncLastErrorAt := Some now\<rparr>)) db1 = (m, db')"
      by (simp add: record_failure_def Let_def F_def)
    have "updates (dl_key d) id db1 db' \<or> updates (dl_key d) id db1 db' \<and> m \<noteq> None"
      by (rule try_update_cases [OF g updates_set_channel]) simp
    with None u show ?thesis using updates_trans [of "dl_key d" F db db1 id db'] by auto
  qed
  then show ?thesis using spec by blast
qed

lemma deliver_effect:
  assumes "deliver_one parse net wr now (d, c) sv = (returned, sv')"
  shows "\<exists>sent faulty f. svSends sv' = svSends sv @ [(dl_key d, sent, faulty)] \<and>
    updates (dl_key d) f (svDb sv) (svDb sv') \<and> attempt_effect sent faulty d (f d) \<and>
    (returned \<longrightarrow> settles now f)"
proof (cases "sendNotification parse (net (dl_key d)) c")
  case (Inl e)
  obtain m db where 1: "record_failure (wr (dl_key d)) now d c (send_text e) (send_retryable e) (svDb sv) = (m, db)" by fastforce
  with assms Inl have "sv' = sv\<lparr>svDb := db, svSends := svSends sv @ [(dl_key d, False, m \<noteq> None)]\<rparr>" "returned = (m = None)"
    by (auto simp: deliver_one_def Let_def)
  moreover obtain f where f: "updates (dl_key d) f (svDb sv) db"
    "f = id \<and> m \<noteq> None \<or> (\<forall>x. dlAttempts (f x) = dlAttempts d + 1 \<and>
       (dlState (f x) = DFailed \<or> dlState (f x) = DPending \<and> dlAttempts d + 1 < MAX_ATTEMPTS \<and> now < dlNextAttemptAt (f x)))"
    using record_failure_effect [OF 1] by blast
  moreover have "attempt_effect False (m \<noteq> None) d (f d)"
    using f(2) by (auto simp: attempt_effect_def dest!: spec [of _ d])
  moreover have "m = None \<longrightarrow> settles now f"
    using f(2) unfolding settles_def by (metis delivery_state.distinct)
  ultimately show ?thesis by auto
next
  case (Inr u)
  obtain m db where 1: "record_sent (wr (dl_key d)) now d c (svDb sv) = (m, db)" by fastforce
  obtain f where f: "updates (dl_key d) f (svDb sv) db"
    "f = id \<and> m \<noteq> None \<or> (\<forall>x. dlState (f x) = DSent \<and> dlAttempts (f x) = dlAttempts d + 1)"
    using record_sent_effect [OF 1] by blast
  show ?thesis
  proof (cases m)
    case None
    with assms Inr 1 have "sv' = sv\<lparr>svDb := db, svSends := svSends sv @ [(dl_key d, True, False)]\<rparr>"
      by (simp add: deliver_one_def Let_def)
    with f None show ?thesis
      by (intro exI [of _ True] exI [of _ False] exI [of _ f]) (auto simp: attempt_effect_def settles_def)
  next
    case (Some e)
    obtain m2 db2 where 2: "record_failure (wr (dl_key d)) now d c e True db = (m2, db2)" by fastforce
    with assms Inr 1 Some have sv: "sv' = sv\<lparr>svDb := db2, svSends := svSends sv @ [(dl_key d, True, True)]\<rparr>" "returned = (m2 = None)"
      by (auto simp: deliver_one_def Let_def ex_bool_eq)
    obtain g where g: "updates (dl_key d) g db db2"
      "g = id \<and> m2 \<noteq> None \<or> (\<forall>x. dlAttempts (g x) = dlAttempts d + 1 \<and>
         (dlState (g x) = DFailed \<or> dlState (g x) = DPending \<and> dlAttempts d + 1 < MAX_ATTEMPTS \<and> now < dlNextAttemptAt (g x)))"
      using record_failure_effect [OF 2] by blast
    have "attempt_effect True True d ((g \<circ> f) d)" using f(2) g(2) by (auto simp: attempt_effect_def)
    moreover have "m2 = None \<longrightarrow> settles now (g \<circ> f)"
      using g(2) unfolding settles_def comp_def by (metis delivery_state.distinct)
    ultimately show ?thesis
      using updates_trans [OF f(1) g(1)] by (intro exI [of _ True] exI [of _ "g \<circ> f"]) (simp add: sv)
  qed
qed






definition due_all :: "int \<Rightarrow> notification_db \<Rightarrow> (delivery_row \<times> channel_row) list" where
  "due_all now db = List.map_filter (\<lambda>d.
       if dlState d = DPending \<and> dlNextAttemptAt d \<le> now \<and> list_ex (\<lambda>e. neId e = dlEventId d) (nsEvents db)
       then (case find (\<lambda>c. ncId c = dlChannelId d) (nsChannels db) of
               None \<Rightarrow> None | Some c \<Rightarrow> if ncEnabled c then Some (d, c) else None)
       else None) (nsDeliveries db)"

lemma due_deliveries_all: "due_deliveries now n db = take n (sort_key (\<lambda>(d, c). dlNextAttemptAt d) (due_all now db))"
  by (simp add: due_deliveries_def due_all_def)





section \<open>Runs of the service\<close>










text \<open>
  C32. Fan-out. A new event whose recording goes through gets exactly one delivery on each channel some
  matching rule names and on no other; it is held back exactly when the smallest throttle among those
  rules is positive and an alert with the same key was sent on that channel within it.
\<close>

theorem fan_out_exact:
  assumes "service_ok sv" and "recordEvent nd i (svDb sv) = (Some True, db')"
  shows "\<exists>new. nsDeliveries db' = nsDeliveries (svDb sv) @ new \<and> distinct (map dlChannelId new) \<and>
     dlChannelId ` set new = {ch. naming i (nsRules (svDb sv)) ch \<noteq> []} \<and>
     (\<forall>d \<in> set new. dlEventId d = ndEventId nd (riDedupeKey i) \<and>
        dlState d = (let m = Min (nrThrottleMinutes ` set (naming i (nsRules (svDb sv)) (dlChannelId d)))
           in if 0 < m \<and> recentlySent (ndNow nd) (dlChannelId d) (throttleKey i) m (svDb sv)
              then DSuppressed else DPending))"
proof -
  have fk: "\<forall>d \<in> set (nsDeliveries (svDb sv)). dlEventId d \<in> neId ` set (nsEvents (svDb sv))"
    using assms(1) by (simp add: service_ok_def tables_ok_def)
  let ?ts = "fan_targets i (nsRules (svDb sv))"
  let ?row = "queued_row (ndNow nd) (neId (event_of nd i)) (throttleKey i) (svDb sv)"
  have d: "nsDeliveries db' = nsDeliveries (svDb sv) @ map ?row ?ts"
    using assms(2) fk by (cases rule: record_cases) auto
  note mins = fan_targets_minutes [of i "nsRules (svDb sv)"]
  have chans: "fst ` set ?ts = {ch. naming i (nsRules (svDb sv)) ch \<noteq> []}"
  proof -
    have "ch \<in> fst ` set ?ts \<longleftrightarrow> minutes_of ?ts ch \<noteq> None" for ch
      by (simp add: minutes_of_def map_of_eq_None_iff)
    moreover have "minutes_of ?ts ch \<noteq> None \<longleftrightarrow> naming i (nsRules (svDb sv)) ch \<noteq> []" for ch
      unfolding mins by (cases "naming i (nsRules (svDb sv)) ch") simp_all
    ultimately show ?thesis by blast
  qed
  have state: "dlState (?row t) = (let m = Min (nrThrottleMinutes ` set (naming i (nsRules (svDb sv)) (fst t)))
      in if 0 < m \<and> recentlySent (ndNow nd) (fst t) (throttleKey i) m (svDb sv) then DSuppressed else DPending)"
    if "t \<in> set ?ts" for t
  proof -
    have "map_of ?ts (fst t) = Some (snd t)" using that by (simp add: map_of_eq_Some_iff distinct_fan_targets)
    then have "minutes_of ?ts (fst t) = Some (snd (snd t))" by (simp add: minutes_of_def)
    then have "snd (snd t) = Min (nrThrottleMinutes ` set (naming i (nsRules (svDb sv)) (fst t)))"
      unfolding mins by (cases "naming i (nsRules (svDb sv)) (fst t)") simp_all
    then show ?thesis by (simp add: queued_row_def Let_def case_prod_unfold)
  qed
  have "distinct (map dlChannelId (map ?row ?ts))" using distinct_fan_targets [of i "nsRules (svDb sv)"] by (simp add: comp_def)
  moreover have "dlChannelId ` set (map ?row ?ts) = {ch. naming i (nsRules (svDb sv)) ch \<noteq> []}"
    unfolding chans [symmetric] by (simp add: image_image)
  moreover have "neId (event_of nd i) = ndEventId nd (riDedupeKey i)" by (simp add: event_of_def)
  ultimately show ?thesis using state by (intro exI [of _ "map ?row ?ts"]) (simp add: d)
qed

section \<open>A drain leaves nothing due\<close>

definition is_due :: "int \<Rightarrow> notification_db \<Rightarrow> delivery_row \<Rightarrow> bool" where
  "is_due now db d \<longleftrightarrow> dlState d = DPending \<and> dlNextAttemptAt d \<le> now \<and> dlEventId d \<in> neId ` set (nsEvents db) \<and>
     channel_enabled db (dlChannelId d)"

lemma due_all_iff: "d \<in> fst ` set (due_all now db) \<longleftrightarrow> d \<in> set (nsDeliveries db) \<and> is_due now db d"
  by (force simp: due_all_def List.map_filter_def is_due_def channel_enabled_def list_ex_key split: if_splits option.splits)

lemma deliver_due:
  assumes "deliver_one parse net wr now (d, c) sv = (True, sv')"
    and "x \<in> set (nsDeliveries (svDb sv'))" and "is_due now (svDb sv') x"
  shows "x \<in> set (nsDeliveries (svDb sv)) \<and> is_due now (svDb sv) x \<and> dl_key x \<noteq> dl_key d"
proof -
  obtain f where e: "updates (dl_key d) f (svDb sv) (svDb sv')" "settles now f"
    using deliver_effect [OF assms(1)] by blast
  then obtain y where y: "y \<in> set (nsDeliveries (svDb sv))" "x = (if dl_key y = dl_key d then f y else y)"
    using assms(2) by (auto simp: updates_def)
  have "\<not> (dlState (f y) = DPending \<and> dlNextAttemptAt (f y) \<le> now)" using e(2) by (auto simp: settles_def not_le)
  then have "dl_key y \<noteq> dl_key d" using assms(3) y(2) by (auto simp: is_due_def)
  moreover have "nsEvents (svDb sv') = nsEvents (svDb sv)"
    "channel_enabled (svDb sv') (dlChannelId x) = channel_enabled (svDb sv) (dlChannelId x)"
    using e(1) by (simp_all add: updates_def)
  ultimately show ?thesis using y assms(3) by (simp add: is_due_def)
qed

lemma deliver_all_due:
  "deliver_all parse net wr now ds sv = (True, sv') \<Longrightarrow>
     \<forall>x \<in> set (nsDeliveries (svDb sv)). is_due now (svDb sv) x \<longrightarrow> dl_key x \<in> dl_key ` fst ` set ds \<Longrightarrow>
     \<forall>x \<in> set (nsDeliveries (svDb sv')). \<not> is_due now (svDb sv') x"
proof (induction ds arbitrary: sv)
  case (Cons dc ds)
  obtain d c where dc: "dc = (d, c)" by fastforce
  obtain sv1 where run: "deliver_one parse net wr now (d, c) sv = (True, sv1)" "deliver_all parse net wr now ds sv1 = (True, sv')"
    using Cons.prems(1) by (auto simp: dc split: prod.splits bool.splits)
  have "\<forall>x \<in> set (nsDeliveries (svDb sv1)). is_due now (svDb sv1) x \<longrightarrow> dl_key x \<in> dl_key ` fst ` set ds"
  proof (intro ballI impI)
    fix x assume "x \<in> set (nsDeliveries (svDb sv1))" and "is_due now (svDb sv1) x"
    from deliver_due [OF run(1) this] Cons.prems(2) show "dl_key x \<in> dl_key ` fst ` set ds" by (auto simp: dc)
  qed
  from Cons.IH [OF run(2) this] show ?case .
qed simp

text \<open>
  A drain settles what is due. When no more deliveries are due than a drain takes, and it is not
  interrupted by the database, then after it each of them has been sent, has been given up, or waits for
  a later time: none is due any more, whatever the network answered.
\<close>

theorem drain_settles:
  assumes "length (due_all now (svDb sv)) \<le> n" and "drain parse net wr now n sv = (True, sv')"
  shows "due_all now (svDb sv') = []"
proof -
  have ds: "due_deliveries now n (svDb sv) = sort_key (\<lambda>(d, c). dlNextAttemptAt d) (due_all now (svDb sv))"
    using assms(1) by (simp add: due_deliveries_all)
  have "\<forall>x \<in> set (nsDeliveries (svDb sv)). is_due now (svDb sv) x \<longrightarrow>
      dl_key x \<in> dl_key ` fst ` set (due_deliveries now n (svDb sv))"
  proof (intro ballI impI)
    fix x assume "x \<in> set (nsDeliveries (svDb sv))" and "is_due now (svDb sv) x"
    then have "x \<in> fst ` set (due_all now (svDb sv))" by (simp only: due_all_iff)
    then show "dl_key x \<in> dl_key ` fst ` set (due_deliveries now n (svDb sv))" unfolding ds set_sort by (rule imageI)
  qed
  note settled = deliver_all_due [OF assms(2) [unfolded drain_def] this]
  have "x \<notin> fst ` set (due_all now (svDb sv'))" for x
    using settled due_all_iff [of x now "svDb sv'"] by blast
  then show ?thesis by (metis image_is_empty set_empty2 ex_in_conv)
qed

section \<open>Replays raise nothing\<close>

definition event_keys :: "notification_db \<Rightarrow> string set" where
  "event_keys db = neDedupeKey ` set (nsEvents db)"

lemma queue_all_events: "queue_all now eid key ts db = (ok, db') \<Longrightarrow> nsEvents db' = nsEvents db"
  by (induction ts arbitrary: db) (auto simp: queue_delivery_def Let_def split: option.splits prod.splits if_splits)

lemma record_keys:
  assumes "recordEvent nd i db = (Some r, db')"
  shows "event_keys db' = insert (riDedupeKey i) (event_keys db)"
  using assms
  by (auto simp: recordEvent_def Let_def event_keys_def event_of_def list_ex_key dest!: queue_all_events
      split: if_splits prod.splits)

lemma record_known: "riDedupeKey i \<in> event_keys db \<Longrightarrow> recordEvent nd i db = (Some False, db)"
  by (simp add: recordEvent_def event_keys_def list_ex_key)

lemma record_events_keys:
  "record_events nd is db = ((True, n), db') \<Longrightarrow> event_keys db' = riDedupeKey ` set is \<union> event_keys db"
proof (induction "is" arbitrary: db n)
  case (Cons i "is")
  obtain r db1 where 1: "recordEvent nd i db = (Some r, db1)"
    using Cons.prems by (auto split: prod.splits option.splits)
  then obtain m where "record_events nd is db1 = ((True, m), db')"
    using Cons.prems by (auto split: prod.splits)
  from Cons.IH [OF this] record_keys [OF 1] show ?case by auto
qed simp

lemma record_events_known: "riDedupeKey ` set is \<subseteq> event_keys db \<Longrightarrow> record_events nd is db = ((True, 0), db)"
  by (induction "is") (simp_all add: record_known)

text \<open>
  Replayed runs are silent. Once a batch of runs has been turned into events, presenting the same
  runs again, at any later time and with any new ids, changes nothing: no event, no delivery.
\<close>

theorem replayed_runs_silent:
  assumes "onRunsIngested nd db i runs ndb = (True, ndb')"
  shows "onRunsIngested nd' db i runs ndb' = (True, ndb')"
proof -
  let ?is = "concat (map (events_of_run db i) (filter (\<lambda>r. hRunStatus r = RunFailed \<or> hRunStatus r = RunSucceeded) runs))"
  obtain n where "record_events nd ?is ndb = ((True, n), ndb')"
    using assms by (auto simp: onRunsIngested_def Let_def split: prod.splits)
  from record_events_keys [OF this] have "record_events nd' ?is ndb' = ((True, 0), ndb')"
    by (intro record_events_known) blast
  then show ?thesis by (simp add: onRunsIngested_def Let_def)
qed

section \<open>What the pipeline leaves open\<close>

text \<open>
  A rule that still names a deleted channel stops the fan-out there, after the event was recorded: the
  targets behind it get no delivery, and recording the event again does not help.
\<close>

lemma deleted_channel_stops_fan_out:
  assumes "fan_targets i (nsRules db) = (gone, t) # ts" and "gone \<notin> ncId ` set (nsChannels db)"
    and "riDedupeKey i \<notin> event_keys db" and "ndEventId nd (riDedupeKey i) \<notin> neId ` set (nsEvents db)"
  shows "\<exists>db'. recordEvent nd i db = (None, db') \<and> nsDeliveries db' = nsDeliveries db \<and>
     recordEvent nd' i db' = (Some False, db')"
proof -
  let ?db' = "db\<lparr>nsEvents := nsEvents db @ [event_of nd i]\<rparr>"
  have "\<not> list_ex (\<lambda>e. neDedupeKey e = riDedupeKey i) (nsEvents db)" "\<not> list_ex (\<lambda>x. neId x = neId (event_of nd i)) (nsEvents db)"
    using assms(3,4) by (simp_all add: event_keys_def list_ex_key event_of_def)
  then have "recordEvent nd i db = (None, ?db')"
    using assms(1,2) by (simp add: recordEvent_def Let_def queue_delivery_def list_ex_key case_prod_unfold)
  moreover have "recordEvent nd' i ?db' = (Some False, ?db')"
    by (rule record_known) (simp add: event_keys_def event_of_def)
  ultimately show ?thesis by auto
qed

text \<open>
  A message that was sent is sent again when the database fails on the update that marks it: the
  \<open>catch\<close> block puts the delivery back in the queue.
\<close>

lemma unrecorded_send_repeated:
  assumes "sendNotification parse (net (dl_key d)) c = Inr ()" and "d \<in> set (nsDeliveries (svDb sv))"
    and "wr (dl_key d) MarkSent = NotStored m" and "wr (dl_key d) MarkAttempt = Stored"
    and "dlAttempts d + 1 < MAX_ATTEMPTS"
  shows "let sv' = snd (deliver_one parse net wr now (d, c) sv)
    in svSends sv' = svSends sv @ [(dl_key d, True, True)] \<and>
       (\<exists>x \<in> set (nsDeliveries (svDb sv')). dl_key x = dl_key d \<and> dlState x = DPending)"
proof -
  obtain t db where 1: "record_failure (wr (dl_key d)) now d c m True (svDb sv) = (t, db)" by fastforce
  let ?f = "\<lambda>x. x\<lparr>dlState := DPending, dlAttempts := dlAttempts d + 1, dlLastError := Some m,
     dlNextAttemptAt := now + retry_delay (dlAttempts d + 1)\<rparr>"
  have "nsDeliveries db = map (\<lambda>x. if dl_key x = dl_key d then ?f x else x) (nsDeliveries (svDb sv))"
    using 1 assms(4,5)
    by (cases "wr (dl_key d) ChannelFailed") (auto simp: record_failure_def Let_def)
  then have "?f d \<in> set (nsDeliveries db)" using assms(2) by (auto simp: image_iff)
  moreover have "snd (deliver_one parse net wr now (d, c) sv) = sv\<lparr>svDb := db, svSends := svSends sv @ [(dl_key d, True, True)]\<rparr>"
    using assms(1,3) 1 by (simp add: deliver_one_def record_sent_def Let_def ex_bool_eq)
  ultimately show ?thesis by (auto simp: Let_def intro!: bexI [of _ "?f d"])
qed

text \<open>Alerts queued while a channel is down are not counted by the throttle, which looks at sent ones only.\<close>

lemma backlog_not_throttled:
  assumes "list_all (\<lambda>d. dlChannelId d = ch \<longrightarrow> dlState d \<noteq> DSent) (nsDeliveries db)"
  shows "\<not> recentlySent now ch key m db"
  using assms by (auto simp: recentlySent_def list_ex_iff list_all_iff)

text \<open>
  A worker whose row still says connected is never reported offline, however long ago it was seen: the
  row is cleared only by the teardown of its session, which a control plane that went down never ran.
\<close>

lemma stale_connection_never_offline:
  assumes "wsConnectedAt w = Some t"
  shows "(w, seen) \<notin> set (offline_workers hb online now db)"
  using assms by (auto simp: offline_workers_def List.map_filter_def split: option.splits if_splits)

text \<open>A failed command that names no job raises no alert.\<close>

lemma jobless_failure_unreported: "onCommandFailed nd db cid kind i None code text who ndb = (None, ndb)"
  by (simp add: onCommandFailed_def)

section \<open>A small installation\<close>

definition sample_channel :: channel_row where
  "sample_channel = (new_channel ''c1'' None)\<lparr>ncName := ''alerts'', ncKind := Slack, ncSecret := Some ''https://hooks/x''\<rparr>"

definition sample_rule :: "string \<Rightarrow> int \<Rightarrow> rule_row" where
  "sample_rule i m = \<lparr> nrId = i, nrName = i, nrEnabled = True, nrEvents = [JobFailed], nrInstanceIds = [],
     nrJobNameContains = None, nrChannelIds = [''c1''], nrThrottleMinutes = m, nrCreatedBy = None \<rparr>"

definition sample_event :: record_input where
  "sample_event = \<lparr> riKind = JobFailed, riDedupeKey = ''k'', riInstanceId = Some ''i'', riWorkerId = None,
     riJobUuid = Some ''u'', riPayload = [(''jobName'', PStr ''Backup'')], riOccurredAt = 5 \<rparr>"

definition sample_draws :: note_draws where
  "sample_draws = \<lparr> ndNow = 10, ndEventId = (\<lambda>k. ''e'' @ k) \<rparr>"

definition sample_service :: service_state where
  "sample_service = \<lparr> svDb = \<lparr> nsChannels = [sample_channel], nsRules = [sample_rule ''r1'' 60, sample_rule ''r2'' 0],
     nsEvents = [], nsDeliveries = [] \<rparr>, svSends = [] \<rparr>"

definition sample_parse :: url_parser where
  "sample_parse s = Some \<lparr> urlProtocol = ''https:'', urlHostname = ''hooks'', urlHost = ''hooks'', urlPathname = ''/x'' \<rparr>"

definition failing_network :: network where
  "failing_network = \<lparr> nwHttp = (\<lambda>u. Reply 503 ''Unavailable''), nwSmtp = (\<lambda>c. Accepted) \<rparr>"

definition sample_after :: service_state where
  "sample_after = sample_service\<lparr>svDb := snd (recordEvent sample_draws sample_event (svDb sample_service))\<rparr>"

lemma sample_service_ok: "service_ok sample_service"
  by (simp add: sample_service_def service_ok_def tables_ok_def sends_ok_def attempts_of_def successes_of_def)

lemma sample_recorded: "fst (recordEvent sample_draws sample_event (svDb sample_service)) = Some True"
  by code_simp

theorem fan_out_exact_witness:
  "map (\<lambda>d. (dlEventId d, dlChannelId d)) (nsDeliveries (svDb sample_after)) = [(''ek'', ''c1'')] \<and>
   dlChannelId ` set (nsDeliveries (svDb sample_after)) = {ch. naming sample_event (nsRules (svDb sample_service)) ch \<noteq> []}"
proof -
  have r: "recordEvent sample_draws sample_event (svDb sample_service) = (Some True, svDb sample_after)"
    using sample_recorded by (simp add: sample_after_def prod_eq_iff)
  have "nsDeliveries (svDb sample_service) = []" by (simp add: sample_service_def)
  with fan_out_exact [OF sample_service_ok r]
  have "dlChannelId ` set (nsDeliveries (svDb sample_after)) = {ch. naming sample_event (nsRules (svDb sample_service)) ch \<noteq> []}"
    by auto
  moreover have "map (\<lambda>d. (dlEventId d, dlChannelId d)) (nsDeliveries (svDb sample_after)) = [(''ek'', ''c1'')]" by code_simp
  ultimately show ?thesis by blast
qed

definition stored_all :: db_results where
  "stored_all k u = Stored"

lemma stored_all_deliver: "fst (deliver_one parse net stored_all now dc sv)"
proof -
  obtain d c where dc: "dc = (d, c)" by fastforce
  have f: "\<exists>db2. record_failure (stored_all (dl_key d)) now d c m r db = (None, db2)" for m r db
    by (simp add: record_failure_def stored_all_def Let_def)
  show ?thesis
  proof (cases "sendNotification parse (net (dl_key d)) c")
    case (Inl e)
    obtain db2 where "record_failure (stored_all (dl_key d)) now d c (send_text e) (send_retryable e) (svDb sv) = (None, db2)"
      using f by blast
    with Inl show ?thesis by (simp add: dc deliver_one_def Let_def)
  next
    case (Inr u)
    then show ?thesis by (simp add: dc deliver_one_def Let_def record_sent_def) (simp add: stored_all_def)
  qed
qed

lemma stored_all_returns: "fst (deliver_all parse net stored_all now ds sv)"
proof (induction ds arbitrary: sv)
  case (Cons dc ds)
  obtain sv1 where "deliver_one parse net stored_all now dc sv = (True, sv1)"
    using stored_all_deliver [of parse net now dc sv] by (cases "deliver_one parse net stored_all now dc sv") auto
  with Cons show ?case by simp
qed simp

theorem drain_settles_witness:
  "due_all 10 (svDb sample_after) \<noteq> [] \<and>
   (\<exists>sv. drain sample_parse (\<lambda>k. failing_network) stored_all 10 50 sample_after = (True, sv) \<and> due_all 10 (svDb sv) = [])"
proof -
  let ?r = "drain sample_parse (\<lambda>k. failing_network) stored_all 10 50 sample_after"
  have n: "length (due_all 10 (svDb sample_after)) = 1" by code_simp
  obtain sv where "?r = (True, sv)"
    using stored_all_returns [of sample_parse "\<lambda>k. failing_network" 10] by (metis drain_def prod.collapse)
  with n drain_settles [OF _ this] show ?thesis by auto
qed

definition sample_estate :: estate_db where
  "sample_estate = \<lparr> edIngest = example_ingest\<lparr>
       jobsT := \<lparr> jobRows = [(new_job (example_observation ''h'' Local))\<lparr>jName := ''Backup''\<rparr>], versionRows = [] \<rparr>,
       historyT := fst (insert_new (List.map_filter (history_value ''i'') [example_run 1]) []),
       workerT := [\<lparr> wsId = ''w'', wsHostName = ''sql01'', wsCapabilities = [], wsVersion = None, wsMaxCapability = None,
         wsConnectedAt = None, wsLastSeenAt = None, wsLastRemoteAddress = None \<rparr>],
       instanceT := [\<lparr> isId = ''i'', isWorkerId = ''w'', isName = ''db1'', isServerName = None, isSqlVersion = None,
         isSqlEdition = None, isAgentStatus = ''running'', isJobWriteMode = None, isLastSeenAt = 0 \<rparr>]\<rparr>,
     edConfigs = \<lparr> keyedWorkers = [], configRows = [], mirrored = [] \<rparr> \<rparr>"

definition sample_raised :: "bool \<times> notification_db" where
  "sample_raised = onRunsIngested sample_draws sample_estate ''i'' (historyT (edIngest sample_estate)) (svDb sample_service)"

theorem replayed_runs_silent_witness:
  "length (nsDeliveries (snd sample_raised)) = 1 \<and>
   onRunsIngested (sample_draws\<lparr>ndNow := 99\<rparr>) sample_estate ''i'' (historyT (edIngest sample_estate)) (snd sample_raised) =
     (True, snd sample_raised)"
proof -
  have one: "fst sample_raised \<and> length (nsDeliveries (snd sample_raised)) = 1" by code_simp
  then have "onRunsIngested sample_draws sample_estate ''i'' (historyT (edIngest sample_estate)) (svDb sample_service) =
      (True, snd sample_raised)" by (simp add: sample_raised_def prod_eq_iff)
  from replayed_runs_silent [OF this] one show ?thesis by blast
qed

end
