(* ===== verification/Spec2Isabelle.thy ===== *)
theory Spec2Isabelle
  imports Schedule JobSwitch CanonicalLaws CommandHandler AgentWriter PipelineRuns Access Diff
    Ingest Scrubbing WorkerIdentity Monitoring MonitorSet WorkerConfig WorkerSession CertRenewal HubSession
    HubSessionLaws Overview NotificationChannels Notifications NotificationLaws
begin

text \<open>
  A model of Remote SQL Agent: a control plane that mirrors SQL Server Agent jobs from many
  servers and edits them, and a worker on each server's side that dials out to it. The worker
  streams what it observes (definitions, history, activity, the Agent error log) and applies the
  commands it is sent; the control plane stores versions, decides who may change what, has changes
  approved by a second person, signs them and sends them down the worker's session. All paths below
  are under \<open>packages/\<close>; a definition has the name of the function, method or type it models.

  \<^bold>\<open>The shared protocol\<close> (\<open>protocol/src\<close>).
  \<^item> Schedule: \<open>schedule.ts\<close>, the sp_add_schedule encoding and the humane view of it.
  \<^item> JobDefinition: \<open>job-definition.ts\<close>, the records and the refinements of their schemas.
  \<^item> JobFlow: \<open>job-flow.ts\<close>, which steps a job can arrive at.
  \<^item> JobEdit, JobEditLaws, JobSwitch: \<open>job-edit.ts\<close>, structural edits of the step list, and
    switching a step off and on.
  \<^item> PrefixCode, Canonical, CanonicalLaws: \<open>canonical.ts\<close>, the text whose hash decides whether a
    job changed.
  \<^item> Capabilities: \<open>capabilities.ts\<close>, \<open>roles.ts\<close>, \<open>job-write.ts\<close>.
  \<^item> Signing: \<open>signing.ts\<close>, \<open>timestamp.ts\<close>, what a command's signature binds.

  \<^bold>\<open>The worker\<close> (\<open>worker/src\<close>).
  \<^item> DrainSource, Outbox: \<open>drain-outbox.ts\<close>, \<open>outbox.ts\<close>, the bounded queue for the time offline.
  \<^item> CommandHandler: \<open>command-handler.ts\<close>, the gates and the application of a command.
  \<^item> AgentWriter: \<open>sql/agent-writer.ts\<close>, the stored procedure calls each application makes.
  \<^item> Monitoring: \<open>instance-monitor.ts\<close>, \<open>pending-attribution.ts\<close>, the incremental reads of
    \<open>sql/agent-repo.ts\<close> and \<open>emit\<close> of \<open>index.ts\<close>: what one monitored instance streams up.
  \<^item> MonitorSet: \<open>monitor-set.ts\<close>, which instances are monitored, from worker.yaml and from the
    dashboard; with \<open>decryptCredential\<close>, \<open>instanceConfigSchema\<close> and \<open>resolveIntervals\<close>.
  \<^item> WorkerSession: \<open>session.ts\<close>, \<open>backoff.ts\<close>, the session as a transition system over the calls,
    stream events and timers in any order, and the outbox drained over it.
  \<^item> CertRenewal: \<open>cert-renewal.ts\<close>, the timers of a renewal, the reply and the pair on disk.

  \<^bold>\<open>The control plane\<close> (\<open>server/src\<close>).
  \<^item> Registry: \<open>hub/registry.ts\<close>, \<open>hub/version-gate.ts\<close>, the live sessions.
  \<^item> HubSession, HubSessionLaws: \<open>hub/hub.ts\<close>, a worker's session from authentication to teardown
    and the enrolment call. It composes the components of this list.
  \<^item> WorkerIdentity: \<open>worker-auth/enrolment.ts\<close>, \<open>authenticate.ts\<close>, \<open>renewal.ts\<close>, \<open>posture.ts\<close>.
  \<^item> WorkerConfig: \<open>domain/worker-config.ts\<close>, what each worker is to monitor and its sealed logins.
  \<^item> AuditTrail: \<open>domain/audit.ts\<close>, \<open>domain/audit-export.ts\<close>.
  \<^item> CommandPipeline, CommandPipelineLaws, PipelineRuns: \<open>domain/commands.ts\<close>.
  \<^item> Access: \<open>auth/environments.ts\<close>, \<open>auth/grants-store.ts\<close>, \<open>auth/sessions.ts\<close>, \<open>auth/rbac.ts\<close>.
  \<^item> Versioning, Diff: \<open>domain/versioning.ts\<close>, \<open>domain/diff.ts\<close>.
  \<^item> Ingest: \<open>domain/ingest.ts\<close>. Scrubbing: \<open>domain/log-scrubbing.ts\<close>, \<open>domain/history-scrubbing.ts\<close>
    and their schemas, which every batch passes before it is stored.
  \<^item> Overview: \<open>domain/overview.ts\<close>, running jobs, failures, the estate list and its groups.
  \<^item> NotificationChannels, Notifications, NotificationLaws: \<open>domain/notifications/store.ts\<close>,
    \<open>senders.ts\<close>, \<open>service.ts\<close>.

  \<^bold>\<open>How the parts meet.\<close> A worker message is a value of \<open>worker_message\<close>: Monitoring and
  CommandHandler produce them, Outbox keeps those that could not be sent, and \<open>handle_message\<close> of
  HubSession consumes them, calling Ingest, Versioning, Scrubbing, WorkerConfig, WorkerIdentity,
  CommandPipeline and Registry. A snapshot cut into chunks by \<open>snapshot_chunks\<close> on the worker is put
  together again by \<open>handleSnapshotChunk\<close> (\<open>snapshot_mirrors\<close>); a configuration saved by
  \<open>upsertInstanceConfig\<close> is opened by \<open>toInstanceConfig\<close> on the worker (\<open>credential_reaches_worker\<close>) and
  what the worker then reports is what the dashboard shows (\<open>dashboard_shows_the_worker\<close>). A table
  several components share is modelled in each by the columns it uses; \<open>mirror_tables\<close> carries writes
  across. On the worker the session's \<open>send\<close> is what \<open>drainOutbox\<close> hands its rows to
  (\<open>drain_over_session\<close>), a greeting is cut to the ceiling by \<open>effectiveCapabilities\<close>, and a renewed
  certificate ends in a call of \<open>reconnect\<close>.

  \<^bold>\<open>What the lemmas show.\<close> Per component: an invariant of its state and that every operation keeps
  it (over runs of the operations where the component is stateful), the behaviour of each operation on
  its branches, and what the component promises to its callers. Interfaces are locales, each
  interpreted on the model: \<open>prefix_code\<close> and \<open>terminated_code\<close> (texts read back unambiguously, for
  canonical JSON and the signing string), \<open>drain_queue\<close> (the source a batched drain empties),
  \<open>first_write_wins\<close> and \<open>forward_mark\<close> (the outcome record and the bookmarks on both ends),
  \<open>append_only_log\<close> (the audit table) and \<open>checked_config\<close> (a configuration that is validated before
  it is stored, for both scrubbers). Lemmas that end a theory under a heading about what is left open
  are behaviours of the code that its comments do not expect.

  \<^bold>\<open>Loops.\<close> Every loop is a structural or measured recursion, so it returns; the drain of the
  outbox, whose source is an argument, is a partial function of which \<open>drainOutbox_delivers\<close> shows that
  it returns a value on every well-formed outbox. No fuel is used. Bounds of the code (batch and chunk sizes,
  attempts, caps, windows) are constants with the code's values.

  \<^bold>\<open>Parameters.\<close> SHA-256, RSA, argon2, the certificate authority and Entra's validation, \<open>JSON.parse\<close>
  followed by a schema, the regular expression engine, \<open>new URL\<close>, the network, SQL Server, collations,
  drawn ids and the clock. What AgentWriter relies on of msdb's procedures and of transactions is stated as
  hypotheses that a concrete server satisfies. A handler is one atomic step except where the code's own interleaving
  matters: CommandPipelineLaws splits the handlers of \<open>commands.ts\<close> between their reads and writes.

  \<^bold>\<open>Not modelled.\<close> The HTTP routes of \<open>api/app.ts\<close> (parsing and reply shaping around the modelled
  operations), \<open>domain/queries.ts\<close> and \<open>stats.ts\<close> (read-only projections), the wording of messages
  (\<open>render.ts\<close>), sign-in, \<open>ca.ts\<close> and the Entra clients (libraries), process wiring, logging and
  tracing, the gRPC library, enrolment on the worker's side, key files and SQLite binding, the
  generated protobuf code and the dashboard.
\<close>

end
